(* ===== verification/Prelude.thy ===== *)
theory Prelude
  imports Main "HOL-Library.Char_ord" "HOL-Library.List_Lexorder" "HOL-Library.Product_Lexorder"
begin

text \<open>
  Shared ground of the development: the errors the Python code raises, the string functions of
  Python it uses, Python's \<open>int()\<close>, sorted duplicate-free tuples, insertion-ordered dicts,
  and the generic lemmas the component theories share.

  A Python string is a \<open>string\<close> whose characters are the code points below 256; on these
  \<open>strip\<close>, \<open>lower\<close> and the comparison of strings below are those of Python (the ordering of
  \<open>List_Lexorder\<close> on \<open>Char_ord\<close> is the lexicographic order on code points).
\<close>

section \<open>Errors as values\<close>

datatype py_error =
    ValueError string
  | RuntimeError string
  | KeyError string
  | ConflictError string
  | IntegrityError string
  | TypeError string
  | LookupError string
  | PlannerLimitConfigError string
  | RateLimitConfigError string
  | SecretVaultError string
  | OverflowError string
  | HTTPException nat string
  | AppError string string

text \<open>\<open>AppError cls message\<close> is an exception class of a single module, by its name.\<close>

type_synonym 'a result = "py_error + 'a"

definition rbind :: "'a result \<Rightarrow> ('a \<Rightarrow> 'b result) \<Rightarrow> 'b result" where
  "rbind m f = (case m of Inl e \<Rightarrow> Inl e | Inr x \<Rightarrow> f x)"

lemma rbind_simps [simp]:
  "rbind (Inl e) f = Inl e"
  "rbind (Inr x) f = f x"
  by (simp_all add: rbind_def)

lemma rbind_Inr_iff: "rbind m f = Inr y \<longleftrightarrow> (\<exists>x. m = Inr x \<and> f x = Inr y)"
  by (cases m) auto

lemma rbind_InrE [elim!]:
  assumes "rbind m f = Inr y"
  obtains x where "m = Inr x" and "f x = Inr y"
  using assms by (auto simp: rbind_Inr_iff)

text \<open>Evaluating a list of fallible expressions left to right, stopping at the first error.\<close>

fun rmap :: "('a \<Rightarrow> 'b result) \<Rightarrow> 'a list \<Rightarrow> 'b list result" where
  "rmap f [] = Inr []"
| "rmap f (x # xs) = rbind (f x) (\<lambda>y. rbind (rmap f xs) (\<lambda>ys. Inr (y # ys)))"

lemma rmap_Inr_iff: "rmap f xs = Inr ys \<longleftrightarrow> list_all2 (\<lambda>x y. f x = Inr y) xs ys"
  by (induction xs arbitrary: ys) (auto simp: rbind_Inr_iff list_all2_Cons1)

section \<open>Python strings\<close>

text \<open>\<open>str.isspace\<close> and \<open>str.lower\<close> on code points below 256.\<close>

definition py_isspace :: "char \<Rightarrow> bool" where
  "py_isspace c = (let n = (of_char c :: nat) in
     (9 \<le> n \<and> n \<le> 13) \<or> (28 \<le> n \<and> n \<le> 32) \<or> n = 133 \<or> n = 160)"

definition py_lower_char :: "char \<Rightarrow> char" where
  "py_lower_char c = (let n = (of_char c :: nat) in
     if (65 \<le> n \<and> n \<le> 90) \<or> (192 \<le> n \<and> n \<le> 222 \<and> n \<noteq> 215) then char_of (n + 32) else c)"

definition py_lower :: "string \<Rightarrow> string" where
  "py_lower s = map py_lower_char s"

definition lstrip_by :: "('a \<Rightarrow> bool) \<Rightarrow> 'a list \<Rightarrow> 'a list" where
  "lstrip_by p s = dropWhile p s"

definition rstrip_by :: "('a \<Rightarrow> bool) \<Rightarrow> 'a list \<Rightarrow> 'a list" where
  "rstrip_by p s = rev (dropWhile p (rev s))"

definition py_strip :: "string \<Rightarrow> string" where
  "py_strip s = rstrip_by py_isspace (lstrip_by py_isspace s)"

text \<open>\<open>s[-n:]\<close> and \<open>s[:n]\<close> for a non-negative \<open>n > 0\<close>.\<close>

definition py_last :: "nat \<Rightarrow> 'a list \<Rightarrow> 'a list" where
  "py_last n s = drop (length s - n) s"

definition py_startswith :: "'a list \<Rightarrow> 'a list \<Rightarrow> bool" where
  "py_startswith s p = (take (length p) s = p)"

text \<open>\<open>s.split(c)\<close> for a one-character separator: always at least one part.\<close>

fun py_split :: "'a \<Rightarrow> 'a list \<Rightarrow> 'a list list" where
  "py_split c [] = [[]]"
| "py_split c (x # xs) =
     (if x = c then [] # py_split c xs
      else (case py_split c xs of [] \<Rightarrow> [[x]] | p # ps \<Rightarrow> (x # p) # ps))"

fun py_join :: "'a list \<Rightarrow> 'a list list \<Rightarrow> 'a list" where
  "py_join sep [] = []"
| "py_join sep [p] = p"
| "py_join sep (p # ps) = p @ sep @ py_join sep ps"

text \<open>\<open>len(s.encode("utf-8"))\<close>: one byte below code point 128, two from 128 to 255.\<close>

definition utf8_len :: "string \<Rightarrow> nat" where
  "utf8_len s = sum_list (map (\<lambda>c. if (of_char c :: nat) < 128 then 1 else 2) s)"

text \<open>\<open>value or default\<close> where an empty string counts as false.\<close>

definition or_none :: "string \<Rightarrow> string option" where
  "or_none s = (if s = [] then None else Some s)"

definition truthy :: "string option \<Rightarrow> bool" where
  "truthy v = (case v of None \<Rightarrow> False | Some s \<Rightarrow> s \<noteq> [])"

lemma dropWhile_idem [simp]: "dropWhile p (dropWhile p xs) = dropWhile p xs"
  by (induction xs) auto

lemma rstrip_by_idem [simp]: "rstrip_by p (rstrip_by p xs) = rstrip_by p xs"
  by (simp add: rstrip_by_def)

lemma dropWhile_eq_self_iff: "dropWhile p xs = xs \<longleftrightarrow> xs = [] \<or> \<not> p (hd xs)"
  by (cases xs) (auto dest: arg_cong [where f = length]
      simp: le_imp_less_Suc length_dropWhile_le order.strict_implies_not_eq)

lemma hd_rstrip_by: "rstrip_by p xs \<noteq> [] \<Longrightarrow> hd (rstrip_by p xs) = hd xs"
proof -
  assume ne: "rstrip_by p xs \<noteq> []"
  have "xs = rstrip_by p xs @ rev (takeWhile p (rev xs))"
    by (metis rev_append rev_rev_ident rstrip_by_def takeWhile_dropWhile_id)
  with ne show ?thesis by (metis hd_append2)
qed

lemma py_strip_idem [simp]: "py_strip (py_strip s) = py_strip s"
proof -
  let ?t = "py_strip s"
  have "dropWhile py_isspace ?t = ?t"
  proof (cases "?t = []")
    case False
    then have "hd ?t = hd (dropWhile py_isspace s)"
      by (simp add: py_strip_def lstrip_by_def hd_rstrip_by)
    moreover have "dropWhile py_isspace s \<noteq> []"
      using False by (simp only: py_strip_def lstrip_by_def rstrip_by_def) (metis dropWhile.simps(1) rev.simps(1))
    ultimately show ?thesis
      using False by (metis dropWhile_eq_self_iff hd_dropWhile)
  qed simp
  then show ?thesis
    by (simp add: py_strip_def [of ?t] lstrip_by_def) (simp add: py_strip_def)
qed

lemma set_rstrip_by: "set (rstrip_by p xs) \<subseteq> set xs"
  by (auto simp: rstrip_by_def dest: set_dropWhileD)

lemma set_py_strip: "set (py_strip s) \<subseteq> set s"
  unfolding py_strip_def lstrip_by_def
  by (rule order_trans [OF set_rstrip_by]) (blast dest: set_dropWhileD)

lemma length_py_strip: "length (py_strip s) \<le> length s"
  by (simp add: py_strip_def rstrip_by_def lstrip_by_def)
    (metis length_dropWhile_le length_rev order_trans)

lemma py_strip_id: "(\<And>c. c \<in> set s \<Longrightarrow> \<not> py_isspace c) \<Longrightarrow> py_strip s = s"
proof -
  assume a: "\<And>c. c \<in> set s \<Longrightarrow> \<not> py_isspace c"
  have "dropWhile py_isspace s = s"
    using a by (cases s) auto
  moreover have "dropWhile py_isspace (rev s) = rev s"
    using a by (cases "rev s") (simp_all add: rev_eq_Cons_iff)
  ultimately show ?thesis
    by (simp add: py_strip_def lstrip_by_def rstrip_by_def)
qed

lemma length_py_last [simp]: "length (py_last n s) = min n (length s)"
  by (simp add: py_last_def)

lemma py_last_short: "length s \<le> n \<Longrightarrow> py_last n s = s"
  by (simp add: py_last_def)

lemma py_split_ne [simp]: "py_split c s \<noteq> []"
  by (induction s) (auto split: list.splits)

lemma py_split_no_sep: "p \<in> set (py_split c s) \<Longrightarrow> c \<notin> set p"
  by (induction s arbitrary: p) (auto split: list.splits if_splits)

lemma py_join_split: "py_join [c] (py_split c s) = s"
proof (induction s)
  case (Cons x xs)
  obtain p ps where ps: "py_split c xs = p # ps"
    by (cases "py_split c xs") auto
  with Cons show ?case
    by (cases ps) (auto split: if_splits)
qed simp

lemma py_split_id: "c \<notin> set s \<Longrightarrow> py_split c s = [s]"
  by (induction s) auto

lemma py_split_append: "c \<notin> set p \<Longrightarrow> py_split c (p @ c # s) = p # py_split c s"
  by (induction p) auto

lemma py_split_join:
  "ps \<noteq> [] \<Longrightarrow> \<forall>p \<in> set ps. c \<notin> set p \<Longrightarrow> py_split c (py_join [c] ps) = ps"
  by (induction "[c]" ps rule: py_join.induct) (auto simp: py_split_id py_split_append)

section \<open>Python integers\<close>

text \<open>
  \<open>int(s)\<close> for a string: surrounding white space, an optional sign, decimal digits with single
  underscores between them, at most 4300 digits; \<open>None\<close> is the \<open>ValueError\<close>. White space is
  ASCII white space for an ASCII string (which CPython passes on unchanged) and \<open>str.isspace\<close>
  otherwise.
\<close>

definition is_digit :: "char \<Rightarrow> bool" where
  "is_digit c = (let n = (of_char c :: nat) in 48 \<le> n \<and> n \<le> 57)"

definition digit_val :: "char \<Rightarrow> int" where
  "digit_val c = int (of_char c) - 48"

definition int_space :: "string \<Rightarrow> char \<Rightarrow> bool" where
  "int_space s c = (let n = (of_char c :: nat) in
     if (\<forall>d \<in> set s. (of_char d :: nat) < 128)
     then (9 \<le> n \<and> n \<le> 13) \<or> n = 32 else py_isspace c)"

fun digits_value :: "int \<Rightarrow> string \<Rightarrow> int option" where
  "digits_value acc [] = Some acc"
| "digits_value acc (c # cs) =
     (if is_digit c then digits_value (10 * acc + digit_val c) cs
      else if c = CHR ''_'' then
        (case cs of [] \<Rightarrow> None
         | d # _ \<Rightarrow> if is_digit d then digits_value acc cs else None)
      else None)"

definition unsigned_value :: "string \<Rightarrow> int option" where
  "unsigned_value s =
     (case s of [] \<Rightarrow> None
      | c # _ \<Rightarrow> if is_digit c \<and> length (filter is_digit s) \<le> 4300
                then digits_value 0 s else None)"

definition py_int :: "string \<Rightarrow> int option" where
  "py_int s =
     (let t = rstrip_by (int_space s) (lstrip_by (int_space s) s) in
      case t of [] \<Rightarrow> None
      | c # cs \<Rightarrow> if c = CHR ''-'' then map_option uminus (unsigned_value cs)
                 else if c = CHR ''+'' then unsigned_value cs
                 else unsigned_value t)"

text \<open>
  The pattern shared by the environment readers: \<open>os.getenv(name)\<close> (an \<open>option\<close>), a default,
  \<open>int()\<close>, a range check. \<open>bounded_env\<close> is the reader whose default is itself text, as in
  \<open>os.getenv(name, "30")\<close>; the messages are those the code raises.
\<close>

type_synonym environ = "string \<Rightarrow> string option"

definition bounded_env :: "string \<Rightarrow> string \<Rightarrow> int \<Rightarrow> int \<Rightarrow> string \<Rightarrow> string option \<Rightarrow> int result" where
  "bounded_env dflt not_int lo hi range_msg env =
     (let raw = (case env of None \<Rightarrow> dflt | Some r \<Rightarrow> r) in
      case py_int raw of None \<Rightarrow> Inl (ValueError not_int)
      | Some v \<Rightarrow> if lo \<le> v \<and> v \<le> hi then Inr v else Inl (ValueError range_msg))"

lemma bounded_env_range: "bounded_env d m lo hi r env = Inr v \<Longrightarrow> lo \<le> v \<and> v \<le> hi"
  by (auto simp: bounded_env_def Let_def split: option.splits if_splits)

section \<open>Sorted tuples of a set\<close>

text \<open>\<open>tuple(sorted(set(xs)))\<close>: sorted, without duplicates.\<close>

definition sorted_set :: "'a::linorder list \<Rightarrow> 'a list" where
  "sorted_set xs = sort (remdups xs)"

lemma set_sorted_set [simp]: "set (sorted_set xs) = set xs"
  by (simp add: sorted_set_def)

lemma sorted_sorted_set [simp]: "sorted (sorted_set xs)"
  by (simp add: sorted_set_def)

lemma distinct_sorted_set [simp]: "distinct (sorted_set xs)"
  by (simp add: sorted_set_def)

lemma sorted_set_eq_iff: "sorted_set xs = sorted_set ys \<longleftrightarrow> set xs = set ys"
  by (metis distinct_sorted_set set_sorted_set sorted_distinct_set_unique sorted_sorted_set)

lemma sorted_set_Nil_iff [simp]: "sorted_set xs = [] \<longleftrightarrow> xs = []"
  by (metis set_empty set_sorted_set)

text \<open>\<open>dict.fromkeys(xs)\<close>: the first occurrence of each element, in order.\<close>

fun dedup_first :: "'a list \<Rightarrow> 'a list" where
  "dedup_first [] = []"
| "dedup_first (x # xs) = x # filter (\<lambda>y. y \<noteq> x) (dedup_first xs)"

lemma set_dedup_first [simp]: "set (dedup_first xs) = set xs"
  by (induction xs) auto

lemma distinct_dedup_first [simp]: "distinct (dedup_first xs)"
  by (induction xs) auto

section \<open>Insertion-ordered dicts\<close>

text \<open>
  A dict is an association list with one entry per key, in insertion order; assignment to a
  present key keeps its place.
\<close>

fun dict_set :: "'k \<Rightarrow> 'v \<Rightarrow> ('k \<times> 'v) list \<Rightarrow> ('k \<times> 'v) list" where
  "dict_set k v [] = [(k, v)]"
| "dict_set k v ((k', v') # d) = (if k = k' then (k, v) # d else (k', v') # dict_set k v d)"

lemma map_of_dict_set [simp]: "map_of (dict_set k v d) = (map_of d)(k \<mapsto> v)"
  by (induction d) auto

lemma keys_dict_set: "map fst (dict_set k v d) =
    (if k \<in> fst ` set d then map fst d else map fst d @ [k])"
  by (induction k v d rule: dict_set.induct) auto

lemma set_keys_dict_set [simp]: "fst ` set (dict_set k v d) = insert k (fst ` set d)"
  by (induction k v d rule: dict_set.induct) (auto simp: insert_commute)

lemma dict_set_new: "k \<notin> fst ` set d \<Longrightarrow> dict_set k v d = d @ [(k, v)]"
  by (induction k v d rule: dict_set.induct) auto

lemma distinct_dict_set [simp]:
  "distinct (map fst d) \<Longrightarrow> distinct (map fst (dict_set k v d))"
  by (simp add: keys_dict_set)

section \<open>Bounded identifiers\<close>

text \<open>
  \<open>_bounded_identifier\<close> of \<open>jobqueue.py\<close> (\<open>storage_core.py\<close> has its own, with other messages):
  stripped, not blank, at most \<open>max_length\<close> characters, no control character, no blank inside.
\<close>

definition bad_ident_char :: "char \<Rightarrow> bool" where
  "bad_ident_char c = ((of_char c :: nat) < 33 \<or> (of_char c :: nat) = 127)"

definition bounded_identifier_max :: "nat \<Rightarrow> string \<Rightarrow> string \<Rightarrow> string result" where
  "bounded_identifier_max max_length value name =
     (let normalized = py_strip value in
      if normalized = [] then Inl (ValueError (name @ '' must not be blank''))
      else if length normalized > max_length then Inl (ValueError (name @ '' too long''))
      else if list_ex bad_ident_char normalized
        then Inl (ValueError (name @ '' contains invalid characters''))
      else Inr normalized)"

definition bounded_identifier :: "string \<Rightarrow> string \<Rightarrow> string result" where
  "bounded_identifier = bounded_identifier_max 200"

definition is_ident :: "string \<Rightarrow> bool" where
  "is_ident s = (s \<noteq> [] \<and> length s \<le> 200 \<and> py_strip s = s \<and> \<not> list_ex bad_ident_char s)"

lemma bounded_identifier_Inr:
  "bounded_identifier v n = Inr s \<Longrightarrow> is_ident s \<and> s = py_strip v"
  by (auto simp: bounded_identifier_def bounded_identifier_max_def is_ident_def Let_def
      split: if_splits)

lemma bounded_identifier_ident [simp]: "is_ident s \<Longrightarrow> bounded_identifier s n = Inr s"
  by (auto simp: bounded_identifier_def bounded_identifier_max_def is_ident_def Let_def)

lemma bounded_identifier_cases:
  obtains (Err) e where "bounded_identifier v n = Inl (ValueError e)"
        | (Ok) "bounded_identifier v n = Inr (py_strip v)" "is_ident (py_strip v)"
  by (cases "bounded_identifier v n")
    (auto simp: bounded_identifier_def bounded_identifier_max_def is_ident_def Let_def
      split: if_splits)

end
