(* ===== verification/PyUrl.thy ===== *)
theory PyUrl
  imports Prelude
begin

text \<open>
  The parts of Python 3.12's standard library the repository takes hosts apart with:
  \<open>urllib.parse.urlsplit\<close> with its \<open>hostname\<close> and \<open>port\<close> attributes, the address check it makes
  on bracketed hosts (\<open>ipaddress\<close>), and \<open>fnmatch.fnmatch\<close> on a POSIX system.
\<close>

section \<open>Addresses\<close>

definition is_hex :: "char \<Rightarrow> bool" where
  "is_hex c = (is_digit c \<or> (let n = (of_char c :: nat) in (65 \<le> n \<and> n \<le> 70) \<or> (97 \<le> n \<and> n \<le> 102)))"

definition ipv4_octet :: "string \<Rightarrow> bool" where
  "ipv4_octet s = (s \<noteq> [] \<and> list_all is_digit s \<and> length s \<le> 3 \<and>
     (s = ''0'' \<or> hd s \<noteq> CHR ''0'') \<and> foldl (\<lambda>a c. 10 * a + digit_val c) 0 s \<le> 255)"

definition ipv4_valid :: "string \<Rightarrow> bool" where
  "ipv4_valid s = (let ps = py_split (CHR ''.'') s in length ps = 4 \<and> list_all ipv4_octet ps)"

definition hextet :: "string \<Rightarrow> bool" where
  "hextet s = (s \<noteq> [] \<and> list_all is_hex s \<and> length s \<le> 4)"

text \<open>\<open>IPv6Address._ip_int_from_string\<close> as a validity check; the indexes of the empty inner
  parts are the candidates for the one permitted \<open>::\<close>.\<close>

definition ipv6_parts_valid :: "string list \<Rightarrow> bool" where
  "ipv6_parts_valid ps =
     (let n = length ps;
          skips = filter (\<lambda>i. ps ! i = []) [1..<n - 1] in
      n \<le> 9 \<and>
      (case skips of
         [] \<Rightarrow> n = 8 \<and> list_all hextet ps
       | [k] \<Rightarrow>
           (let lead = (hd ps = []); trail = (last ps = []);
                hi = (if lead then k - 1 else k);
                lo = (if trail then n - k - 2 else n - k - 1) in
            (lead \<longrightarrow> hi = 0) \<and> (trail \<longrightarrow> lo = 0) \<and> hi + lo < 8 \<and>
            list_all hextet (take hi ps) \<and> list_all hextet (drop (n - lo) ps))
       | _ \<Rightarrow> False))"

definition ipv6_valid :: "string \<Rightarrow> bool" where
  "ipv6_valid s =
     (let addr = takeWhile (\<lambda>c. c \<noteq> CHR ''%'') s;
          zone = drop (Suc (length addr)) s;
          scope_ok = (length addr = length s \<or> (zone \<noteq> [] \<and> CHR ''%'' \<notin> set zone));
          ps = py_split (CHR '':'') addr in
      CHR ''/'' \<notin> set s \<and> scope_ok \<and> addr \<noteq> [] \<and> 3 \<le> length ps \<and>
      (if CHR ''.'' \<in> set (last ps)
       then ipv4_valid (last ps) \<and> ipv6_parts_valid (butlast ps @ [''0'', ''0''])
       else ipv6_parts_valid ps))"

section \<open>urlsplit\<close>

record split_result =
  sp_scheme :: string
  sp_netloc :: string
  sp_path :: string
  sp_query :: string
  sp_fragment :: string

text \<open>\<open>s.partition(c)\<close> without the separator, and \<open>s.rpartition(c)[2]\<close>.\<close>

definition part_before :: "char \<Rightarrow> string \<Rightarrow> string" where
  "part_before c s = takeWhile (\<lambda>d. d \<noteq> c) s"

definition part_after :: "char \<Rightarrow> string \<Rightarrow> string" where
  "part_after c s = drop 1 (dropWhile (\<lambda>d. d \<noteq> c) s)"

definition rpart_last :: "char \<Rightarrow> string \<Rightarrow> string" where
  "rpart_last c s = rev (takeWhile (\<lambda>d. d \<noteq> c) (rev s))"

definition is_alpha :: "char \<Rightarrow> bool" where
  "is_alpha c = (let n = (of_char c :: nat) in (65 \<le> n \<and> n \<le> 90) \<or> (97 \<le> n \<and> n \<le> 122))"

definition scheme_char :: "char \<Rightarrow> bool" where
  "scheme_char c = (is_alpha c \<or> is_digit c \<or> c \<in> {CHR ''+'', CHR ''-'', CHR ''.''})"

text \<open>\<open>NetlocResultMixin._hostinfo\<close>: the host and the port text.\<close>

definition hostinfo :: "string \<Rightarrow> string \<times> string" where
  "hostinfo netloc =
     (let hi = rpart_last (CHR ''@'') netloc in
      if CHR ''['' \<in> set hi then
        (let bracketed = part_after (CHR ''['') hi in
         (part_before (CHR '']'') bracketed, part_after (CHR '':'') (part_after (CHR '']'') bracketed)))
      else (part_before (CHR '':'') hi, part_after (CHR '':'') hi))"

text \<open>\<open>_check_bracketed_netloc\<close> and \<open>_check_bracketed_host\<close>.\<close>

definition bracketed_host_ok :: "string \<Rightarrow> bool" where
  "bracketed_host_ok h =
     (if py_startswith h ''v''
      then (let hex = takeWhile is_hex (tl h); rest = drop (length hex) (tl h) in
            hex \<noteq> [] \<and> length rest \<ge> 2 \<and> hd rest = CHR ''.'' \<and> CHR 0x0A \<notin> set (tl rest))
      else ipv6_valid h)"

definition bracketed_netloc_ok :: "string \<Rightarrow> bool" where
  "bracketed_netloc_ok netloc =
     (let hi = rpart_last (CHR ''@'') netloc in
      if CHR ''['' \<in> set hi then
        (let bracketed = part_after (CHR ''['') hi; port = part_after (CHR '']'') bracketed in
         part_before (CHR ''['') hi = [] \<and> (port = [] \<or> hd port = CHR '':'') \<and>
         bracketed_host_ok (part_before (CHR '']'') bracketed))
      else bracketed_host_ok (part_before (CHR '':'') hi))"

definition clean_url :: "string \<Rightarrow> string" where
  "clean_url url = filter (\<lambda>c. c \<noteq> CHR 0x09 \<and> c \<noteq> CHR 0x0D \<and> c \<noteq> CHR 0x0A)
     (lstrip_by (\<lambda>c. (of_char c :: nat) \<le> 32) url)"

definition split_scheme :: "string \<Rightarrow> string \<times> string" where
  "split_scheme url =
     (let pre = part_before (CHR '':'') url in
      if CHR '':'' \<in> set url \<and> pre \<noteq> [] \<and> is_alpha (hd url) \<and> list_all scheme_char pre
      then (py_lower pre, part_after (CHR '':'') url) else ([], url))"

definition netloc_stop :: "char \<Rightarrow> bool" where
  "netloc_stop c = (c \<in> {CHR ''/'', CHR ''?'', CHR ''#''})"

definition urlsplit :: "string \<Rightarrow> split_result result" where
  "urlsplit url0 =
     (let (scheme, url) = split_scheme (clean_url url0);
          has_netloc = py_startswith url ''//'';
          netloc = (if has_netloc then takeWhile (\<lambda>c. \<not> netloc_stop c) (drop 2 url) else []);
          rest = (if has_netloc then drop (2 + length netloc) url else url);
          ob = (CHR ''['' \<in> set netloc); cb = (CHR '']'' \<in> set netloc) in
      if ob \<noteq> cb then Inl (ValueError ''Invalid IPv6 URL'')
      else if ob \<and> \<not> bracketed_netloc_ok netloc then Inl (ValueError ''Invalid IPv6 URL'')
      else (let fragment = part_after (CHR ''#'') rest; p1 = part_before (CHR ''#'') rest in
        Inr \<lparr>sp_scheme = scheme, sp_netloc = netloc, sp_path = part_before (CHR ''?'') p1,
             sp_query = part_after (CHR ''?'') p1, sp_fragment = fragment\<rparr>))"

definition sp_hostname :: "split_result \<Rightarrow> string option" where
  "sp_hostname r =
     (let h = fst (hostinfo (sp_netloc r)) in
      if h = [] then None
      else Some (py_lower (part_before (CHR ''%'') h) @ drop (length (part_before (CHR ''%'') h)) h))"

definition sp_port :: "split_result \<Rightarrow> int option result" where
  "sp_port r =
     (let p = snd (hostinfo (sp_netloc r)) in
      if p = [] then Inr None
      else if \<not> list_all is_digit p then Inl (ValueError ''Port could not be cast to integer value'')
      else (case py_int p of None \<Rightarrow> Inl (ValueError ''Exceeds the limit for integer string conversion'')
            | Some v \<Rightarrow> if v \<le> 65535 then Inr (Some v)
                       else Inl (ValueError ''Port out of range 0-65535'')))"

section \<open>fnmatch\<close>

text \<open>
  A pattern is a list of tokens; a bracket class is a list of inclusive ranges (a single
  character is a range of one; a range whose ends are out of order matches nothing), negated or
  not. An unclosed bracket is a literal \<open>[\<close>.
\<close>

datatype fn_tok = FStar | FAny | FLit char | FCls bool "(char \<times> char) list"

fun class_items :: "string \<Rightarrow> (char \<times> char) list" where
  "class_items (a # b # c # s) =
     (if b = CHR ''-'' then (a, c) # class_items s else (a, a) # class_items (b # c # s))"
| "class_items (a # s) = (a, a) # class_items s"
| "class_items [] = []"

text \<open>The body of a bracket class and what follows it, when it is closed. A \<open>]\<close> in first
  place (after an optional \<open>!\<close>) belongs to the body.\<close>

definition close_bracket :: "string \<Rightarrow> (string \<times> string) option" where
  "close_bracket s =
     (let n1 = (if s \<noteq> [] \<and> hd s = CHR ''!'' then 1 else 0);
          n2 = (if drop n1 s \<noteq> [] \<and> hd (drop n1 s) = CHR '']'' then Suc n1 else n1);
          body = take n2 s @ takeWhile (\<lambda>c. c \<noteq> CHR '']'') (drop n2 s) in
      if length body < length s then Some (body, drop (Suc (length body)) s) else None)"

lemma close_bracket_length: "close_bracket s = Some (b, r) \<Longrightarrow> length r < length s"
  by (auto simp: close_bracket_def Let_def split: if_splits)

function fn_parse :: "string \<Rightarrow> fn_tok list" where
  "fn_parse s = (case s of [] \<Rightarrow> []
     | c # cs \<Rightarrow>
       if c = CHR ''*'' then FStar # fn_parse cs
       else if c = CHR ''?'' then FAny # fn_parse cs
       else if c = CHR ''['' then
         (case close_bracket cs of
            None \<Rightarrow> FLit c # fn_parse cs
          | Some (body, rest) \<Rightarrow>
              (if body \<noteq> [] \<and> hd body = CHR ''!''
               then FCls True (class_items (tl body)) else FCls False (class_items body))
              # fn_parse rest)
       else FLit c # fn_parse cs)"
  by pat_completeness auto
termination
  by (relation "measure length") (auto dest: close_bracket_length)

declare fn_parse.simps [simp del]

fun tok_char :: "fn_tok \<Rightarrow> char \<Rightarrow> bool" where
  "tok_char FStar c = False"
| "tok_char FAny c = True"
| "tok_char (FLit d) c = (c = d)"
| "tok_char (FCls neg items) c = (list_ex (\<lambda>(lo, hi). lo \<le> c \<and> c \<le> hi) items \<noteq> neg)"

fun fn_match :: "fn_tok list \<Rightarrow> string \<Rightarrow> bool" where
  "fn_match [] s = (s = [])"
| "fn_match (FStar # ts) [] = fn_match ts []"
| "fn_match (FStar # ts) (c # s) = (fn_match ts (c # s) \<or> fn_match (FStar # ts) s)"
| "fn_match (t # ts) [] = False"
| "fn_match (t # ts) (c # s) = (tok_char t c \<and> fn_match ts s)"

definition fnmatch :: "string \<Rightarrow> string \<Rightarrow> bool" where
  "fnmatch name pat = fn_match (fn_parse pat) name"

definition literal_pattern :: "string \<Rightarrow> bool" where
  "literal_pattern p = (\<forall>c \<in> set p. c \<notin> {CHR ''*'', CHR ''?'', CHR ''[''})"

lemma fn_parse_Nil [simp]: "fn_parse [] = []"
  by (simp add: fn_parse.simps)

lemma fn_parse_literal: "literal_pattern p \<Longrightarrow> fn_parse p = map FLit p"
  by (induction p) (auto simp: literal_pattern_def fn_parse.simps)

lemma fn_parse_star: "fn_parse (CHR ''*'' # p) = FStar # fn_parse p"
  by (subst fn_parse.simps) simp

lemma fn_match_literal [simp]: "fn_match (map FLit p) s \<longleftrightarrow> s = p"
proof (induction p arbitrary: s)
  case (Cons a p)
  then show ?case by (cases s) auto
qed simp

lemma fn_match_star: "fn_match (FStar # ts) s \<longleftrightarrow> (\<exists>u v. s = u @ v \<and> fn_match ts v)"
proof (induction s)
  case (Cons c s)
  have "(\<exists>u v. c # s = u @ v \<and> fn_match ts v) \<longleftrightarrow>
        fn_match ts (c # s) \<or> (\<exists>u v. s = u @ v \<and> fn_match ts v)"
    by (metis append_Cons append_Nil list.exhaust list.inject)
  with Cons show ?case by simp
qed simp

lemma fnmatch_literal: "literal_pattern p \<Longrightarrow> fnmatch h p \<longleftrightarrow> h = p"
  by (simp add: fnmatch_def fn_parse_literal)

lemma fnmatch_star_suffix:
  "literal_pattern p \<Longrightarrow> fnmatch h (CHR ''*'' # p) \<longleftrightarrow> (\<exists>u. h = u @ p)"
  by (simp add: fnmatch_def fn_parse_star fn_match_star fn_parse_literal)

lemma fnmatch_star: "fnmatch h ''*''"
  by (simp add: fnmatch_def fn_parse_star fn_match_star)

end
