(* ===== verification/ScopePolicy.thy ===== *)
theory ScopePolicy
  imports PyUrl
begin

text \<open>
  \<open>backend/app/scope_policy.py\<close>: the allow and deny patterns of a program's scope and the
  decision whether a host may be touched. The result is an error where \<open>urlparse\<close> raises on a
  malformed pattern.
\<close>

definition rstrip_dot :: "string \<Rightarrow> string" where
  "rstrip_dot s = rstrip_by (\<lambda>c. c = CHR ''.'') s"

fun has_substr :: "string \<Rightarrow> string \<Rightarrow> bool" where
  "has_substr p [] = (p = [])"
| "has_substr p (c # s) = (py_startswith (c # s) p \<or> has_substr p s)"

definition normalize_pattern :: "string \<Rightarrow> string result" where
  "normalize_pattern pattern =
     (let value = py_lower (py_strip pattern) in
      if has_substr ''://'' value
      then rbind (urlsplit value) (\<lambda>u.
        Inr (rstrip_dot (py_lower (case sp_hostname u of None \<Rightarrow> value | Some h \<Rightarrow> h))))
      else Inr (rstrip_dot value))"

definition is_host_allowed :: "string \<Rightarrow> string list \<Rightarrow> string list \<Rightarrow> bool result" where
  "is_host_allowed host allowed denied =
     (let normalized_host = rstrip_dot (py_lower host) in
      rbind (rmap normalize_pattern denied) (\<lambda>denied_patterns.
        if list_ex (\<lambda>p. fnmatch normalized_host p) denied_patterns then Inr False
        else rbind (rmap normalize_pattern allowed) (\<lambda>allowed_patterns.
          Inr (list_ex (\<lambda>p. fnmatch normalized_host p) allowed_patterns))))"

definition pattern_matches :: "string \<Rightarrow> string \<Rightarrow> bool" where
  "pattern_matches host pat =
     (case normalize_pattern pat of Inl _ \<Rightarrow> False | Inr p \<Rightarrow> fnmatch (rstrip_dot (py_lower host)) p)"

lemma rmap_normalize_ex:
  "rmap normalize_pattern ps = Inr qs \<Longrightarrow>
   list_ex (\<lambda>q. fnmatch (rstrip_dot (py_lower h)) q) qs \<longleftrightarrow> (\<exists>p \<in> set ps. pattern_matches h p)"
proof (induction ps arbitrary: qs)
  case (Cons p ps)
  then obtain q qs' where "normalize_pattern p = Inr q" "rmap normalize_pattern ps = Inr qs'"
    "qs = q # qs'" by auto
  with Cons.IH show ?case by (simp add: pattern_matches_def)
qed simp

lemma is_host_allowed_Inr:
  assumes "is_host_allowed h al dn = Inr b"
  shows "b \<longleftrightarrow> (\<forall>p \<in> set dn. \<not> pattern_matches h p) \<and> (\<exists>p \<in> set al. pattern_matches h p)"
proof -
  from assms obtain ds where ds: "rmap normalize_pattern dn = Inr ds"
    by (auto simp: is_host_allowed_def Let_def)
  show ?thesis
  proof (cases "\<exists>p \<in> set dn. pattern_matches h p")
    case True
    with assms ds show ?thesis
      using rmap_normalize_ex [OF ds] by (auto simp: is_host_allowed_def Let_def)
  next
    case False
    with assms ds obtain als where "rmap normalize_pattern al = Inr als"
      "b = list_ex (\<lambda>p. fnmatch (rstrip_dot (py_lower h)) p) als"
      using rmap_normalize_ex [OF ds] by (auto simp: is_host_allowed_def Let_def)
    with False show ?thesis
      using rmap_normalize_ex by blast
  qed
qed

end
