(* ===== verification/PyData.thy ===== *)
theory PyData
  imports Complex_Main Prelude
begin

text \<open>
  The dynamically typed values that cross the program's boundaries (JSON documents, observation
  metadata, event records): Python's equality and truth value on them, \<open>str\<close>, and
  \<open>json.dumps(value, separators=(",", ":"), ensure_ascii=False)\<close> with and without
  \<open>sort_keys\<close>. A float is a finite value together with its \<open>repr\<close> text.
\<close>

datatype pyval =
    PNone
  | PBool bool
  | PInt int
  | PFloat rat string
  | PStr string
  | PList "pyval list"
  | PDict "(string \<times> pyval) list"

type_synonym pydict = "(string \<times> pyval) list"

section \<open>Equality and truth\<close>

text \<open>Booleans, integers and floats compare by value; dicts regardless of the order of keys.\<close>

fun py_num :: "pyval \<Rightarrow> rat option" where
  "py_num (PBool b) = Some (if b then 1 else 0)"
| "py_num (PInt i) = Some (of_int i)"
| "py_num (PFloat q t) = Some q"
| "py_num _ = None"

fun py_eq :: "pyval \<Rightarrow> pyval \<Rightarrow> bool"
  and py_eqs :: "pyval list \<Rightarrow> pyval list \<Rightarrow> bool"
  and py_sub :: "(string \<times> pyval) list \<Rightarrow> (string \<times> pyval) list \<Rightarrow> bool" where
  "py_eq PNone w = (w = PNone)"
| "py_eq (PStr s) w = (w = PStr s)"
| "py_eq (PList xs) w = (case w of PList ys \<Rightarrow> py_eqs xs ys | _ \<Rightarrow> False)"
| "py_eq (PDict d) w = (case w of PDict e \<Rightarrow> length d = length e \<and> py_sub d e | _ \<Rightarrow> False)"
| "py_eq v w = (py_num w = py_num v)"
| "py_eqs [] ys = (ys = [])"
| "py_eqs (x # xs) ys = (case ys of [] \<Rightarrow> False | y # ys' \<Rightarrow> py_eq x y \<and> py_eqs xs ys')"
| "py_sub [] e = True"
| "py_sub ((k, v) # d) e =
     ((case map_of e k of None \<Rightarrow> False | Some w \<Rightarrow> py_eq v w) \<and> py_sub d e)"

fun pv_truthy :: "pyval \<Rightarrow> bool" where
  "pv_truthy PNone = False"
| "pv_truthy (PBool b) = b"
| "pv_truthy (PInt i) = (i \<noteq> 0)"
| "pv_truthy (PFloat q t) = (q \<noteq> 0)"
| "pv_truthy (PStr s) = (s \<noteq> [])"
| "pv_truthy (PList xs) = (xs \<noteq> [])"
| "pv_truthy (PDict d) = (d \<noteq> [])"

text \<open>\<open>d.get(k)\<close>: \<open>None\<close> for a missing key.\<close>

definition pget :: "pydict \<Rightarrow> string \<Rightarrow> pyval" where
  "pget d k = (case map_of d k of None \<Rightarrow> PNone | Some v \<Rightarrow> v)"

text \<open>A dict has one entry per key, at every depth.\<close>

fun wf_pyval :: "pyval \<Rightarrow> bool" where
  "wf_pyval (PList xs) = list_all wf_pyval xs"
| "wf_pyval (PDict d) = (distinct (map fst d) \<and> list_all (\<lambda>(k, v). wf_pyval v) d)"
| "wf_pyval _ = True"

abbreviation wf_pydict :: "pydict \<Rightarrow> bool" where
  "wf_pydict d \<equiv> wf_pyval (PDict d)"

lemma py_sub_self:
  "(\<And>k v. (k, v) \<in> set d \<Longrightarrow> map_of e k = Some v \<and> py_eq v v) \<Longrightarrow> py_sub d e"
  by (induction d) force+

lemma py_eqs_self: "(\<And>x. x \<in> set xs \<Longrightarrow> py_eq x x) \<Longrightarrow> py_eqs xs xs"
  by (induction xs) auto

lemma py_eq_refl: "wf_pyval v \<Longrightarrow> py_eq v v"
proof (induction v rule: wf_pyval.induct)
  case (1 xs)
  then show ?case by (auto intro: py_eqs_self simp: list_all_iff)
next
  case (2 d)
  then have "py_eq v v" if "(k, v) \<in> set d" for k v
    using that by (fastforce simp: list_all_iff)
  with 2 show ?case by (auto intro!: py_sub_self simp: list_all_iff)
qed auto

lemma py_eq_PStr: "py_eq v (PStr t) \<longleftrightarrow> v = PStr t"
  by (cases v) auto

section \<open>Text of values\<close>

fun nat_str :: "nat \<Rightarrow> string" where
  "nat_str n = (if n < 10 then [char_of (48 + n)] else nat_str (n div 10) @ [char_of (48 + n mod 10)])"

declare nat_str.simps [simp del]

definition int_str :: "int \<Rightarrow> string" where
  "int_str i = (if i < 0 then CHR ''-'' # nat_str (nat (- i)) else nat_str (nat i))"

definition hex_digit :: "nat \<Rightarrow> char" where
  "hex_digit n = char_of (if n < 10 then 48 + n else 87 + n)"

text \<open>\<open>repr\<close> of a string: single quotes unless the text holds one and no double quote.\<close>

definition repr_char :: "char \<Rightarrow> char \<Rightarrow> string" where
  "repr_char q c = (let n = (of_char c :: nat) in
     if c = q \<or> n = 92 then [CHR 0x5C, c]
     else if n = 10 then [CHR 0x5C, CHR ''n'']
     else if n = 13 then [CHR 0x5C, CHR ''r'']
     else if n = 9 then [CHR 0x5C, CHR ''t'']
     else if n < 32 \<or> (127 \<le> n \<and> n \<le> 160) \<or> n = 173
       then [CHR 0x5C, CHR ''x'', hex_digit (n div 16), hex_digit (n mod 16)]
     else [c])"

definition repr_str :: "string \<Rightarrow> string" where
  "repr_str s = (let q = (if CHR 0x27 \<in> set s \<and> CHR 0x22 \<notin> set s then CHR 0x22 else CHR 0x27) in
     q # concat (map (repr_char q) s) @ [q])"

fun py_repr :: "pyval \<Rightarrow> string" where
  "py_repr PNone = ''None''"
| "py_repr (PBool b) = (if b then ''True'' else ''False'')"
| "py_repr (PInt i) = int_str i"
| "py_repr (PFloat q t) = t"
| "py_repr (PStr s) = repr_str s"
| "py_repr (PList xs) = ''['' @ py_join '', '' (map py_repr xs) @ '']''"
| "py_repr (PDict d) =
     ''{'' @ py_join '', '' (map (\<lambda>(k, v). repr_str k @ '': '' @ py_repr v) d) @ ''}''"

definition py_str :: "pyval \<Rightarrow> string" where
  "py_str v = (case v of PStr s \<Rightarrow> s | _ \<Rightarrow> py_repr v)"

text \<open>The idiom \<open>str(d.get(k) or "")\<close>.\<close>

definition str_or_empty :: "pyval \<Rightarrow> string" where
  "str_or_empty v = (if pv_truthy v then py_str v else [])"

section \<open>json.dumps\<close>

definition json_char :: "char \<Rightarrow> string" where
  "json_char c = (let n = (of_char c :: nat) in
     if n = 34 \<or> n = 92 then [CHR 0x5C, c]
     else if n = 10 then [CHR 0x5C, CHR ''n'']
     else if n = 13 then [CHR 0x5C, CHR ''r'']
     else if n = 9 then [CHR 0x5C, CHR ''t'']
     else if n = 12 then [CHR 0x5C, CHR ''f'']
     else if n = 8 then [CHR 0x5C, CHR ''b'']
     else if n < 32 then [CHR 0x5C, CHR ''u'', CHR ''0'', CHR ''0'', hex_digit (n div 16), hex_digit (n mod 16)]
     else [c])"

definition json_str :: "string \<Rightarrow> string" where
  "json_str s = CHR 0x22 # concat (map json_char s) @ [CHR 0x22]"

definition sort_items :: "(string \<times> 'a) list \<Rightarrow> (string \<times> 'a) list" where
  "sort_items d = sort_key fst d"

fun json_dumps :: "bool \<Rightarrow> pyval \<Rightarrow> string" where
  "json_dumps sk PNone = ''null''"
| "json_dumps sk (PBool b) = (if b then ''true'' else ''false'')"
| "json_dumps sk (PInt i) = int_str i"
| "json_dumps sk (PFloat q t) = t"
| "json_dumps sk (PStr s) = json_str s"
| "json_dumps sk (PList xs) = ''['' @ py_join '','' (map (json_dumps sk) xs) @ '']''"
| "json_dumps sk (PDict d) =
     (let items = map (\<lambda>(k, v). (k, json_str k @ '':'' @ json_dumps sk v)) d in
      ''{'' @ py_join '','' (map snd (if sk then sort_items items else items)) @ ''}'')"

text \<open>With \<open>sort_keys\<close> the text of a dict does not depend on the order of its keys.\<close>

lemma sort_items_perm:
  assumes "distinct (map fst d)" and "set d = set e" and "distinct (map fst e)"
  shows "sort_items d = sort_items e"
proof -
  have "inj_on fst (set (sort_items d) \<union> set (sort_items e))"
    using assms by (simp add: sort_items_def distinct_map)
  moreover have "distinct (map fst (sort_items d))" and "distinct (map fst (sort_items e))"
    using assms by (simp_all add: sort_items_def distinct_map)
  ultimately show ?thesis
    using assms(2) by (intro map_sorted_distinct_set_unique [where f = fst])
      (auto simp: sort_items_def)
qed

lemma json_dumps_key_order:
  assumes "distinct (map fst d)" and "set d = set e" and "distinct (map fst e)"
  shows "json_dumps True (PDict d) = json_dumps True (PDict e)"
proof -
  let ?f = "\<lambda>(k, v). (k, json_str k @ '':'' @ json_dumps True v)"
  have "sort_items (map ?f d) = sort_items (map ?f e)"
    using assms by (intro sort_items_perm) (auto simp: comp_def case_prod_beta)
  then show ?thesis by (simp add: Let_def)
qed

end
