(* ===== verification/CampaignModel.thy ===== *)
theory CampaignModel
  imports ScopePolicy PyData
begin

text \<open>
  The data of \<open>backend/app/main.py\<close>: program rules, findings, campaigns, and the check a new
  target passes. The fields of a finding that no modelled operation reads are left out; a float
  is the rational it stands for.
\<close>

datatype campaign_state =
    CDraft | CReady | CRunning | CValidating | CCompleted | CFailed | CCancelled

datatype finding_status = Candidate | ValidationRequired | Confirmed | Rejected

datatype severity = SInfo | SLow | SMedium | SHigh | SCritical

primrec state_value :: "campaign_state \<Rightarrow> string" where
  "state_value CDraft = ''draft''"
| "state_value CReady = ''ready''"
| "state_value CRunning = ''running''"
| "state_value CValidating = ''validating''"
| "state_value CCompleted = ''completed''"
| "state_value CFailed = ''failed''"
| "state_value CCancelled = ''cancelled''"

primrec status_value :: "finding_status \<Rightarrow> string" where
  "status_value Candidate = ''candidate''"
| "status_value ValidationRequired = ''validation_required''"
| "status_value Confirmed = ''confirmed''"
| "status_value Rejected = ''rejected''"

record program_rules =
  authorization_reference :: string
  allowed_targets :: "string list"
  denied_targets :: "string list"
  max_requests_per_second :: rat
  destructive_testing :: bool
  denial_of_service :: bool
  social_engineering :: bool
  credential_attacks :: bool
  automated_scanning :: bool

record finding =
  f_id :: string
  f_title :: string
  f_severity :: severity
  f_asset :: string
  f_endpoint :: "string option"
  f_summary :: string
  f_evidence :: "string list"
  f_steps :: "string list"
  f_impact :: string
  f_remediation :: string
  f_cwe :: "string option"
  f_cvss :: "rat option"
  f_status :: finding_status
  f_discovered_by :: string
  f_validated_by :: "string option"

record campaign =
  c_id :: string
  c_url :: string
  c_rules :: program_rules
  c_state :: campaign_state
  c_created_at :: string
  c_updated_at :: string
  c_findings :: "finding list"
  c_events :: "pydict list"

text \<open>\<open>(urlparse(url).hostname or "").lower()\<close>.\<close>

definition url_host :: "string \<Rightarrow> string result" where
  "url_host url = rbind (urlsplit url) (\<lambda>u.
     Inr (py_lower (case sp_hostname u of None \<Rightarrow> [] | Some h \<Rightarrow> h)))"

text \<open>\<open>parsed.username or parsed.password\<close> is true: the user information before the last \<open>@\<close> of
  the netloc, cut at its first colon, has a non-empty part.\<close>

definition has_userinfo :: "split_result \<Rightarrow> bool" where
  "has_userinfo u =
     (let net = sp_netloc u;
          userinfo = take (length net - Suc (length (rpart_last (CHR ''@'') net))) net in
      CHR ''@'' \<in> set net \<and>
      (part_before (CHR '':'') userinfo \<noteq> [] \<or> part_after (CHR '':'') userinfo \<noteq> []))"

text \<open>\<open>TargetInput.primary_target_must_be_allowed\<close>.\<close>

definition check_target :: "string \<Rightarrow> program_rules \<Rightarrow> unit result" where
  "check_target url rules =
     rbind (urlsplit url) (\<lambda>u.
       let host = py_lower (case sp_hostname u of None \<Rightarrow> [] | Some h \<Rightarrow> h) in
       if host = [] then Inl (ValueError ''primary_url has no hostname'')
       else if has_userinfo u then Inl (ValueError ''userinfo in primary_url is forbidden'')
       else if sp_query u \<noteq> [] \<or> sp_fragment u \<noteq> []
         then Inl (ValueError ''query strings and fragments in primary_url are forbidden'')
       else rbind (is_host_allowed host (allowed_targets rules) (denied_targets rules)) (\<lambda>ok.
         if ok then Inr () else Inl (ValueError ''primary_url is outside the declared scope'')))"

lemma check_target_Inr:
  assumes "check_target url rules = Inr ()"
  obtains host where "url_host url = Inr host" and "host \<noteq> []"
    and "is_host_allowed host (allowed_targets rules) (denied_targets rules) = Inr True"
  using assms by (auto simp: check_target_def url_host_def Let_def split: if_splits)

end
