(* ===== verification/ObservationGraph.thy ===== *)
theory ObservationGraph
  imports PyData
begin

text \<open>
  \<open>backend/app/observation_graph.py\<close> (the graph) and \<open>backend/app/validation_state.py\<close>: the
  observations of a campaign, the insertion-ordered graph the planner builds from stored
  records, and which findings are validated independently and with evidence.
\<close>

section \<open>Observations\<close>

datatype obs_kind =
    Asset | Endpoint | Form | Technology | Waf | Finding | Evidence | Validation

datatype action_kind = Inventory | Crawl | Scan | Validate | Report | Stop

record observation =
  ob_id :: string
  ob_kind :: obs_kind
  ob_value :: string
  ob_source :: string
  ob_parents :: "string list"
  ob_meta :: pydict

record planned_action =
  pa_kind :: action_kind
  pa_target :: "string option"
  pa_reason :: string
  pa_priority :: int

text \<open>Equality of the frozen dataclass: field by field, metadata as dicts compare.\<close>

definition obs_eq :: "observation \<Rightarrow> observation \<Rightarrow> bool" where
  "obs_eq a b = (ob_id a = ob_id b \<and> ob_kind a = ob_kind b \<and> ob_value a = ob_value b \<and>
     ob_source a = ob_source b \<and> ob_parents a = ob_parents b \<and>
     py_eq (PDict (ob_meta a)) (PDict (ob_meta b)))"

text \<open>\<open>ObservationGraph._items\<close>: a dict from identifiers to observations.\<close>

type_synonym obs_graph = "(string \<times> observation) list"

definition graph_ids :: "obs_graph \<Rightarrow> string set" where
  "graph_ids g = fst ` set g"

definition graph_values :: "obs_graph \<Rightarrow> observation list" where
  "graph_values g = map snd g"

definition by_kind :: "obs_kind \<Rightarrow> obs_graph \<Rightarrow> observation list" where
  "by_kind k g = filter (\<lambda>ob. ob_kind ob = k) (graph_values g)"

definition graph_add :: "obs_graph \<Rightarrow> observation \<Rightarrow> obs_graph result" where
  "graph_add g ob =
     (let missing = filter (\<lambda>p. map_of g p = None) (ob_parents ob) in
      if missing \<noteq> [] then
        Inl (ValueError (''unknown parent observation(s): '' @ py_join '', '' missing))
      else (case map_of g (ob_id ob) of
          Some existing \<Rightarrow>
            if \<not> obs_eq existing ob
            then Inl (ValueError (''observation id already exists with different content: '' @ ob_id ob))
            else Inr (dict_set (ob_id ob) ob g)
        | None \<Rightarrow> Inr (dict_set (ob_id ob) ob g)))"

section \<open>Loading records\<close>

text \<open>One pass of \<open>from_records\<close>: what can be added is, the rest is kept for the next pass.\<close>

fun load_pass :: "obs_graph \<Rightarrow> observation list \<Rightarrow> (obs_graph \<times> observation list) result" where
  "load_pass g [] = Inr (g, [])"
| "load_pass g (ob # obs) =
     (if list_all (\<lambda>p. map_of g p \<noteq> None) (ob_parents ob)
      then rbind (graph_add g ob) (\<lambda>g'. load_pass g' obs)
      else rbind (load_pass g obs) (\<lambda>(g', remaining). Inr (g', ob # remaining)))"

text \<open>The \<open>while pending\<close> loop; a pass made progress when it left fewer records over.\<close>

function load_loop :: "obs_graph \<Rightarrow> observation list \<Rightarrow> obs_graph result" where
  "load_loop g pending =
     (if pending = [] then Inr g
      else (case load_pass g pending of
          Inl e \<Rightarrow> Inl e
        | Inr (g', remaining) \<Rightarrow>
            if length remaining < length pending then load_loop g' remaining
            else Inl (ValueError ''observation records contain missing or cyclic parents'')))"
  by pat_completeness auto
termination
  by (relation "measure (\<lambda>(g, p). length p)") auto

declare load_loop.simps [simp del]

definition from_records :: "observation list \<Rightarrow> obs_graph result" where
  "from_records records = load_loop [] records"

section \<open>The graph invariant\<close>

text \<open>
  Keys are the identifiers of the items, no key twice, and every parent of an item stands before
  it: the parent relation has no cycle and no dangling end.
\<close>

fun graph_ok_from :: "string set \<Rightarrow> obs_graph \<Rightarrow> bool" where
  "graph_ok_from seen [] = True"
| "graph_ok_from seen ((k, ob) # g) =
     (k = ob_id ob \<and> k \<notin> seen \<and> set (ob_parents ob) \<subseteq> seen \<and> graph_ok_from (insert k seen) g)"

definition graph_ok :: "obs_graph \<Rightarrow> bool" where
  "graph_ok g = graph_ok_from {} g"

lemma graph_ok_Nil [simp]: "graph_ok []"
  by (simp add: graph_ok_def)

lemma graph_ids_Nil [simp]: "graph_ids [] = {}"
  by (simp add: graph_ids_def)

lemma map_of_graph_ids: "map_of g k = None \<longleftrightarrow> k \<notin> graph_ids g"
  by (simp add: graph_ids_def map_of_eq_None_iff)

lemma map_of_graph_ids_Some: "(\<exists>v. map_of g k = Some v) \<longleftrightarrow> k \<in> graph_ids g"
  using map_of_graph_ids [of g k] by auto

lemma graph_ok_from_snoc:
  "graph_ok_from seen (g @ [(k, ob)]) \<longleftrightarrow> graph_ok_from seen g \<and> k = ob_id ob \<and>
     k \<notin> seen \<union> graph_ids g \<and> set (ob_parents ob) \<subseteq> seen \<union> graph_ids g"
proof (induction g arbitrary: seen)
  case (Cons x g)
  obtain k' e where x: "x = (k', e)" by (cases x)
  have "graph_ids (x # g) = insert k' (graph_ids g)" by (simp add: x graph_ids_def)
  with Cons show ?case by (auto simp: x)
qed auto

lemma graph_ok_from_replace:
  assumes "graph_ok_from seen g" and "map_of g (ob_id ob) = Some e" and "obs_eq e ob"
  shows "graph_ok_from seen (dict_set (ob_id ob) ob g)"
  using assms(1,2)
proof (induction g arbitrary: seen)
  case (Cons x g)
  obtain k d where x: "x = (k, d)" by (cases x)
  show ?case
  proof (cases "ob_id ob = k")
    case True
    with Cons.prems assms(3) show ?thesis by (auto simp: x obs_eq_def)
  next
    case False
    with Cons.prems have "graph_ok_from (insert k seen) g" and "map_of g (ob_id ob) = Some e"
      by (auto simp: x)
    then have "graph_ok_from (insert k seen) (dict_set (ob_id ob) ob g)" by (rule Cons.IH)
    with False Cons.prems(1) show ?thesis by (auto simp: x)
  qed
qed simp

lemma graph_ids_dict_set [simp]: "graph_ids (dict_set k v g) = insert k (graph_ids g)"
  by (simp add: graph_ids_def)

lemma graph_add_cases:
  assumes "graph_add g ob = Inr g'"
  obtains (New) "ob_id ob \<notin> graph_ids g" "set (ob_parents ob) \<subseteq> graph_ids g" "g' = g @ [(ob_id ob, ob)]"
    | (Same) e where "map_of g (ob_id ob) = Some e" "obs_eq e ob" "set (ob_parents ob) \<subseteq> graph_ids g"
        "g' = dict_set (ob_id ob) ob g"
proof -
  have par: "set (ob_parents ob) \<subseteq> graph_ids g"
    using assms by (auto simp: graph_add_def Let_def map_of_graph_ids filter_empty_conv split: if_splits)
  then have none: "filter (\<lambda>p. map_of g p = None) (ob_parents ob) = []"
    by (auto simp: filter_empty_conv map_of_graph_ids)
  show thesis
  proof (cases "map_of g (ob_id ob)")
    case None
    then have new: "ob_id ob \<notin> graph_ids g" by (simp add: map_of_graph_ids)
    then have "g' = g @ [(ob_id ob, ob)]"
      using assms none None by (simp add: graph_add_def Let_def dict_set_new graph_ids_def)
    with new par New show ?thesis by blast
  next
    case (Some e)
    with assms none have "obs_eq e ob \<and> g' = dict_set (ob_id ob) ob g"
      by (simp add: graph_add_def Let_def split: if_splits)
    with Some par Same show ?thesis by blast
  qed
qed

lemma graph_add_ids: "graph_add g ob = Inr g' \<Longrightarrow> graph_ids g' = insert (ob_id ob) (graph_ids g)"
  by (erule graph_add_cases) (auto simp: graph_ids_def)

lemma graph_add_ok: "graph_add g ob = Inr g' \<Longrightarrow> graph_ok g \<Longrightarrow> graph_ok g'"
  by (erule graph_add_cases) (simp_all add: graph_ok_def graph_ok_from_snoc graph_ok_from_replace)

lemma load_pass_facts:
  "load_pass g obs = Inr (g', rem) \<Longrightarrow>
   (graph_ok g \<longrightarrow> graph_ok g') \<and> length rem \<le> length obs \<and>
   graph_ids g' \<union> ob_id ` set rem = graph_ids g \<union> ob_id ` set obs"
proof (induction g obs arbitrary: g' rem rule: load_pass.induct)
  case (2 g ob obs)
  show ?case
  proof (cases "list_all (\<lambda>p. map_of g p \<noteq> None) (ob_parents ob)")
    case True
    with "2.prems" obtain g1 where g1: "graph_add g ob = Inr g1" "load_pass g1 obs = Inr (g', rem)"
      by auto
    from "2.IH"(1) [OF True g1(2)] graph_add_ids [OF g1(1)] graph_add_ok [OF g1(1)]
    show ?thesis by simp
  next
    case False
    with "2.prems" obtain r where r: "load_pass g obs = Inr (g', r)" "rem = ob # r" by auto
    from "2.IH"(2) [OF False r(1)] r(2) show ?thesis by simp
  qed
qed simp

lemma load_loop_facts:
  "load_loop g obs = Inr g' \<Longrightarrow> graph_ok g \<Longrightarrow> graph_ok g' \<and> graph_ids g' = graph_ids g \<union> ob_id ` set obs"
proof (induction g obs rule: load_loop.induct)
  case (1 g pending)
  show ?case
  proof (cases "pending = []")
    case True
    with "1.prems" show ?thesis by (simp add: load_loop.simps)
  next
    case False
    with "1.prems"(1) obtain g1 rem where lp: "load_pass g pending = Inr (g1, rem)"
      and lt: "length rem < length pending" and rest: "load_loop g1 rem = Inr g'"
      by (subst (asm) load_loop.simps) (auto split: sum.splits if_splits)
    from load_pass_facts [OF lp] "1.prems"(2) have "graph_ok g1"
      and ids: "graph_ids g1 \<union> ob_id ` set rem = graph_ids g \<union> ob_id ` set pending" by auto
    with "1.IH" [OF False lp refl lt rest] show ?thesis by simp
  qed
qed

lemma from_records_graph_ok: "from_records recs = Inr g \<Longrightarrow> graph_ok g"
  by (auto simp: from_records_def dest: load_loop_facts)

lemma from_records_ids: "from_records recs = Inr g \<Longrightarrow> graph_ids g = ob_id ` set recs"
  by (auto simp: from_records_def dest: load_loop_facts)

section \<open>When loading succeeds\<close>

text \<open>Records listed so that every parent stands before its children and no identifier twice.\<close>

fun topo :: "string set \<Rightarrow> observation list \<Rightarrow> bool" where
  "topo seen [] = True"
| "topo seen (ob # obs) =
     (ob_id ob \<notin> seen \<and> set (ob_parents ob) \<subseteq> seen \<and> topo (insert (ob_id ob) seen) obs)"

lemma topo_disjoint: "topo seen xs \<Longrightarrow> ob_id ` set xs \<inter> seen = {}"
  by (induction xs arbitrary: seen) auto

lemma topo_snoc: "topo seen (xs @ [ob]) \<longleftrightarrow> topo seen xs \<and>
    ob_id ob \<notin> seen \<union> ob_id ` set xs \<and> set (ob_parents ob) \<subseteq> seen \<union> ob_id ` set xs"
proof (induction xs arbitrary: seen)
  case (Cons x xs)
  then show ?case by auto
qed simp

lemma graph_ok_topo: "graph_ok_from seen g \<Longrightarrow> topo seen (graph_values g)"
  by (induction seen g rule: graph_ok_from.induct) (auto simp: graph_values_def)

lemma topo_minimal:
  "topo seen xs \<Longrightarrow> set pend \<subseteq> set xs \<Longrightarrow> pend \<noteq> [] \<Longrightarrow>
   \<exists>ob \<in> set pend. set (ob_parents ob) \<subseteq> seen \<union> (ob_id ` set xs - ob_id ` set pend)"
proof (induction xs arbitrary: seen)
  case (Cons x xs)
  show ?case
  proof (cases "x \<in> set pend")
    case True
    with Cons.prems show ?thesis by auto
  next
    case False
    with Cons.prems have sub: "set pend \<subseteq> set xs" by auto
    have "ob_id x \<notin> ob_id ` set xs"
      using topo_disjoint [of "insert (ob_id x) seen" xs] Cons.prems by auto
    with sub have "ob_id x \<notin> ob_id ` set pend" by auto
    moreover obtain ob where "ob \<in> set pend"
      "set (ob_parents ob) \<subseteq> insert (ob_id x) seen \<union> (ob_id ` set xs - ob_id ` set pend)"
      using Cons.IH [of "insert (ob_id x) seen"] Cons.prems sub by auto
    ultimately have "set (ob_parents ob) \<subseteq>
        seen \<union> (insert (ob_id x) (ob_id ` set xs) - ob_id ` set pend)"
      by (simp add: insert_Diff_if)
    with \<open>ob \<in> set pend\<close> show ?thesis unfolding list.set image_insert by (rule rev_bexI)
  qed
qed simp

lemma graph_add_new:
  "ob_id ob \<notin> graph_ids g \<Longrightarrow> set (ob_parents ob) \<subseteq> graph_ids g \<Longrightarrow>
   graph_add g ob = Inr (g @ [(ob_id ob, ob)])"
proof -
  assume new: "ob_id ob \<notin> graph_ids g" and par: "set (ob_parents ob) \<subseteq> graph_ids g"
  then have "filter (\<lambda>p. map_of g p = None) (ob_parents ob) = []"
    by (auto simp: filter_empty_conv map_of_graph_ids)
  moreover have "map_of g (ob_id ob) = None" using new by (simp add: map_of_graph_ids)
  ultimately show ?thesis
    using new by (simp add: graph_add_def dict_set_new graph_ids_def)
qed

lemma load_pass_total:
  "distinct (map ob_id obs) \<Longrightarrow> ob_id ` set obs \<inter> graph_ids g = {} \<Longrightarrow>
   \<exists>g' rem. load_pass g obs = Inr (g', rem) \<and> graph_ids g \<subseteq> graph_ids g' \<and> set rem \<subseteq> set obs \<and>
     distinct (map ob_id rem) \<and> ob_id ` set rem \<inter> graph_ids g' = {} \<and>
     ((\<exists>ob \<in> set obs. set (ob_parents ob) \<subseteq> graph_ids g) \<longrightarrow> length rem < length obs)"
proof (induction g obs rule: load_pass.induct)
  case (2 g ob obs)
  show ?case
  proof (cases "list_all (\<lambda>p. map_of g p \<noteq> None) (ob_parents ob)")
    case True
    then have par: "set (ob_parents ob) \<subseteq> graph_ids g"
      by (auto simp: list_all_iff map_of_graph_ids_Some)
    let ?g1 = "g @ [(ob_id ob, ob)]"
    have add: "graph_add g ob = Inr ?g1" using "2.prems" par by (intro graph_add_new) auto
    have ids: "graph_ids ?g1 = insert (ob_id ob) (graph_ids g)" by (auto simp: graph_ids_def)
    from "2.prems" have "distinct (map ob_id obs)" "ob_id ` set obs \<inter> graph_ids ?g1 = {}"
      by (auto simp: ids)
    with "2.IH"(1) [OF True, of ?g1] obtain g' rem where
      r: "load_pass ?g1 obs = Inr (g', rem)" "graph_ids ?g1 \<subseteq> graph_ids g'" "set rem \<subseteq> set obs"
        "distinct (map ob_id rem)" "ob_id ` set rem \<inter> graph_ids g' = {}" by blast
    have "length rem \<le> length obs"
      using load_pass_facts [OF r(1)] by simp
    with r True add ids show ?thesis by (intro exI [of _ g'] exI [of _ rem]) auto
  next
    case False
    then have npar: "\<not> set (ob_parents ob) \<subseteq> graph_ids g"
      by (auto simp: list_all_iff map_of_graph_ids)
    from "2.prems" have "distinct (map ob_id obs)" "ob_id ` set obs \<inter> graph_ids g = {}" by auto
    with "2.IH"(2) [OF False] obtain g' rem where
      r: "load_pass g obs = Inr (g', rem)" "graph_ids g \<subseteq> graph_ids g'" "set rem \<subseteq> set obs"
        "distinct (map ob_id rem)" "ob_id ` set rem \<inter> graph_ids g' = {}"
        "(\<exists>ob \<in> set obs. set (ob_parents ob) \<subseteq> graph_ids g) \<longrightarrow> length rem < length obs" by blast
    have "graph_ids g' \<union> ob_id ` set rem = graph_ids g \<union> ob_id ` set obs"
      using load_pass_facts [OF r(1)] by simp
    then have "ob_id ob \<notin> graph_ids g' \<union> ob_id ` set rem"
      using "2.prems" by auto
    with r False npar show ?thesis by (intro exI [of _ g'] exI [of _ "ob # rem"]) auto
  qed
qed simp

lemma load_loop_total:
  assumes "topo {} xs"
  shows "distinct (map ob_id pend) \<Longrightarrow> ob_id ` set pend \<inter> graph_ids g = {} \<Longrightarrow>
    set pend \<subseteq> set xs \<Longrightarrow> graph_ids g \<union> ob_id ` set pend = ob_id ` set xs \<Longrightarrow>
    \<exists>g'. load_loop g pend = Inr g'"
proof (induction g pend rule: load_loop.induct)
  case (1 g pend)
  show ?case
  proof (cases "pend = []")
    case True
    then show ?thesis by (simp add: load_loop.simps)
  next
    case False
    obtain ob where "ob \<in> set pend" "set (ob_parents ob) \<subseteq> graph_ids g"
      using topo_minimal [OF assms "1.prems"(3) False] "1.prems"(4) by blast
    then obtain g1 rem where lp: "load_pass g pend = Inr (g1, rem)" and
      r: "set rem \<subseteq> set pend" "distinct (map ob_id rem)" "ob_id ` set rem \<inter> graph_ids g1 = {}"
      and lt: "length rem < length pend"
      using load_pass_total [OF "1.prems"(1,2)] by blast
    have "graph_ids g1 \<union> ob_id ` set rem = ob_id ` set xs"
      using load_pass_facts [OF lp] "1.prems"(4) by simp
    with "1.IH" [OF False lp refl lt r(2,3)] r(1) "1.prems"(3)
    have "\<exists>g'. load_loop g1 rem = Inr g'" by auto
    with False lp lt show ?thesis by (simp add: load_loop.simps [of g pend])
  qed
qed

lemma from_records_total:
  assumes "topo {} xs" and "set recs = set xs" and "distinct (map ob_id recs)"
  obtains g where "from_records recs = Inr g"
  using load_loop_total [OF assms(1), of recs "[]"] assms by (auto simp: from_records_def)

end
