(* ===== verification/ValidationState.thy ===== *)
theory ValidationState
  imports ObservationGraph
begin

text \<open>
  \<open>backend/app/validation_state.py\<close>: which findings of a graph have been attempted, observed by a
  source other than their own, and observed with evidence attached to the validation.
\<close>

record validation_state =
  vs_findings :: "string set"
  vs_attempted :: "string set"
  vs_observed :: "string set"
  vs_evidenced :: "string set"

definition unresolved_finding_ids :: "validation_state \<Rightarrow> string set" where
  "unresolved_finding_ids s = vs_findings s - vs_observed s"

definition unattempted_finding_ids :: "validation_state \<Rightarrow> string set" where
  "unattempted_finding_ids s = unresolved_finding_ids s - vs_attempted s"

definition unevidenced_finding_ids :: "validation_state \<Rightarrow> string set" where
  "unevidenced_finding_ids s = vs_observed s - vs_evidenced s"

definition all_observed_independently :: "validation_state \<Rightarrow> bool" where
  "all_observed_independently s = (vs_findings s \<noteq> {} \<and> unresolved_finding_ids s = {})"

definition all_evidence_backed_independently :: "validation_state \<Rightarrow> bool" where
  "all_evidence_backed_independently s = (vs_findings s \<noteq> {} \<and> vs_findings s = vs_evidenced s)"

definition finding_by_id :: "obs_graph \<Rightarrow> (string \<times> observation) list" where
  "finding_by_id g = foldl (\<lambda>d f. dict_set (ob_id f) f d) [] (by_kind Finding g)"

definition evidence_parent_ids :: "obs_graph \<Rightarrow> string list" where
  "evidence_parent_ids g = concat (map ob_parents (by_kind Evidence g))"

text \<open>The body of the inner loop: one parent of one validation.\<close>

definition visit_validation_parent ::
  "(string \<times> observation) list \<Rightarrow> string list \<Rightarrow> observation \<Rightarrow>
   validation_state \<Rightarrow> string \<Rightarrow> validation_state" where
  "visit_validation_parent findings evp v s pid =
     (case map_of findings pid of
        None \<Rightarrow> s
      | Some f \<Rightarrow>
          (let s1 = s\<lparr>vs_attempted := insert pid (vs_attempted s)\<rparr> in
           if ob_value v = ''observed'' \<and> ob_source v \<noteq> ob_source f
           then (let s2 = s1\<lparr>vs_observed := insert pid (vs_observed s1)\<rparr> in
                 if ob_id v \<in> set evp then s2\<lparr>vs_evidenced := insert pid (vs_evidenced s2)\<rparr> else s2)
           else s1))"

definition analyze_validation_state :: "obs_graph \<Rightarrow> validation_state" where
  "analyze_validation_state g =
     (let findings = finding_by_id g; evp = evidence_parent_ids g;
          s0 = \<lparr>vs_findings = set (map fst findings), vs_attempted = {}, vs_observed = {}, vs_evidenced = {}\<rparr> in
      foldl (\<lambda>s v. foldl (visit_validation_parent findings evp v) s (ob_parents v))
        s0 (by_kind Validation g))"

definition has_observed_independent_validation :: "obs_graph \<Rightarrow> string \<Rightarrow> bool" where
  "has_observed_independent_validation g fid = (fid \<in> vs_observed (analyze_validation_state g))"

definition has_evidence_backed_independent_validation :: "obs_graph \<Rightarrow> string \<Rightarrow> bool" where
  "has_evidence_backed_independent_validation g fid = (fid \<in> vs_evidenced (analyze_validation_state g))"

section \<open>What the loop computes\<close>

text \<open>\<open>attempts g v f\<close>: \<open>v\<close> is a validation that names the finding \<open>f\<close> as a parent;
  \<open>observes g v f\<close>: and it observed it, from another source.\<close>

definition attempts :: "obs_graph \<Rightarrow> observation \<Rightarrow> observation \<Rightarrow> bool" where
  "attempts g v f \<longleftrightarrow> v \<in> set (by_kind Validation g) \<and> f \<in> set (by_kind Finding g) \<and>
     ob_id f \<in> set (ob_parents v)"

definition observes :: "obs_graph \<Rightarrow> observation \<Rightarrow> observation \<Rightarrow> bool" where
  "observes g v f \<longleftrightarrow> attempts g v f \<and> ob_value v = ''observed'' \<and> ob_source v \<noteq> ob_source f"

definition evidenced :: "obs_graph \<Rightarrow> observation \<Rightarrow> bool" where
  "evidenced g v \<longleftrightarrow> (\<exists>e \<in> set (by_kind Evidence g). ob_id v \<in> set (ob_parents e))"

lemma map_of_foldl_dict_set:
  "distinct (map key xs) \<Longrightarrow>
   map_of (foldl (\<lambda>d x. dict_set (key x) x d) d xs) k =
     (case filter (\<lambda>x. key x = k) xs of [] \<Rightarrow> map_of d k | x # _ \<Rightarrow> Some x)"
proof (induction xs arbitrary: d)
  case (Cons x xs)
  show ?case
  proof (cases "key x = k")
    case True
    with Cons.prems have "filter (\<lambda>x. key x = k) xs = []" by (force simp: filter_empty_conv image_iff)
    with True Cons show ?thesis by simp
  next
    case False
    with Cons show ?thesis by (auto split: list.splits)
  qed
qed simp

lemma keys_foldl_dict_set:
  "fst ` set (foldl (\<lambda>d x. dict_set (key x) x d) d xs) = fst ` set d \<union> key ` set xs"
  by (induction xs arbitrary: d) auto

lemma graph_ok_from_ids:
  "graph_ok_from seen g \<Longrightarrow> distinct (map ob_id (graph_values g)) \<and>
     ob_id ` set (graph_values g) \<inter> seen = {} \<and> map fst g = map ob_id (graph_values g)"
  by (induction seen g rule: graph_ok_from.induct) (auto simp: graph_values_def)

lemma graph_ok_distinct: "graph_ok g \<Longrightarrow> distinct (map ob_id (graph_values g))"
  using graph_ok_from_ids by (auto simp: graph_ok_def)

lemma distinct_by_kind: "graph_ok g \<Longrightarrow> distinct (map ob_id (by_kind k g))"
  by (simp add: by_kind_def distinct_map_filter graph_ok_distinct)

lemma by_kind_inj: "graph_ok g \<Longrightarrow> a \<in> set (by_kind k g) \<Longrightarrow> b \<in> set (by_kind k' g) \<Longrightarrow>
    ob_id a = ob_id b \<Longrightarrow> a = b"
  using graph_ok_distinct [of g] by (auto simp: by_kind_def distinct_map dest: inj_onD)

lemma finding_by_id_Some:
  "graph_ok g \<Longrightarrow> map_of (finding_by_id g) k = Some f \<longleftrightarrow> f \<in> set (by_kind Finding g) \<and> ob_id f = k"
proof -
  assume ok: "graph_ok g"
  let ?ys = "filter (\<lambda>x. ob_id x = k) (by_kind Finding g)"
  have mo: "map_of (finding_by_id g) k = (case ?ys of [] \<Rightarrow> None | x # _ \<Rightarrow> Some x)"
    using map_of_foldl_dict_set [OF distinct_by_kind [OF ok, of Finding], of "[]" k]
    by (simp add: finding_by_id_def cong: list.case_cong)
  have mem: "x \<in> set ?ys \<longleftrightarrow> x \<in> set (by_kind Finding g) \<and> ob_id x = k" for x by simp
  show ?thesis
  proof (cases ?ys)
    case Nil
    then show ?thesis using mo mem [of f] by simp
  next
    case (Cons x xs)
    then have x: "x \<in> set (by_kind Finding g)" "ob_id x = k" using mem [of x] by auto
    have "f = x" if "f \<in> set (by_kind Finding g)" "ob_id f = k"
      using by_kind_inj [OF ok that(1) x(1)] that x by simp
    with x Cons mo show ?thesis by auto
  qed
qed

lemma finding_by_id_keys: "set (map fst (finding_by_id g)) = ob_id ` set (by_kind Finding g)"
  by (simp add: finding_by_id_def keys_foldl_dict_set)

lemma evidenced_iff: "ob_id v \<in> set (evidence_parent_ids g) \<longleftrightarrow> evidenced g v"
  by (auto simp: evidence_parent_ids_def evidenced_def)

lemma visit_eq:
  "visit_validation_parent fs evp v s p =
   s\<lparr>vs_attempted := vs_attempted s \<union> {q. q = p \<and> map_of fs q \<noteq> None},
     vs_observed := vs_observed s \<union> {q. q = p \<and> (\<exists>f. map_of fs q = Some f \<and>
        ob_value v = ''observed'' \<and> ob_source v \<noteq> ob_source f)},
     vs_evidenced := vs_evidenced s \<union> {q. q = p \<and> (\<exists>f. map_of fs q = Some f \<and>
        ob_value v = ''observed'' \<and> ob_source v \<noteq> ob_source f \<and> ob_id v \<in> set evp)}\<rparr>"
  by (cases "map_of fs p")
    (auto simp: visit_validation_parent_def Let_def intro!: validation_state.equality)

lemma inner_loop:
  "foldl (visit_validation_parent fs evp v) s ps =
   s\<lparr>vs_attempted := vs_attempted s \<union> {p. p \<in> set ps \<and> map_of fs p \<noteq> None},
     vs_observed := vs_observed s \<union> {p. p \<in> set ps \<and> (\<exists>f. map_of fs p = Some f \<and>
        ob_value v = ''observed'' \<and> ob_source v \<noteq> ob_source f)},
     vs_evidenced := vs_evidenced s \<union> {p. p \<in> set ps \<and> (\<exists>f. map_of fs p = Some f \<and>
        ob_value v = ''observed'' \<and> ob_source v \<noteq> ob_source f \<and> ob_id v \<in> set evp)}\<rparr>"
proof (induction ps arbitrary: s)
  case (Cons p ps)
  show ?case
    unfolding foldl_Cons Cons visit_eq [of fs evp v s p] by (rule validation_state.equality) auto
qed simp

lemma outer_loop:
  "foldl (\<lambda>s v. foldl (visit_validation_parent fs evp v) s (ob_parents v)) s vs =
   s\<lparr>vs_attempted := vs_attempted s \<union> {p. \<exists>v \<in> set vs. p \<in> set (ob_parents v) \<and> map_of fs p \<noteq> None},
     vs_observed := vs_observed s \<union> {p. \<exists>v \<in> set vs. p \<in> set (ob_parents v) \<and>
        (\<exists>f. map_of fs p = Some f \<and> ob_value v = ''observed'' \<and> ob_source v \<noteq> ob_source f)},
     vs_evidenced := vs_evidenced s \<union> {p. \<exists>v \<in> set vs. p \<in> set (ob_parents v) \<and>
        (\<exists>f. map_of fs p = Some f \<and> ob_value v = ''observed'' \<and> ob_source v \<noteq> ob_source f
             \<and> ob_id v \<in> set evp)}\<rparr>"
proof (induction vs arbitrary: s)
  case (Cons v vs)
  show ?case
    unfolding foldl_Cons Cons inner_loop [of fs evp v s "ob_parents v"] by (rule validation_state.equality) auto
qed simp

lemma analyze_findings: "vs_findings (analyze_validation_state g) = ob_id ` set (by_kind Finding g)"
  by (simp add: analyze_validation_state_def Let_def outer_loop finding_by_id_keys del: set_map)

lemma analyze_attempted:
  "graph_ok g \<Longrightarrow> vs_attempted (analyze_validation_state g) = {ob_id f |f. \<exists>v. attempts g v f}"
  by (auto simp: analyze_validation_state_def Let_def outer_loop attempts_def finding_by_id_Some)

lemma analyze_observed:
  "graph_ok g \<Longrightarrow> vs_observed (analyze_validation_state g) = {ob_id f |f. \<exists>v. observes g v f}"
  by (auto simp: analyze_validation_state_def Let_def outer_loop attempts_def observes_def
      finding_by_id_Some)

lemma analyze_evidenced:
  "graph_ok g \<Longrightarrow> vs_evidenced (analyze_validation_state g) =
     {ob_id f |f. \<exists>v. observes g v f \<and> evidenced g v}"
  by (auto simp: analyze_validation_state_def Let_def outer_loop attempts_def observes_def
      finding_by_id_Some evidenced_iff)

lemmas analyze_sets = analyze_findings analyze_attempted analyze_observed analyze_evidenced

lemma validation_inclusions:
  assumes "graph_ok g"
  shows "vs_evidenced (analyze_validation_state g) \<subseteq> vs_observed (analyze_validation_state g)"
    and "vs_observed (analyze_validation_state g) \<subseteq> vs_attempted (analyze_validation_state g)"
    and "vs_attempted (analyze_validation_state g) \<subseteq> vs_findings (analyze_validation_state g)"
  using assms by (auto simp: analyze_sets observes_def attempts_def)

text \<open>Adding an observation never withdraws a validation.\<close>

lemma by_kind_snoc: "set (by_kind k g) \<subseteq> set (by_kind k (g @ [x]))"
  by (auto simp: by_kind_def graph_values_def)

lemma observes_mono: "observes g v f \<Longrightarrow> observes (g @ [x]) v f"
  using by_kind_snoc [of _ g x] by (auto simp: observes_def attempts_def)

lemma evidenced_mono: "evidenced g v \<Longrightarrow> evidenced (g @ [x]) v"
  using by_kind_snoc [of _ g x] by (auto simp: evidenced_def)

end
