(* ===== verification/Planner.thy ===== *)
theory Planner
  imports CampaignModel ValidationState
begin

text \<open>
  \<open>backend/app/planner_limits.py\<close> and \<open>AdaptivePlanner.plan\<close> of
  \<open>backend/app/observation_graph.py\<close>: the next action of a campaign, from its rules, its graph and
  the status of its findings. The environment is a function from variable names.
\<close>



section \<open>Limits\<close>

record planner_limits =
  max_observations :: int
  max_endpoints :: int
  max_findings :: int

definition strict_positive_int :: "environ \<Rightarrow> string \<Rightarrow> int \<Rightarrow> int \<Rightarrow> int \<Rightarrow> int result" where
  "strict_positive_int env name dflt minimum maximum =
     (case env name of None \<Rightarrow> Inr dflt
      | Some raw \<Rightarrow>
         (case py_int raw of
            None \<Rightarrow> Inl (PlannerLimitConfigError (name @ '' must be an integer''))
          | Some v \<Rightarrow>
              if \<not> (minimum \<le> v \<and> v \<le> maximum) then
                Inl (PlannerLimitConfigError (name @ '' must be between '' @ int_str minimum @
                  '' and '' @ int_str maximum))
              else Inr v))"

definition planner_limits_of :: "environ \<Rightarrow> planner_limits result" where
  "planner_limits_of env =
     rbind (strict_positive_int env ''XBOW_PLANNER_MAX_OBSERVATIONS'' 5000 100 100000) (\<lambda>ob.
     rbind (strict_positive_int env ''XBOW_PLANNER_MAX_ENDPOINTS'' 1500 10 50000) (\<lambda>e.
     rbind (strict_positive_int env ''XBOW_PLANNER_MAX_FINDINGS'' 250 1 10000) (\<lambda>f.
       Inr \<lparr>max_observations = ob, max_endpoints = e, max_findings = f\<rparr>)))"

definition exceeded :: "string \<Rightarrow> nat \<Rightarrow> int \<Rightarrow> string" where
  "exceeded what n limit =
     ''planner '' @ what @ '' limit exceeded ('' @ int_str (int n) @ '' > '' @ int_str limit @ '')''"

definition planner_limit_violation :: "environ \<Rightarrow> obs_graph \<Rightarrow> string option result" where
  "planner_limit_violation env g =
     rbind (planner_limits_of env) (\<lambda>limits.
       let n = length (graph_values g); e = length (by_kind Endpoint g);
           f = length (by_kind Finding g) in
       Inr (if int n > max_observations limits
              then Some (exceeded ''observation'' n (max_observations limits))
            else if int e > max_endpoints limits
              then Some (exceeded ''endpoint'' e (max_endpoints limits))
            else if int f > max_findings limits
              then Some (exceeded ''finding'' f (max_findings limits))
            else None))"

section \<open>The plan\<close>

definition campaign_finding_id :: "observation \<Rightarrow> string" where
  "campaign_finding_id ob =
     (if py_startswith (ob_id ob) ''finding:'' then drop 8 (ob_id ob) else ob_id ob)"

definition act :: "action_kind \<Rightarrow> string option \<Rightarrow> string \<Rightarrow> int \<Rightarrow> planned_action" where
  "act k t r p = \<lparr>pa_kind = k, pa_target = t, pa_reason = r, pa_priority = p\<rparr>"

definition scan_completed :: "obs_graph \<Rightarrow> bool" where
  "scan_completed g = list_ex (\<lambda>e. py_eq (pget (ob_meta e) ''phase'') (PStr ''scan'') \<and>
     py_eq (pget (ob_meta e) ''status'') (PStr ''completed'')) (by_kind Evidence g)"

definition report_exists :: "obs_graph \<Rightarrow> bool" where
  "report_exists g =
     list_ex (\<lambda>e. py_eq (pget (ob_meta e) ''artifact_kind'') (PStr ''report'')) (by_kind Evidence g)"

definition resolved :: "finding \<Rightarrow> bool" where
  "resolved f = (f_status f \<in> {Confirmed, Rejected})"

text \<open>The decision once host, program rules and limits have been checked.\<close>

definition plan_progress :: "campaign \<Rightarrow> string \<Rightarrow> obs_graph \<Rightarrow> planned_action" where
  "plan_progress c host g =
     (let assets = by_kind Asset g; endpoints = by_kind Endpoint g; findings = by_kind Finding g;
          vs = analyze_validation_state g; stop = (\<lambda>r. act Stop (Some host) r 100) in
      if graph_values g = [] then act Inventory (Some host) ''no observations collected yet'' 100
      else if (findings \<noteq> [] \<or> c_findings c \<noteq> []) \<and>
              set (map campaign_finding_id findings) \<noteq> set (map f_id (c_findings c))
        then stop ''observation graph and campaign finding state are inconsistent''
      else if findings \<noteq> [] \<and> unresolved_finding_ids vs \<noteq> {} then
        (if unattempted_finding_ids vs \<noteq> {}
         then act Validate (Some host) ''findings still require independent validation'' 100
         else stop ''independent validation did not produce observed evidence for all findings'')
      else if findings \<noteq> [] \<and> unevidenced_finding_ids vs \<noteq> {}
        then stop ''independent validation is observed but lacks attached evidence''
      else if findings \<noteq> [] \<and> all_evidence_backed_independently vs then
        (if \<not> list_all resolved (c_findings c)
         then stop ''observed findings await explicit confirmation or rejection''
         else if \<not> list_ex (\<lambda>f. f_status f = Confirmed) (c_findings c)
         then stop ''all findings rejected; no report required''
         else if report_exists g then stop ''report artifact already exists''
         else act Report (Some host) ''confirmed findings are independently validated'' 70)
      else if endpoints \<noteq> [] \<and> findings = [] then
        (if scan_completed g then stop ''scan completed without recorded findings''
         else act Scan (Some host) ''endpoint inventory exists but no findings recorded'' 80)
      else if assets \<noteq> [] \<and> endpoints = []
        then act Crawl (Some host) ''asset inventory exists but endpoints are missing'' 90
      else stop ''no safe planner transition available'')"

text \<open>\<open>AdaptivePlanner.plan\<close>; the list it returns always holds one action.\<close>

definition plan :: "environ \<Rightarrow> campaign \<Rightarrow> obs_graph \<Rightarrow> planned_action list result" where
  "plan env c g =
     rbind (url_host (c_url c)) (\<lambda>host.
       Inr [if host = [] then act Stop None ''target has no hostname'' 100
            else if \<not> automated_scanning (c_rules c)
              then act Stop (Some host) ''automated scanning disabled by program rules'' 100
            else (case planner_limit_violation env g of
                Inl e \<Rightarrow> act Stop (Some host) ''invalid planner safety limit configuration'' 100
              | Inr (Some violation) \<Rightarrow> act Stop (Some host) violation 100
              | Inr None \<Rightarrow> plan_progress c host g)])"

section \<open>What an action says of the state\<close>

lemma act_simps [simp]:
  "pa_kind (act k t r p) = k" "pa_target (act k t r p) = t"
  "pa_reason (act k t r p) = r" "pa_priority (act k t r p) = p"
  by (simp_all add: act_def)

lemmas progress_splits = plan_progress_def Let_def

lemma plan_one: "plan env c g = Inr as \<Longrightarrow> \<exists>a. as = [a]"
  by (auto simp: plan_def)

lemma plan_active:
  assumes "plan env c g = Inr [a]" and "pa_kind a \<noteq> Stop"
  obtains host where "url_host (c_url c) = Inr host" "host \<noteq> []" "automated_scanning (c_rules c)"
    "planner_limit_violation env g = Inr None" "a = plan_progress c host g" "pa_target a = Some host"
proof -
  from assms(1) obtain host where host: "url_host (c_url c) = Inr host"
    by (auto simp: plan_def)
  with assms have *: "host \<noteq> []" "automated_scanning (c_rules c)"
    "planner_limit_violation env g = Inr None" "a = plan_progress c host g"
    by (auto simp: plan_def split: if_splits sum.splits option.splits)
  moreover have "pa_target (plan_progress c host g) = Some host"
    by (simp add: progress_splits)
  ultimately show thesis using that host by blast
qed

lemma report_conditions:
  assumes "pa_kind (plan_progress c host g) = Report"
  shows "vs_findings (analyze_validation_state g) = vs_evidenced (analyze_validation_state g)"
    and "set (map campaign_finding_id (by_kind Finding g)) = set (map f_id (c_findings c))"
    and "list_all resolved (c_findings c)" and "\<exists>f \<in> set (c_findings c). f_status f = Confirmed"
    and "\<not> report_exists g" and "by_kind Finding g \<noteq> []"
  using assms
  by (auto simp: progress_splits all_evidence_backed_independently_def list_ex_iff split: if_splits)

lemma validate_conditions:
  assumes "pa_kind (plan_progress c host g) = Validate"
  shows "unattempted_finding_ids (analyze_validation_state g) \<noteq> {}"
  using assms by (auto simp: progress_splits split: if_splits)

lemma scan_conditions:
  assumes "pa_kind (plan_progress c host g) = Scan"
  shows "by_kind Endpoint g \<noteq> []" and "by_kind Finding g = []" and "c_findings c = []"
    and "\<not> scan_completed g"
  using assms by (auto simp: progress_splits split: if_splits)

end
