(* ===== verification/EvidenceChain.thy ===== *)
theory EvidenceChain
  imports ValidationState
begin

text \<open>
  \<open>backend/app/evidence_chain.py\<close>: for each finding of a graph, its ancestors, its validations and
  evidence, the sources behind them, and what is missing for the chain to be complete.
\<close>

record evidence_chain =
  ec_finding_id :: string
  ec_ancestor_ids :: "string list"
  ec_validation_ids :: "string list"
  ec_evidence_ids :: "string list"
  ec_source_count :: nat
  ec_dangling :: "string list"
  ec_cycle :: bool
  ec_independent :: bool
  ec_complete :: bool
  ec_issues :: "string list"

section \<open>The walk over the ancestors\<close>

text \<open>The two sets and the flag the nested function \<open>visit\<close> updates; a set is kept as the list of
  what was added to it.\<close>

record walk =
  w_ancestors :: "string list"
  w_dangling :: "string list"
  w_cycle :: bool

function visit :: "obs_graph \<Rightarrow> string \<Rightarrow> string \<Rightarrow> string list \<Rightarrow> walk \<Rightarrow> walk" where
  "visit g start cur path w =
     (case map_of g cur of
        None \<Rightarrow> w\<lparr>w_dangling := cur # w_dangling w\<rparr>
      | Some ob \<Rightarrow>
          foldl (\<lambda>w p.
             if p \<in> set path \<or> p = start
             then w\<lparr>w_cycle := True, w_ancestors := p # w_ancestors w\<rparr>
             else visit g start p (path @ [cur]) (w\<lparr>w_ancestors := p # w_ancestors w\<rparr>))
            w (ob_parents ob))"
  by pat_completeness auto
termination
proof (relation "measure (\<lambda>(g, start, cur, path, w).
    2 * card (fst ` set g - set path) + (if cur \<in> set path then 1 else 0))", goal_cases)
  case 1
  then show ?case by simp
next
  case (2 g start cur path w ob w' p)
  let ?I = "fst ` set g"
  have cur: "cur \<in> ?I" using 2(1) by (force dest: map_of_SomeD)
  show ?case
  proof (cases "cur \<in> set path")
    case True
    with 2(3) have "p \<notin> set (path @ [cur])" and "set (path @ [cur]) = set path" by auto
    with True show ?thesis by simp
  next
    case False
    have "?I - set (path @ [cur]) \<subset> ?I - set path" using cur False by auto
    then have "card (?I - set (path @ [cur])) < card (?I - set path)"
      by (intro psubset_card_mono) auto
    with False show ?thesis by auto
  qed
qed

declare visit.simps [simp del]

definition ancestry_integrity :: "obs_graph \<Rightarrow> string \<Rightarrow> string list \<times> string list \<times> bool" where
  "ancestry_integrity g oid =
     (let w0 = \<lparr>w_ancestors = [], w_dangling = [], w_cycle = False\<rparr>;
          w = (if map_of g oid \<noteq> None then visit g oid oid [] w0 else w0) in
      (sorted_set (w_ancestors w), sorted_set (w_dangling w), w_cycle w))"

section \<open>Building the chains\<close>

definition validation_ids_of :: "obs_graph \<Rightarrow> string \<Rightarrow> string list" where
  "validation_ids_of g fid =
     sort (map ob_id (filter (\<lambda>v. fid \<in> set (ob_parents v)) (by_kind Validation g)))"

definition evidence_ids_of :: "obs_graph \<Rightarrow> string \<Rightarrow> string list \<Rightarrow> string list" where
  "evidence_ids_of g fid vids =
     sort (map ob_id (filter (\<lambda>e. fid \<in> set (ob_parents e) \<or>
       list_ex (\<lambda>p. p \<in> set vids) (ob_parents e)) (by_kind Evidence g)))"

definition related_sources :: "obs_graph \<Rightarrow> string list \<Rightarrow> string list" where
  "related_sources g ids =
     remdups (filter (\<lambda>s. py_strip s \<noteq> [])
       (concat (map (\<lambda>i. case map_of g i of None \<Rightarrow> [] | Some ob \<Rightarrow> [ob_source ob]) ids)))"

definition issue :: "bool \<Rightarrow> string \<Rightarrow> string list" where
  "issue b t = (if b then [t] else [])"

definition build_chain :: "obs_graph \<Rightarrow> validation_state \<Rightarrow> observation \<Rightarrow> evidence_chain" where
  "build_chain g vs f =
     (let fid = ob_id f; vids = validation_ids_of g fid; eids = evidence_ids_of g fid vids;
          (ancestors, dangling, cyc) = ancestry_integrity g fid;
          indep = (fid \<in> vs_observed vs);
          sources = related_sources g (fid # ancestors @ vids @ eids);
          issues = issue (ancestors = []) ''missing_upstream_context''
                 @ issue (dangling \<noteq> []) ''dangling_parent_reference''
                 @ issue cyc ''ancestry_cycle''
                 @ issue (vids = []) ''missing_validation''
                 @ issue (\<not> indep) ''missing_independent_observed_validation''
                 @ issue (eids = []) ''missing_evidence''
                 @ issue (length sources < 2) ''low_source_diversity'' in
      \<lparr>ec_finding_id = fid, ec_ancestor_ids = ancestors, ec_validation_ids = vids,
       ec_evidence_ids = eids, ec_source_count = length sources, ec_dangling = dangling,
       ec_cycle = cyc, ec_independent = indep, ec_complete = (issues = []),
       ec_issues = issues\<rparr>)"

definition build_evidence_chains :: "obs_graph \<Rightarrow> evidence_chain list" where
  "build_evidence_chains g =
     (let vs = analyze_validation_state g in
      sort_key (\<lambda>c. (ec_complete c, ec_finding_id c)) (map (build_chain g vs) (by_kind Finding g)))"

section \<open>The walk on a loaded graph\<close>

text \<open>\<open>parent_of g p c\<close>: the item \<open>c\<close> of the graph names \<open>p\<close> as a parent.\<close>

definition parent_rel :: "obs_graph \<Rightarrow> (string \<times> string) set" where
  "parent_rel g = {(c, p). \<exists>ob. map_of g c = Some ob \<and> p \<in> set (ob_parents ob)}"

fun index_of :: "obs_graph \<Rightarrow> string \<Rightarrow> nat" where
  "index_of [] k = 0"
| "index_of ((k', v) # g) k = (if k = k' then 0 else Suc (index_of g k))"

lemma graph_ok_from_parent:
  "graph_ok_from seen g \<Longrightarrow> map_of g c = Some ob \<Longrightarrow> p \<in> set (ob_parents ob) \<Longrightarrow>
   p \<in> seen \<or> (p \<in> graph_ids g \<and> index_of g p < index_of g c)"
proof (induction g arbitrary: seen)
  case (Cons x g)
  obtain k v where x: "x = (k, v)" by (cases x)
  show ?case
  proof (cases "c = k")
    case True
    with Cons.prems show ?thesis by (auto simp: x)
  next
    case False
    with Cons.prems have "graph_ok_from (insert k seen) g" "map_of g c = Some ob"
      by (auto simp: x)
    from Cons.IH [OF this Cons.prems(3)] False show ?thesis by (auto simp: x graph_ids_def)
  qed
qed simp

lemma graph_ok_parent:
  "graph_ok g \<Longrightarrow> (c, p) \<in> parent_rel g \<Longrightarrow> p \<in> graph_ids g \<and> index_of g p < index_of g c"
  using graph_ok_from_parent [of "{}" g] by (auto simp: graph_ok_def parent_rel_def)

lemma graph_ok_ancestor:
  "(c, p) \<in> (parent_rel g)\<^sup>+ \<Longrightarrow> graph_ok g \<Longrightarrow> p \<in> graph_ids g \<and> index_of g p < index_of g c"
  by (induction rule: trancl_induct) (auto dest: graph_ok_parent)

lemma graph_ok_acyclic: "graph_ok g \<Longrightarrow> (c, c) \<notin> (parent_rel g)\<^sup>+"
  using graph_ok_ancestor by fastforce

text \<open>On such a graph the walk meets neither cycle nor dangling reference, whatever the order, and
  collects exactly the proper ancestors.\<close>

lemma trancl_parent_unfold:
  assumes "map_of g cur = Some ob"
  shows "{a. (cur, a) \<in> (parent_rel g)\<^sup>+} =
    (\<Union>p \<in> set (ob_parents ob). insert p {a. (p, a) \<in> (parent_rel g)\<^sup>+})"
proof -
  have *: "(cur, x) \<in> parent_rel g \<longleftrightarrow> x \<in> set (ob_parents ob)" for x
    using assms by (auto simp: parent_rel_def)
  have "(cur, a) \<in> (parent_rel g)\<^sup>+ \<longleftrightarrow>
      (\<exists>p \<in> set (ob_parents ob). a = p \<or> (p, a) \<in> (parent_rel g)\<^sup>+)" for a
  proof
    assume "(cur, a) \<in> (parent_rel g)\<^sup>+"
    then obtain p where "(cur, p) \<in> parent_rel g" and "(p, a) \<in> (parent_rel g)\<^sup>*"
      by (blast dest: tranclD)
    with * show "\<exists>p \<in> set (ob_parents ob). a = p \<or> (p, a) \<in> (parent_rel g)\<^sup>+"
      by (auto dest: rtranclD)
  next
    assume "\<exists>p \<in> set (ob_parents ob). a = p \<or> (p, a) \<in> (parent_rel g)\<^sup>+"
    with * show "(cur, a) \<in> (parent_rel g)\<^sup>+"
      by (blast intro: trancl_into_trancl2)
  qed
  then show ?thesis by auto
qed

lemma foldl_walk:
  assumes "\<And>w p. p \<in> set ps \<Longrightarrow> w_dangling (f w p) = w_dangling w \<and> w_cycle (f w p) = w_cycle w \<and>
      set (w_ancestors (f w p)) = set (w_ancestors w) \<union> A p"
  shows "w_dangling (foldl f w ps) = w_dangling w \<and> w_cycle (foldl f w ps) = w_cycle w \<and>
      set (w_ancestors (foldl f w ps)) = set (w_ancestors w) \<union> (\<Union>p \<in> set ps. A p)"
  using assms by (induction ps arbitrary: w) auto

lemma visit_ok:
  assumes ok: "graph_ok g"
  shows "cur \<in> graph_ids g \<Longrightarrow> (\<And>q. q \<in> set path \<Longrightarrow> (q, cur) \<in> (parent_rel g)\<^sup>+) \<Longrightarrow>
    cur = start \<or> (start, cur) \<in> (parent_rel g)\<^sup>+ \<Longrightarrow>
    w_dangling (visit g start cur path w) = w_dangling w \<and>
    w_cycle (visit g start cur path w) = w_cycle w \<and>
    set (w_ancestors (visit g start cur path w)) =
      set (w_ancestors w) \<union> {a. (cur, a) \<in> (parent_rel g)\<^sup>+}"
proof (induction "index_of g cur" arbitrary: cur path w rule: less_induct)
  case less
  obtain ob where ob: "map_of g cur = Some ob"
    using less.prems(1) map_of_graph_ids_Some by blast
  let ?f = "\<lambda>w p. if p \<in> set path \<or> p = start
      then w\<lparr>w_cycle := True, w_ancestors := p # w_ancestors w\<rparr>
      else visit g start p (path @ [cur]) (w\<lparr>w_ancestors := p # w_ancestors w\<rparr>)"
  have step: "w_dangling (?f w p) = w_dangling w \<and> w_cycle (?f w p) = w_cycle w \<and>
      set (w_ancestors (?f w p)) = set (w_ancestors w) \<union> insert p {a. (p, a) \<in> (parent_rel g)\<^sup>+}"
    if p: "p \<in> set (ob_parents ob)" for w p
  proof -
    have rel: "(cur, p) \<in> parent_rel g" using ob p by (auto simp: parent_rel_def)
    then have up: "(q, p) \<in> (parent_rel g)\<^sup>+" if "q = cur \<or> (q, cur) \<in> (parent_rel g)\<^sup>+" for q
      using that by (auto intro: trancl.intros)
    have "p \<notin> set path" using less.prems(2) up graph_ok_acyclic [OF ok] by blast
    moreover have "p \<noteq> start" using less.prems(3) up graph_ok_acyclic [OF ok] by blast
    moreover have "index_of g p < index_of g cur" "p \<in> graph_ids g"
      using graph_ok_parent [OF ok rel] by auto
    moreover have "(q, p) \<in> (parent_rel g)\<^sup>+" if "q \<in> set (path @ [cur])" for q
      using that less.prems(2) up by auto
    moreover have "(start, p) \<in> (parent_rel g)\<^sup>+" using less.prems(3) up by blast
    ultimately show ?thesis
      using less.hyps [of p "path @ [cur]" "w\<lparr>w_ancestors := p # w_ancestors w\<rparr>"] by auto
  qed
  have "visit g start cur path w = foldl ?f w (ob_parents ob)"
    by (subst visit.simps) (simp add: ob)
  with foldl_walk [of "ob_parents ob" ?f "\<lambda>p. insert p {a. (p, a) \<in> (parent_rel g)\<^sup>+}" w, OF step]
  show ?case by (simp only: trancl_parent_unfold [OF ob])
qed

lemma ancestry_integrity_ok:
  assumes "graph_ok g" and "ancestry_integrity g oid = (anc, dang, cyc)" and "oid \<in> graph_ids g"
  shows "set anc = {a. (oid, a) \<in> (parent_rel g)\<^sup>+}" and "dang = []" and "\<not> cyc"
proof -
  let ?w0 = "\<lparr>w_ancestors = [], w_dangling = [], w_cycle = False\<rparr>"
  have v: "w_dangling (visit g oid oid [] ?w0) = [] \<and> \<not> w_cycle (visit g oid oid [] ?w0) \<and>
      set (w_ancestors (visit g oid oid [] ?w0)) = {a. (oid, a) \<in> (parent_rel g)\<^sup>+}"
    using visit_ok [OF assms(1,3), of "[]" oid ?w0] by simp
  have e: "anc = sorted_set (w_ancestors (visit g oid oid [] ?w0))"
    "dang = sorted_set (w_dangling (visit g oid oid [] ?w0))" "cyc = w_cycle (visit g oid oid [] ?w0)"
    using assms(2,3) by (auto simp: ancestry_integrity_def map_of_graph_ids Let_def)
  from v e show "set anc = {a. (oid, a) \<in> (parent_rel g)\<^sup>+}" and "dang = []" and "\<not> cyc"
    by auto
qed

end
