(* ===== verification/FindingReview.thy ===== *)
theory FindingReview
  imports CampaignModel EvidenceChain
begin

text \<open>
  \<open>backend/app/finding_correlation.py\<close> (the canonical URLs and the grouping of likely duplicates)
  and \<open>backend/app/finding_lifecycle.py\<close> (the advice on the next state of a finding).
\<close>

section \<open>Canonical URLs\<close>

text \<open>\<open>str.upper\<close> on code points below 256; the letters whose upper case lies beyond (and no
  other such letter shares it) stay as they are.\<close>

definition py_upper_char :: "char \<Rightarrow> string" where
  "py_upper_char c = (let n = (of_char c :: nat) in
     if (97 \<le> n \<and> n \<le> 122) \<or> (224 \<le> n \<and> n \<le> 254 \<and> n \<noteq> 247) then [char_of (n - 32)]
     else if n = 223 then ''SS'' else [c])"

definition py_upper :: "string \<Rightarrow> string" where
  "py_upper s = concat (map py_upper_char s)"

definition host_or_empty :: "split_result \<Rightarrow> string" where
  "host_or_empty u = rstrip_dot (py_lower (case sp_hostname u of None \<Rightarrow> [] | Some h \<Rightarrow> h))"

definition canonical_url :: "string option \<Rightarrow> string option result" where
  "canonical_url v =
     (case v of None \<Rightarrow> Inr None
      | Some value \<Rightarrow>
        if value = [] then Inr None
        else rbind (urlsplit value) (\<lambda>u.
          let host = host_or_empty u; scheme = sp_scheme u in
          if scheme = [] \<or> host = [] then Inr (Some (py_lower (py_strip value)))
          else (let port = (case sp_port u of Inl _ \<Rightarrow> None | Inr p \<Rightarrow> p);
                    netloc = (case port of None \<Rightarrow> host
                      | Some p \<Rightarrow>
                          if p \<noteq> 0 \<and> \<not> ((py_lower scheme = ''http'' \<and> p = 80) \<or>
                                          (py_lower scheme = ''https'' \<and> p = 443))
                          then host @ '':'' @ int_str p else host);
                    path = (if sp_path u = [] then ''/'' else sp_path u) in
                Inr (Some (py_lower scheme @ ''://'' @ netloc @ path)))))"

section \<open>Correlation\<close>

primrec severity_rank :: "severity \<Rightarrow> int" where
  "severity_rank SInfo = 0"
| "severity_rank SLow = 1"
| "severity_rank SMedium = 2"
| "severity_rank SHigh = 3"
| "severity_rank SCritical = 4"

type_synonym group_key = "string \<times> string option \<times> string option \<times> string option"

record finding_correlation =
  fc_key :: string
  fc_ids :: "string list"
  fc_asset :: string
  fc_endpoint :: "string option"
  fc_cwe :: "string option"
  fc_highest :: severity
  fc_duplicate :: bool
  fc_sources :: "string list"
  fc_source_count :: nat
  fc_multi_scanner :: bool

definition or_else :: "string option \<Rightarrow> string option \<Rightarrow> string option" where
  "or_else a b = (case a of None \<Rightarrow> b | Some s \<Rightarrow> if s = [] then b else a)"

definition dash :: "string option \<Rightarrow> string" where
  "dash v = (case v of None \<Rightarrow> ''-'' | Some s \<Rightarrow> if s = [] then ''-'' else s)"

definition group_key_of :: "finding \<Rightarrow> group_key result" where
  "group_key_of f =
     rbind (canonical_url (Some (f_asset f))) (\<lambda>ca.
     rbind (canonical_url (f_endpoint f)) (\<lambda>endpoint.
       let asset = (case ca of Some (c # cs) \<Rightarrow> c # cs | _ \<Rightarrow> py_lower (py_strip (f_asset f)));
           cwe = (if truthy (f_cwe f) then map_option (\<lambda>s. py_upper (py_strip s)) (f_cwe f) else None);
           title = (if f_title f \<noteq> [] then Some (py_lower (py_strip (f_title f))) else None) in
       Inr (asset, endpoint, cwe, or_else cwe title)))"

text \<open>\<open>grouped.setdefault(key, []).append(finding)\<close>.\<close>

definition group_add :: "(group_key \<times> finding list) list \<Rightarrow> group_key \<Rightarrow> finding \<Rightarrow>
    (group_key \<times> finding list) list" where
  "group_add d k f = dict_set k ((case map_of d k of None \<Rightarrow> [] | Some fs \<Rightarrow> fs) @ [f]) d"

fun group_findings :: "(group_key \<times> finding list) list \<Rightarrow> finding list \<Rightarrow>
    (group_key \<times> finding list) list result" where
  "group_findings d [] = Inr d"
| "group_findings d (f # fs) = rbind (group_key_of f) (\<lambda>k. group_findings (group_add d k f) fs)"

definition highest_severity :: "finding list \<Rightarrow> severity" where
  "highest_severity fs =
     foldl (\<lambda>b f. if severity_rank (f_severity f) > severity_rank b then f_severity f else b)
       (f_severity (hd fs)) (tl fs)"

definition correlate_group :: "group_key \<times> finding list \<Rightarrow> finding_correlation" where
  "correlate_group kv =
     (case kv of ((asset, endpoint, cwe, strong), items) \<Rightarrow>
      (let ordered = sort_key f_id items;
           dup = (length ordered > 1 \<and> (truthy endpoint \<or> truthy cwe));
           sources = sorted_set (filter (\<lambda>s. s \<noteq> [])
             (map (\<lambda>f. take 80 (py_strip (f_discovered_by f))) ordered)) in
       \<lparr>fc_key = py_join ''|'' [asset, dash endpoint, dash cwe, dash strong],
        fc_ids = map f_id ordered, fc_asset = asset, fc_endpoint = endpoint, fc_cwe = cwe,
        fc_highest = highest_severity ordered, fc_duplicate = dup, fc_sources = sources,
        fc_source_count = length sources, fc_multi_scanner = (dup \<and> 2 \<le> length sources)\<rparr>))"

definition correlate_findings :: "finding list \<Rightarrow> finding_correlation list result" where
  "correlate_findings fs = rbind (group_findings [] fs) (\<lambda>grouped.
     Inr (sort_key (\<lambda>c. (\<not> fc_duplicate c, - severity_rank (fc_highest c), fc_key c))
       (map correlate_group grouped)))"

section \<open>Lifecycle advice\<close>

record lifecycle_advice =
  la_finding_id :: string
  la_current :: string
  la_recommended :: string
  la_allowed :: bool
  la_prerequisites :: "string list"
  la_human :: bool
  la_graph_observed :: bool
  la_integrity_ok :: bool

definition review_prerequisites :: "bool \<Rightarrow> bool \<Rightarrow> bool \<Rightarrow> string list" where
  "review_prerequisites indep chain_complete duplicate =
     issue (\<not> indep) ''independent_validation'' @
     issue (\<not> chain_complete) ''complete_evidence_chain'' @
     issue duplicate ''duplicate_review''"

definition lifecycle_advice_for ::
  "obs_graph \<Rightarrow> validation_state \<Rightarrow> evidence_chain list \<Rightarrow> string list \<Rightarrow> finding \<Rightarrow> lifecycle_advice" where
  "lifecycle_advice_for g vs ecs dup_ids f =
     (let gid = ''finding:'' @ f_id f;
          chain = map_of (rev (map (\<lambda>c. (ec_finding_id c, c)) ecs)) gid;
          indep = (gid \<in> vs_observed vs);
          compl = (case chain of None \<Rightarrow> False | Some c \<Rightarrow> ec_complete c);
          integrity = (case chain of None \<Rightarrow> False | Some c \<Rightarrow> \<not> ec_cycle c \<and> ec_dangling c = []);
          duplicate = (f_id f \<in> set dup_ids);
          prereq = review_prerequisites indep compl duplicate;
          (recommended, allowed, prerequisites, human) =
            (case f_status f of
               Candidate \<Rightarrow> (''validation_required'', True, [], False)
             | ValidationRequired \<Rightarrow> (''human_confirm_or_reject'', prereq = [], prereq, True)
             | Confirmed \<Rightarrow> (''human_report_review'', prereq = [], prereq, True)
             | Rejected \<Rightarrow> (''terminal'', False, [], False)) in
      \<lparr>la_finding_id = f_id f, la_current = status_value (f_status f), la_recommended = recommended,
       la_allowed = allowed, la_prerequisites = prerequisites, la_human = human,
       la_graph_observed = (gid \<in> ob_id ` set (by_kind Finding g)), la_integrity_ok = integrity\<rparr>)"

definition build_finding_lifecycle :: "finding list \<Rightarrow> obs_graph \<Rightarrow> lifecycle_advice list result" where
  "build_finding_lifecycle fs g =
     rbind (correlate_findings fs) (\<lambda>groups.
       let vs = analyze_validation_state g; ecs = build_evidence_chains g;
           dup_ids = concat (map fc_ids (filter fc_duplicate groups)) in
       Inr (sort_key (\<lambda>a. (la_finding_id a, la_current a))
         (map (lifecycle_advice_for g vs ecs dup_ids) fs)))"

section \<open>Grouping is a partition\<close>

lemma group_findings_spec:
  assumes "group_findings d fs = Inr d'" and "distinct (map fst d)"
  shows "distinct (map fst d') \<and> (case map_of d' k of None \<Rightarrow> [] | Some gs \<Rightarrow> gs) =
      (case map_of d k of None \<Rightarrow> [] | Some gs \<Rightarrow> gs) @ filter (\<lambda>f. group_key_of f = Inr k) fs"
  using assms
proof (induction fs arbitrary: d)
  case (Cons f fs)
  then obtain k' where k': "group_key_of f = Inr k'" "group_findings (group_add d k' f) fs = Inr d'"
    by auto
  have dist: "distinct (map fst (group_add d k' f))"
    using Cons.prems(2) by (simp add: group_add_def)
  have "(case map_of (group_add d k' f) k of None \<Rightarrow> [] | Some gs \<Rightarrow> gs) =
      (case map_of d k of None \<Rightarrow> [] | Some gs \<Rightarrow> gs) @ (if k = k' then [f] else [])"
    by (simp add: group_add_def)
  with Cons.IH [OF k'(2) dist] k'(1) show ?case by auto
qed simp

lemma group_findings_entries:
  assumes "group_findings [] fs = Inr d" and "(k, gs) \<in> set d"
  shows "gs = filter (\<lambda>f. group_key_of f = Inr k) fs"
proof -
  from group_findings_spec [OF assms(1), of k] have dist: "distinct (map fst d)"
    and eq: "(case map_of d k of None \<Rightarrow> [] | Some gs \<Rightarrow> gs) = filter (\<lambda>f. group_key_of f = Inr k) fs"
    by auto
  from dist assms(2) have "map_of d k = Some gs" by simp
  with eq show ?thesis by simp
qed

lemma group_findings_covers:
  assumes "group_findings [] fs = Inr d" and "f \<in> set fs"
  obtains k gs where "(k, gs) \<in> set d" and "group_key_of f = Inr k" and "f \<in> set gs"
proof -
  have keys: "\<exists>k. group_key_of f = Inr k" if "group_findings d0 fs = Inr d" for d0
    using that assms(2) by (induction fs arbitrary: d0) auto
  then obtain k where k: "group_key_of f = Inr k" using assms(1) by blast
  have "(case map_of d k of None \<Rightarrow> [] | Some gs \<Rightarrow> gs) = filter (\<lambda>f. group_key_of f = Inr k) fs"
    using group_findings_spec [OF assms(1), of k] by auto
  with k assms(2) obtain gs where "map_of d k = Some gs" and "f \<in> set gs"
    by (cases "map_of d k") (auto simp: filter_eq_Cons_iff dest!: arg_cong [where f = set])
  with k that show thesis by (blast dest: map_of_SomeD)
qed

lemma correlate_member:
  assumes "correlate_findings fs = Inr cs" and "c \<in> set cs"
  obtains d k gs where "group_findings [] fs = Inr d" "(k, gs) \<in> set d" "c = correlate_group (k, gs)"
    "gs = filter (\<lambda>f. group_key_of f = Inr k) fs"
proof -
  from assms obtain d where d: "group_findings [] fs = Inr d" "c \<in> correlate_group ` set d"
    by (auto simp: correlate_findings_def simp del: split_paired_Ex)
  then obtain k gs where "(k, gs) \<in> set d" "c = correlate_group (k, gs)" by (metis imageE surj_pair)
  with that d(1) group_findings_entries show thesis by blast
qed

lemma correlate_group_ids: "set (fc_ids (correlate_group (k, gs))) = f_id ` set gs"
  by (cases k) (simp add: correlate_group_def Let_def)

lemma severity_fold:
  "severity_rank (foldl (\<lambda>b f. if severity_rank (f_severity f) > severity_rank b then f_severity f else b) s fs)
    = fold max (map (\<lambda>f. severity_rank (f_severity f)) fs) (severity_rank s)"
  by (induction fs arbitrary: s) (auto simp: max_def)

lemma fold_max_ge: "x \<in> insert a (set xs) \<Longrightarrow> x \<le> fold max xs (a :: int)"
  by (simp add: Max.set_eq_fold [symmetric])

lemma highest_severity_ge: "f \<in> set fs \<Longrightarrow> severity_rank (f_severity f) \<le> severity_rank (highest_severity fs)"
  by (cases fs) (auto simp: highest_severity_def severity_fold intro: fold_max_ge)

section \<open>What advice presupposes\<close>

lemma build_chain_finding_id [simp]: "ec_finding_id (build_chain g vs f) = ob_id f"
  by (simp add: build_chain_def Let_def case_prod_beta)

lemma build_chain_complete:
  "ec_complete (build_chain g vs f) \<longleftrightarrow>
     ec_ancestor_ids (build_chain g vs f) \<noteq> [] \<and> ec_dangling (build_chain g vs f) = [] \<and>
     \<not> ec_cycle (build_chain g vs f) \<and> ec_validation_ids (build_chain g vs f) \<noteq> [] \<and>
     ob_id f \<in> vs_observed vs \<and> ec_evidence_ids (build_chain g vs f) \<noteq> [] \<and>
     2 \<le> ec_source_count (build_chain g vs f)"
  by (auto simp: build_chain_def Let_def case_prod_beta issue_def)

lemma chain_lookup:
  assumes "map_of (rev (map (\<lambda>c. (ec_finding_id c, c)) (build_evidence_chains g))) k = Some c"
  obtains f where "f \<in> set (by_kind Finding g)" "ob_id f = k"
    "c = build_chain g (analyze_validation_state g) f"
proof -
  from map_of_SomeD [OF assms] have "c \<in> set (build_evidence_chains g)" "k = ec_finding_id c" by auto
  then show thesis using that by (auto simp: build_evidence_chains_def Let_def)
qed

lemma advice_allowed:
  assumes "la_allowed (lifecycle_advice_for g (analyze_validation_state g) (build_evidence_chains g) ds f)"
    and "f_status f \<noteq> Candidate"
  shows "f_status f \<noteq> Rejected" and "f_id f \<notin> set ds"
    and "\<exists>ob \<in> set (by_kind Finding g). ob_id ob = ''finding:'' @ f_id f \<and>
          ec_complete (build_chain g (analyze_validation_state g) ob)"
proof -
  let ?a = "map_of (rev (map (\<lambda>c. (ec_finding_id c, c)) (build_evidence_chains g))) (''finding:'' @ f_id f)"
  from assms have st: "f_status f \<in> {ValidationRequired, Confirmed}"
    and pre: "review_prerequisites (''finding:'' @ f_id f \<in> vs_observed (analyze_validation_state g))
      (case ?a of None \<Rightarrow> False | Some c \<Rightarrow> ec_complete c) (f_id f \<in> set ds) = []"
    by (auto simp: lifecycle_advice_for_def Let_def split: finding_status.splits)
  from st show "f_status f \<noteq> Rejected" by auto
  from pre show "f_id f \<notin> set ds" by (auto simp: review_prerequisites_def issue_def)
  from pre obtain c where "?a = Some c" "ec_complete c"
    by (auto simp: review_prerequisites_def issue_def split: if_splits option.splits)
  then show "\<exists>ob \<in> set (by_kind Finding g). ob_id ob = ''finding:'' @ f_id f \<and>
      ec_complete (build_chain g (analyze_validation_state g) ob)"
    by (auto elim!: chain_lookup)
qed

end
