(* ===== verification/JobModel.thy ===== *)
theory JobModel
  imports PyData
begin

text \<open>
  What the two job queues of the repository share: the row of a job, the checks on the arguments
  of their operations, and the life cycle a job goes through. The life cycle is the contract
  both queues keep; what follows from it for every job, whatever the order of the operations, is
  proved once in the locale \<open>job_lifecycle\<close>. Instants are microseconds; an ISO 8601 text in UTC
  orders as its instant does. A payload is its canonical JSON text.
\<close>

datatype job_status = Queued | Running | Completed | Failed | Cancelled

record job =
  j_id :: string
  j_campaign :: string
  j_kind :: string
  j_payload :: string
  j_status :: job_status
  j_attempts :: int
  j_max :: int
  j_created :: int
  j_updated :: int
  j_claimed_by :: "string option"
  j_claimed_at :: "int option"
  j_error :: "string option"
  j_dedupe :: "string option"

definition allowed_kinds :: "string list" where
  "allowed_kinds = [''strix_scan'', ''nuclei_scan'', ''independent_validation'', ''browser_flow'',
     ''recon_task'', ''report'', ''pentagi_flow'', ''pentagi_status'']"

definition dedicated_kinds :: "string list" where
  "dedicated_kinds = [''pentagi_flow'', ''pentagi_status'']"

definition job_lease_seconds :: "environ \<Rightarrow> int result" where
  "job_lease_seconds env = bounded_env ''21600'' ''XBOW_JOB_LEASE_SECONDS must be an integer'' 60 86400
     ''XBOW_JOB_LEASE_SECONDS must be between 60 and 86400'' (env ''XBOW_JOB_LEASE_SECONDS'')"

definition max_job_payload_bytes :: "environ \<Rightarrow> int result" where
  "max_job_payload_bytes env = bounded_env ''65536'' ''XBOW_MAX_JOB_PAYLOAD_BYTES must be an integer''
     1024 1048576 ''XBOW_MAX_JOB_PAYLOAD_BYTES must be between 1 KiB and 1 MiB''
     (env ''XBOW_MAX_JOB_PAYLOAD_BYTES'')"

text \<open>The arguments of \<open>enqueue\<close> after its checks, common to both queues.\<close>

record enqueue_request =
  rq_campaign :: string
  rq_kind :: string
  rq_payload :: string
  rq_max :: int
  rq_dedupe :: "string option"

definition check_enqueue ::
  "environ \<Rightarrow> string \<Rightarrow> string \<Rightarrow> pyval \<Rightarrow> int \<Rightarrow> string option \<Rightarrow> enqueue_request result" where
  "check_enqueue env campaign_id kind payload max_attempts dedupe_key =
     rbind (bounded_identifier campaign_id ''campaign_id'') (\<lambda>cid.
     if kind \<notin> set allowed_kinds then Inl (ValueError ''unsupported job kind'')
     else if \<not> (1 \<le> max_attempts \<and> max_attempts \<le> 5) then Inl (ValueError ''max_attempts must be 1..5'')
     else rbind (case dedupe_key of None \<Rightarrow> Inr None
                 | Some k \<Rightarrow> rbind (bounded_identifier k ''dedupe_key'') (\<lambda>k'. Inr (Some k'))) (\<lambda>dk.
       let encoded = json_dumps True payload in
       rbind (max_job_payload_bytes env) (\<lambda>limit.
         if int (utf8_len encoded) > limit then Inl (ValueError ''job payload exceeds size limit'')
         else Inr \<lparr>rq_campaign = cid, rq_kind = kind, rq_payload = encoded, rq_max = max_attempts,
                   rq_dedupe = dk\<rparr>)))"

definition new_job :: "enqueue_request \<Rightarrow> string \<Rightarrow> int \<Rightarrow> job" where
  "new_job r jid now =
     \<lparr>j_id = jid, j_campaign = rq_campaign r, j_kind = rq_kind r, j_payload = rq_payload r,
      j_status = Queued, j_attempts = 0, j_max = rq_max r, j_created = now, j_updated = now,
      j_claimed_by = None, j_claimed_at = None, j_error = None, j_dedupe = rq_dedupe r\<rparr>"

text \<open>The normalisation of a cancel reason, and of the error text of \<open>finish\<close>.\<close>

definition cancel_reason :: "string \<Rightarrow> string option result" where
  "cancel_reason reason =
     (let r = py_strip reason; r' = (if length r > 4000 then py_last 4000 r else r) in
      if list_ex (\<lambda>c. (of_char c :: nat) < 32 \<and> c \<noteq> CHR 0x09) r'
      then Inl (ValueError ''cancel reason contains invalid characters'')
      else Inr (or_none (py_last 4000 r')))"

definition finish_error :: "string option \<Rightarrow> string option" where
  "finish_error e = (case e of None \<Rightarrow> None | Some s \<Rightarrow> or_none (py_last 4000 s))"

definition normalize_kinds :: "string list \<Rightarrow> string list result" where
  "normalize_kinds kinds =
     rbind (rmap (\<lambda>k. bounded_identifier k ''kind'') kinds) (\<lambda>ks.
       let normalized = dedup_first ks in
       if normalized = [] then Inl (ValueError ''at least one allowed job kind is required'')
       else if \<not> set normalized \<subseteq> set allowed_kinds then Inl (ValueError ''unsupported job kind'')
       else Inr normalized)"

section \<open>Changes of one row\<close>

definition release :: "job \<Rightarrow> job_status \<Rightarrow> string option \<Rightarrow> int \<Rightarrow> job" where
  "release j st err now =
     j\<lparr>j_status := st, j_updated := now, j_claimed_by := None, j_claimed_at := None, j_error := err\<rparr>"

definition claim_row :: "job \<Rightarrow> string \<Rightarrow> int \<Rightarrow> job" where
  "claim_row j w now =
     j\<lparr>j_status := Running, j_attempts := j_attempts j + 1, j_claimed_by := Some w,
       j_claimed_at := Some now, j_updated := now\<rparr>"

definition renew_row :: "job \<Rightarrow> int \<Rightarrow> job" where
  "renew_row j now = j\<lparr>j_claimed_at := Some now, j_updated := now\<rparr>"

definition owned_by :: "job \<Rightarrow> string \<Rightarrow> bool" where
  "owned_by j w = (j_status j = Running \<and> j_claimed_by j = Some w)"

text \<open>Where a job goes when its lease ran out, and when its owner finishes it.\<close>

definition expired_status :: "job \<Rightarrow> job_status" where
  "expired_status j = (if j_attempts j \<ge> j_max j then Failed else Queued)"

definition finish_status :: "job \<Rightarrow> bool \<Rightarrow> job_status" where
  "finish_status j success =
     (if success then Completed else if j_attempts j < j_max j then Queued else Failed)"

definition lease_expired_text :: string where
  "lease_expired_text = ''worker lease expired before completion''"

definition cancelled_text :: string where
  "cancelled_text = ''campaign cancelled before execution''"

lemma release_simps [simp]:
  "j_id (release j st e n) = j_id j" "j_campaign (release j st e n) = j_campaign j"
  "j_kind (release j st e n) = j_kind j" "j_payload (release j st e n) = j_payload j"
  "j_status (release j st e n) = st" "j_attempts (release j st e n) = j_attempts j"
  "j_max (release j st e n) = j_max j" "j_created (release j st e n) = j_created j"
  "j_claimed_by (release j st e n) = None" "j_claimed_at (release j st e n) = None"
  "j_dedupe (release j st e n) = j_dedupe j" "j_error (release j st e n) = e"
  "j_updated (release j st e n) = n"
  by (simp_all add: release_def)

lemma claim_row_simps [simp]:
  "j_id (claim_row j w n) = j_id j" "j_campaign (claim_row j w n) = j_campaign j"
  "j_kind (claim_row j w n) = j_kind j" "j_payload (claim_row j w n) = j_payload j"
  "j_status (claim_row j w n) = Running" "j_attempts (claim_row j w n) = j_attempts j + 1"
  "j_max (claim_row j w n) = j_max j" "j_created (claim_row j w n) = j_created j"
  "j_claimed_by (claim_row j w n) = Some w" "j_claimed_at (claim_row j w n) = Some n"
  "j_dedupe (claim_row j w n) = j_dedupe j"
  by (simp_all add: claim_row_def)

lemma renew_row_simps [simp]:
  "j_id (renew_row j n) = j_id j" "j_campaign (renew_row j n) = j_campaign j"
  "j_kind (renew_row j n) = j_kind j" "j_payload (renew_row j n) = j_payload j"
  "j_status (renew_row j n) = j_status j" "j_attempts (renew_row j n) = j_attempts j"
  "j_max (renew_row j n) = j_max j" "j_created (renew_row j n) = j_created j"
  "j_claimed_by (renew_row j n) = j_claimed_by j" "j_claimed_at (renew_row j n) = Some n"
  "j_dedupe (renew_row j n) = j_dedupe j"
  by (simp_all add: renew_row_def)

lemma new_job_simps [simp]:
  "j_id (new_job r i n) = i" "j_campaign (new_job r i n) = rq_campaign r"
  "j_kind (new_job r i n) = rq_kind r" "j_payload (new_job r i n) = rq_payload r"
  "j_status (new_job r i n) = Queued" "j_attempts (new_job r i n) = 0"
  "j_max (new_job r i n) = rq_max r" "j_created (new_job r i n) = n"
  "j_claimed_by (new_job r i n) = None" "j_claimed_at (new_job r i n) = None"
  "j_dedupe (new_job r i n) = rq_dedupe r"
  by (simp_all add: new_job_def)

lemma check_enqueue_Inr:
  assumes "check_enqueue env c k p m d = Inr r"
  shows "is_ident (rq_campaign r)" and "rq_kind r \<in> set allowed_kinds" and "1 \<le> rq_max r" and "rq_max r \<le> 5"
    and "rq_payload r = json_dumps True p" and "rq_kind r = k" and "rq_dedupe r = None \<longleftrightarrow> d = None"
    and "rq_campaign r = py_strip c" and "rq_dedupe r = map_option py_strip d"
  using assms
  by (auto simp: check_enqueue_def Let_def dest!: bounded_identifier_Inr split: if_splits option.splits)

section \<open>A well-formed row\<close>

text \<open>Attempts within the retry budget; a lease exactly while running; a queued job can be tried.\<close>

definition job_ok :: "job \<Rightarrow> bool" where
  "job_ok j \<longleftrightarrow> j_kind j \<in> set allowed_kinds \<and> 1 \<le> j_max j \<and> j_max j \<le> 5 \<and>
     0 \<le> j_attempts j \<and> j_attempts j \<le> j_max j \<and>
     (j_status j = Running \<longleftrightarrow> j_claimed_by j \<noteq> None) \<and>
     (j_status j = Running \<longleftrightarrow> j_claimed_at j \<noteq> None) \<and>
     (j_status j = Queued \<longrightarrow> j_attempts j < j_max j) \<and>
     (j_status j = Running \<longrightarrow> 1 \<le> j_attempts j)"

lemma job_ok_new: "check_enqueue env c k p m d = Inr r \<Longrightarrow> job_ok (new_job r i n)"
  using check_enqueue_Inr [of env c k p m d r] by (auto simp: job_ok_def)

lemma job_ok_claim: "job_ok j \<Longrightarrow> j_status j = Queued \<Longrightarrow> job_ok (claim_row j w n)"
  by (auto simp: job_ok_def)

lemma job_ok_renew: "job_ok j \<Longrightarrow> j_status j = Running \<Longrightarrow> job_ok (renew_row j n)"
  by (auto simp: job_ok_def)

lemma job_ok_release:
  "job_ok j \<Longrightarrow> st \<noteq> Running \<Longrightarrow> (st = Queued \<Longrightarrow> j_attempts j < j_max j) \<Longrightarrow> job_ok (release j st e n)"
  by (auto simp: job_ok_def)

lemma job_ok_expired: "job_ok j \<Longrightarrow> job_ok (release j (expired_status j) e n)"
  by (rule job_ok_release) (auto simp: expired_status_def split: if_splits)

lemma job_ok_finish: "job_ok j \<Longrightarrow> job_ok (release j (finish_status j s) e n)"
  by (rule job_ok_release) (auto simp: finish_status_def split: if_splits)

lemmas job_ok_rules = job_ok_new job_ok_claim job_ok_renew job_ok_expired job_ok_finish job_ok_release

section \<open>The life cycle\<close>

definition terminal :: "job_status \<Rightarrow> bool" where
  "terminal st = (st \<in> {Completed, Failed, Cancelled})"

text \<open>Two jobs in the same slot are the same piece of work.\<close>

definition slot :: "job \<Rightarrow> string \<times> string \<times> string option" where
  "slot j = (j_campaign j, j_kind j, j_dedupe j)"

text \<open>What identifies a job and never changes.\<close>

definition job_identity :: "job \<Rightarrow> string \<times> string \<times> string \<times> string \<times> int \<times> int \<times> string option" where
  "job_identity j = (j_id j, j_campaign j, j_kind j, j_payload j, j_max j, j_created j, j_dedupe j)"

text \<open>One permitted change of a row: it appears queued and untried; it is claimed; its lease is
  renewed by its owner; it is released, to the queue only while attempts are left; a queued job is
  cancelled, or failed when no attempt is left.\<close>

inductive job_trans :: "job option \<Rightarrow> job option \<Rightarrow> bool" where
  created: "j_status j = Queued \<Longrightarrow> j_attempts j = 0 \<Longrightarrow> job_ok j \<Longrightarrow> job_trans None (Some j)"
| claimed: "j_status j = Queued \<Longrightarrow> job_trans (Some j) (Some (claim_row j w n))"
| renewed: "j_status j = Running \<Longrightarrow> job_trans (Some j) (Some (renew_row j n))"
| released: "j_status j = Running \<Longrightarrow> st \<noteq> Running \<Longrightarrow> (st = Queued \<Longrightarrow> j_attempts j < j_max j) \<Longrightarrow>
    job_trans (Some j) (Some (release j st e n))"
| dropped: "j_status j = Queued \<Longrightarrow> st \<in> {Cancelled, Failed} \<Longrightarrow>
    job_trans (Some j) (Some (release j st e n))"

inductive_cases job_trans_SomeE [elim!]: "job_trans (Some j) r"
inductive_cases job_trans_NoneE [elim!]: "job_trans None r"
inductive_simps job_trans_to_None [simp]: "job_trans r None"

text \<open>
  A queue keeps the contract when the row of every identifier changes, in every step, by a
  finite sequence of permitted changes (a recovered job may be claimed in the same operation).
\<close>

definition row_steps :: "job option \<Rightarrow> job option \<Rightarrow> bool" where
  "row_steps = job_trans\<^sup>*\<^sup>*"

lemma row_steps_refl [simp, intro]: "row_steps r r"
  by (simp add: row_steps_def)

lemma row_steps_one: "job_trans r r' \<Longrightarrow> row_steps r r'"
  by (simp add: row_steps_def)

lemma row_steps_trans: "row_steps a b \<Longrightarrow> row_steps b c \<Longrightarrow> row_steps a c"
  by (auto simp: row_steps_def)

lemma row_steps_terminal:
  assumes "row_steps (Some j) r" and "terminal (j_status j)"
  shows "r = Some j"
proof -
  have "job_trans\<^sup>*\<^sup>* a r \<Longrightarrow> a = Some j \<Longrightarrow> r = Some j" for a
    by (induction rule: rtranclp_induct) (use assms(2) in \<open>auto simp: terminal_def\<close>)
  with assms(1) show ?thesis by (simp add: row_steps_def)
qed

lemma row_steps_identity:
  assumes "row_steps (Some j) r"
  shows "\<exists>j'. r = Some j' \<and> job_identity j' = job_identity j \<and> j_attempts j \<le> j_attempts j'"
proof -
  have "job_trans\<^sup>*\<^sup>* a r \<Longrightarrow> a = Some j \<Longrightarrow>
      \<exists>j'. r = Some j' \<and> job_identity j' = job_identity j \<and> j_attempts j \<le> j_attempts j'" for a
    by (induction rule: rtranclp_induct) (auto simp: job_identity_def)
  with assms show ?thesis by (simp add: row_steps_def)
qed

lemma row_steps_ok:
  assumes "row_steps r r'" and "\<And>j. r = Some j \<Longrightarrow> job_ok j" and "r' = Some j'"
  shows "job_ok j'"
proof -
  have "job_trans\<^sup>*\<^sup>* r r' \<Longrightarrow> (\<forall>j. r' = Some j \<longrightarrow> job_ok j)"
  proof (induction rule: rtranclp_induct)
    case base
    then show ?case using assms(2) by simp
  next
    case (step y z)
    from step(2,3) show ?case by cases (auto intro: job_ok_rules)
  qed
  with assms(1,3) show ?thesis by (simp add: row_steps_def)
qed

locale job_lifecycle =
  fixes step :: "'q \<Rightarrow> 'q \<Rightarrow> bool"
    and row :: "'q \<Rightarrow> string \<Rightarrow> job option"
    and inv :: "'q \<Rightarrow> bool"
    and start :: 'q
  assumes start_inv: "inv start"
    and start_row: "row start i = None"
    and step_inv: "inv q \<Longrightarrow> step q q' \<Longrightarrow> inv q'"
    and step_row: "inv q \<Longrightarrow> step q q' \<Longrightarrow> row_steps (row q i) (row q' i)"
begin

lemma run_inv: "step\<^sup>*\<^sup>* q q' \<Longrightarrow> inv q \<Longrightarrow> inv q'"
  by (induction rule: rtranclp_induct) (auto intro: step_inv)

lemma run_row: "step\<^sup>*\<^sup>* q q' \<Longrightarrow> inv q \<Longrightarrow> row_steps (row q i) (row q' i)"
proof (induction rule: rtranclp_induct)
  case (step y z)
  then have "row_steps (row q i) (row y i)" by blast
  moreover have "row_steps (row y i) (row z i)"
    using run_inv [OF step(1,4)] step(2) by (rule step_row)
  ultimately show ?case by (rule row_steps_trans)
qed simp

lemma reachable_inv: "step\<^sup>*\<^sup>* start q \<Longrightarrow> inv q"
  using run_inv start_inv by blast

lemma reachable_job_ok: "step\<^sup>*\<^sup>* start q \<Longrightarrow> row q i = Some j \<Longrightarrow> job_ok j"
  using run_row [OF _ start_inv, of q i] row_steps_ok start_row by fastforce

lemma terminal_forever:
  "step\<^sup>*\<^sup>* start q \<Longrightarrow> step\<^sup>*\<^sup>* q q' \<Longrightarrow> row q i = Some j \<Longrightarrow> terminal (j_status j) \<Longrightarrow> row q' i = Some j"
  using run_row [OF _ reachable_inv, of q q' i] row_steps_terminal by fastforce

lemma identity_forever:
  "step\<^sup>*\<^sup>* start q \<Longrightarrow> step\<^sup>*\<^sup>* q q' \<Longrightarrow> row q i = Some j \<Longrightarrow>
   \<exists>j'. row q' i = Some j' \<and> job_identity j' = job_identity j \<and> j_attempts j \<le> j_attempts j' \<and>
        j_attempts j' \<le> j_max j"
proof -
  assume r: "step\<^sup>*\<^sup>* start q" "step\<^sup>*\<^sup>* q q'" "row q i = Some j"
  then obtain j' where j': "row q' i = Some j'" "job_identity j' = job_identity j" "j_attempts j \<le> j_attempts j'"
    using run_row [OF r(2) reachable_inv [OF r(1)], of i] row_steps_identity by fastforce
  have "job_ok j'" using reachable_job_ok [OF rtranclp_trans [OF r(1,2)] j'(1)] .
  with j' show ?thesis by (auto simp: job_ok_def job_identity_def)
qed

lemma bounded_forever:
  "step\<^sup>*\<^sup>* start q \<Longrightarrow> step\<^sup>*\<^sup>* q q' \<Longrightarrow> row q i = Some j \<Longrightarrow>
   \<exists>j'. row q' i = Some j' \<and> job_identity j' = job_identity j \<and> j_attempts j \<le> j_attempts j' \<and>
        j_attempts j' \<le> j_max j \<and> j_max j \<le> 5 \<and> (j_status j' = Running \<longleftrightarrow> j_claimed_by j' \<noteq> None)"
proof -
  assume r: "step\<^sup>*\<^sup>* start q" "step\<^sup>*\<^sup>* q q'" "row q i = Some j"
  from identity_forever [OF r] obtain j' where j': "row q' i = Some j'" "job_identity j' = job_identity j"
    "j_attempts j \<le> j_attempts j'" "j_attempts j' \<le> j_max j" by blast
  have "job_ok j'" using reachable_job_ok [OF rtranclp_trans [OF r(1,2)] j'(1)] .
  with j' show ?thesis by (auto simp: job_ok_def job_identity_def)
qed

end

end
