(* ===== verification/JobQueue.thy ===== *)
theory JobQueue
  imports JobModel
begin

text \<open>
  \<open>backend/app/jobqueue.py\<close>: the SQLite queue. The table is the list of its rows in the order of
  insertion; every operation is one transaction (\<open>BEGIN IMMEDIATE\<close> to \<open>COMMIT\<close>, or one
  statement) on it, and returns the new table with its result. The clock reading and the fresh
  identifier are arguments. An exception leaves the table as it was.
\<close>

type_synonym job_queue = "job list"

definition update_where :: "(job \<Rightarrow> bool) \<Rightarrow> (job \<Rightarrow> job) \<Rightarrow> job_queue \<Rightarrow> job_queue" where
  "update_where p f q = map (\<lambda>j. if p j then f j else j) q"

definition find_job :: "job_queue \<Rightarrow> string \<Rightarrow> job option" where
  "find_job q i = find (\<lambda>j. j_id j = i) q"

text \<open>\<open>ORDER BY key LIMIT 1\<close>: the least key, the earlier row among equals.\<close>

definition oldest :: "(job \<Rightarrow> 'a::linorder) \<Rightarrow> job_queue \<Rightarrow> job option" where
  "oldest key q = (case sort_key key q of [] \<Rightarrow> None | j # _ \<Rightarrow> Some j)"

section \<open>Enqueue and lookup\<close>

definition sq_get :: "job_queue \<Rightarrow> string \<Rightarrow> job option result" where
  "sq_get q jid = rbind (bounded_identifier jid ''job_id'') (\<lambda>i. Inr (find_job q i))"

definition find_dedupe :: "job_queue \<Rightarrow> string \<Rightarrow> string \<Rightarrow> string \<Rightarrow> job option" where
  "find_dedupe q c k d = find (\<lambda>j. j_campaign j = c \<and> j_kind j = k \<and> j_dedupe j = Some d) q"

definition sq_get_by_dedupe :: "job_queue \<Rightarrow> string \<Rightarrow> string \<Rightarrow> string \<Rightarrow> job option result" where
  "sq_get_by_dedupe q c k d =
     rbind (bounded_identifier c ''campaign_id'') (\<lambda>c'.
     rbind (bounded_identifier k ''kind'') (\<lambda>k'.
     rbind (bounded_identifier d ''dedupe_key'') (\<lambda>d'. Inr (find_dedupe q c' k' d'))))"

text \<open>The primary key and the unique index on \<open>(campaign_id, kind, dedupe_key)\<close>.\<close>

definition insert_conflict :: "job_queue \<Rightarrow> enqueue_request \<Rightarrow> string \<Rightarrow> bool" where
  "insert_conflict q r jid =
     (find_job q jid \<noteq> None \<or>
      (case rq_dedupe r of None \<Rightarrow> False | Some d \<Rightarrow> find_dedupe q (rq_campaign r) (rq_kind r) d \<noteq> None))"

definition same_payload :: "enqueue_request \<Rightarrow> job_queue \<Rightarrow> job \<Rightarrow> (job_queue \<times> job) result" where
  "same_payload r q j =
     (if j_payload j \<noteq> rq_payload r
      then Inl (ValueError ''dedupe_key reused with different job payload'') else Inr (q, j))"

definition sq_insert :: "job_queue \<Rightarrow> enqueue_request \<Rightarrow> string \<Rightarrow> int \<Rightarrow> (job_queue \<times> job) result" where
  "sq_insert q r jid now =
     (if insert_conflict q r jid then
        (case rq_dedupe r of
           None \<Rightarrow> Inl (IntegrityError ''UNIQUE constraint failed'')
         | Some d \<Rightarrow>
             (case find_dedupe q (rq_campaign r) (rq_kind r) d of
                None \<Rightarrow> Inl (IntegrityError ''UNIQUE constraint failed'')
              | Some j \<Rightarrow> same_payload r q j))
      else
        (let q' = q @ [new_job r jid now] in
         rbind (sq_get q' jid) (\<lambda>res.
           case res of None \<Rightarrow> Inl (RuntimeError ''queued job disappeared'') | Some j \<Rightarrow> Inr (q', j))))"

text \<open>The lookup and the insertion are two transactions: \<open>q0\<close> is the table the lookup sees, \<open>q\<close>
  the table at the insertion, after whatever other processes did in between.\<close>

definition sq_enqueue_racing ::
  "environ \<Rightarrow> job_queue \<Rightarrow> job_queue \<Rightarrow> string \<Rightarrow> string \<Rightarrow> pyval \<Rightarrow> int \<Rightarrow> string option \<Rightarrow>
   string \<Rightarrow> int \<Rightarrow> (job_queue \<times> job) result" where
  "sq_enqueue_racing env q0 q c k p m d jid now =
     rbind (check_enqueue env c k p m d) (\<lambda>r.
       case rq_dedupe r of
         None \<Rightarrow> sq_insert q r jid now
       | Some dk \<Rightarrow>
           (case find_dedupe q0 (rq_campaign r) (rq_kind r) dk of
              Some j \<Rightarrow> same_payload r q j
            | None \<Rightarrow> sq_insert q r jid now))"

definition sq_enqueue ::
  "environ \<Rightarrow> job_queue \<Rightarrow> string \<Rightarrow> string \<Rightarrow> pyval \<Rightarrow> int \<Rightarrow> string option \<Rightarrow>
   string \<Rightarrow> int \<Rightarrow> (job_queue \<times> job) result" where
  "sq_enqueue env q = sq_enqueue_racing env q q"

section \<open>Telemetry\<close>

definition sq_recovery_snapshot ::
  "job_queue \<Rightarrow> int \<Rightarrow> (string \<times> job_status \<times> int \<times> int \<times> string option \<times> int option) list result" where
  "sq_recovery_snapshot q limit =
     (if \<not> (1 \<le> limit \<and> limit \<le> 5000)
      then Inl (ValueError ''recovery snapshot limit must be between 1 and 5000'')
      else Inr (map (\<lambda>j. (j_id j, j_status j, j_attempts j, j_max j, j_claimed_by j, j_claimed_at j))
        (take (nat limit) (sort_key (\<lambda>j. (j_created j, j_id j)) q))))"

record queue_stats =
  qs_total :: nat
  qs_by_status :: "job_status \<Rightarrow> nat"
  qs_oldest_queued :: "int option"
  qs_oldest_running :: "int option"

definition status_count :: "job_status \<Rightarrow> job_queue \<Rightarrow> nat" where
  "status_count st q = length (filter (\<lambda>j. j_status j = st) q)"

definition sq_stats :: "job_queue \<Rightarrow> queue_stats" where
  "sq_stats q =
     \<lparr>qs_total = length q, qs_by_status = (\<lambda>st. status_count st q),
      qs_oldest_queued = map_option j_created (oldest j_created (filter (\<lambda>j. j_status j = Queued) q)),
      qs_oldest_running =
        (case sort (map the (filter (\<lambda>t. t \<noteq> None)
                (map j_claimed_at (filter (\<lambda>j. j_status j = Running) q)))) of
           [] \<Rightarrow> None | t # _ \<Rightarrow> Some t)\<rparr>"

definition in_campaign :: "string \<Rightarrow> job_queue \<Rightarrow> job_queue" where
  "in_campaign c q = filter (\<lambda>j. j_campaign j = c) q"

definition kind_count :: "string \<Rightarrow> job_queue \<Rightarrow> nat" where
  "kind_count k q = length (filter (\<lambda>j. j_kind j = k) q)"

text \<open>The counts of the known kinds, zero where there is no row, and then of any other kind.\<close>

definition sq_campaign_job_counts :: "job_queue \<Rightarrow> string \<Rightarrow> (string \<times> nat) list result" where
  "sq_campaign_job_counts q c =
     rbind (bounded_identifier c ''campaign_id'') (\<lambda>c'.
       let rows = in_campaign c' q in
       Inr (foldl (\<lambda>d k. dict_set k (kind_count k rows) d) (map (\<lambda>k. (k, 0)) allowed_kinds)
         (map j_kind rows)))"

definition sq_campaign_job_status_counts :: "job_queue \<Rightarrow> string \<Rightarrow> (job_status \<Rightarrow> nat) result" where
  "sq_campaign_job_status_counts q c =
     rbind (bounded_identifier c ''campaign_id'') (\<lambda>c'.
       Inr (\<lambda>st. status_count st (in_campaign c' q)))"

section \<open>Cancelling\<close>

definition sq_cancel_queued :: "job_queue \<Rightarrow> string \<Rightarrow> int \<Rightarrow> (job_queue \<times> nat) result" where
  "sq_cancel_queued q c now =
     rbind (bounded_identifier c ''campaign_id'') (\<lambda>c'.
       let p = (\<lambda>j. j_campaign j = c' \<and> j_status j = Queued) in
       Inr (update_where p (\<lambda>j. release j Cancelled (Some cancelled_text) now) q, length (filter p q)))"

definition sq_cancel_owned ::
  "job_queue \<Rightarrow> string \<Rightarrow> string \<Rightarrow> string \<Rightarrow> int \<Rightarrow> (job_queue \<times> job option) result" where
  "sq_cancel_owned q jid w reason now =
     rbind (bounded_identifier jid ''job_id'') (\<lambda>i.
     rbind (bounded_identifier w ''worker_id'') (\<lambda>w'.
     rbind (cancel_reason reason) (\<lambda>err.
       let p = (\<lambda>j. j_id j = i \<and> owned_by j w');
           q' = update_where p (\<lambda>j. release j Cancelled err now) q in
       if length (filter p q) \<noteq> 1 then Inr (q', None)
       else rbind (sq_get q' i) (\<lambda>r. Inr (q', r)))))"

section \<open>Leases\<close>

definition stale :: "int \<Rightarrow> job \<Rightarrow> bool" where
  "stale cutoff j = (j_status j = Running \<and>
     (case j_claimed_at j of None \<Rightarrow> False | Some t \<Rightarrow> t < cutoff))"

definition expire :: "int \<Rightarrow> job \<Rightarrow> job" where
  "expire now j = release j (expired_status j) (Some lease_expired_text) now"

text \<open>\<open>_recover_expired_leases\<close>: the stale rows are read first, then updated one by one.\<close>

definition sq_recover :: "environ \<Rightarrow> job_queue \<Rightarrow> int \<Rightarrow> (job_queue \<times> nat) result" where
  "sq_recover env q now =
     rbind (job_lease_seconds env) (\<lambda>lease.
       let cutoff = now - lease * 1000000; rows = filter (stale cutoff) q in
       Inr (foldl (\<lambda>t r. update_where (\<lambda>j. j_id j = j_id r \<and> j_status j = Running)
                (\<lambda>j. release j (expired_status r) (Some lease_expired_text) now) t) q rows,
            length rows))"

definition claim_id :: "string \<Rightarrow> string \<Rightarrow> int \<Rightarrow> job_queue \<Rightarrow> job_queue" where
  "claim_id i w now q =
     update_where (\<lambda>j. j_id j = i \<and> j_status j = Queued) (\<lambda>j. claim_row j w now) q"

definition claimable :: "job \<Rightarrow> bool" where
  "claimable j = (j_status j = Queued \<and> j_attempts j < j_max j)"

definition sq_claim :: "environ \<Rightarrow> job_queue \<Rightarrow> string \<Rightarrow> int \<Rightarrow> (job_queue \<times> job option) result" where
  "sq_claim env q w now =
     rbind (bounded_identifier w ''worker_id'') (\<lambda>w'.
     rbind (sq_recover env q now) (\<lambda>(q1, n).
       case oldest j_created (filter (\<lambda>j. claimable j \<and> j_kind j \<notin> set dedicated_kinds) q1) of
         None \<Rightarrow> Inr (q1, None)
       | Some r \<Rightarrow> (let q2 = claim_id (j_id r) w' now q1 in Inr (q2, find_job q2 (j_id r)))))"

definition sq_claim_allowed ::
  "environ \<Rightarrow> job_queue \<Rightarrow> string \<Rightarrow> string list \<Rightarrow> int \<Rightarrow> (job_queue \<times> job option) result" where
  "sq_claim_allowed env q w kinds now =
     rbind (bounded_identifier w ''worker_id'') (\<lambda>w'.
     rbind (normalize_kinds kinds) (\<lambda>ks.
     rbind (sq_recover env q now) (\<lambda>(q1, n).
       case oldest (\<lambda>j. (j_created j, j_id j)) (filter (\<lambda>j. claimable j \<and> j_kind j \<in> set ks) q1) of
         None \<Rightarrow> Inr (q1, None)
       | Some r \<Rightarrow>
           if length (filter (\<lambda>j. j_id j = j_id r \<and> j_status j = Queued) q1) \<noteq> 1 then Inr (q, None)
           else (let q2 = claim_id (j_id r) w' now q1 in Inr (q2, find_job q2 (j_id r))))))"

definition sq_claim_kind ::
  "environ \<Rightarrow> job_queue \<Rightarrow> string \<Rightarrow> string \<Rightarrow> int \<Rightarrow> (job_queue \<times> job option) result" where
  "sq_claim_kind env q w kind now =
     rbind (bounded_identifier w ''worker_id'') (\<lambda>w'.
     rbind (bounded_identifier kind ''kind'') (\<lambda>k.
     if k \<notin> set allowed_kinds then Inl (ValueError ''unsupported job kind'')
     else rbind (sq_recover env q now) (\<lambda>(q1, n).
       case oldest j_created (filter (\<lambda>j. claimable j \<and> j_kind j = k) q1) of
         None \<Rightarrow> Inr (q1, None)
       | Some r \<Rightarrow>
           (let p = (\<lambda>j. j_id j = j_id r \<and> j_status j = Queued \<and> j_kind j = k) in
            if length (filter p q1) \<noteq> 1 then Inr (q, None)
            else (let q2 = update_where p (\<lambda>j. claim_row j w' now) q1 in
                  Inr (q2, find_job q2 (j_id r)))))))"

definition sq_heartbeat :: "job_queue \<Rightarrow> string \<Rightarrow> string \<Rightarrow> int \<Rightarrow> (job_queue \<times> bool) result" where
  "sq_heartbeat q jid w now =
     rbind (bounded_identifier jid ''job_id'') (\<lambda>i.
     rbind (bounded_identifier w ''worker_id'') (\<lambda>w'.
       let p = (\<lambda>j. j_id j = i \<and> owned_by j w') in
       Inr (update_where p (\<lambda>j. renew_row j now) q, length (filter p q) = 1)))"

definition sq_finish ::
  "job_queue \<Rightarrow> string \<Rightarrow> string \<Rightarrow> bool \<Rightarrow> string option \<Rightarrow> int \<Rightarrow> (job_queue \<times> job option) result" where
  "sq_finish q jid w success err now =
     rbind (bounded_identifier jid ''job_id'') (\<lambda>i.
     rbind (bounded_identifier w ''worker_id'') (\<lambda>w'.
       let p = (\<lambda>j. j_id j = i \<and> owned_by j w') in
       case find p q of
         None \<Rightarrow> Inr (q, None)
       | Some r \<Rightarrow>
           (let q' = update_where p (\<lambda>j. release j (finish_status r success) (finish_error err) now) q in
            if length (filter p q) \<noteq> 1 then Inr (q', None)
            else rbind (sq_get q' i) (\<lambda>res. Inr (q', res)))))"

end
