(* ===== verification/JobQueueInv.thy ===== *)
theory JobQueueInv
  imports JobQueue
begin

text \<open>
  The SQLite queue keeps the life cycle of \<open>JobModel\<close>: its invariant, what every operation does to
  the rows, and the interpretation of \<open>job_lifecycle\<close> on its steps.
\<close>

section \<open>Tables that evolve row by row\<close>

definition dedupe_unique :: "job_queue \<Rightarrow> bool" where
  "dedupe_unique q \<longleftrightarrow> (\<forall>j \<in> set q. \<forall>j' \<in> set q. j_dedupe j \<noteq> None \<longrightarrow> slot j = slot j' \<longrightarrow> j = j')"

definition sq_inv :: "job_queue \<Rightarrow> bool" where
  "sq_inv q \<longleftrightarrow> distinct (map j_id q) \<and> (\<forall>j \<in> set q. job_ok j) \<and> dedupe_unique q"

lemma dedupe_uniqueI:
  "(\<And>j j'. j \<in> set q \<Longrightarrow> j' \<in> set q \<Longrightarrow> j_dedupe j \<noteq> None \<Longrightarrow> slot j = slot j' \<Longrightarrow> j = j') \<Longrightarrow>
   dedupe_unique q"
  unfolding dedupe_unique_def by blast

lemma dedupe_uniqueD:
  "dedupe_unique q \<Longrightarrow> j \<in> set q \<Longrightarrow> j' \<in> set q \<Longrightarrow> j_dedupe j \<noteq> None \<Longrightarrow> slot j = slot j' \<Longrightarrow> j = j'"
  unfolding dedupe_unique_def by blast

definition rows_evolve :: "job_queue \<Rightarrow> job_queue \<Rightarrow> bool" where
  "rows_evolve = list_all2 (\<lambda>j j'. row_steps (Some j) (Some j'))"

lemma rows_evolve_refl [simp]: "rows_evolve q q"
  by (simp add: rows_evolve_def list_all2_refl)

lemma rows_evolve_trans: "rows_evolve a b \<Longrightarrow> rows_evolve b c \<Longrightarrow> rows_evolve a c"
  unfolding rows_evolve_def by (rule list_all2_trans) (auto intro: row_steps_trans)

lemma row_steps_Some_identity: "row_steps (Some j) (Some j') \<Longrightarrow> job_identity j' = job_identity j"
  using row_steps_identity by fastforce

lemma rows_evolve_identity: "rows_evolve q q' \<Longrightarrow> map job_identity q' = map job_identity q"
  unfolding rows_evolve_def
  by (induction rule: list_all2_induct) (auto dest: row_steps_Some_identity)

lemma rows_evolve_ids: "rows_evolve q q' \<Longrightarrow> map j_id q' = map j_id q"
  unfolding rows_evolve_def
  by (induction rule: list_all2_induct) (auto dest: row_steps_Some_identity simp: job_identity_def)

lemma rows_evolve_find:
  "rows_evolve q q' \<Longrightarrow> row_steps (find_job q i) (find_job q' i)"
  unfolding rows_evolve_def find_job_def
proof (induction rule: list_all2_induct)
  case (Cons j q j' q')
  have "j_id j' = j_id j"
    using row_steps_Some_identity [OF Cons(1)] by (simp add: job_identity_def)
  with Cons show ?case by simp
qed simp

lemma rows_evolve_inv: "rows_evolve q q' \<Longrightarrow> sq_inv q \<Longrightarrow> sq_inv q'"
proof -
  assume ev: "rows_evolve q q'" and inv: "sq_inv q"
  have len: "length q' = length q" using ev by (simp add: rows_evolve_def list_all2_lengthD)
  have nth: "row_steps (Some (q ! n)) (Some (q' ! n))" if "n < length q" for n
    using ev that unfolding rows_evolve_def by (rule list_all2_nthD)
  have "job_ok j" if "j \<in> set q'" for j
  proof -
    from that obtain n where "n < length q'" "q' ! n = j" unfolding in_set_conv_nth by blast
    with len have n: "n < length q" "j = q' ! n" by simp_all
    then have "job_ok (q ! n)" using inv by (auto simp: sq_inv_def)
    with row_steps_ok [OF nth [OF n(1)]] n(2) show ?thesis by auto
  qed
  moreover have "dedupe_unique q'"
  proof (rule dedupe_uniqueI)
    fix j j' assume that: "j \<in> set q'" "j' \<in> set q'" "j_dedupe j \<noteq> None" "slot j = slot j'"
    from that(1,2) obtain n m where "n < length q'" "q' ! n = j" "m < length q'" "q' ! m = j'"
      unfolding in_set_conv_nth by blast
    with len have n: "n < length q" "j = q' ! n" "m < length q" "j' = q' ! m" by simp_all
    have "job_identity (q ! n) = job_identity j" "job_identity (q ! m) = job_identity j'"
      using row_steps_Some_identity [OF nth] n by auto
    with that(3,4) have "j_dedupe (q ! n) \<noteq> None" "slot (q ! n) = slot (q ! m)"
      by (simp_all add: job_identity_def slot_def)
    with inv n have "q ! n = q ! m" by (auto simp: sq_inv_def intro: dedupe_uniqueD)
    moreover have "distinct q" using inv by (auto simp: sq_inv_def distinct_map)
    ultimately have "n = m" using n by (simp add: nth_eq_iff_index_eq)
    with n show "j = j'" by simp
  qed
  ultimately show ?thesis
    using inv rows_evolve_ids [OF ev] by (simp add: sq_inv_def)
qed

lemma update_where_evolve:
  "(\<And>j. j \<in> set q \<Longrightarrow> p j \<Longrightarrow> row_steps (Some j) (Some (f j))) \<Longrightarrow> rows_evolve q (update_where p f q)"
  by (auto simp: rows_evolve_def update_where_def list_all2_conv_all_nth)

section \<open>Lookups\<close>

lemma find_job_Some: "find_job q i = Some j \<Longrightarrow> j \<in> set q \<and> j_id j = i"
  by (auto simp: find_job_def find_Some_iff)

lemma find_job_None: "find_job q i = None \<longleftrightarrow> i \<notin> j_id ` set q"
  by (auto simp: find_job_def find_None_iff)

lemma find_job_mem: "distinct (map j_id q) \<Longrightarrow> j \<in> set q \<Longrightarrow> find_job q (j_id j) = Some j"
  by (induction q) (auto simp: find_job_def)

lemma find_job_snoc: "find_job (q @ [j]) i =
    (case find_job q i of Some j' \<Rightarrow> Some j' | None \<Rightarrow> if j_id j = i then Some j else None)"
  by (induction q) (auto simp: find_job_def)

lemma find_job_update:
  "(\<And>j. j_id (f j) = j_id j) \<Longrightarrow>
   find_job (update_where p f q) i = map_option (\<lambda>j. if p j then f j else j) (find_job q i)"
  by (induction q) (auto simp: find_job_def update_where_def)

lemma oldest_Some:
  "oldest key q = Some j \<Longrightarrow> j \<in> set q \<and> (\<forall>x \<in> set q. key j \<le> key x)"
proof -
  assume "oldest key q = Some j"
  then obtain r where s: "sort_key key q = j # r" by (auto simp: oldest_def split: list.splits)
  have "set q = set (j # r)" using s by (metis set_sort)
  moreover have "sorted (map key (j # r))" using s by (metis sorted_sort_key)
  ultimately show ?thesis by auto
qed

lemma oldest_None: "oldest key q = None \<longleftrightarrow> q = []"
proof -
  have "sort_key key q = [] \<longleftrightarrow> q = []" by (metis length_0_conv length_sort)
  then show ?thesis by (auto simp: oldest_def split: list.splits)
qed

lemma distinct_one: "set xs = {a} \<Longrightarrow> distinct xs \<Longrightarrow> xs = [a]"
proof (cases xs)
  case (Cons x ys)
  assume "set xs = {a}" "distinct xs"
  with Cons show ?thesis by (cases ys) auto
qed simp

lemma filter_id_one:
  "distinct (map j_id q) \<Longrightarrow> j \<in> set q \<Longrightarrow> p j \<Longrightarrow> (\<And>x. p x \<Longrightarrow> j_id x = j_id j) \<Longrightarrow> filter p q = [j]"
proof -
  assume d: "distinct (map j_id q)" and j: "j \<in> set q" "p j" and u: "\<And>x. p x \<Longrightarrow> j_id x = j_id j"
  have "set (filter p q) = {j}"
    using d j u by (auto simp: distinct_map dest: inj_onD)
  moreover have "distinct (filter p q)" using d by (simp add: distinct_map)
  ultimately show ?thesis by (rule distinct_one)
qed

section \<open>Expired leases\<close>

definition expire_stale :: "int \<Rightarrow> int \<Rightarrow> job_queue \<Rightarrow> job_queue" where
  "expire_stale cutoff now = map (\<lambda>j. if stale cutoff j then expire now j else j)"

lemma foldl_update_where:
  "foldl (\<lambda>t r. update_where (p r) (f r) t) q rs =
   map (\<lambda>j. foldl (\<lambda>j r. if p r j then f r j else j) j rs) q"
  by (induction rs arbitrary: q) (simp_all add: update_where_def comp_def)

lemma foldl_expire_one:
  "distinct (map j_id rs) \<Longrightarrow>
   foldl (\<lambda>j r. if j_id j = j_id r \<and> j_status j = Running
       then release j (expired_status r) (Some lease_expired_text) now else j) j rs =
   (case find (\<lambda>r. j_id r = j_id j) rs of None \<Rightarrow> j
    | Some r \<Rightarrow> if j_status j = Running
        then release j (expired_status r) (Some lease_expired_text) now else j)"
proof (induction rs arbitrary: j)
  case (Cons r rs)
  show ?case
  proof (cases "j_id r = j_id j")
    case True
    with Cons.prems have "find (\<lambda>x. j_id x = j_id j) rs = None"
      by (simp add: find_None_iff) (metis image_eqI)
    with True Cons show ?thesis by auto
  next
    case False
    with Cons show ?thesis by auto
  qed
qed simp

lemma recover_table:
  assumes "distinct (map j_id q)"
  shows "foldl (\<lambda>t r. update_where (\<lambda>j. j_id j = j_id r \<and> j_status j = Running)
            (\<lambda>j. release j (expired_status r) (Some lease_expired_text) now) t) q (filter (stale c) q)
         = expire_stale c now q"
proof -
  have *: "find (\<lambda>r. j_id r = j_id j) (filter (stale c) q) = (if stale c j then Some j else None)"
    if "j \<in> set q" for j
    using assms that by (induction q) (auto simp: find_None_iff image_iff)
  show ?thesis
    using assms
    by (auto simp: foldl_update_where foldl_expire_one distinct_map_filter * expire_stale_def
        expire_def stale_def)
qed

lemma sq_recover_Inr:
  assumes "sq_recover env q now = Inr (q', n)" and "sq_inv q"
  obtains lease where "job_lease_seconds env = Inr lease"
    and "q' = expire_stale (now - lease * 1000000) now q"
    and "n = length (filter (stale (now - lease * 1000000)) q)"
  using assms recover_table by (auto simp: sq_recover_def sq_inv_def Let_def)

lemma expire_steps: "stale c j \<Longrightarrow> row_steps (Some j) (Some (expire now j))"
  unfolding expire_def
  by (intro row_steps_one job_trans.released) (auto simp: stale_def expired_status_def split: if_splits)

lemma expire_stale_evolve: "rows_evolve q (expire_stale c now q)"
  by (auto simp: expire_stale_def rows_evolve_def list_all2_conv_all_nth intro: expire_steps)

lemma sq_recover_evolve: "sq_recover env q now = Inr (q', n) \<Longrightarrow> sq_inv q \<Longrightarrow> rows_evolve q q'"
  by (erule sq_recover_Inr) (simp_all add: expire_stale_evolve)

lemma no_stale_left: "j \<in> set (expire_stale c now q) \<Longrightarrow> \<not> stale c j"
  by (auto simp: expire_stale_def expire_def stale_def expired_status_def split: if_splits)

section \<open>Every operation evolves the rows\<close>

lemma owned_steps:
  "owned_by j w \<Longrightarrow> st \<noteq> Running \<Longrightarrow> (st = Queued \<Longrightarrow> j_attempts j < j_max j) \<Longrightarrow>
   row_steps (Some j) (Some (release j st e n))"
  by (intro row_steps_one job_trans.released) (auto simp: owned_by_def)

lemma finish_steps: "owned_by j w \<Longrightarrow> row_steps (Some j) (Some (release j (finish_status j s) e n))"
  by (rule owned_steps) (auto simp: finish_status_def split: if_splits)

lemma claim_steps: "j_status j = Queued \<Longrightarrow> row_steps (Some j) (Some (claim_row j w n))"
  by (intro row_steps_one job_trans.claimed)

lemma sq_cancel_queued_evolve: "sq_cancel_queued q c now = Inr (q', n) \<Longrightarrow> rows_evolve q q'"
  by (auto simp: sq_cancel_queued_def Let_def
      intro!: update_where_evolve row_steps_one job_trans.dropped)

lemma sq_cancel_owned_evolve: "sq_cancel_owned q i w r now = Inr (q', x) \<Longrightarrow> rows_evolve q q'"
  by (auto simp: sq_cancel_owned_def Let_def split: if_splits
      intro!: update_where_evolve owned_steps)

lemma sq_heartbeat_evolve: "sq_heartbeat q i w now = Inr (q', b) \<Longrightarrow> rows_evolve q q'"
  by (auto simp: sq_heartbeat_def Let_def owned_by_def
      intro!: update_where_evolve row_steps_one job_trans.renewed)

lemma find_unique: "distinct (map j_id q) \<Longrightarrow> find (\<lambda>j. j_id j = i \<and> P j) q = Some r \<Longrightarrow>
    j \<in> set q \<Longrightarrow> j_id j = i \<Longrightarrow> j = r"
  by (auto simp: find_Some_iff distinct_map dest: inj_onD)

lemma sq_finish_evolve:
  assumes "sq_finish q i w s e now = Inr (q', x)" and "sq_inv q"
  shows "rows_evolve q q'"
proof -
  obtain i' w' where iw: "bounded_identifier i ''job_id'' = Inr i'" "bounded_identifier w ''worker_id'' = Inr w'"
    using assms(1) by (auto simp: sq_finish_def)
  let ?p = "\<lambda>j. j_id j = i' \<and> owned_by j w'"
  show ?thesis
  proof (cases "find ?p q")
    case None
    with assms iw show ?thesis by (simp add: sq_finish_def Let_def)
  next
    case (Some r)
    then have q': "q' = update_where ?p (\<lambda>j. release j (finish_status r s) (finish_error e) now) q"
      using assms iw by (auto simp: sq_finish_def Let_def split: if_splits)
    have "j = r" if "j \<in> set q" "?p j" for j
      using find_unique [OF _ Some] assms(2) that by (auto simp: sq_inv_def)
    then show ?thesis
      unfolding q' by (intro update_where_evolve) (auto intro: finish_steps)
  qed
qed

lemma claim_id_evolve: "rows_evolve q (claim_id i w now q)"
  by (auto simp: claim_id_def intro!: update_where_evolve claim_steps)

lemma recover_claim_evolve:
  "sq_recover env q now = Inr (a, n) \<Longrightarrow> sq_inv q \<Longrightarrow> rows_evolve q (claim_id i w now a)"
  by (rule rows_evolve_trans [OF sq_recover_evolve claim_id_evolve])

lemma sq_claim_evolve:
  assumes "sq_claim env q w now = Inr (q', x)" and "sq_inv q"
  shows "rows_evolve q q'"
  using assms
  by (auto simp: sq_claim_def Let_def split: option.splits
      intro: sq_recover_evolve recover_claim_evolve)

lemma sq_claim_allowed_evolve:
  assumes "sq_claim_allowed env q w ks now = Inr (q', x)" and "sq_inv q"
  shows "rows_evolve q q'"
  using assms
  by (auto simp: sq_claim_allowed_def Let_def split: option.splits if_splits
      intro: sq_recover_evolve recover_claim_evolve)

lemma sq_claim_kind_evolve:
  assumes "sq_claim_kind env q w k now = Inr (q', x)" and "sq_inv q"
  shows "rows_evolve q q'"
proof -
  have "rows_evolve t (update_where (\<lambda>j. j_id j = i \<and> j_status j = Queued \<and> j_kind j = k')
      (\<lambda>j. claim_row j w' now) t)" for t i k' w'
    by (rule update_where_evolve) (auto intro: claim_steps)
  then have "rows_evolve q (update_where (\<lambda>j. j_id j = i \<and> j_status j = Queued \<and> j_kind j = k')
      (\<lambda>j. claim_row j w' now) t)" if "sq_recover env q now = Inr (t, n)" for t n i k' w'
    using rows_evolve_trans [OF sq_recover_evolve [OF that assms(2)]] by blast
  moreover have "rows_evolve q t" if "sq_recover env q now = Inr (t, n)" for t n
    by (rule sq_recover_evolve [OF that assms(2)])
  ultimately show ?thesis
    using assms(1) unfolding sq_claim_kind_def Let_def
    by (elim rbind_InrE) (simp split: option.splits if_splits prod.splits, elim rbind_InrE,
        auto split: option.splits if_splits)
qed

section \<open>Enqueue\<close>

lemma sq_insert_cases:
  assumes "sq_insert q r jid now = Inr (q', j)" and "is_ident jid"
  obtains (New) "\<not> insert_conflict q r jid" "q' = q @ [new_job r jid now]" "j = new_job r jid now"
    | (Dup) d where "rq_dedupe r = Some d" "find_dedupe q (rq_campaign r) (rq_kind r) d = Some j"
        "q' = q" "j_payload j = rq_payload r"
proof (cases "insert_conflict q r jid")
  case True
  with assms(1) Dup show ?thesis
    by (auto simp: sq_insert_def same_payload_def split: option.splits if_splits)
next
  case False
  then have "find_job q jid = None" by (auto simp: insert_conflict_def)
  then have "sq_get (q @ [new_job r jid now]) jid = Inr (Some (new_job r jid now))"
    using assms(2) by (simp add: sq_get_def find_job_snoc)
  with assms(1) False have "q' = q @ [new_job r jid now] \<and> j = new_job r jid now"
    by (auto simp: sq_insert_def)
  with False New show ?thesis by blast
qed

lemma sq_enqueue_racing_cases:
  assumes "sq_enqueue_racing env q0 q c k p m d jid now = Inr (q', j)" and "is_ident jid"
  obtains (New) r where "check_enqueue env c k p m d = Inr r" "\<not> insert_conflict q r jid"
      "q' = q @ [new_job r jid now]" "j = new_job r jid now"
    | (Old) r dk where "check_enqueue env c k p m d = Inr r" "q' = q" "rq_dedupe r = Some dk"
        "find_dedupe q0 (rq_campaign r) (rq_kind r) dk = Some j \<or>
         find_dedupe q (rq_campaign r) (rq_kind r) dk = Some j" "j_payload j = rq_payload r"
proof -
  obtain r where r: "check_enqueue env c k p m d = Inr r"
    using assms(1) by (auto simp: sq_enqueue_racing_def)
  show thesis
  proof (cases "rq_dedupe r")
    case None
    then have "sq_insert q r jid now = Inr (q', j)"
      using assms(1) r by (simp add: sq_enqueue_racing_def)
    then show thesis
      using assms(2) by (cases rule: sq_insert_cases) (use r None New in auto)
  next
    case (Some dk)
    show thesis
    proof (cases "find_dedupe q0 (rq_campaign r) (rq_kind r) dk")
      case None
      with Some assms(1) r have "sq_insert q r jid now = Inr (q', j)"
        by (simp add: sq_enqueue_racing_def)
      then show thesis
        using assms(2)
      proof (cases rule: sq_insert_cases)
        case (Dup d)
        with Some r show thesis by (intro Old [of r dk]) auto
      qed (use r New in auto)
    next
      case (Some j0)
      with \<open>rq_dedupe r = Some dk\<close> assms(1) r show thesis
        by (intro Old [of r dk]) (auto simp: sq_enqueue_racing_def same_payload_def split: if_splits)
    qed
  qed
qed

lemma find_dedupe_None: "find_dedupe q c k d = None \<longleftrightarrow>
    (\<forall>j \<in> set q. \<not> (j_campaign j = c \<and> j_kind j = k \<and> j_dedupe j = Some d))"
  by (auto simp: find_dedupe_def find_None_iff)

lemma append_new_inv:
  assumes "sq_inv q" and "\<not> insert_conflict q r jid" and "job_ok (new_job r jid now)"
  shows "sq_inv (q @ [new_job r jid now])"
proof -
  let ?n = "new_job r jid now"
  have "jid \<notin> j_id ` set q" using assms(2) by (simp add: insert_conflict_def find_job_None [symmetric])
  then have d: "distinct (map j_id (q @ [?n]))" using assms(1) by (auto simp: sq_inv_def)
  have new: "\<not> (rq_dedupe r \<noteq> None \<and> j_dedupe j = rq_dedupe r \<and> j_campaign j = rq_campaign r \<and>
      j_kind j = rq_kind r)" if "j \<in> set q" for j
    using assms(2) that by (auto simp: insert_conflict_def find_dedupe_None)
  have "dedupe_unique (q @ [?n])"
  proof (rule dedupe_uniqueI)
    fix j j' assume h: "j \<in> set (q @ [?n])" "j' \<in> set (q @ [?n])" "j_dedupe j \<noteq> None" "slot j = slot j'"
    consider "j \<in> set q" "j' \<in> set q" | "j \<in> set q" "j' = ?n" | "j = ?n" "j' \<in> set q" | "j = ?n" "j' = ?n"
      using h(1,2) by auto
    then show "j = j'"
    proof cases
      case 1
      with assms(1) h(3,4) show ?thesis by (auto simp: sq_inv_def intro: dedupe_uniqueD)
    next
      case 2
      with new [of j] h(3,4) show ?thesis by (simp add: slot_def)
    next
      case 3
      with new [of j'] h(3,4) show ?thesis by (simp add: slot_def)
    qed simp
  qed
  with d assms(1,3) show ?thesis unfolding sq_inv_def by simp
qed

section \<open>Steps and the contract\<close>

inductive sq_step :: "job_queue \<Rightarrow> job_queue \<Rightarrow> bool" where
  enqueue: "sq_enqueue_racing env q0 q c k p m d jid now = Inr (q', j) \<Longrightarrow> is_ident jid \<Longrightarrow> sq_step q q'"
| cancel_queued: "sq_cancel_queued q c now = Inr (q', n) \<Longrightarrow> sq_step q q'"
| cancel_owned: "sq_cancel_owned q i w r now = Inr (q', x) \<Longrightarrow> sq_step q q'"
| recover: "sq_recover env q now = Inr (q', n) \<Longrightarrow> sq_step q q'"
| claim: "sq_claim env q w now = Inr (q', x) \<Longrightarrow> sq_step q q'"
| claim_allowed: "sq_claim_allowed env q w ks now = Inr (q', x) \<Longrightarrow> sq_step q q'"
| claim_kind: "sq_claim_kind env q w kd now = Inr (q', x) \<Longrightarrow> sq_step q q'"
| heartbeat: "sq_heartbeat q i w now = Inr (q', b) \<Longrightarrow> sq_step q q'"
| finish: "sq_finish q i w s e now = Inr (q', x) \<Longrightarrow> sq_step q q'"

lemmas sq_evolve_rules = sq_cancel_queued_evolve sq_cancel_owned_evolve sq_recover_evolve
  sq_claim_evolve sq_claim_allowed_evolve sq_claim_kind_evolve sq_heartbeat_evolve sq_finish_evolve

lemma sq_step_cases:
  assumes "sq_step q q'" and "sq_inv q"
  shows "rows_evolve q q' \<or>
    (\<exists>r jid now. \<not> insert_conflict q r jid \<and> job_ok (new_job r jid now) \<and> q' = q @ [new_job r jid now])"
  using assms(1)
proof cases
  case (enqueue env q0 c k p m d jid now j)
  from enqueue show ?thesis
    by (cases rule: sq_enqueue_racing_cases) (auto dest: job_ok_new)
qed (use assms(2) in \<open>auto dest: sq_evolve_rules\<close>)

interpretation sq: job_lifecycle sq_step find_job sq_inv "[]"
proof
  show "sq_inv []" by (simp add: sq_inv_def dedupe_unique_def)
  show "find_job [] i = None" for i by (simp add: find_job_def)
  show "sq_inv q'" if "sq_inv q" "sq_step q q'" for q q'
    using sq_step_cases [OF that(2,1)] that(1) by (auto intro: rows_evolve_inv append_new_inv)
  show "row_steps (find_job q i) (find_job q' i)" if "sq_inv q" "sq_step q q'" for q q' i
    using sq_step_cases [OF that(2,1)]
  proof
    assume "\<exists>r jid now. \<not> insert_conflict q r jid \<and> job_ok (new_job r jid now) \<and> q' = q @ [new_job r jid now]"
    then obtain r jid now where new: "\<not> insert_conflict q r jid" "job_ok (new_job r jid now)"
      and q': "q' = q @ [new_job r jid now]" by blast
    have "row_steps None (Some (new_job r jid now))"
      using new(2) by (intro row_steps_one job_trans.created) simp_all
    with new(1) show ?thesis
      by (auto simp: q' find_job_snoc insert_conflict_def split: option.splits)
  qed (rule rows_evolve_find)
qed

end
