(* ===== verification/RedisQueue.thy ===== *)
theory RedisQueue
  imports JobModel
begin

text \<open>
  \<open>backend/app/redis_jobqueue.py\<close>: the Redis queue. Its state is the hash of each job and the
  indexes beside it: the sorted sets of queued jobs (all generic kinds, and per kind), the sorted
  set of running jobs scored by the last sign of life, the set of all jobs, the set of each
  campaign and the deduplication hashes. The keys of the indexes are digests of campaign and kind
  in the code and the campaign and kind themselves here. A transaction watched by \<open>WATCH\<close> is
  retried until it runs undisturbed, so each is one atomic step; \<open>now\<close> is the operation's
  \<open>utcnow()\<close>, \<open>ts\<close> its \<open>time.time()\<close> in microseconds.
\<close>

type_synonym zset = "(string \<times> int) list"

definition zadd :: "string \<Rightarrow> int \<Rightarrow> zset \<Rightarrow> zset" where
  "zadd m s z = dict_set m s z"

definition zrem :: "string \<Rightarrow> zset \<Rightarrow> zset" where
  "zrem m z = filter (\<lambda>(k, s). k \<noteq> m) z"

text \<open>\<open>ZRANGE\<close>: by score, then by member.\<close>

definition zrange :: "zset \<Rightarrow> (string \<times> int) list" where
  "zrange z = sort_key (\<lambda>(m, s). (s, m)) z"

definition zfirst :: "zset \<Rightarrow> (string \<times> int) option" where
  "zfirst z = (case zrange z of [] \<Rightarrow> None | x # _ \<Rightarrow> Some x)"

definition zdom :: "zset \<Rightarrow> string set" where
  "zdom z = fst ` set z"

record redis_queue =
  r_jobs :: "string \<Rightarrow> job option"
  r_queued :: zset
  r_kinds :: "string \<Rightarrow> zset"
  r_running :: zset
  r_all :: "string list"
  r_campaigns :: "string \<Rightarrow> string list"
  r_dedupe :: "string \<times> string \<times> string \<Rightarrow> string option"

definition rd_empty :: redis_queue where
  "rd_empty = \<lparr>r_jobs = (\<lambda>_. None), r_queued = [], r_kinds = (\<lambda>_. []), r_running = [], r_all = [],
     r_campaigns = (\<lambda>_. []), r_dedupe = (\<lambda>_. None)\<rparr>"

definition uses_generic_queue :: "string \<Rightarrow> bool" where
  "uses_generic_queue kind = (kind \<notin> set dedicated_kinds)"

section \<open>The transactions\<close>

definition put_row :: "job \<Rightarrow> redis_queue \<Rightarrow> redis_queue" where
  "put_row j s = s\<lparr>r_jobs := (r_jobs s)(j_id j \<mapsto> j)\<rparr>"

definition unqueue :: "string \<Rightarrow> redis_queue \<Rightarrow> redis_queue" where
  "unqueue i s = s\<lparr>r_queued := zrem i (r_queued s)\<rparr>"

definition unqueue_kind :: "string \<Rightarrow> string \<Rightarrow> redis_queue \<Rightarrow> redis_queue" where
  "unqueue_kind k i s = s\<lparr>r_kinds := (r_kinds s)(k := zrem i (r_kinds s k))\<rparr>"

definition enqueue_id :: "string \<Rightarrow> string \<Rightarrow> int \<Rightarrow> redis_queue \<Rightarrow> redis_queue" where
  "enqueue_id k i ts s =
     (let s1 = (if uses_generic_queue k then s\<lparr>r_queued := zadd i ts (r_queued s)\<rparr> else s) in
      s1\<lparr>r_kinds := (r_kinds s1)(k := zadd i ts (r_kinds s1 k))\<rparr>)"

definition stop_running :: "string \<Rightarrow> redis_queue \<Rightarrow> redis_queue" where
  "stop_running i s = s\<lparr>r_running := zrem i (r_running s)\<rparr>"

definition mark_running :: "string \<Rightarrow> int \<Rightarrow> redis_queue \<Rightarrow> redis_queue" where
  "mark_running i ts s = s\<lparr>r_running := zadd i ts (r_running s)\<rparr>"

text \<open>Leaving the running state, back to the queues or for good.\<close>

definition leave_running :: "job \<Rightarrow> job_status \<Rightarrow> string option \<Rightarrow> int \<Rightarrow> int \<Rightarrow> redis_queue \<Rightarrow> redis_queue" where
  "leave_running j st err now ts s =
     (let s1 = stop_running (j_id j) (put_row (release j st err now) s) in
      if st = Queued then enqueue_id (j_kind j) (j_id j) ts s1 else s1)"

definition start_running :: "job \<Rightarrow> string \<Rightarrow> int \<Rightarrow> int \<Rightarrow> redis_queue \<Rightarrow> redis_queue" where
  "start_running j w now ts s =
     mark_running (j_id j) ts (unqueue_kind (j_kind j) (j_id j) (unqueue (j_id j) (put_row (claim_row j w now) s)))"

definition drop_queued :: "job \<Rightarrow> redis_queue \<Rightarrow> redis_queue" where
  "drop_queued j' s = unqueue_kind (j_kind j') (j_id j') (unqueue (j_id j') (put_row j' s))"

definition add_job :: "job \<Rightarrow> int \<Rightarrow> redis_queue \<Rightarrow> redis_queue" where
  "add_job j ts s =
     (let s1 = enqueue_id (j_kind j) (j_id j) ts (put_row j s) in
      s1\<lparr>r_all := List.insert (j_id j) (r_all s1),
         r_campaigns := (r_campaigns s1)(j_campaign j := List.insert (j_id j) (r_campaigns s1 (j_campaign j)))\<rparr>)"

section \<open>Enqueue and lookup\<close>

definition rd_get :: "redis_queue \<Rightarrow> string \<Rightarrow> job option result" where
  "rd_get s jid = rbind (bounded_identifier jid ''job_id'') (\<lambda>i. Inr (r_jobs s i))"

definition rd_get_by_dedupe :: "redis_queue \<Rightarrow> string \<Rightarrow> string \<Rightarrow> string \<Rightarrow> job option result" where
  "rd_get_by_dedupe s c k d =
     rbind (bounded_identifier c ''campaign_id'') (\<lambda>c'.
     rbind (bounded_identifier k ''kind'') (\<lambda>k'.
     rbind (bounded_identifier d ''dedupe_key'') (\<lambda>d'.
       case r_dedupe s (c', k', d') of
         None \<Rightarrow> Inr None
       | Some i \<Rightarrow> rbind (rd_get s i) (\<lambda>r. case r of
             None \<Rightarrow> Inl (RuntimeError ''Redis queue dedupe index is inconsistent'')
           | Some j \<Rightarrow> Inr (Some j)))))"

definition rd_created :: "redis_queue \<Rightarrow> string \<Rightarrow> (redis_queue \<times> job) result" where
  "rd_created s jid = rbind (rd_get s jid) (\<lambda>r. case r of
     None \<Rightarrow> Inl (RuntimeError ''queued job disappeared'') | Some j \<Rightarrow> Inr (s, j))"

definition rd_enqueue ::
  "environ \<Rightarrow> redis_queue \<Rightarrow> string \<Rightarrow> string \<Rightarrow> pyval \<Rightarrow> int \<Rightarrow> string option \<Rightarrow>
   string \<Rightarrow> int \<Rightarrow> int \<Rightarrow> (redis_queue \<times> job) result" where
  "rd_enqueue env s c k p m d jid now ts =
     rbind (check_enqueue env c k p m d) (\<lambda>r.
       let j = new_job r jid now in
       case rq_dedupe r of
         None \<Rightarrow> rd_created (add_job j ts s) jid
       | Some dk \<Rightarrow>
           (let slot_key = (rq_campaign r, rq_kind r, dk) in
            case r_dedupe s slot_key of
              Some i \<Rightarrow> rbind (rd_get s i) (\<lambda>e. case e of
                  None \<Rightarrow> Inl (RuntimeError ''Redis queue dedupe index is inconsistent'')
                | Some existing \<Rightarrow>
                    if j_payload existing \<noteq> rq_payload r
                    then Inl (ValueError ''dedupe_key reused with different job payload'')
                    else Inr (s, existing))
            | None \<Rightarrow>
                (let s1 = add_job j ts s in
                 rd_created (s1\<lparr>r_dedupe := (r_dedupe s1)(slot_key \<mapsto> jid)\<rparr>) jid)))"

section \<open>Telemetry\<close>

definition rd_recovery_snapshot :: "redis_queue \<Rightarrow> int \<Rightarrow> (string \<times> job option) list result" where
  "rd_recovery_snapshot s limit =
     (if \<not> (1 \<le> limit \<and> limit \<le> 5000)
      then Inl (ValueError ''recovery snapshot limit must be between 1 and 5000'')
      else Inr (map (\<lambda>i. (i, r_jobs s i)) (take (nat limit) (sort (r_all s)))))"

definition count_rows :: "redis_queue \<Rightarrow> (job \<Rightarrow> bool) \<Rightarrow> string list \<Rightarrow> nat" where
  "count_rows s p ids = length (filter (\<lambda>i. case r_jobs s i of None \<Rightarrow> False | Some j \<Rightarrow> p j) ids)"

definition rd_campaign_job_counts :: "redis_queue \<Rightarrow> string \<Rightarrow> (string \<times> nat) list result" where
  "rd_campaign_job_counts s c =
     rbind (bounded_identifier c ''campaign_id'') (\<lambda>c'.
       Inr (map (\<lambda>k. (k, count_rows s (\<lambda>j. j_kind j = k) (r_campaigns s c'))) allowed_kinds))"

definition rd_campaign_job_status_counts :: "redis_queue \<Rightarrow> string \<Rightarrow> (job_status \<Rightarrow> nat) result" where
  "rd_campaign_job_status_counts s c =
     rbind (bounded_identifier c ''campaign_id'') (\<lambda>c'.
       Inr (\<lambda>st. count_rows s (\<lambda>j. j_status j = st) (r_campaigns s c')))"

record redis_stats =
  rs_total :: nat
  rs_by_status :: "job_status \<Rightarrow> nat"
  rs_oldest_queued :: "int option"
  rs_oldest_running :: "int option"

definition rd_stats :: "redis_queue \<Rightarrow> redis_stats" where
  "rd_stats s =
     \<lparr>rs_total = length (r_all s),
      rs_by_status = (\<lambda>st. count_rows s (\<lambda>j. j_status j = st) (r_all s)),
      rs_oldest_queued = (case zfirst (r_queued s) of None \<Rightarrow> None
        | Some (i, _) \<Rightarrow> map_option j_created (r_jobs s i)),
      rs_oldest_running = (case zfirst (r_running s) of None \<Rightarrow> None
        | Some (i, _) \<Rightarrow> (case r_jobs s i of None \<Rightarrow> None | Some j \<Rightarrow> j_claimed_at j))\<rparr>"

section \<open>Cancelling\<close>

fun rd_cancel_each :: "string \<Rightarrow> int \<Rightarrow> string list \<Rightarrow> redis_queue \<times> nat \<Rightarrow> redis_queue \<times> nat" where
  "rd_cancel_each c now [] sn = sn"
| "rd_cancel_each c now (i # ids) (s, n) =
     (case r_jobs s i of
        None \<Rightarrow> rd_cancel_each c now ids (s, n)
      | Some j \<Rightarrow>
          if j_status j \<noteq> Queued \<or> j_campaign j \<noteq> c then rd_cancel_each c now ids (s, n)
          else rd_cancel_each c now ids
            (drop_queued (release j Cancelled (Some cancelled_text) now) s, Suc n))"

definition rd_cancel_queued :: "redis_queue \<Rightarrow> string \<Rightarrow> int \<Rightarrow> (redis_queue \<times> nat) result" where
  "rd_cancel_queued s c now =
     rbind (bounded_identifier c ''campaign_id'') (\<lambda>c'.
       Inr (rd_cancel_each c' now (r_campaigns s c') (s, 0)))"

definition rd_cancel_owned ::
  "redis_queue \<Rightarrow> string \<Rightarrow> string \<Rightarrow> string \<Rightarrow> int \<Rightarrow> (redis_queue \<times> job option) result" where
  "rd_cancel_owned s jid w reason now =
     rbind (bounded_identifier jid ''job_id'') (\<lambda>i.
     rbind (bounded_identifier w ''worker_id'') (\<lambda>w'.
     rbind (cancel_reason reason) (\<lambda>err.
       case r_jobs s i of
         None \<Rightarrow> Inr (s, None)
       | Some j \<Rightarrow>
           if \<not> owned_by j w' then Inr (s, None)
           else (let s' = stop_running i (put_row (release j Cancelled err now) s) in
                 rbind (rd_get s' i) (\<lambda>r. Inr (s', r))))))"

section \<open>Leases\<close>

fun rd_recover_each :: "int \<Rightarrow> int \<Rightarrow> int \<Rightarrow> string list \<Rightarrow> redis_queue \<times> nat \<Rightarrow> redis_queue \<times> nat" where
  "rd_recover_each cutoff now ts [] sn = sn"
| "rd_recover_each cutoff now ts (i # ids) (s, n) =
     (case (r_jobs s i, map_of (r_running s) i) of
        (Some j, Some score) \<Rightarrow>
          if j_status j \<noteq> Running \<or> score > cutoff then rd_recover_each cutoff now ts ids (s, n)
          else rd_recover_each cutoff now ts ids
            (leave_running j (expired_status j) (Some lease_expired_text) now ts s, Suc n)
      | _ \<Rightarrow> rd_recover_each cutoff now ts ids (s, n))"

definition rd_recover :: "environ \<Rightarrow> redis_queue \<Rightarrow> int \<Rightarrow> int \<Rightarrow> (redis_queue \<times> nat) result" where
  "rd_recover env s now ts =
     rbind (job_lease_seconds env) (\<lambda>lease.
       let cutoff = ts - lease * 1000000;
           stale_ids = map fst (filter (\<lambda>(m, sc). sc \<le> cutoff) (zrange (r_running s))) in
       Inr (rd_recover_each cutoff now ts stale_ids (s, 0)))"

lemma zfirst_mem: "zfirst z = Some x \<Longrightarrow> x \<in> set z"
proof -
  assume "zfirst z = Some x"
  then obtain r where "zrange z = x # r" by (auto simp: zfirst_def split: list.splits)
  then have "x \<in> set (zrange z)" by simp
  then show ?thesis by (simp add: zrange_def)
qed

lemma zrem_less: "(m, s) \<in> set z \<Longrightarrow> length (zrem m z) < length z"
  unfolding zrem_def by (rule length_filter_less [of "(m, s)"]) auto

definition fail_exhausted :: "job \<Rightarrow> int \<Rightarrow> job" where
  "fail_exhausted j now = j\<lparr>j_status := Failed, j_updated := now,
     j_error := Some (case j_error j of Some (c # cs) \<Rightarrow> c # cs | _ \<Rightarrow> ''retry budget exhausted'')\<rparr>"

text \<open>The \<open>while True\<close> loop of \<open>claim\<close>: entries of the sorted set that are not claimable are
  removed until one is, or the set is empty.\<close>

function rd_claim_loop :: "string \<Rightarrow> int \<Rightarrow> int \<Rightarrow> redis_queue \<Rightarrow> redis_queue \<times> job option" where
  "rd_claim_loop w now ts s =
     (case zfirst (r_queued s) of
        None \<Rightarrow> (s, None)
      | Some (i, sc) \<Rightarrow>
          (case r_jobs s i of
             None \<Rightarrow> rd_claim_loop w now ts (unqueue i s)
           | Some j \<Rightarrow>
               if j_status j \<noteq> Queued
               then rd_claim_loop w now ts (unqueue_kind (j_kind j) i (unqueue i s))
               else if \<not> uses_generic_queue (j_kind j) then rd_claim_loop w now ts (unqueue i s)
               else if j_attempts j \<ge> j_max j then
                 rd_claim_loop w now ts (unqueue_kind (j_kind j) i (unqueue i
                   (s\<lparr>r_jobs := (r_jobs s)(i \<mapsto> fail_exhausted j now)\<rparr>)))
               else (let s' = start_running j w now ts s in (s', r_jobs s' i))))"
  by pat_completeness auto
termination
  by (relation "measure (\<lambda>(w, now, ts, s). length (r_queued s))")
    (auto simp: unqueue_def unqueue_kind_def dest!: zfirst_mem intro: zrem_less)

declare rd_claim_loop.simps [simp del]

definition rd_claim :: "environ \<Rightarrow> redis_queue \<Rightarrow> string \<Rightarrow> int \<Rightarrow> int \<Rightarrow> (redis_queue \<times> job option) result" where
  "rd_claim env s w now ts =
     rbind (bounded_identifier w ''worker_id'') (\<lambda>w'.
     rbind (rd_recover env s now ts) (\<lambda>(s1, n). Inr (rd_claim_loop w' now ts s1)))"

fun rd_claim_each :: "string \<Rightarrow> string \<Rightarrow> int \<Rightarrow> int \<Rightarrow> string list \<Rightarrow> redis_queue \<Rightarrow> redis_queue \<times> job option" where
  "rd_claim_each k w now ts [] s = (s, None)"
| "rd_claim_each k w now ts (i # ids) s =
     (case r_jobs s i of
        None \<Rightarrow> rd_claim_each k w now ts ids (unqueue_kind k i s)
      | Some j \<Rightarrow>
          if j_status j \<noteq> Queued \<or> j_kind j \<noteq> k \<or> j_attempts j \<ge> j_max j
          then rd_claim_each k w now ts ids (unqueue_kind k i s)
          else (let s' = start_running j w now ts s in (s', r_jobs s' i)))"

definition rd_claim_kind ::
  "environ \<Rightarrow> redis_queue \<Rightarrow> string \<Rightarrow> string \<Rightarrow> int \<Rightarrow> int \<Rightarrow> (redis_queue \<times> job option) result" where
  "rd_claim_kind env s w kind now ts =
     rbind (bounded_identifier w ''worker_id'') (\<lambda>w'.
     rbind (bounded_identifier kind ''kind'') (\<lambda>k.
     if k \<notin> set allowed_kinds then Inl (ValueError ''unsupported job kind'')
     else rbind (rd_recover env s now ts) (\<lambda>(s1, n).
       Inr (rd_claim_each k w' now ts (map fst (zrange (r_kinds s1 k))) s1))))"

text \<open>At most 32 rounds: the kind whose oldest entry is least is tried.\<close>

definition candidates :: "redis_queue \<Rightarrow> string list \<Rightarrow> (int \<times> string \<times> string) list" where
  "candidates s kinds = concat (map (\<lambda>k. case zfirst (r_kinds s k) of None \<Rightarrow> []
     | Some (i, sc) \<Rightarrow> [(sc, i, k)]) kinds)"

fun rd_claim_rounds ::
  "nat \<Rightarrow> environ \<Rightarrow> string \<Rightarrow> string list \<Rightarrow> int \<Rightarrow> int \<Rightarrow> redis_queue \<Rightarrow> (redis_queue \<times> job option) result" where
  "rd_claim_rounds 0 env w ks now ts s = Inr (s, None)"
| "rd_claim_rounds (Suc n) env w ks now ts s =
     (case sort (candidates s ks) of
        [] \<Rightarrow> Inr (s, None)
      | (sc, i, k) # _ \<Rightarrow>
          rbind (rd_claim_kind env s w k now ts) (\<lambda>(s', r).
            case r of Some j \<Rightarrow> Inr (s', Some j) | None \<Rightarrow> rd_claim_rounds n env w ks now ts s'))"

definition rd_claim_allowed ::
  "environ \<Rightarrow> redis_queue \<Rightarrow> string \<Rightarrow> string list \<Rightarrow> int \<Rightarrow> int \<Rightarrow> (redis_queue \<times> job option) result" where
  "rd_claim_allowed env s w kinds now ts =
     rbind (bounded_identifier w ''worker_id'') (\<lambda>w'.
     rbind (normalize_kinds kinds) (\<lambda>ks.
     rbind (rd_recover env s now ts) (\<lambda>(s1, n). rd_claim_rounds 32 env w' ks now ts s1)))"

definition rd_heartbeat :: "redis_queue \<Rightarrow> string \<Rightarrow> string \<Rightarrow> int \<Rightarrow> int \<Rightarrow> (redis_queue \<times> bool) result" where
  "rd_heartbeat s jid w now ts =
     rbind (bounded_identifier jid ''job_id'') (\<lambda>i.
     rbind (bounded_identifier w ''worker_id'') (\<lambda>w'.
       case r_jobs s i of
         None \<Rightarrow> Inr (s, False)
       | Some j \<Rightarrow>
           if \<not> owned_by j w' then Inr (s, False)
           else Inr (mark_running i ts (put_row (renew_row j now) s), True)))"

definition rd_finish ::
  "redis_queue \<Rightarrow> string \<Rightarrow> string \<Rightarrow> bool \<Rightarrow> string option \<Rightarrow> int \<Rightarrow> int \<Rightarrow> (redis_queue \<times> job option) result" where
  "rd_finish s jid w success err now ts =
     rbind (bounded_identifier jid ''job_id'') (\<lambda>i.
     rbind (bounded_identifier w ''worker_id'') (\<lambda>w'.
       case r_jobs s i of
         None \<Rightarrow> Inr (s, None)
       | Some j \<Rightarrow>
           if \<not> owned_by j w' then Inr (s, None)
           else (let s' = leave_running j (finish_status j success) (finish_error err) now ts s in
                 rbind (rd_get s' i) (\<lambda>r. Inr (s', r)))))"

end
