(* ===== verification/RedisQueueInv.thy ===== *)
theory RedisQueueInv
  imports RedisQueue
begin

text \<open>
  The Redis queue keeps its indexes and rows in agreement and has the life cycle of \<open>JobModel\<close>:
  every transaction touches the indexes of one identifier only, so the invariant is stated per
  identifier. What follows: the branches of the code for stale entries of the sorted sets and for
  an inconsistent deduplication index are never taken.
\<close>

section \<open>Sorted sets\<close>

lemma zdom_zadd [simp]: "zdom (zadd m s z) = insert m (zdom z)"
  by (simp add: zdom_def zadd_def)

lemma zdom_zrem [simp]: "zdom (zrem m z) = zdom z - {m}"
  by (auto simp: zdom_def zrem_def)

lemma zdom_Nil [simp]: "zdom [] = {}"
  by (simp add: zdom_def)

lemma set_zrange [simp]: "set (zrange z) = set z"
  by (simp add: zrange_def)

lemma zfirst_zdom: "zfirst z = Some (i, sc) \<Longrightarrow> i \<in> zdom z"
  by (auto simp: zdom_def dest!: zfirst_mem intro: rev_image_eqI)

lemma zfirst_None: "zfirst z = None \<longleftrightarrow> zdom z = {}"
proof -
  have "zrange z = [] \<longleftrightarrow> z = []" by (metis set_empty set_zrange)
  then show ?thesis by (auto simp: zfirst_def zdom_def split: list.splits)
qed

section \<open>The invariant\<close>

definition row_indexed :: "redis_queue \<Rightarrow> string \<Rightarrow> bool" where
  "row_indexed s i \<longleftrightarrow>
     (case r_jobs s i of
        None \<Rightarrow> i \<notin> zdom (r_queued s) \<and> (\<forall>k. i \<notin> zdom (r_kinds s k)) \<and> i \<notin> zdom (r_running s) \<and>
          i \<notin> set (r_all s) \<and> (\<forall>c. i \<notin> set (r_campaigns s c)) \<and> (\<forall>sl. r_dedupe s sl \<noteq> Some i)
      | Some j \<Rightarrow> j_id j = i \<and> job_ok j \<and> is_ident i \<and>
          (i \<in> zdom (r_queued s) \<longleftrightarrow> j_status j = Queued \<and> uses_generic_queue (j_kind j)) \<and>
          (\<forall>k. i \<in> zdom (r_kinds s k) \<longleftrightarrow> j_status j = Queued \<and> j_kind j = k) \<and>
          (i \<in> zdom (r_running s) \<longleftrightarrow> j_status j = Running) \<and>
          i \<in> set (r_all s) \<and> (\<forall>c. i \<in> set (r_campaigns s c) \<longleftrightarrow> c = j_campaign j) \<and>
          (\<forall>c k d. r_dedupe s (c, k, d) = Some i \<longleftrightarrow> slot j = (c, k, Some d)))"

definition rd_inv :: "redis_queue \<Rightarrow> bool" where
  "rd_inv s \<longleftrightarrow> (\<forall>i. row_indexed s i) \<and> (\<forall>c. distinct (r_campaigns s c))"

lemma rd_invD: "rd_inv s \<Longrightarrow> row_indexed s i"
  by (simp add: rd_inv_def)

lemma rd_invI: "row_indexed s i \<Longrightarrow> (\<And>x. x \<noteq> i \<Longrightarrow> row_indexed s x) \<Longrightarrow>
    (\<And>c. distinct (r_campaigns s c)) \<Longrightarrow> rd_inv s"
  unfolding rd_inv_def by metis

lemma row_indexed_cong:
  assumes "r_jobs s' x = r_jobs s x" and "x \<in> zdom (r_queued s') \<longleftrightarrow> x \<in> zdom (r_queued s)"
    and "\<And>k. x \<in> zdom (r_kinds s' k) \<longleftrightarrow> x \<in> zdom (r_kinds s k)"
    and "x \<in> zdom (r_running s') \<longleftrightarrow> x \<in> zdom (r_running s)"
    and "x \<in> set (r_all s') \<longleftrightarrow> x \<in> set (r_all s)"
    and "\<And>c. x \<in> set (r_campaigns s' c) \<longleftrightarrow> x \<in> set (r_campaigns s c)"
    and "\<And>sl. r_dedupe s' sl = Some x \<longleftrightarrow> r_dedupe s sl = Some x"
  shows "row_indexed s' x \<longleftrightarrow> row_indexed s x"
  unfolding row_indexed_def assms ..

lemma rd_inv_row:
  assumes "rd_inv s" and "r_jobs s i = Some j"
  shows "j_id j = i" and "job_ok j"
    and "i \<in> zdom (r_queued s) \<longleftrightarrow> j_status j = Queued \<and> uses_generic_queue (j_kind j)"
    and "i \<in> zdom (r_kinds s k) \<longleftrightarrow> j_status j = Queued \<and> j_kind j = k"
    and "i \<in> zdom (r_running s) \<longleftrightarrow> j_status j = Running"
    and "i \<in> set (r_all s)" and "i \<in> set (r_campaigns s c) \<longleftrightarrow> c = j_campaign j"
    and "r_dedupe s (c, k, d) = Some i \<longleftrightarrow> slot j = (c, k, Some d)" and "is_ident i"
  using rd_invD [OF assms(1), of i] assms(2) by (simp_all add: row_indexed_def)

lemma rd_inv_queued:
  assumes "rd_inv s" and "i \<in> zdom (r_queued s)"
  obtains j where "r_jobs s i = Some j" "j_status j = Queued" "uses_generic_queue (j_kind j)"
    "j_attempts j < j_max j" "j_id j = i"
proof (cases "r_jobs s i")
  case (Some j)
  with assms rd_inv_row [OF assms(1) Some] that show thesis by (auto simp: job_ok_def)
qed (use rd_invD [OF assms(1), of i] assms(2) in \<open>simp add: row_indexed_def\<close>)

lemma rd_inv_kind:
  assumes "rd_inv s" and "i \<in> zdom (r_kinds s k)"
  obtains j where "r_jobs s i = Some j" "j_status j = Queued" "j_kind j = k"
    "j_attempts j < j_max j" "j_id j = i"
proof (cases "r_jobs s i")
  case (Some j)
  with assms rd_inv_row [OF assms(1) Some] that show thesis by (auto simp: job_ok_def)
qed (use rd_invD [OF assms(1), of i] assms(2) in \<open>simp add: row_indexed_def\<close>)

section \<open>Every transaction keeps it\<close>

text \<open>A change of one row keeps the invariant when the index entries of that row follow it and
  no others change.\<close>

definition follows :: "redis_queue \<Rightarrow> job \<Rightarrow> redis_queue \<Rightarrow> bool" where
  "follows s j s' \<longleftrightarrow> r_jobs s' = (r_jobs s)(j_id j \<mapsto> j) \<and>
     (\<forall>x. x \<in> zdom (r_queued s') \<longleftrightarrow> (if x = j_id j then j_status j = Queued \<and> uses_generic_queue (j_kind j)
        else x \<in> zdom (r_queued s))) \<and>
     (\<forall>k x. x \<in> zdom (r_kinds s' k) \<longleftrightarrow> (if x = j_id j then j_status j = Queued \<and> j_kind j = k
        else x \<in> zdom (r_kinds s k))) \<and>
     (\<forall>x. x \<in> zdom (r_running s') \<longleftrightarrow> (if x = j_id j then j_status j = Running
        else x \<in> zdom (r_running s))) \<and>
     r_all s' = r_all s \<and> r_campaigns s' = r_campaigns s \<and> r_dedupe s' = r_dedupe s"

lemma follows_inv:
  assumes inv: "rd_inv s" and row: "r_jobs s i = Some j" and "job_identity j' = job_identity j"
    and "job_ok j'" and f: "follows s j' s'"
  shows "rd_inv s'" and "r_jobs s' = (r_jobs s)(i \<mapsto> j')"
proof -
  note r = rd_inv_row [OF inv row]
  have i: "j_id j' = i" "j_campaign j' = j_campaign j" "slot j' = slot j"
    using assms(3) r(1) by (simp_all add: job_identity_def slot_def)
  show rows: "r_jobs s' = (r_jobs s)(i \<mapsto> j')" using f i by (simp add: follows_def)
  have rest: "r_all s' = r_all s" "r_campaigns s' = r_campaigns s" "r_dedupe s' = r_dedupe s"
    using f by (simp_all add: follows_def)
  have here: "i \<in> zdom (r_queued s') \<longleftrightarrow> j_status j' = Queued \<and> uses_generic_queue (j_kind j')"
    "i \<in> zdom (r_kinds s' k) \<longleftrightarrow> j_status j' = Queued \<and> j_kind j' = k"
    "i \<in> zdom (r_running s') \<longleftrightarrow> j_status j' = Running" for k
    using f i(1) unfolding follows_def by simp_all
  have other: "x \<in> zdom (r_queued s') \<longleftrightarrow> x \<in> zdom (r_queued s)"
    "x \<in> zdom (r_kinds s' k) \<longleftrightarrow> x \<in> zdom (r_kinds s k)"
    "x \<in> zdom (r_running s') \<longleftrightarrow> x \<in> zdom (r_running s)" if "x \<noteq> i" for x k
    using f i(1) that unfolding follows_def by simp_all
  have "row_indexed s' i"
    using r i assms(4) by (simp add: row_indexed_def rows rest here)
  moreover have "row_indexed s' x" if "x \<noteq> i" for x
  proof -
    have "row_indexed s' x \<longleftrightarrow> row_indexed s x"
      unfolding rows rest using that by (intro row_indexed_cong) (simp_all add: rows rest other)
    with inv show ?thesis by (simp add: rd_inv_def)
  qed
  moreover have "distinct (r_campaigns s' c)" for c using inv by (simp add: rest rd_inv_def)
  ultimately show "rd_inv s'" by (rule rd_invI)
qed

lemma job_identity_rows [simp]:
  "job_identity (release j st e n) = job_identity j" "job_identity (claim_row j w n) = job_identity j"
  "job_identity (renew_row j n) = job_identity j"
  by (simp_all add: job_identity_def)

lemmas transaction_defs = leave_running_def start_running_def drop_queued_def put_row_def unqueue_def
  unqueue_kind_def enqueue_id_def stop_running_def mark_running_def Let_def

lemma leave_running_inv:
  assumes "rd_inv s" and "r_jobs s i = Some j" and "j_status j = Running" and "st \<noteq> Running"
    and "st = Queued \<Longrightarrow> j_attempts j < j_max j"
  shows "rd_inv (leave_running j st e n ts s)"
    and "r_jobs (leave_running j st e n ts s) = (r_jobs s)(i \<mapsto> release j st e n)"
proof -
  note r = rd_inv_row [OF assms(1,2)]
  have ok: "job_ok (release j st e n)" using r(2) assms(4,5) by (rule job_ok_release)
  have f: "follows s (release j st e n) (leave_running j st e n ts s)"
    using r assms(3,4) by (auto simp: follows_def transaction_defs)
  show "rd_inv (leave_running j st e n ts s)" and "r_jobs (leave_running j st e n ts s) = (r_jobs s)(i \<mapsto> release j st e n)"
    by (rule follows_inv [OF assms(1,2) _ ok f], simp)+
qed

lemma start_running_inv:
  assumes "rd_inv s" and "r_jobs s i = Some j" and "j_status j = Queued"
  shows "rd_inv (start_running j w n ts s)"
    and "r_jobs (start_running j w n ts s) = (r_jobs s)(i \<mapsto> claim_row j w n)"
proof -
  note r = rd_inv_row [OF assms(1,2)]
  have ok: "job_ok (claim_row j w n)" using r(2) assms(3) by (rule job_ok_claim)
  have f: "follows s (claim_row j w n) (start_running j w n ts s)"
    using r assms(3) by (auto simp: follows_def transaction_defs)
  show "rd_inv (start_running j w n ts s)" and "r_jobs (start_running j w n ts s) = (r_jobs s)(i \<mapsto> claim_row j w n)"
    by (rule follows_inv [OF assms(1,2) _ ok f], simp)+
qed

lemma drop_queued_inv:
  assumes "rd_inv s" and "r_jobs s i = Some j" and "j_status j = Queued"
  shows "rd_inv (drop_queued (release j Cancelled e n) s)"
    and "r_jobs (drop_queued (release j Cancelled e n) s) = (r_jobs s)(i \<mapsto> release j Cancelled e n)"
proof -
  note r = rd_inv_row [OF assms(1,2)]
  have ok: "job_ok (release j Cancelled e n)" using r(2) by (rule job_ok_release) simp_all
  have f: "follows s (release j Cancelled e n) (drop_queued (release j Cancelled e n) s)"
    using r assms(3) by (auto simp: follows_def transaction_defs)
  show "rd_inv (drop_queued (release j Cancelled e n) s)" and "r_jobs (drop_queued (release j Cancelled e n) s) = (r_jobs s)(i \<mapsto> release j Cancelled e n)"
    by (rule follows_inv [OF assms(1,2) _ ok f], simp)+
qed

lemma renew_inv:
  assumes "rd_inv s" and "r_jobs s i = Some j" and "j_status j = Running"
  shows "rd_inv (mark_running i ts (put_row (renew_row j n) s))"
    and "r_jobs (mark_running i ts (put_row (renew_row j n) s)) = (r_jobs s)(i \<mapsto> renew_row j n)"
proof -
  note r = rd_inv_row [OF assms(1,2)]
  have ok: "job_ok (renew_row j n)" using r(2) assms(3) by (rule job_ok_renew)
  have f: "follows s (renew_row j n) (mark_running i ts (put_row (renew_row j n) s))"
    using r assms(3) by (auto simp: follows_def transaction_defs)
  show "rd_inv (mark_running i ts (put_row (renew_row j n) s))" and "r_jobs (mark_running i ts (put_row (renew_row j n) s)) = (r_jobs s)(i \<mapsto> renew_row j n)"
    by (rule follows_inv [OF assms(1,2) _ ok f], simp)+
qed

section \<open>Operations as sequences of transactions\<close>

definition rd_evolves :: "redis_queue \<Rightarrow> redis_queue \<Rightarrow> bool" where
  "rd_evolves s s' \<longleftrightarrow> rd_inv s' \<and> (\<forall>i. row_steps (r_jobs s i) (r_jobs s' i))"

lemma rd_evolves_refl: "rd_inv s \<Longrightarrow> rd_evolves s s"
  by (simp add: rd_evolves_def)

lemma rd_evolves_trans [trans]: "rd_evolves a b \<Longrightarrow> rd_evolves b c \<Longrightarrow> rd_evolves a c"
  unfolding rd_evolves_def using row_steps_trans by blast

lemma rd_evolves_row:
  "rd_inv s' \<Longrightarrow> r_jobs s' = (r_jobs s)(i \<mapsto> j') \<Longrightarrow> r_jobs s i = Some j \<Longrightarrow>
   row_steps (Some j) (Some j') \<Longrightarrow> rd_evolves s s'"
  by (simp add: rd_evolves_def)

lemma leave_running_evolves:
  "rd_inv s \<Longrightarrow> r_jobs s i = Some j \<Longrightarrow> j_status j = Running \<Longrightarrow> st \<noteq> Running \<Longrightarrow>
   (st = Queued \<Longrightarrow> j_attempts j < j_max j) \<Longrightarrow> rd_evolves s (leave_running j st e n ts s)"
  by (rule rd_evolves_row [OF leave_running_inv]) (auto intro: row_steps_one job_trans.released)

lemma start_running_evolves:
  "rd_inv s \<Longrightarrow> r_jobs s i = Some j \<Longrightarrow> j_status j = Queued \<Longrightarrow> rd_evolves s (start_running j w n ts s)"
  by (rule rd_evolves_row [OF start_running_inv]) (auto intro: row_steps_one job_trans.claimed)

lemma drop_queued_evolves:
  "rd_inv s \<Longrightarrow> r_jobs s i = Some j \<Longrightarrow> j_status j = Queued \<Longrightarrow>
   rd_evolves s (drop_queued (release j Cancelled e n) s)"
  by (rule rd_evolves_row [OF drop_queued_inv]) (auto intro: row_steps_one job_trans.dropped)

lemma renew_evolves:
  "rd_inv s \<Longrightarrow> r_jobs s i = Some j \<Longrightarrow> j_status j = Running \<Longrightarrow>
   rd_evolves s (mark_running i ts (put_row (renew_row j n) s))"
  by (rule rd_evolves_row [OF renew_inv]) (auto intro: row_steps_one job_trans.renewed)

lemma rd_recover_each_evolves:
  "rd_inv s \<Longrightarrow> rd_recover_each cutoff now ts ids (s, n) = (s', n') \<Longrightarrow> rd_evolves s s'"
proof (induction ids arbitrary: s n)
  case (Cons i ids)
  show ?case
  proof (cases "\<exists>j score. r_jobs s i = Some j \<and> map_of (r_running s) i = Some score \<and>
      j_status j = Running \<and> score \<le> cutoff")
    case True
    then obtain j score where j: "r_jobs s i = Some j" "map_of (r_running s) i = Some score"
      "j_status j = Running" "score \<le> cutoff" by blast
    let ?s = "leave_running j (expired_status j) (Some lease_expired_text) now ts s"
    have ev: "rd_evolves s ?s"
      using Cons.prems(1) j(1,3)
      by (rule leave_running_evolves) (auto simp: expired_status_def split: if_splits)
    have "rd_recover_each cutoff now ts ids (?s, Suc n) = (s', n')" using Cons.prems(2) j by simp
    moreover have "rd_inv ?s" using ev by (simp add: rd_evolves_def)
    ultimately have "rd_evolves ?s s'" by (rule Cons.IH [rotated])
    with ev show ?thesis by (rule rd_evolves_trans)
  next
    case False
    then have "rd_recover_each cutoff now ts ids (s, n) = (s', n')"
      using Cons.prems(2) by (auto split: option.splits if_splits)
    with Cons show ?thesis by blast
  qed
qed (simp add: rd_evolves_refl)

lemma rd_recover_evolves: "rd_recover env s now ts = Inr (s', n) \<Longrightarrow> rd_inv s \<Longrightarrow> rd_evolves s s'"
  by (auto simp: rd_recover_def Let_def dest: rd_recover_each_evolves)

lemma rd_cancel_each_evolves:
  "rd_inv s \<Longrightarrow> rd_cancel_each c now ids (s, n) = (s', n') \<Longrightarrow> rd_evolves s s'"
proof (induction ids arbitrary: s n)
  case (Cons i ids)
  show ?case
  proof (cases "\<exists>j. r_jobs s i = Some j \<and> j_status j = Queued \<and> j_campaign j = c")
    case True
    then obtain j where j: "r_jobs s i = Some j" "j_status j = Queued" "j_campaign j = c" by blast
    let ?s = "drop_queued (release j Cancelled (Some cancelled_text) now) s"
    have ev: "rd_evolves s ?s" using Cons.prems(1) j(1,2) by (rule drop_queued_evolves)
    have "rd_cancel_each c now ids (?s, Suc n) = (s', n')" using Cons.prems(2) j by simp
    moreover have "rd_inv ?s" using ev by (simp add: rd_evolves_def)
    ultimately have "rd_evolves ?s s'" by (rule Cons.IH [rotated])
    with ev show ?thesis by (rule rd_evolves_trans)
  next
    case False
    then have "rd_cancel_each c now ids (s, n) = (s', n')"
      using Cons.prems(2) by (auto split: option.splits if_splits)
    with Cons show ?thesis by blast
  qed
qed (simp add: rd_evolves_refl)

lemma rd_cancel_queued_evolves: "rd_cancel_queued s c now = Inr (s', n) \<Longrightarrow> rd_inv s \<Longrightarrow> rd_evolves s s'"
  by (auto simp: rd_cancel_queued_def dest: rd_cancel_each_evolves)

lemma rd_cancel_owned_evolves:
  assumes "rd_cancel_owned s i w r now = Inr (s', x)" and "rd_inv s"
  shows "rd_evolves s s'"
proof -
  have leave: "stop_running i' (put_row (release j Cancelled e now) s) = leave_running j Cancelled e now 0 s"
    if "r_jobs s i' = Some j" for i' j e
    using rd_inv_row(1) [OF assms(2) that] by (simp add: leave_running_def)
  show ?thesis
    using assms
    by (auto simp: rd_cancel_owned_def Let_def owned_by_def leave rd_evolves_refl
        split: option.splits if_splits intro: leave_running_evolves)
qed

lemma rd_heartbeat_evolves: "rd_heartbeat s i w now ts = Inr (s', b) \<Longrightarrow> rd_inv s \<Longrightarrow> rd_evolves s s'"
  by (auto simp: rd_heartbeat_def owned_by_def rd_evolves_refl split: option.splits if_splits
      intro: renew_evolves)

lemma rd_finish_evolves: "rd_finish s i w ok e now ts = Inr (s', x) \<Longrightarrow> rd_inv s \<Longrightarrow> rd_evolves s s'"
  by (auto simp: rd_finish_def Let_def owned_by_def rd_evolves_refl finish_status_def
      split: option.splits if_splits intro!: leave_running_evolves)

section \<open>Claims\<close>

text \<open>Under the invariant the first entry of a sorted set is always claimable: the loops of the
  code never drop an entry.\<close>

lemma rd_claim_loop_inv:
  assumes "rd_inv s"
  shows "rd_claim_loop w now ts s =
    (case zfirst (r_queued s) of None \<Rightarrow> (s, None)
     | Some (i, sc) \<Rightarrow> (start_running (the (r_jobs s i)) w now ts s,
         Some (claim_row (the (r_jobs s i)) w now)))"
proof (cases "zfirst (r_queued s)")
  case None
  then show ?thesis by (simp add: rd_claim_loop.simps)
next
  case (Some x)
  then obtain i sc where x: "zfirst (r_queued s) = Some (i, sc)" by (cases x) auto
  then obtain j where j: "r_jobs s i = Some j" "j_status j = Queued" "uses_generic_queue (j_kind j)"
    "j_attempts j < j_max j" "j_id j = i"
    by (rule rd_inv_queued [OF assms zfirst_zdom])
  have "r_jobs (start_running j w now ts s) i = Some (claim_row j w now)"
    using start_running_inv(2) [OF assms j(1,2)] by simp
  with x j show ?thesis by (simp add: rd_claim_loop.simps [of w now ts s] Let_def)
qed

lemma zrange_first: "zrange z = (i, sc) # r \<Longrightarrow> zfirst z = Some (i, sc)"
  by (simp add: zfirst_def)

lemma rd_claim_each_inv:
  assumes "rd_inv s"
  shows "rd_claim_each k w now ts (map fst (zrange (r_kinds s k))) s =
    (case zfirst (r_kinds s k) of None \<Rightarrow> (s, None)
     | Some (i, sc) \<Rightarrow> (start_running (the (r_jobs s i)) w now ts s,
         Some (claim_row (the (r_jobs s i)) w now)))"
proof (cases "zrange (r_kinds s k)")
  case Nil
  then show ?thesis by (simp add: zfirst_def)
next
  case (Cons x r)
  then obtain i sc where x: "zrange (r_kinds s k) = (i, sc) # r" by (cases x) auto
  note zf = zrange_first [OF x]
  then obtain j where j: "r_jobs s i = Some j" "j_status j = Queued" "j_kind j = k"
    "j_attempts j < j_max j" "j_id j = i"
    by (rule rd_inv_kind [OF assms zfirst_zdom])
  have "r_jobs (start_running j w now ts s) i = Some (claim_row j w now)"
    using start_running_inv(2) [OF assms j(1,2)] by simp
  with x zf j show ?thesis by (simp add: Let_def)
qed

lemma start_first_evolves:
  assumes "rd_inv s" and "zfirst (r_queued s) = Some (i, sc) \<or> zfirst (r_kinds s k) = Some (i, sc)"
  shows "rd_evolves s (start_running (the (r_jobs s i)) w now ts s)"
proof -
  from assms(2) obtain j where "r_jobs s i = Some j" "j_status j = Queued"
    by (auto dest!: zfirst_zdom elim: rd_inv_queued [OF assms(1)] rd_inv_kind [OF assms(1)])
  with assms(1) show ?thesis by (auto intro: start_running_evolves)
qed

lemma rd_claim_evolves:
  assumes "rd_claim env s w now ts = Inr (s', x)" and "rd_inv s"
  shows "rd_evolves s s'"
proof -
  from assms(1) obtain w' s1 n where s1: "rd_recover env s now ts = Inr (s1, n)"
    and l: "rd_claim_loop w' now ts s1 = (s', x)"
    by (auto simp: rd_claim_def)
  note ev = rd_recover_evolves [OF s1 assms(2)]
  then have inv: "rd_inv s1" by (simp add: rd_evolves_def)
  have "rd_evolves s1 s'"
    using l inv unfolding rd_claim_loop_inv [OF inv]
    by (auto split: option.splits intro: rd_evolves_refl start_first_evolves)
  with ev show ?thesis by (rule rd_evolves_trans)
qed

lemma rd_claim_kind_evolves:
  assumes "rd_claim_kind env s w k now ts = Inr (s', x)" and "rd_inv s"
  shows "rd_evolves s s'"
proof -
  from assms(1) obtain w' k' s1 n where s1: "rd_recover env s now ts = Inr (s1, n)"
    and l: "rd_claim_each k' w' now ts (map fst (zrange (r_kinds s1 k'))) s1 = (s', x)"
    by (auto simp: rd_claim_kind_def split: if_splits)
  note ev = rd_recover_evolves [OF s1 assms(2)]
  then have inv: "rd_inv s1" by (simp add: rd_evolves_def)
  have "rd_evolves s1 s'"
    using l inv unfolding rd_claim_each_inv [OF inv]
    by (auto split: option.splits intro: rd_evolves_refl start_first_evolves)
  with ev show ?thesis by (rule rd_evolves_trans)
qed

lemma rd_claim_rounds_evolves:
  "rd_claim_rounds n env w ks now ts s = Inr (s', x) \<Longrightarrow> rd_inv s \<Longrightarrow> rd_evolves s s'"
proof (induction n arbitrary: s)
  case (Suc n)
  show ?case
  proof (cases "sort (candidates s ks)")
    case Nil
    with Suc.prems show ?thesis by (simp add: rd_evolves_refl)
  next
    case (Cons a as)
    obtain sc i k where a: "a = (sc, i, k)" by (cases a)
    with Cons Suc.prems(1) obtain s1 r where r: "rd_claim_kind env s w k now ts = Inr (s1, r)"
      and rest: "(case r of Some j \<Rightarrow> Inr (s1, Some j) | None \<Rightarrow> rd_claim_rounds n env w ks now ts s1) = Inr (s', x)"
      by auto
    note ev = rd_claim_kind_evolves [OF r Suc.prems(2)]
    show ?thesis
    proof (cases r)
      case None
      then have "rd_evolves s1 s'" using Suc.IH rest ev by (simp add: rd_evolves_def)
      with ev show ?thesis by (rule rd_evolves_trans)
    next
      case (Some j)
      with rest ev show ?thesis by simp
    qed
  qed
qed (simp add: rd_evolves_refl)

lemma rd_claim_allowed_evolves:
  assumes "rd_claim_allowed env s w ks now ts = Inr (s', x)" and "rd_inv s"
  shows "rd_evolves s s'"
proof -
  from assms(1) obtain w' ks' s1 n where s1: "rd_recover env s now ts = Inr (s1, n)"
    and l: "rd_claim_rounds 32 env w' ks' now ts s1 = Inr (s', x)"
    by (auto simp: rd_claim_allowed_def simp del: rd_claim_rounds.simps)
  note ev = rd_recover_evolves [OF s1 assms(2)]
  then have "rd_evolves s1 s'" using rd_claim_rounds_evolves [OF l] by (simp add: rd_evolves_def)
  with ev show ?thesis by (rule rd_evolves_trans)
qed

section \<open>Enqueue\<close>

definition link :: "job \<Rightarrow> redis_queue \<Rightarrow> redis_queue" where
  "link j s = (case j_dedupe j of None \<Rightarrow> s
     | Some d \<Rightarrow> s\<lparr>r_dedupe := (r_dedupe s)((j_campaign j, j_kind j, d) \<mapsto> j_id j)\<rparr>)"

lemma add_job_inv:
  assumes inv: "rd_inv s" and new: "r_jobs s (j_id j) = None" and ok: "job_ok j" and q: "j_status j = Queued"
    and ident: "is_ident (j_id j)"
    and free: "\<And>d. j_dedupe j = Some d \<Longrightarrow> r_dedupe s (j_campaign j, j_kind j, d) = None"
  shows "rd_inv (link j (add_job j ts s))"
    and "r_jobs (link j (add_job j ts s)) = (r_jobs s)(j_id j \<mapsto> j)"
proof -
  show rows: "r_jobs (link j (add_job j ts s)) = (r_jobs s)(j_id j \<mapsto> j)"
    by (simp add: link_def add_job_def transaction_defs split: option.split)
  have "row_indexed (link j (add_job j ts s)) (j_id j)"
    using rd_invD [OF inv, of "j_id j"] new ok q ident
    by (auto simp: row_indexed_def rows slot_def link_def add_job_def transaction_defs split: option.split)
  moreover have "row_indexed (link j (add_job j ts s)) x" if "x \<noteq> j_id j" for x
  proof -
    have rest: "x \<in> zdom (r_queued (link j (add_job j ts s))) \<longleftrightarrow> x \<in> zdom (r_queued s)"
      "x \<in> zdom (r_kinds (link j (add_job j ts s)) k) \<longleftrightarrow> x \<in> zdom (r_kinds s k)"
      "x \<in> zdom (r_running (link j (add_job j ts s))) \<longleftrightarrow> x \<in> zdom (r_running s)"
      "x \<in> set (r_all (link j (add_job j ts s))) \<longleftrightarrow> x \<in> set (r_all s)"
      "x \<in> set (r_campaigns (link j (add_job j ts s)) c) \<longleftrightarrow> x \<in> set (r_campaigns s c)" for k c
      using that by (simp_all add: link_def add_job_def transaction_defs split: option.split)
    have "r_dedupe (link j (add_job j ts s)) sl = Some x \<longleftrightarrow> r_dedupe s sl = Some x" for sl
      using that free
      by (cases "j_dedupe j") (simp_all add: link_def add_job_def transaction_defs)
    with rest that have "row_indexed (link j (add_job j ts s)) x \<longleftrightarrow> row_indexed s x"
      by (intro row_indexed_cong) (simp_all add: rows)
    with inv show ?thesis by (simp add: rd_inv_def)
  qed
  moreover have "distinct (r_campaigns (link j (add_job j ts s)) c)" for c
    using inv by (simp add: rd_inv_def link_def add_job_def transaction_defs split: option.split)
  ultimately show "rd_inv (link j (add_job j ts s))" by (rule rd_invI)
qed

lemma rd_created_new: "is_ident jid \<Longrightarrow> r_jobs s jid = Some j \<Longrightarrow> rd_created s jid = Inr (s, j)"
  by (simp add: rd_created_def rd_get_def)

lemma rd_enqueue_cases:
  assumes "rd_enqueue env s c k p m d jid now ts = Inr (s', j)" and "is_ident jid"
  obtains (New) r where "check_enqueue env c k p m d = Inr r" "j = new_job r jid now"
      "s' = link j (add_job j ts s)"
      "\<And>d. rq_dedupe r = Some d \<Longrightarrow> r_dedupe s (rq_campaign r, rq_kind r, d) = None"
    | (Old) r dk i where "check_enqueue env c k p m d = Inr r" "s' = s" "rq_dedupe r = Some dk"
        "r_dedupe s (rq_campaign r, rq_kind r, dk) = Some i" "rd_get s i = Inr (Some j)" "j_payload j = rq_payload r"
proof -
  obtain r where r: "check_enqueue env c k p m d = Inr r"
    using assms(1) by (auto simp: rd_enqueue_def)
  let ?j = "new_job r jid now"
  have row: "r_jobs (add_job ?j ts s) jid = Some ?j"
    by (simp add: add_job_def transaction_defs)
  show thesis
  proof (cases "rq_dedupe r")
    case None
    then have "rd_created (add_job ?j ts s) jid = Inr (s', j)"
      using assms(1) r by (simp add: rd_enqueue_def Let_def)
    moreover have "link ?j (add_job ?j ts s) = add_job ?j ts s" using None by (simp add: link_def)
    ultimately have "(s', j) = (link ?j (add_job ?j ts s), ?j)"
      using rd_created_new [OF assms(2) row] by (metis Inr_inject)
    then have "s' = link ?j (add_job ?j ts s)" "j = ?j" by simp_all
    with None r show thesis by (intro New [of r]) simp_all
  next
    case (Some dk)
    show thesis
    proof (cases "r_dedupe s (rq_campaign r, rq_kind r, dk)")
      case None
      let ?s = "(add_job ?j ts s)\<lparr>r_dedupe := (r_dedupe (add_job ?j ts s))((rq_campaign r, rq_kind r, dk) \<mapsto> jid)\<rparr>"
      have "rd_created ?s jid = Inr (s', j)"
        using assms(1) r Some None by (simp add: rd_enqueue_def Let_def)
      moreover have "rd_created ?s jid = Inr (?s, ?j)"
        using assms(2) row by (intro rd_created_new) simp_all
      moreover have "link ?j (add_job ?j ts s) = ?s" using Some by (simp add: link_def)
      ultimately have "(s', j) = (link ?j (add_job ?j ts s), ?j)" by (metis Inr_inject)
      then have "s' = link ?j (add_job ?j ts s)" "j = ?j" by simp_all
      with None Some r show thesis by (intro New [of r]) simp_all
    next
      case (Some i)
      with \<open>rq_dedupe r = Some dk\<close> assms(1) r show thesis
        by (intro Old [of r dk i]) (auto simp: rd_enqueue_def Let_def
            split: option.splits if_splits)
    qed
  qed
qed

lemma dedupe_lookup:
  assumes "rd_inv s" and "r_dedupe s sl = Some i"
  shows "\<exists>j. rd_get s i = Inr (Some j)"
proof (cases "r_jobs s i")
  case (Some j)
  then show ?thesis using rd_inv_row(9) [OF assms(1) Some] by (simp add: rd_get_def)
qed (use rd_invD [OF assms(1), of i] assms(2) in
    \<open>simp add: row_indexed_def del: split_paired_All\<close>)

lemma rd_enqueue_evolves:
  assumes "rd_enqueue env s c k p m d jid now ts = Inr (s', j)" and "is_ident jid"
    and "rd_inv s" and "r_jobs s jid = None"
  shows "rd_evolves s s'"
  using assms(1,2)
proof (cases rule: rd_enqueue_cases)
  case (New r)
  have ok: "job_ok j" using New(1,2) by (simp add: job_ok_new)
  have id: "j_id j = jid" and q: "j_status j = Queued" "j_attempts j = 0" using New(2) by simp_all
  have free: "r_dedupe s (j_campaign j, j_kind j, d) = None" if "j_dedupe j = Some d" for d
    using New(2,4) that by simp
  note add = add_job_inv [of s j ts, unfolded id, OF assms(3,4) ok q(1) assms(2) free]
  have "row_steps None (Some j)" using q ok by (intro row_steps_one job_trans.created)
  with add New(3) assms(4) show ?thesis by (simp add: rd_evolves_def id)
next
  case (Old r dk i)
  with assms(3) show ?thesis by (simp add: rd_evolves_refl)
qed

section \<open>Steps and the contract\<close>

inductive rd_step :: "redis_queue \<Rightarrow> redis_queue \<Rightarrow> bool" where
  enqueue: "rd_enqueue env s c k p m d jid now ts = Inr (s', j) \<Longrightarrow> is_ident jid \<Longrightarrow>
    r_jobs s jid = None \<Longrightarrow> rd_step s s'"
| cancel_queued: "rd_cancel_queued s c now = Inr (s', n) \<Longrightarrow> rd_step s s'"
| cancel_owned: "rd_cancel_owned s i w r now = Inr (s', x) \<Longrightarrow> rd_step s s'"
| recover: "rd_recover env s now ts = Inr (s', n) \<Longrightarrow> rd_step s s'"
| claim: "rd_claim env s w now ts = Inr (s', x) \<Longrightarrow> rd_step s s'"
| claim_allowed: "rd_claim_allowed env s w ks now ts = Inr (s', x) \<Longrightarrow> rd_step s s'"
| claim_kind: "rd_claim_kind env s w kd now ts = Inr (s', x) \<Longrightarrow> rd_step s s'"
| heartbeat: "rd_heartbeat s i w now ts = Inr (s', b) \<Longrightarrow> rd_step s s'"
| finish: "rd_finish s i w ok e now ts = Inr (s', x) \<Longrightarrow> rd_step s s'"

lemmas rd_evolves_rules = rd_enqueue_evolves rd_cancel_queued_evolves rd_cancel_owned_evolves
  rd_recover_evolves rd_claim_evolves rd_claim_allowed_evolves rd_claim_kind_evolves
  rd_heartbeat_evolves rd_finish_evolves

lemma rd_step_evolves: "rd_step s s' \<Longrightarrow> rd_inv s \<Longrightarrow> rd_evolves s s'"
  by (cases rule: rd_step.cases) (auto dest: rd_evolves_rules)

interpretation rd: job_lifecycle rd_step r_jobs rd_inv rd_empty
proof
  show "rd_inv rd_empty" by (simp add: rd_inv_def row_indexed_def rd_empty_def)
  show "r_jobs rd_empty i = None" for i by (simp add: rd_empty_def)
  show "rd_inv s'" if "rd_inv s" "rd_step s s'" for s s'
    using rd_step_evolves [OF that(2,1)] by (simp add: rd_evolves_def)
  show "row_steps (r_jobs s i) (r_jobs s' i)" if "rd_inv s" "rd_step s s'" for s s' i
    using rd_step_evolves [OF that(2,1)] by (simp add: rd_evolves_def)
qed

end
