(* ===== verification/PlannerBudget.thy ===== *)
theory PlannerBudget
  imports Planner JobQueueInv RedisQueueInv
begin

text \<open>
  \<open>backend/app/planner_budget.py\<close> and \<open>decision_history\<close> of \<open>backend/app/knowledge_memory.py\<close>: the
  resource budget of a campaign, and how it blocks planned actions. What the budget needs of a
  queue is the locale \<open>job_telemetry\<close>; both queues provide it.
\<close>

section \<open>Limits\<close>

record planner_budget =
  pb_actions :: int
  pb_scans :: int
  pb_validations :: int
  pb_batch :: int
  pb_reports :: int
  pb_inflight :: int
  pb_failed :: int

text \<open>\<open>PlannerBudget.__post_init__\<close>.\<close>

definition check_budget :: "planner_budget \<Rightarrow> planner_budget result" where
  "check_budget b =
     (if list_ex (\<lambda>v. v < 1) [pb_actions b, pb_scans b, pb_validations b, pb_batch b, pb_reports b,
          pb_inflight b, pb_failed b]
      then Inl (ValueError ''planner budget limits must be positive'')
      else if pb_batch b > pb_validations b
      then Inl (ValueError ''max_validation_batch cannot exceed max_validations'')
      else Inr b)"

definition default_budget :: planner_budget where
  "default_budget = \<lparr>pb_actions = 50, pb_scans = 3, pb_validations = 25, pb_batch = 10, pb_reports = 5,
     pb_inflight = 12, pb_failed = 5\<rparr>"

definition env_int :: "environ \<Rightarrow> string \<Rightarrow> int \<Rightarrow> int \<Rightarrow> int \<Rightarrow> int result" where
  "env_int env name dflt minimum maximum =
     (case env name of None \<Rightarrow> Inr dflt
      | Some raw \<Rightarrow>
         (case py_int raw of
            None \<Rightarrow> Inl (ValueError (name @ '' must be an integer''))
          | Some v \<Rightarrow>
              if \<not> (minimum \<le> v \<and> v \<le> maximum) then
                Inl (ValueError (name @ '' must be between '' @ int_str minimum @ '' and '' @ int_str maximum))
              else Inr v))"

definition planner_budget_from_env :: "environ \<Rightarrow> planner_budget result" where
  "planner_budget_from_env env =
     rbind (env_int env ''XBOW_PLANNER_MAX_ACTIONS'' 50 1 1000) (\<lambda>a.
     rbind (env_int env ''XBOW_PLANNER_MAX_SCANS'' 3 1 100) (\<lambda>s.
     rbind (env_int env ''XBOW_PLANNER_MAX_VALIDATIONS'' 25 1 1000) (\<lambda>v.
     rbind (env_int env ''XBOW_PLANNER_MAX_VALIDATION_BATCH'' 10 1 100) (\<lambda>b.
     rbind (env_int env ''XBOW_PLANNER_MAX_REPORTS'' 5 1 100) (\<lambda>r.
     rbind (env_int env ''XBOW_PLANNER_MAX_INFLIGHT_JOBS'' 12 1 500) (\<lambda>i.
     rbind (env_int env ''XBOW_PLANNER_MAX_FAILED_JOBS'' 5 1 100) (\<lambda>f.
       check_budget \<lparr>pb_actions = a, pb_scans = s, pb_validations = v, pb_batch = b, pb_reports = r,
         pb_inflight = i, pb_failed = f\<rparr>)))))))"

section \<open>Usage\<close>

text \<open>\<open>decision_history\<close>: the recorded planner decisions; the budget reads their action.\<close>

definition decision_history :: "obs_graph \<Rightarrow> pydict list" where
  "decision_history g =
     map (\<lambda>e. [(''id'', PStr (ob_id e)), (''action'', pget (ob_meta e) ''action''),
        (''agent'', pget (ob_meta e) ''agent''), (''reason'', pget (ob_meta e) ''reason''),
        (''priority'', pget (ob_meta e) ''priority''),
        (''graph_fingerprint'', pget (ob_meta e) ''graph_fingerprint'')])
       (filter (\<lambda>e. py_eq (pget (ob_meta e) ''memory_type'') (PStr ''planner_decision''))
         (by_kind Evidence g))"

record budget_usage =
  bu_actions :: int
  bu_scans :: int
  bu_validations :: int
  bu_reports :: int
  bu_inflight :: int
  bu_failed :: int
  bu_remaining_actions :: int
  bu_remaining_scans :: int
  bu_remaining_validations :: int
  bu_remaining_reports :: int
  bu_remaining_inflight :: int
  bu_remaining_failed :: int
  bu_blocked :: "(action_kind \<times> string) list"
  bu_exhausted :: bool
  bu_reason :: "string option"

definition block :: "bool \<Rightarrow> action_kind list \<Rightarrow> string \<Rightarrow> (action_kind \<times> string) list \<Rightarrow>
    (action_kind \<times> string) list" where
  "block c kinds reason d = (if c then foldl (\<lambda>d k. dict_set k reason d) d kinds else d)"

definition blocked_actions ::
  "int \<Rightarrow> int \<Rightarrow> int \<Rightarrow> int \<Rightarrow> int \<Rightarrow> int \<Rightarrow> planner_budget \<Rightarrow> (action_kind \<times> string) list" where
  "blocked_actions actions scans validations reports inflight failed limits =
     (if actions \<ge> pb_actions limits
      then map (\<lambda>k. (k, ''planner action budget exhausted'')) [Inventory, Crawl, Scan, Validate, Report]
      else block (reports \<ge> pb_reports limits) [Report] ''report budget exhausted''
          (block (validations \<ge> pb_validations limits) [Validate] ''validation budget exhausted''
          (block (scans \<ge> pb_scans limits) [Scan] ''scan budget exhausted''
          (block (inflight \<ge> pb_inflight limits) [Scan, Validate, Report] ''in-flight job budget exhausted''
          (block (failed \<ge> pb_failed limits) [Scan, Validate, Report] ''failed job budget exhausted'' [])))))"

text \<open>\<open>d[k]\<close>.\<close>

definition dict_item :: "(string \<times> 'v) list \<Rightarrow> string \<Rightarrow> 'v result" where
  "dict_item d k = (case map_of d k of None \<Rightarrow> Inl (KeyError k) | Some v \<Rightarrow> Inr v)"

text \<open>\<open>budget_usage\<close>, from the answers of the queue's two counting methods.\<close>

definition usage_of :: "obs_graph \<Rightarrow> (string \<times> nat) list result \<Rightarrow> (job_status \<Rightarrow> nat) result \<Rightarrow>
    planner_budget \<Rightarrow> budget_usage result" where
  "usage_of g counts_r statuses_r limits =
     (let history = decision_history g in
      rbind counts_r (\<lambda>counts. rbind statuses_r (\<lambda>statuses.
      let actions = int (length (filter (\<lambda>i. \<not> py_eq (pget i ''action'') (PStr ''stop'')) history)) in
      rbind (dict_item counts ''strix_scan'') (\<lambda>strix.
      rbind (dict_item counts ''nuclei_scan'') (\<lambda>nuclei.
      rbind (dict_item counts ''independent_validation'') (\<lambda>vals.
      rbind (dict_item counts ''report'') (\<lambda>reps.
        let scans = int (strix + nuclei); validations = int vals; reports = int reps;
            inflight = int (statuses Queued + statuses Running); failed = int (statuses Failed);
            exhausted = (actions \<ge> pb_actions limits) in
        Inr \<lparr>bu_actions = actions, bu_scans = scans, bu_validations = validations, bu_reports = reports,
          bu_inflight = inflight, bu_failed = failed,
          bu_remaining_actions = max 0 (pb_actions limits - actions),
          bu_remaining_scans = max 0 (pb_scans limits - scans),
          bu_remaining_validations = max 0 (pb_validations limits - validations),
          bu_remaining_reports = max 0 (pb_reports limits - reports),
          bu_remaining_inflight = max 0 (pb_inflight limits - inflight),
          bu_remaining_failed = max 0 (pb_failed limits - failed),
          bu_blocked = blocked_actions actions scans validations reports inflight failed limits,
          bu_exhausted = exhausted,
          bu_reason = (if exhausted then Some ''planner action budget exhausted'' else None)\<rparr>)))))))"

definition apply_budget :: "planned_action \<Rightarrow> budget_usage \<Rightarrow> planned_action \<times> budget_usage" where
  "apply_budget a usage =
     (case map_of (bu_blocked usage) (pa_kind a) of
        None \<Rightarrow> (a, usage)
      | Some reason \<Rightarrow> (act Stop (pa_target a) reason 100,
          usage\<lparr>bu_exhausted := True, bu_reason := Some reason\<rparr>))"

definition validation_batch_limit :: "budget_usage \<Rightarrow> planner_budget \<Rightarrow> int" where
  "validation_batch_limit usage limits =
     max 0 (min (pb_batch limits) (min (bu_remaining_validations usage) (bu_remaining_inflight usage)))"

definition scan_batch_limit :: "budget_usage \<Rightarrow> int \<Rightarrow> planner_budget \<Rightarrow> int result" where
  "scan_batch_limit usage requested limits =
     (if requested < 0 then Inl (ValueError ''requested_engines must be non-negative'')
      else Inr (max 0 (min requested (min (bu_remaining_scans usage)
        (min (bu_remaining_inflight usage) (pb_scans limits))))))"

section \<open>What is blocked\<close>

lemma map_of_block: "map_of (block c ks r d) k = (if c \<and> k \<in> set ks then Some r else map_of d k)"
proof -
  have "map_of (foldl (\<lambda>d k. dict_set k r d) d ks) k = (if k \<in> set ks then Some r else map_of d k)"
    by (induction ks arbitrary: d) auto
  then show ?thesis by (simp add: block_def)
qed

lemma not_blocked:
  assumes "map_of (blocked_actions a s v r i f l) k = None" and "k \<noteq> Stop"
  shows "a < pb_actions l" and "k \<in> {Scan, Validate, Report} \<Longrightarrow> i < pb_inflight l \<and> f < pb_failed l"
    and "k = Scan \<Longrightarrow> s < pb_scans l" and "k = Validate \<Longrightarrow> v < pb_validations l"
    and "k = Report \<Longrightarrow> r < pb_reports l"
  using assms by (cases k; auto simp: blocked_actions_def map_of_block split: if_splits)+

lemma check_budget_Inr:
  "check_budget b = Inr b' \<Longrightarrow> b' = b \<and> 1 \<le> pb_actions b \<and> 1 \<le> pb_scans b \<and> 1 \<le> pb_validations b \<and>
     1 \<le> pb_batch b \<and> 1 \<le> pb_reports b \<and> 1 \<le> pb_inflight b \<and> 1 \<le> pb_failed b \<and> pb_batch b \<le> pb_validations b"
  by (auto simp: check_budget_def split: if_splits)

lemma apply_budget_same:
  "fst (apply_budget a u) \<noteq> a \<or> map_of (bu_blocked u) (pa_kind a) = None \<or> pa_kind a = Stop"
  by (auto simp: apply_budget_def split: option.splits dest: arg_cong [where f = pa_kind])

section \<open>The telemetry of a queue\<close>

locale job_telemetry =
  fixes kind_counts :: "'q \<Rightarrow> string \<Rightarrow> (string \<times> nat) list result"
    and status_counts :: "'q \<Rightarrow> string \<Rightarrow> (job_status \<Rightarrow> nat) result"
    and rows :: "'q \<Rightarrow> job set"
    and inv :: "'q \<Rightarrow> bool"
  assumes finite_rows: "inv q \<Longrightarrow> finite (rows q)"
    and kinds_law: "inv q \<Longrightarrow> is_ident c \<Longrightarrow> \<exists>d. kind_counts q c = Inr d \<and>
      (\<forall>k \<in> set allowed_kinds. map_of d k = Some (card {j \<in> rows q. j_campaign j = c \<and> j_kind j = k}))"
    and status_law: "inv q \<Longrightarrow> is_ident c \<Longrightarrow>
      status_counts q c = Inr (\<lambda>st. card {j \<in> rows q. j_campaign j = c \<and> j_status j = st})"
begin

lemma card_split:
  "inv q \<Longrightarrow> (\<And>j. P j \<Longrightarrow> \<not> Q j) \<Longrightarrow>
   card {j \<in> rows q. j_campaign j = c \<and> P j} + card {j \<in> rows q. j_campaign j = c \<and> Q j} =
   card {j \<in> rows q. j_campaign j = c \<and> (P j \<or> Q j)}"
proof -
  assume inv: "inv q" and dis: "\<And>j. P j \<Longrightarrow> \<not> Q j"
  have "{j \<in> rows q. j_campaign j = c \<and> (P j \<or> Q j)} =
      {j \<in> rows q. j_campaign j = c \<and> P j} \<union> {j \<in> rows q. j_campaign j = c \<and> Q j}" by auto
  moreover have "{j \<in> rows q. j_campaign j = c \<and> P j} \<inter> {j \<in> rows q. j_campaign j = c \<and> Q j} = {}"
    using dis by auto
  ultimately show ?thesis using finite_rows [OF inv] by (simp add: card_Un_disjoint)
qed

lemma usage_exact:
  assumes "inv q" and "is_ident c"
  shows "\<exists>u. usage_of g (kind_counts q c) (status_counts q c) l = Inr u \<and>
    bu_scans u = int (card {j \<in> rows q. j_campaign j = c \<and> (j_kind j = ''strix_scan'' \<or> j_kind j = ''nuclei_scan'')}) \<and>
    bu_validations u = int (card {j \<in> rows q. j_campaign j = c \<and> j_kind j = ''independent_validation''}) \<and>
    bu_reports u = int (card {j \<in> rows q. j_campaign j = c \<and> j_kind j = ''report''}) \<and>
    bu_inflight u = int (card {j \<in> rows q. j_campaign j = c \<and> (j_status j = Queued \<or> j_status j = Running)}) \<and>
    bu_failed u = int (card {j \<in> rows q. j_campaign j = c \<and> j_status j = Failed}) \<and>
    bu_blocked u = blocked_actions (bu_actions u) (bu_scans u) (bu_validations u) (bu_reports u) (bu_inflight u)
      (bu_failed u) l"
proof -
  from kinds_law [OF assms] obtain d where d: "kind_counts q c = Inr d"
    "\<forall>k \<in> set allowed_kinds. map_of d k = Some (card {j \<in> rows q. j_campaign j = c \<and> j_kind j = k})" by blast
  then have items: "dict_item d k = Inr (card {j \<in> rows q. j_campaign j = c \<and> j_kind j = k})"
    if "k \<in> set allowed_kinds" for k using that by (simp add: dict_item_def)
  have sum: "card {j \<in> rows q. j_campaign j = c \<and> j_kind j = ''strix_scan''} +
      card {j \<in> rows q. j_campaign j = c \<and> j_kind j = ''nuclei_scan''} =
      card {j \<in> rows q. j_campaign j = c \<and> (j_kind j = ''strix_scan'' \<or> j_kind j = ''nuclei_scan'')}"
    "card {j \<in> rows q. j_campaign j = c \<and> j_status j = Queued} +
      card {j \<in> rows q. j_campaign j = c \<and> j_status j = Running} =
      card {j \<in> rows q. j_campaign j = c \<and> (j_status j = Queued \<or> j_status j = Running)}"
    by (rule card_split [OF assms(1)], simp)+
  show ?thesis
    by (simp add: usage_of_def Let_def d(1) status_law [OF assms] items allowed_kinds_def
        sum [symmetric])
qed

text \<open>An action the budget lets pass finds room for its job.\<close>

lemma within_budget:
  assumes "inv q" and "is_ident c"
    and "usage_of g (kind_counts q c) (status_counts q c) l = Inr u" and "fst (apply_budget a u) = a"
    and "pa_kind a \<noteq> Stop"
  shows "bu_actions u < pb_actions l"
    and "pa_kind a \<in> {Scan, Validate, Report} \<Longrightarrow>
      int (card {j \<in> rows q. j_campaign j = c \<and> (j_status j = Queued \<or> j_status j = Running)}) < pb_inflight l \<and>
      int (card {j \<in> rows q. j_campaign j = c \<and> j_status j = Failed}) < pb_failed l"
    and "pa_kind a = Scan \<Longrightarrow> int (card {j \<in> rows q. j_campaign j = c \<and>
      (j_kind j = ''strix_scan'' \<or> j_kind j = ''nuclei_scan'')}) < pb_scans l"
    and "pa_kind a = Validate \<Longrightarrow>
      int (card {j \<in> rows q. j_campaign j = c \<and> j_kind j = ''independent_validation''}) < pb_validations l"
    and "pa_kind a = Report \<Longrightarrow>
      int (card {j \<in> rows q. j_campaign j = c \<and> j_kind j = ''report''}) < pb_reports l"
proof -
  obtain u' where u': "usage_of g (kind_counts q c) (status_counts q c) l = Inr u'"
    and ex: "bu_scans u' = int (card {j \<in> rows q. j_campaign j = c \<and> (j_kind j = ''strix_scan'' \<or> j_kind j = ''nuclei_scan'')})"
      "bu_validations u' = int (card {j \<in> rows q. j_campaign j = c \<and> j_kind j = ''independent_validation''})"
      "bu_reports u' = int (card {j \<in> rows q. j_campaign j = c \<and> j_kind j = ''report''})"
      "bu_inflight u' = int (card {j \<in> rows q. j_campaign j = c \<and> (j_status j = Queued \<or> j_status j = Running)})"
      "bu_failed u' = int (card {j \<in> rows q. j_campaign j = c \<and> j_status j = Failed})"
      "bu_blocked u' = blocked_actions (bu_actions u') (bu_scans u') (bu_validations u') (bu_reports u')
        (bu_inflight u') (bu_failed u') l"
    using usage_exact [OF assms(1,2)] by blast
  have "u' = u" using u' assms(3) by simp
  moreover have "map_of (bu_blocked u) (pa_kind a) = None"
    using apply_budget_same [of a u] assms(4,5) by simp
  ultimately have none: "map_of (blocked_actions (bu_actions u) (bu_scans u) (bu_validations u) (bu_reports u)
        (bu_inflight u) (bu_failed u) l) (pa_kind a) = None" using ex(6) by simp
  note n = not_blocked [OF this assms(5)] and e = ex [unfolded \<open>u' = u\<close>]
  show "bu_actions u < pb_actions l" by (rule n(1))
  show "pa_kind a \<in> {Scan, Validate, Report} \<Longrightarrow>
      int (card {j \<in> rows q. j_campaign j = c \<and> (j_status j = Queued \<or> j_status j = Running)}) < pb_inflight l \<and>
      int (card {j \<in> rows q. j_campaign j = c \<and> j_status j = Failed}) < pb_failed l"
    using n(2) e(4,5) by simp
  show "pa_kind a = Scan \<Longrightarrow> int (card {j \<in> rows q. j_campaign j = c \<and>
      (j_kind j = ''strix_scan'' \<or> j_kind j = ''nuclei_scan'')}) < pb_scans l"
    using n(3) e(1) by simp
  show "pa_kind a = Validate \<Longrightarrow>
      int (card {j \<in> rows q. j_campaign j = c \<and> j_kind j = ''independent_validation''}) < pb_validations l"
    using n(4) e(2) by simp
  show "pa_kind a = Report \<Longrightarrow>
      int (card {j \<in> rows q. j_campaign j = c \<and> j_kind j = ''report''}) < pb_reports l"
    using n(5) e(3) by simp
qed

end

section \<open>Both queues provide it\<close>

lemma map_of_foldl_keys:
  "map_of (foldl (\<lambda>d k. dict_set k (f k) d) d ks) k = (if k \<in> set ks then Some (f k) else map_of d k)"
  by (induction ks arbitrary: d) auto

lemma map_of_map_key: "map_of (map (\<lambda>k. (k, f k)) ks) k = (if k \<in> set ks then Some (f k) else None)"
  by (induction ks) auto

lemma length_filter_card: "distinct q \<Longrightarrow> length (filter P q) = card {j \<in> set q. P j}"
  using distinct_card [of "filter P q"] by simp

lemma sq_kinds_law:
  assumes "sq_inv q" and "is_ident c"
  shows "\<exists>d. sq_campaign_job_counts q c = Inr d \<and>
    (\<forall>k \<in> set allowed_kinds. map_of d k = Some (card {j \<in> set q. j_campaign j = c \<and> j_kind j = k}))"
proof -
  have d: "distinct q" using assms(1) by (simp add: sq_inv_def distinct_map)
  have kc: "kind_count k (in_campaign c q) = card {j \<in> set q. j_campaign j = c \<and> j_kind j = k}" for k
    using length_filter_card [OF d, of "\<lambda>j. j_campaign j = c \<and> j_kind j = k"]
    by (simp add: kind_count_def in_campaign_def conj_commute)
  have z: "map_of (map (\<lambda>k. (k, 0)) allowed_kinds) k = Some (0 :: nat)" if "k \<in> set allowed_kinds" for k
    using that by (simp add: map_of_map_key)
  have "card {j \<in> set q. j_campaign j = c \<and> j_kind j = k} = 0" if "k \<notin> j_kind ` set (in_campaign c q)" for k
    using that by (auto simp: in_campaign_def card_eq_0_iff)
  with z show ?thesis
    using assms(2) by (auto simp: sq_campaign_job_counts_def Let_def map_of_foldl_keys kc image_iff)
qed

interpretation sq_telemetry: job_telemetry sq_campaign_job_counts sq_campaign_job_status_counts set sq_inv
proof
  show "finite (set q)" for q :: job_queue by simp
  show "\<exists>d. sq_campaign_job_counts q c = Inr d \<and>
      (\<forall>k \<in> set allowed_kinds. map_of d k = Some (card {j \<in> set q. j_campaign j = c \<and> j_kind j = k}))"
    if "sq_inv q" "is_ident c" for q c using that by (rule sq_kinds_law)
  show "sq_campaign_job_status_counts q c =
      Inr (\<lambda>st. card {j \<in> set q. j_campaign j = c \<and> j_status j = st})" if "sq_inv q" "is_ident c" for q c
  proof -
    have "distinct q" using that(1) by (simp add: sq_inv_def distinct_map)
    then show ?thesis
      using that(2) length_filter_card [of q "\<lambda>j. j_campaign j = c \<and> j_status j = st" for st]
      by (auto simp: sq_campaign_job_status_counts_def status_count_def in_campaign_def conj_commute)
  qed
qed

lemma rd_count_rows:
  assumes inv: "rd_inv s"
  shows "count_rows s P (r_campaigns s c) = card {j \<in> ran (r_jobs s). j_campaign j = c \<and> P j}"
proof -
  let ?ids = "filter (\<lambda>i. case r_jobs s i of None \<Rightarrow> False | Some j \<Rightarrow> P j) (r_campaigns s c)"
  have "distinct ?ids" using inv by (simp add: rd_inv_def)
  then have "count_rows s P (r_campaigns s c) = card (set ?ids)"
    by (simp add: count_rows_def distinct_card [symmetric] del: set_filter)
  moreover have row: "i = j_id j" "i \<in> set (r_campaigns s c) \<longleftrightarrow> c = j_campaign j" if "r_jobs s i = Some j" for i j
    using rd_inv_row(1,7) [OF inv that] by simp_all
  then have "set ?ids = j_id ` {j \<in> ran (r_jobs s). j_campaign j = c \<and> P j}"
    by (fastforce simp: ran_def image_iff split: option.splits)
  moreover have "inj_on j_id {j \<in> ran (r_jobs s). j_campaign j = c \<and> P j}"
  proof (rule inj_onI)
    fix x y assume xy: "x \<in> {j \<in> ran (r_jobs s). j_campaign j = c \<and> P j}"
      "y \<in> {j \<in> ran (r_jobs s). j_campaign j = c \<and> P j}" "j_id x = j_id y"
    then obtain i i' where "r_jobs s i = Some x" "r_jobs s i' = Some y" by (auto simp: ran_def)
    with row(1) xy(3) show "x = y" by fastforce
  qed
  ultimately show ?thesis by (simp add: card_image)
qed

interpretation rd_telemetry: job_telemetry rd_campaign_job_counts rd_campaign_job_status_counts
  "\<lambda>s. ran (r_jobs s)" rd_inv
proof
  show "finite (ran (r_jobs s))" if "rd_inv s" for s
  proof -
    have "dom (r_jobs s) \<subseteq> set (r_all s)" using rd_inv_row(6) [OF that] by auto
    then have "finite (dom (r_jobs s))" by (rule finite_subset) simp
    then show ?thesis by (rule finite_ran)
  qed
  show "\<exists>d. rd_campaign_job_counts s c = Inr d \<and> (\<forall>k \<in> set allowed_kinds.
      map_of d k = Some (card {j \<in> ran (r_jobs s). j_campaign j = c \<and> j_kind j = k}))"
    if "rd_inv s" "is_ident c" for s c
    using that(2) by (auto simp: rd_campaign_job_counts_def rd_count_rows [OF that(1)] map_of_map_key)
  show "rd_campaign_job_status_counts s c =
      Inr (\<lambda>st. card {j \<in> ran (r_jobs s). j_campaign j = c \<and> j_status j = st})"
    if "rd_inv s" "is_ident c" for s c
    using that(2) by (simp add: rd_campaign_job_status_counts_def rd_count_rows [OF that(1)])
qed

end
