(* ===== verification/QueueProps.thy ===== *)
theory QueueProps
  imports JobQueueInv RedisQueueInv
begin

text \<open>
  What the two job queues promise their callers: finished work is never touched again, retries are
  bounded, a live lease excludes every other worker, the oldest eligible job is handed out, and a
  deduplication key names one job.
\<close>

section \<open>The table after recovery\<close>

lemma find_expire_stale:
  "find_job (expire_stale c now q) i = map_option (\<lambda>j. if stale c j then expire now j else j) (find_job q i)"
proof -
  have "expire_stale c now q = update_where (stale c) (expire now) q"
    by (simp add: expire_stale_def update_where_def)
  then show ?thesis by (simp add: find_job_update expire_def)
qed

definition live_lease :: "int \<Rightarrow> int \<Rightarrow> job \<Rightarrow> bool" where
  "live_lease lease now j = (j_status j = Running \<and>
     (case j_claimed_at j of None \<Rightarrow> False | Some t \<Rightarrow> now - lease * 1000000 \<le> t))"

lemma live_not_stale: "live_lease lease now j \<Longrightarrow> \<not> stale (now - lease * 1000000) j"
  by (auto simp: live_lease_def stale_def split: option.splits)

lemma sq_recover_live:
  assumes "sq_recover env q now = Inr (q1, n)" and "sq_inv q" and "job_lease_seconds env = Inr lease"
    and "find_job q i = Some j" and "live_lease lease now j"
  shows "find_job q1 i = Some j"
  using assms(1,2)
proof (rule sq_recover_Inr)
  fix l assume "job_lease_seconds env = Inr l" "q1 = expire_stale (now - l * 1000000) now q"
  with assms(3-5) live_not_stale show ?thesis by (simp add: find_expire_stale)
qed

lemma running_not_claimed: "find_job q i = Some j \<Longrightarrow> j_status j = Running \<Longrightarrow>
    find_job (claim_id i' w now q) i = Some j"
  by (simp add: claim_id_def find_job_update)

lemma sq_claim_live:
  assumes "sq_claim env q w now = Inr (q', x)" and inv: "sq_inv q" and l: "job_lease_seconds env = Inr lease"
    and j: "find_job q i = Some j" "live_lease lease now j"
  shows "find_job q' i = Some j"
proof -
  have run: "j_status j = Running" using j(2) by (simp add: live_lease_def)
  show ?thesis
    using assms(1) sq_recover_live [OF _ inv l j] running_not_claimed [OF _ run]
    by (auto simp: sq_claim_def Let_def split: option.splits)
qed

lemma sq_claim_allowed_live:
  assumes "sq_claim_allowed env q w ks now = Inr (q', x)" and inv: "sq_inv q"
    and l: "job_lease_seconds env = Inr lease" and j: "find_job q i = Some j" "live_lease lease now j"
  shows "find_job q' i = Some j"
proof -
  have run: "j_status j = Running" using j(2) by (simp add: live_lease_def)
  show ?thesis
    using assms(1) sq_recover_live [OF _ inv l j] running_not_claimed [OF _ run] j(1)
    by (auto simp: sq_claim_allowed_def Let_def split: option.splits if_splits)
qed

lemma sq_claim_kind_live:
  assumes "sq_claim_kind env q w k now = Inr (q', x)" and inv: "sq_inv q"
    and l: "job_lease_seconds env = Inr lease" and j: "find_job q i = Some j" "live_lease lease now j"
  shows "find_job q' i = Some j"
proof -
  have run: "j_status j = Running" using j(2) by (simp add: live_lease_def)
  have upd: "find_job (update_where (\<lambda>j. j_id j = a \<and> j_status j = Queued \<and> j_kind j = b)
      (\<lambda>j. claim_row j c now) t) i = Some j" if "find_job t i = Some j" for a b c t
    using that run by (simp add: find_job_update)
  show ?thesis
    using assms(1) sq_recover_live [OF _ inv l j] upd j(1)
    by (auto simp: sq_claim_kind_def Let_def split: option.splits if_splits)
qed

lemma owner_update_other:
  "find_job q i = Some j \<Longrightarrow> j_claimed_by j \<noteq> Some w \<Longrightarrow> (\<And>j. j_id (f j) = j_id j) \<Longrightarrow>
   find_job (update_where (\<lambda>j. j_id j = a \<and> owned_by j w) f q) i = Some j"
  by (simp add: find_job_update owned_by_def)

lemma sq_owner_ops_other:
  assumes "find_job q i = Some j" and "j_claimed_by j \<noteq> Some (py_strip w)"
  shows "sq_heartbeat q a w now = Inr (q', b) \<Longrightarrow> find_job q' i = Some j"
    and "sq_finish q a w ok e now = Inr (q', x) \<Longrightarrow> find_job q' i = Some j"
    and "sq_cancel_owned q a w r now = Inr (q', y) \<Longrightarrow> find_job q' i = Some j"
  using assms owner_update_other [OF assms]
  by (auto simp: sq_heartbeat_def sq_finish_def sq_cancel_owned_def Let_def
      dest!: bounded_identifier_Inr split: option.splits if_splits)

section \<open>A small run\<close>

text \<open>One job, enqueued and claimed, for the concrete instances below.\<close>

definition ex_env :: environ where
  "ex_env = (\<lambda>_. None)"

definition ex_request :: enqueue_request where
  "ex_request = \<lparr>rq_campaign = ''c1'', rq_kind = ''report'', rq_payload = ''{}'', rq_max = 2,
     rq_dedupe = Some ''k1''\<rparr>"

definition ex_queued :: job where
  "ex_queued = new_job ex_request ''j1'' 0"

definition ex_running :: job where
  "ex_running = claim_row ex_queued ''w1'' 0"

lemma ex_lease: "job_lease_seconds ex_env = Inr 21600"
  by code_simp

lemma ex_enqueue:
  "sq_enqueue ex_env [] ''c1'' ''report'' (PDict []) 2 (Some ''k1'') ''j1'' 0 = Inr ([ex_queued], ex_queued)"
  by code_simp

lemma ex_claim:
  "sq_claim_allowed ex_env [ex_queued] ''w1'' [''report''] 0 = Inr ([ex_running], Some ex_running)"
  by code_simp

lemma ex_ident: "is_ident ''j1''"
  by code_simp

lemma ex_steps: "sq_step\<^sup>*\<^sup>* [] [ex_queued]" "sq_step\<^sup>*\<^sup>* [ex_queued] [ex_running]" "sq_step\<^sup>*\<^sup>* [] [ex_running]"
proof -
  have "sq_step [] [ex_queued]"
    using ex_enqueue ex_ident unfolding sq_enqueue_def by (rule sq_step.enqueue)
  moreover have "sq_step [ex_queued] [ex_running]" using ex_claim by (rule sq_step.claim_allowed)
  ultimately show "sq_step\<^sup>*\<^sup>* [] [ex_queued]" "sq_step\<^sup>*\<^sup>* [ex_queued] [ex_running]" "sq_step\<^sup>*\<^sup>* [] [ex_running]"
    by auto
qed

lemma ex_rows: "find_job [ex_queued] ''j1'' = Some ex_queued" "find_job [ex_running] ''j1'' = Some ex_running"
  by (simp_all add: find_job_def ex_queued_def ex_running_def)

text \<open>C1: SQLite queue. While the lease of a running job has not run out, no operation of another
  worker changes its row: the three claims, and heartbeat, finish and cancel of any worker but its
  owner, leave it as it is.\<close>

theorem sq_live_lease_exclusive:
  assumes "sq_step\<^sup>*\<^sup>* [] q" and "job_lease_seconds env = Inr lease"
    and "find_job q i = Some j" and "live_lease lease now j" and "j_claimed_by j \<noteq> Some (py_strip w)"
  shows "(\<forall>q' x. sq_claim env q w now = Inr (q', x) \<longrightarrow> find_job q' i = Some j) \<and>
    (\<forall>q' x ks. sq_claim_allowed env q w ks now = Inr (q', x) \<longrightarrow> find_job q' i = Some j) \<and>
    (\<forall>q' x k. sq_claim_kind env q w k now = Inr (q', x) \<longrightarrow> find_job q' i = Some j) \<and>
    (\<forall>q' b a. sq_heartbeat q a w now = Inr (q', b) \<longrightarrow> find_job q' i = Some j) \<and>
    (\<forall>q' x a ok e. sq_finish q a w ok e now = Inr (q', x) \<longrightarrow> find_job q' i = Some j) \<and>
    (\<forall>q' x a r. sq_cancel_owned q a w r now = Inr (q', x) \<longrightarrow> find_job q' i = Some j)"
proof -
  note inv = sq.reachable_inv [OF assms(1)]
  show ?thesis
    by (intro conjI allI impI; erule sq_claim_live [OF _ inv assms(2-4)]
        sq_claim_allowed_live [OF _ inv assms(2-4)] sq_claim_kind_live [OF _ inv assms(2-4)]
        sq_owner_ops_other [OF assms(3,5)])
qed

lemma sq_live_lease_exclusive_witness:
  "\<exists>q' x. sq_finish [ex_running] ''j1'' ''w2'' True None 7 = Inr (q', x) \<and> find_job q' ''j1'' = Some ex_running"
proof -
  have "live_lease 21600 7 ex_running" "j_claimed_by ex_running \<noteq> Some (py_strip ''w2'')" by code_simp+
  note excl = sq_live_lease_exclusive [OF ex_steps(3) ex_lease ex_rows(2) this]
  have "sq_finish [ex_running] ''j1'' ''w2'' True None 7 = Inr ([ex_running], None)" by code_simp
  with excl show ?thesis by (metis (no_types))
qed

section \<open>Which job a claim hands out\<close>

lemma sq_recover_total:
  assumes "sq_inv q" and "job_lease_seconds env = Inr lease"
  shows "sq_recover env q now = Inr (expire_stale (now - lease * 1000000) now q,
    length (filter (stale (now - lease * 1000000)) q))"
  using recover_table [where c = "now - lease * 1000000" and now = now] assms
  by (simp add: sq_recover_def sq_inv_def Let_def)

lemma expire_stale_inv: "sq_inv q \<Longrightarrow> sq_inv (expire_stale c now q)"
  using rows_evolve_inv [OF expire_stale_evolve] .

lemma claim_id_unique:
  assumes "sq_inv q" and "r \<in> set q" and "j_status r = Queued"
  shows "claim_id (j_id r) w now q = map (\<lambda>j. if j = r then claim_row r w now else j) q"
    and "find_job (claim_id (j_id r) w now q) (j_id r) = Some (claim_row r w now)"
    and "length (filter (\<lambda>j. j_id j = j_id r \<and> j_status j = Queued) q) = 1"
proof -
  have d: "distinct (map j_id q)" using assms(1) by (simp add: sq_inv_def)
  then have u: "j = r" if "j \<in> set q" "j_id j = j_id r" for j
    using assms(2) that by (auto simp: distinct_map dest: inj_onD)
  show "claim_id (j_id r) w now q = map (\<lambda>j. if j = r then claim_row r w now else j) q"
    using u assms(3) by (auto simp: claim_id_def update_where_def)
  show "find_job (claim_id (j_id r) w now q) (j_id r) = Some (claim_row r w now)"
    using find_job_mem [OF d assms(2)] assms(3) by (simp add: claim_id_def find_job_update)
  show "length (filter (\<lambda>j. j_id j = j_id r \<and> j_status j = Queued) q) = 1"
    using filter_id_one [OF d assms(2), of "\<lambda>j. j_id j = j_id r \<and> j_status j = Queued"] assms(3) by simp
qed

definition eligible :: "string set \<Rightarrow> job_queue \<Rightarrow> job set" where
  "eligible ks q = {j \<in> set q. j_status j = Queued \<and> j_kind j \<in> ks}"

text \<open>C2: SQLite queue. \<open>claim_allowed\<close> always answers for a valid worker and kind list; after the
  expired leases have been returned it hands out the least eligible job by creation time and
  identifier, changes that row alone, and returns nothing only when no eligible job is there.\<close>

theorem sq_claim_allowed_oldest:
  assumes "sq_step\<^sup>*\<^sup>* [] q" and "job_lease_seconds env = Inr lease"
    and "bounded_identifier w ''worker_id'' = Inr w'" and "normalize_kinds kinds = Inr ks"
  shows "let q1 = expire_stale (now - lease * 1000000) now q in
    (eligible (set ks) q1 = {} \<and> sq_claim_allowed env q w kinds now = Inr (q1, None)) \<or>
    (\<exists>r \<in> eligible (set ks) q1.
       (\<forall>x \<in> eligible (set ks) q1. (j_created r, j_id r) \<le> (j_created x, j_id x)) \<and>
       sq_claim_allowed env q w kinds now =
         Inr (map (\<lambda>j. if j = r then claim_row r w' now else j) q1, Some (claim_row r w' now)))"
proof -
  note inv = sq.reachable_inv [OF assms(1)]
  define q1 where "q1 = expire_stale (now - lease * 1000000) now q"
  have inv1: "sq_inv q1" unfolding q1_def using inv by (rule expire_stale_inv)
  let ?el = "filter (\<lambda>j. claimable j \<and> j_kind j \<in> set ks) q1"
  have el: "set ?el = eligible (set ks) q1"
    using inv1 by (auto simp: eligible_def claimable_def sq_inv_def job_ok_def)
  note step = sq_claim_allowed_def [of env q w kinds now] sq_recover_total [OF inv assms(2), of now]
    assms(3,4) q1_def [symmetric] Let_def
  show ?thesis
  proof (cases "oldest (\<lambda>j. (j_created j, j_id j)) ?el")
    case None
    then have "?el = []" unfolding oldest_None .
    then have "eligible (set ks) q1 = {}" using el by simp
    moreover have "sq_claim_allowed env q w kinds now = Inr (q1, None)" using None by (simp add: step)
    ultimately show ?thesis unfolding q1_def Let_def by blast
  next
    case (Some r)
    from oldest_Some [OF Some] have r: "r \<in> eligible (set ks) q1"
      and least: "\<forall>x \<in> eligible (set ks) q1. (j_created r, j_id r) \<le> (j_created x, j_id x)"
      unfolding el by auto
    then have "r \<in> set q1" "j_status r = Queued" by (auto simp: eligible_def)
    note c = claim_id_unique [OF inv1 this]
    have "sq_claim_allowed env q w kinds now =
        Inr (map (\<lambda>j. if j = r then claim_row r w' now else j) q1, Some (claim_row r w' now))"
      using Some c by (simp add: step)
    with r least show ?thesis unfolding q1_def Let_def by blast
  qed
qed

lemma sq_claim_allowed_oldest_witness:
  "sq_claim_allowed ex_env [ex_queued] ''w1'' [''report''] 0 = Inr ([ex_running], Some ex_running) \<and>
   eligible {''report''} [ex_queued] \<noteq> {}"
proof -
  have ids: "bounded_identifier ''w1'' ''worker_id'' = Inr ''w1''" "normalize_kinds [''report''] = Inr [''report'']"
    by code_simp+
  have q1: "expire_stale (0 - 21600 * 1000000) 0 [ex_queued] = [ex_queued]" by code_simp
  have el: "eligible (set [''report'']) [ex_queued] = {ex_queued}"
    by (auto simp: eligible_def ex_queued_def ex_request_def new_job_def)
  from sq_claim_allowed_oldest [OF ex_steps(1) ex_lease ids, of 0, unfolded q1 Let_def el]
  show ?thesis using el by (simp add: ex_running_def)
qed

section \<open>Life cycle\<close>

text \<open>C3: Both queues. Once a job is completed, failed or cancelled, no sequence of operations, by
  any callers in any order, changes its row again.\<close>

theorem terminal_jobs_final:
  "(sq_step\<^sup>*\<^sup>* [] q \<longrightarrow> sq_step\<^sup>*\<^sup>* q q' \<longrightarrow> find_job q i = Some j \<longrightarrow> terminal (j_status j) \<longrightarrow>
      find_job q' i = Some j) \<and>
   (rd_step\<^sup>*\<^sup>* rd_empty s \<longrightarrow> rd_step\<^sup>*\<^sup>* s s' \<longrightarrow> r_jobs s i = Some j \<longrightarrow> terminal (j_status j) \<longrightarrow>
      r_jobs s' i = Some j)"
  using sq.terminal_forever rd.terminal_forever by blast

definition ex_done :: job where
  "ex_done = release ex_running Completed None 5"

lemma ex_finish: "sq_finish [ex_running] ''j1'' ''w1'' True None 5 = Inr ([ex_done], Some ex_done)"
  by code_simp

lemma terminal_jobs_final_witness:
  "\<exists>q' b. sq_heartbeat [ex_done] ''j1'' ''w1'' 9 = Inr (q', b) \<and> find_job q' ''j1'' = Some ex_done"
proof -
  have "sq_step [ex_running] [ex_done]" using ex_finish by (rule sq_step.finish)
  with ex_steps(3) have "sq_step\<^sup>*\<^sup>* [] [ex_done]" by simp
  moreover have "find_job [ex_done] ''j1'' = Some ex_done" "terminal (j_status ex_done)" by code_simp+
  moreover have h: "sq_heartbeat [ex_done] ''j1'' ''w1'' 9 = Inr ([ex_done], False)" by code_simp
  moreover have "sq_step\<^sup>*\<^sup>* [ex_done] [ex_done]" using sq_step.heartbeat [OF h] by simp
  ultimately show ?thesis using terminal_jobs_final by blast
qed

text \<open>C14: Both queues. A job keeps its campaign, kind, payload, retry budget, creation time and
  deduplication key for ever; its attempts only grow and never exceed its budget, which is at most
  five; it is leased to a worker exactly while it is running.\<close>

theorem attempts_bounded:
  "(sq_step\<^sup>*\<^sup>* [] q \<longrightarrow> sq_step\<^sup>*\<^sup>* q q' \<longrightarrow> find_job q i = Some j \<longrightarrow>
      (\<exists>j'. find_job q' i = Some j' \<and> job_identity j' = job_identity j \<and> j_attempts j \<le> j_attempts j' \<and>
            j_attempts j' \<le> j_max j \<and> j_max j \<le> 5 \<and> (j_status j' = Running \<longleftrightarrow> j_claimed_by j' \<noteq> None))) \<and>
   (rd_step\<^sup>*\<^sup>* rd_empty s \<longrightarrow> rd_step\<^sup>*\<^sup>* s s' \<longrightarrow> r_jobs s i = Some j \<longrightarrow>
      (\<exists>j'. r_jobs s' i = Some j' \<and> job_identity j' = job_identity j \<and> j_attempts j \<le> j_attempts j' \<and>
            j_attempts j' \<le> j_max j \<and> j_max j \<le> 5 \<and> (j_status j' = Running \<longleftrightarrow> j_claimed_by j' \<noteq> None)))"
  using sq.bounded_forever rd.bounded_forever by blast

lemma attempts_bounded_witness:
  "\<exists>j'. find_job [ex_running] ''j1'' = Some j' \<and> job_identity j' = job_identity ex_queued \<and> j_attempts j' \<le> 2"
  using attempts_bounded [of "[ex_queued]" "[ex_running]" "''j1''" ex_queued] ex_steps ex_rows
  by (auto simp: ex_queued_def ex_request_def)

section \<open>Deduplication\<close>

lemma find_dedupe_Some:
  "find_dedupe q c k d = Some j \<Longrightarrow> j \<in> set q \<and> slot j = (c, k, Some d)"
  by (auto simp: find_dedupe_def find_Some_iff slot_def)

lemma find_dedupe_mem:
  assumes "sq_inv q" and "j \<in> set q" and "slot j = (c, k, Some d)"
  shows "find_dedupe q c k d = Some j"
proof (cases "find_dedupe q c k d")
  case None
  with assms(2,3) show ?thesis by (auto simp: find_dedupe_None slot_def)
next
  case (Some j')
  from find_dedupe_Some [OF Some] assms have "j = j'"
    by (intro dedupe_uniqueD [of q]) (auto simp: sq_inv_def slot_def)
  with Some show ?thesis by simp
qed

lemma sq_enqueue_slot:
  assumes "sq_enqueue env q c k p m (Some d) jid now = Inr (q', j)" and "is_ident jid" and "sq_inv q"
  shows "find_job q' (j_id j) = Some j \<and> slot j = (py_strip c, k, Some (py_strip d)) \<and>
    j_payload j = json_dumps True p \<and> k \<in> set allowed_kinds"
  using assms(1) [unfolded sq_enqueue_def] assms(2)
proof (cases rule: sq_enqueue_racing_cases)
  case (New r)
  note r = check_enqueue_Inr [OF New(1)]
  have "find_job q jid = None" using New(2) by (simp add: insert_conflict_def)
  with New(3,4) r show ?thesis by (simp add: find_job_snoc slot_def)
next
  case (Old r dk)
  note r = check_enqueue_Inr [OF Old(1)]
  from Old(4) have "find_dedupe q (rq_campaign r) (rq_kind r) dk = Some j" by simp
  from find_dedupe_Some [OF this] have j: "j \<in> set q" "slot j = (rq_campaign r, rq_kind r, Some dk)" by auto
  have "find_job q (j_id j) = Some j" using find_job_mem j(1) assms(3) by (simp add: sq_inv_def)
  with j r Old(2,3,5) show ?thesis by simp
qed

text \<open>C15: SQLite queue. A deduplication key names one job: whatever happened since a job was enqueued
  under a key, enqueueing under the same campaign, kind and key leaves the table as it is and
  returns the same job when the payload is the same, and is refused when it is not.\<close>

theorem sq_enqueue_idempotent:
  assumes "sq_step\<^sup>*\<^sup>* [] q" and "sq_enqueue env q c k p m (Some d) jid now = Inr (q1, j)" and "is_ident jid"
    and "sq_step\<^sup>*\<^sup>* q1 q2" and "check_enqueue env' c k p' m' (Some d) = Inr r'"
  shows "(json_dumps True p' = json_dumps True p \<longrightarrow>
       (\<exists>j2. sq_enqueue env' q2 c k p' m' (Some d) jid' now' = Inr (q2, j2) \<and> job_identity j2 = job_identity j)) \<and>
    (json_dumps True p' \<noteq> json_dumps True p \<longrightarrow>
       sq_enqueue env' q2 c k p' m' (Some d) jid' now' =
         Inl (ValueError ''dedupe_key reused with different job payload''))"
proof -
  have st1: "sq_step q q1"
    using assms(2,3) unfolding sq_enqueue_def by (rule sq_step.enqueue)
  have q1: "sq_step\<^sup>*\<^sup>* [] q1" using assms(1) st1 by simp
  from sq_enqueue_slot [OF assms(2,3) sq.reachable_inv [OF assms(1)]]
  have j: "find_job q1 (j_id j) = Some j" "slot j = (py_strip c, k, Some (py_strip d))"
    "j_payload j = json_dumps True p" by auto
  obtain j2 where j2: "find_job q2 (j_id j) = Some j2" "job_identity j2 = job_identity j"
    using sq.identity_forever [OF q1 assms(4) j(1)] by blast
  have inv2: "sq_inv q2" using sq.reachable_inv [OF rtranclp_trans [OF q1 assms(4)]] .
  note r' = check_enqueue_Inr [OF assms(5)]
  have "find_dedupe q2 (rq_campaign r') (rq_kind r') (py_strip d) = Some j2"
    using find_job_Some [OF j2(1)] j2(2) j(2) r' by (intro find_dedupe_mem [OF inv2]) (auto simp: job_identity_def slot_def)
  moreover have "j_payload j2 = json_dumps True p" using j2(2) j(3) by (simp add: job_identity_def)
  moreover have "rq_dedupe r' = Some (py_strip d)" using r' by simp
  ultimately show ?thesis
    using j2(2) r' by (simp add: sq_enqueue_def sq_enqueue_racing_def assms(5) same_payload_def)
qed

lemma sq_enqueue_idempotent_witness:
  "(\<exists>j2. sq_enqueue ex_env [ex_running] ''c1'' ''report'' (PDict []) 2 (Some ''k1'') ''j2'' 9 = Inr ([ex_running], j2)
      \<and> job_identity j2 = job_identity ex_queued) \<and>
   sq_enqueue ex_env [ex_running] ''c1'' ''report'' (PDict [(''a'', PNone)]) 2 (Some ''k1'') ''j2'' 9 =
     Inl (ValueError ''dedupe_key reused with different job payload'')"
proof -
  have c: "check_enqueue ex_env ''c1'' ''report'' (PDict []) 2 (Some ''k1'') = Inr ex_request"
    "check_enqueue ex_env ''c1'' ''report'' (PDict [(''a'', PNone)]) 2 (Some ''k1'') =
       Inr (ex_request\<lparr>rq_payload := ''{\"a\":null}''\<rparr>)" by code_simp+
  have n: "json_dumps True (PDict [(''a'', PNone)]) \<noteq> json_dumps True (PDict [])" by code_simp
  note e = sq_enqueue_idempotent [OF rtranclp.rtrancl_refl ex_enqueue ex_ident ex_steps(2), of ex_env]
  from e [OF c(1), of "''j2''" 9] e [OF c(2), of "''j2''" 9] n show ?thesis by blast
qed

section \<open>The Redis indexes\<close>

text \<open>C19: Redis queue. In every reachable state the indexes agree with the rows: looking a
  deduplication key up never meets the inconsistency error and finds exactly the job filed under
  it, and the sorted sets hold exactly the queued and the running jobs.\<close>

theorem rd_indexes_consistent:
  assumes "rd_step\<^sup>*\<^sup>* rd_empty s" and "bounded_identifier c ''campaign_id'' = Inr c'"
    and "bounded_identifier k ''kind'' = Inr k'" and "bounded_identifier d ''dedupe_key'' = Inr d'"
  shows "(\<exists>x. rd_get_by_dedupe s c k d = Inr x \<and>
      (\<forall>j. x = Some j \<longleftrightarrow> (\<exists>i. r_jobs s i = Some j \<and> slot j = (c', k', Some d')))) \<and>
    zdom (r_queued s) = {i. \<exists>j. r_jobs s i = Some j \<and> j_status j = Queued \<and> uses_generic_queue (j_kind j)} \<and>
    (\<forall>kd. zdom (r_kinds s kd) = {i. \<exists>j. r_jobs s i = Some j \<and> j_status j = Queued \<and> j_kind j = kd}) \<and>
    zdom (r_running s) = {i. \<exists>j. r_jobs s i = Some j \<and> j_status j = Running}"
proof -
  note inv = rd.reachable_inv [OF assms(1)]
  have none: "i \<notin> zdom (r_queued s)" "i \<notin> zdom (r_kinds s kd)" "i \<notin> zdom (r_running s)"
    "r_dedupe s sl \<noteq> Some i" if "r_jobs s i = None" for i kd sl
    using rd_invD [OF inv, of i] that by (simp_all add: row_indexed_def del: split_paired_All)
  have "\<exists>x. rd_get_by_dedupe s c k d = Inr x \<and>
      (\<forall>j. x = Some j \<longleftrightarrow> (\<exists>i. r_jobs s i = Some j \<and> slot j = (c', k', Some d')))"
  proof (cases "r_dedupe s (c', k', d')")
    case None
    then have "rd_get_by_dedupe s c k d = Inr None" using assms(2-4) by (simp add: rd_get_by_dedupe_def)
    moreover have "\<not> (r_jobs s i = Some j \<and> slot j = (c', k', Some d'))" for i j
      using rd_inv_row(8) [OF inv, of i j c' k' d'] None by auto
    ultimately show ?thesis by auto
  next
    case (Some i)
    with none(4) obtain j where row: "r_jobs s i = Some j" by (cases "r_jobs s i") auto
    note r = rd_inv_row [OF inv row]
    have "rd_get_by_dedupe s c k d = Inr (Some j)"
      using Some row r(9) assms(2-4) by (simp add: rd_get_by_dedupe_def rd_get_def)
    moreover have "j' = j" if "r_jobs s i' = Some j'" "slot j' = (c', k', Some d')" for i' j'
    proof -
      have "i' = i" using rd_inv_row(8) [OF inv that(1), of c' k' d'] that(2) Some by simp
      with that(1) row show ?thesis by simp
    qed
    moreover have "r_jobs s i = Some j \<and> slot j = (c', k', Some d')"
      using row r(8) [of c' k' d'] Some by simp
    ultimately show ?thesis by (metis option.inject)
  qed
  moreover have "i \<in> zdom (r_queued s) \<longleftrightarrow>
      (\<exists>j. r_jobs s i = Some j \<and> j_status j = Queued \<and> uses_generic_queue (j_kind j))"
    "i \<in> zdom (r_kinds s kd) \<longleftrightarrow> (\<exists>j. r_jobs s i = Some j \<and> j_status j = Queued \<and> j_kind j = kd)"
    "i \<in> zdom (r_running s) \<longleftrightarrow> (\<exists>j. r_jobs s i = Some j \<and> j_status j = Running)" for i kd
    using rd_invD [OF inv, of i] by (cases "r_jobs s i", simp_all add: row_indexed_def del: split_paired_All)+
  ultimately show ?thesis by (intro conjI allI set_eqI) simp_all
qed

text \<open>A run of the Redis queue: the job of the example is enqueued.\<close>

definition ex_redis :: redis_queue where
  "ex_redis = link ex_queued (add_job ex_queued 0 rd_empty)"

lemma ex_rd_enqueue:
  "rd_enqueue ex_env rd_empty ''c1'' ''report'' (PDict []) 2 (Some ''k1'') ''j1'' 0 0 = Inr (ex_redis, ex_queued)"
proof -
  have "check_enqueue ex_env ''c1'' ''report'' (PDict []) 2 (Some ''k1'') = Inr ex_request" by code_simp
  then show ?thesis
    using ex_ident
    by (simp add: rd_enqueue_def Let_def ex_redis_def link_def ex_queued_def ex_request_def rd_empty_def
        rd_created_def rd_get_def add_job_def transaction_defs)
qed

lemma ex_rd_steps: "rd_step\<^sup>*\<^sup>* rd_empty ex_redis"
proof -
  have "r_jobs rd_empty ''j1'' = None" by (simp add: rd_empty_def)
  with ex_rd_enqueue ex_ident have "rd_step rd_empty ex_redis" by (rule rd_step.enqueue)
  then show ?thesis by simp
qed

lemma rd_indexes_consistent_witness:
  "rd_get_by_dedupe ex_redis ''c1'' ''report'' ''k1'' = Inr (Some ex_queued) \<and> zdom (r_running ex_redis) = {}"
proof -
  have "bounded_identifier ''c1'' ''campaign_id'' = Inr ''c1''"
    "bounded_identifier ''report'' ''kind'' = Inr ''report''"
    "bounded_identifier ''k1'' ''dedupe_key'' = Inr ''k1''" by code_simp+
  note c = rd_indexes_consistent [OF ex_rd_steps this]
  have jobs: "r_jobs ex_redis = [''j1'' \<mapsto> ex_queued]"
    by (simp add: ex_redis_def link_def ex_queued_def ex_request_def add_job_def transaction_defs rd_empty_def)
  moreover have "slot ex_queued = (''c1'', ''report'', Some ''k1'')" "j_status ex_queued = Queued" by code_simp+
  ultimately show ?thesis using c by (auto split: if_splits)
qed

section \<open>Live leases of the Redis queue\<close>

text \<open>The lease of a running job lives while its score is past the cutoff of the recovery.\<close>

definition rd_live :: "int \<Rightarrow> redis_queue \<Rightarrow> string \<Rightarrow> job \<Rightarrow> bool" where
  "rd_live cutoff s i j \<longleftrightarrow> r_jobs s i = Some j \<and> j_status j = Running \<and>
     (\<exists>sc. map_of (r_running s) i = Some sc \<and> cutoff < sc)"

lemma map_of_zrem: "map_of (zrem m z) i = (if i = m then None else map_of z i)"
  by (induction z) (auto simp: zrem_def)

lemma map_of_zadd: "map_of (zadd m sc z) i = (if i = m then Some sc else map_of z i)"
  by (simp add: zadd_def)

lemma leave_running_live:
  "rd_live c s i j \<Longrightarrow> j_id j2 \<noteq> i \<Longrightarrow> rd_live c (leave_running j2 st e n ts s) i j"
  by (auto simp: rd_live_def transaction_defs map_of_zrem)

lemma start_running_live:
  "rd_live c s i j \<Longrightarrow> j_id j2 \<noteq> i \<Longrightarrow> rd_live c (start_running j2 w n ts s) i j"
  by (auto simp: rd_live_def transaction_defs map_of_zadd)

lemma rd_recover_each_live:
  "rd_inv s \<Longrightarrow> rd_live cutoff s i j \<Longrightarrow> rd_recover_each cutoff now ts ids (s, n) = (s', n') \<Longrightarrow>
   rd_live cutoff s' i j"
proof (induction ids arbitrary: s n)
  case (Cons i2 ids)
  show ?case
  proof (cases "\<exists>j score. r_jobs s i2 = Some j \<and> map_of (r_running s) i2 = Some score \<and>
      j_status j = Running \<and> score \<le> cutoff")
    case True
    then obtain j2 score where j2: "r_jobs s i2 = Some j2" "map_of (r_running s) i2 = Some score"
      "j_status j2 = Running" "score \<le> cutoff" by blast
    let ?s = "leave_running j2 (expired_status j2) (Some lease_expired_text) now ts s"
    have "rd_evolves s ?s"
      using Cons.prems(1) j2(1,3)
      by (rule leave_running_evolves) (auto simp: expired_status_def split: if_splits)
    then have inv: "rd_inv ?s" by (simp add: rd_evolves_def)
    have "i2 \<noteq> i" using Cons.prems(2) j2(2,4) by (auto simp: rd_live_def)
    then have live: "rd_live cutoff ?s i j"
      using leave_running_live [OF Cons.prems(2)] rd_inv_row(1) [OF Cons.prems(1) j2(1)] by simp
    have "rd_recover_each cutoff now ts ids (?s, Suc n) = (s', n')" using Cons.prems(3) j2 by simp
    with inv live show ?thesis by (rule Cons.IH)
  next
    case False
    then have "rd_recover_each cutoff now ts ids (s, n) = (s', n')"
      using Cons.prems(3) by (auto split: option.splits if_splits)
    with Cons show ?thesis by blast
  qed
qed simp

lemma rd_recover_live:
  assumes "rd_recover env s now ts = Inr (s', n)" and "rd_inv s" and "job_lease_seconds env = Inr lease"
    and "rd_live (ts - lease * 1000000) s i j"
  shows "rd_live (ts - lease * 1000000) s' i j"
  using assms rd_recover_each_live [OF assms(2,4)] by (auto simp: rd_recover_def Let_def)

lemma start_first_live:
  assumes "rd_inv s" and "zfirst (r_queued s) = Some (i2, sc) \<or> zfirst (r_kinds s k) = Some (i2, sc)"
    and "rd_live c s i j"
  shows "rd_live c (start_running (the (r_jobs s i2)) w now ts s) i j"
proof -
  from assms(2) obtain j2 where j2: "r_jobs s i2 = Some j2" "j_status j2 = Queued" "j_id j2 = i2"
    by (auto dest!: zfirst_zdom elim: rd_inv_queued [OF assms(1)] rd_inv_kind [OF assms(1)])
  then have "i2 \<noteq> i" using assms(3) by (auto simp: rd_live_def)
  with j2 assms(3) show ?thesis by (simp add: start_running_live)
qed

lemma rd_claim_live:
  assumes "rd_claim env s w now ts = Inr (s', x)" and "rd_inv s" and "job_lease_seconds env = Inr lease"
    and "rd_live (ts - lease * 1000000) s i j"
  shows "rd_live (ts - lease * 1000000) s' i j"
proof -
  from assms(1) obtain w' s1 n where s1: "rd_recover env s now ts = Inr (s1, n)"
    and l: "rd_claim_loop w' now ts s1 = (s', x)"
    by (auto simp: rd_claim_def)
  have inv: "rd_inv s1" using rd_recover_evolves [OF s1 assms(2)] by (simp add: rd_evolves_def)
  from l rd_recover_live [OF s1 assms(2-4)] show ?thesis
    unfolding rd_claim_loop_inv [OF inv] by (auto split: option.splits intro: start_first_live [OF inv])
qed

lemma rd_claim_kind_live:
  assumes "rd_claim_kind env s w k now ts = Inr (s', x)" and "rd_inv s"
    and "job_lease_seconds env = Inr lease" and "rd_live (ts - lease * 1000000) s i j"
  shows "rd_live (ts - lease * 1000000) s' i j"
proof -
  from assms(1) obtain w' k' s1 n where s1: "rd_recover env s now ts = Inr (s1, n)"
    and l: "rd_claim_each k' w' now ts (map fst (zrange (r_kinds s1 k'))) s1 = (s', x)"
    by (auto simp: rd_claim_kind_def split: if_splits)
  have inv: "rd_inv s1" using rd_recover_evolves [OF s1 assms(2)] by (simp add: rd_evolves_def)
  from l rd_recover_live [OF s1 assms(2-4)] show ?thesis
    unfolding rd_claim_each_inv [OF inv] by (auto split: option.splits intro: start_first_live [OF inv])
qed

lemma rd_claim_rounds_live:
  "rd_claim_rounds n env w ks now ts s = Inr (s', x) \<Longrightarrow> rd_inv s \<Longrightarrow> job_lease_seconds env = Inr lease \<Longrightarrow>
   rd_live (ts - lease * 1000000) s i j \<Longrightarrow> rd_live (ts - lease * 1000000) s' i j"
proof (induction n arbitrary: s)
  case (Suc n)
  show ?case
  proof (cases "sort (candidates s ks)")
    case (Cons a as)
    obtain sc i2 k where "a = (sc, i2, k)" by (cases a)
    with Cons Suc.prems(1) obtain s1 r where r: "rd_claim_kind env s w k now ts = Inr (s1, r)"
      and rest: "(case r of Some j \<Rightarrow> Inr (s1, Some j) | None \<Rightarrow> rd_claim_rounds n env w ks now ts s1) = Inr (s', x)"
      by auto
    have "rd_inv s1" using rd_claim_kind_evolves [OF r Suc.prems(2)] by (simp add: rd_evolves_def)
    with rest rd_claim_kind_live [OF r Suc.prems(2-4)] Suc.IH Suc.prems(3) show ?thesis
      by (cases r) auto
  qed (use Suc.prems in simp)
qed simp

lemma rd_claim_allowed_live:
  assumes "rd_claim_allowed env s w ks now ts = Inr (s', x)" and "rd_inv s"
    and "job_lease_seconds env = Inr lease" and "rd_live (ts - lease * 1000000) s i j"
  shows "rd_live (ts - lease * 1000000) s' i j"
proof -
  from assms(1) obtain w' ks' s1 n where s1: "rd_recover env s now ts = Inr (s1, n)"
    and l: "rd_claim_rounds 32 env w' ks' now ts s1 = Inr (s', x)"
    by (auto simp: rd_claim_allowed_def simp del: rd_claim_rounds.simps)
  have "rd_inv s1" using rd_recover_evolves [OF s1 assms(2)] by (simp add: rd_evolves_def)
  from rd_claim_rounds_live [OF l this assms(3) rd_recover_live [OF s1 assms(2-4)]] show ?thesis .
qed

lemma rd_owner_ops_other:
  assumes "rd_inv s" and "r_jobs s i = Some j" and "j_claimed_by j \<noteq> Some (py_strip w)"
  shows "rd_heartbeat s a w now ts = Inr (s', b) \<Longrightarrow> r_jobs s' i = Some j"
    and "rd_finish s a w ok e now ts = Inr (s', x) \<Longrightarrow> r_jobs s' i = Some j"
    and "rd_cancel_owned s a w r now = Inr (s', y) \<Longrightarrow> r_jobs s' i = Some j"
proof -
  have other: "i \<noteq> j_id j'" if "owned_by j' (py_strip w)" "r_jobs s a' = Some j'" for a' j'
    using rd_inv_row(1) [OF assms(1) that(2)] that assms(2,3) by (auto simp: owned_by_def)
  note [dest!] = bounded_identifier_Inr
  show "rd_heartbeat s a w now ts = Inr (s', b) \<Longrightarrow> r_jobs s' i = Some j"
    using assms(2)
    by (auto dest!: other simp: rd_heartbeat_def transaction_defs split: option.splits if_splits)
  show "rd_finish s a w ok e now ts = Inr (s', x) \<Longrightarrow> r_jobs s' i = Some j"
    using assms(2)
    by (auto dest!: other simp: rd_finish_def transaction_defs split: option.splits if_splits)
  show "rd_cancel_owned s a w r now = Inr (s', y) \<Longrightarrow> r_jobs s' i = Some j"
    using assms(2)
    by (auto dest!: other simp: rd_cancel_owned_def transaction_defs split: option.splits if_splits)
qed

text \<open>C20: Redis queue. While the score of a running job is past the cutoff, no operation of another
  worker changes its row.\<close>

theorem rd_live_lease_exclusive:
  assumes "rd_step\<^sup>*\<^sup>* rd_empty s" and "job_lease_seconds env = Inr lease"
    and "rd_live (ts - lease * 1000000) s i j" and "j_claimed_by j \<noteq> Some (py_strip w)"
  shows "(\<forall>s' x. rd_claim env s w now ts = Inr (s', x) \<longrightarrow> r_jobs s' i = Some j) \<and>
    (\<forall>s' x ks. rd_claim_allowed env s w ks now ts = Inr (s', x) \<longrightarrow> r_jobs s' i = Some j) \<and>
    (\<forall>s' x k. rd_claim_kind env s w k now ts = Inr (s', x) \<longrightarrow> r_jobs s' i = Some j) \<and>
    (\<forall>s' b a. rd_heartbeat s a w now ts = Inr (s', b) \<longrightarrow> r_jobs s' i = Some j) \<and>
    (\<forall>s' x a ok e. rd_finish s a w ok e now ts = Inr (s', x) \<longrightarrow> r_jobs s' i = Some j) \<and>
    (\<forall>s' x a r. rd_cancel_owned s a w r now = Inr (s', x) \<longrightarrow> r_jobs s' i = Some j)"
proof -
  note inv = rd.reachable_inv [OF assms(1)]
  have row: "r_jobs s i = Some j" and out: "rd_live c s' i j \<Longrightarrow> r_jobs s' i = Some j" for c s'
    using assms(3) by (simp_all add: rd_live_def)
  show ?thesis
    by (intro conjI allI impI; (rule out, erule rd_claim_live [OF _ inv assms(2,3)]
        rd_claim_allowed_live [OF _ inv assms(2,3)] rd_claim_kind_live [OF _ inv assms(2,3)])?;
        (erule rd_owner_ops_other [OF inv row assms(4)])?)
qed

definition ex_redis_running :: redis_queue where
  "ex_redis_running = start_running ex_queued ''w1'' 0 0 ex_redis"

lemma ex_rd_claim: "rd_claim ex_env ex_redis ''w1'' 0 0 = Inr (ex_redis_running, Some ex_running)"
proof -
  have "rd_recover ex_env ex_redis 0 0 = Inr (ex_redis, 0)"
    by (simp add: rd_recover_def ex_lease ex_redis_def link_def ex_queued_def ex_request_def add_job_def
        transaction_defs rd_empty_def zrange_def uses_generic_queue_def)
  moreover have "bounded_identifier ''w1'' ''worker_id'' = Inr ''w1''" by code_simp
  moreover have "uses_generic_queue ''report''" by code_simp
  then have "zfirst (r_queued ex_redis) = Some (''j1'', 0)" "r_jobs ex_redis ''j1'' = Some ex_queued"
    by (simp_all add: ex_redis_def link_def ex_queued_def ex_request_def add_job_def
        transaction_defs rd_empty_def zrange_def zfirst_def zadd_def)
  ultimately show ?thesis
    using rd_claim_loop_inv [OF rd.reachable_inv [OF ex_rd_steps], of "''w1''" 0 0]
    by (simp add: rd_claim_def ex_redis_running_def ex_running_def)
qed

lemma rd_live_lease_exclusive_witness:
  "\<exists>s' x. rd_finish ex_redis_running ''j1'' ''w2'' True None 7 7 = Inr (s', x) \<and> r_jobs s' ''j1'' = Some ex_running"
proof -
  have st: "rd_step\<^sup>*\<^sup>* rd_empty ex_redis_running"
    using ex_rd_steps rd_step.claim [OF ex_rd_claim] by simp
  have live: "rd_live (7 - 21600 * 1000000) ex_redis_running ''j1'' ex_running"
    by (simp add: rd_live_def ex_redis_running_def ex_running_def ex_redis_def ex_queued_def
        transaction_defs map_of_zadd link_def add_job_def)
  have "j_claimed_by ex_running \<noteq> Some (py_strip ''w2'')" by code_simp
  note excl = rd_live_lease_exclusive [OF st ex_lease live this]
  have "bounded_identifier ''j1'' ''job_id'' = Inr ''j1''" "bounded_identifier ''w2'' ''worker_id'' = Inr ''w2''"
    "owned_by ex_running ''w2'' = False" by code_simp+
  then have "rd_finish ex_redis_running ''j1'' ''w2'' True None 7 7 = Inr (ex_redis_running, None)"
    using live by (simp add: rd_finish_def rd_live_def)
  with excl show ?thesis by blast
qed

end
