(* ===== verification/CampaignProps.thy ===== *)
theory CampaignProps
  imports Planner FindingReview PlannerBudget QueueProps "HOL-Library.Multiset"
begin

text \<open>
  What the campaign side of the program promises: the scope decision and the check of a target, which
  records load as a graph, what counts as an independent validation, what a planned action says of
  the campaign, which ancestors an evidence chain lists, how findings are grouped and when review is
  advised, and that the planner stays within its budget.
\<close>

section \<open>Scope\<close>



text \<open>A wildcard pattern \<open>*suffix\<close> matches exactly the hosts that end in the suffix, whatever their
  case and trailing dots; so \<open>*.example.com\<close> covers every subdomain and not the domain itself.\<close>

theorem scope_wildcard_suffix:
  assumes "literal_pattern suffix" and "py_lower (py_strip (CHR ''*'' # suffix)) = CHR ''*'' # suffix"
    and "\<not> has_substr ''://'' (CHR ''*'' # suffix)" and "rstrip_dot (CHR ''*'' # suffix) = CHR ''*'' # suffix"
  shows "pattern_matches host (CHR ''*'' # suffix) \<longleftrightarrow> (\<exists>sub. rstrip_dot (py_lower host) = sub @ suffix)"
proof -
  have "normalize_pattern (CHR ''*'' # suffix) = Inr (CHR ''*'' # suffix)"
    using assms(2-4) by (simp add: normalize_pattern_def Let_def)
  then show ?thesis by (simp add: pattern_matches_def fnmatch_star_suffix [OF assms(1)])
qed

lemma scope_wildcard_suffix_witness:
  "pattern_matches ''API.Example.com.'' ''*.example.com'' \<and> \<not> pattern_matches ''example.com'' ''*.example.com''"
proof -
  have l: "literal_pattern ''.example.com''" by code_simp
  have p: "py_lower (py_strip ''*.example.com'') = ''*.example.com''" by code_simp
  have s: "\<not> has_substr ''://'' ''*.example.com''" by code_simp
  have d: "rstrip_dot ''*.example.com'' = ''*.example.com''" by code_simp
  have h: "rstrip_dot (py_lower ''API.Example.com.'') = ''api'' @ ''.example.com''" by code_simp
  have n: "rstrip_dot (py_lower ''example.com'') = ''example.com''" by code_simp
  have "\<nexists>sub. ''example.com'' = sub @ ''.example.com''"
    by (auto dest!: arg_cong [where f = length])
  then show ?thesis
    using scope_wildcard_suffix [OF l p s d] h n by metis
qed

text \<open>A target the campaign model accepts names a host inside the scope, carries no user
  information, and has neither query nor fragment.\<close>

theorem accepted_target_in_scope:
  assumes "check_target url rules = Inr ()"
  shows "\<exists>u host. urlsplit url = Inr u \<and> url_host url = Inr host \<and> host \<noteq> [] \<and> \<not> has_userinfo u \<and>
    sp_query u = [] \<and> sp_fragment u = [] \<and> (\<exists>p \<in> set (allowed_targets rules). pattern_matches host p) \<and>
    \<not> (\<exists>p \<in> set (denied_targets rules). pattern_matches host p)"
proof -
  from assms obtain u where u: "urlsplit url = Inr u" by (auto simp: check_target_def)
  from assms obtain host where h: "url_host url = Inr host" "host \<noteq> []"
    and "is_host_allowed host (allowed_targets rules) (denied_targets rules) = Inr True"
    by (rule check_target_Inr)
  from this(3) is_host_allowed_Inr
  have "(\<exists>p \<in> set (allowed_targets rules). pattern_matches host p) \<and>
      \<not> (\<exists>p \<in> set (denied_targets rules). pattern_matches host p)" by blast
  moreover have "\<not> has_userinfo u \<and> sp_query u = [] \<and> sp_fragment u = []"
    using assms u by (auto simp: check_target_def Let_def split: if_splits)
  ultimately show ?thesis using u h by blast
qed

definition ex_scope :: program_rules where
  "ex_scope = \<lparr>authorization_reference = ''ref'', allowed_targets = [''*.example.com''],
     denied_targets = [''admin.*''], max_requests_per_second = 2, destructive_testing = False,
     denial_of_service = False, social_engineering = False, credential_attacks = False,
     automated_scanning = True\<rparr>"

lemma accepted_target_in_scope_witness:
  "\<exists>host. url_host ''https://api.example.com/x'' = Inr host \<and> pattern_matches host ''*.example.com''"
proof -
  have "check_target ''https://api.example.com/x'' ex_scope = Inr ()" by code_simp
  from accepted_target_in_scope [OF this] show ?thesis by (auto simp: ex_scope_def)
qed

section \<open>The observation graph\<close>

lemma graph_add_values:
  assumes "graph_add g ob = Inr g'"
  shows "set (graph_values g') \<subseteq> insert ob (set (graph_values g))"
proof -
  have "set (map snd (dict_set k v d)) \<subseteq> insert v (set (map snd d))" for k and v :: observation and d
    by (induction k v d rule: dict_set.induct) auto
  then have "snd ` set (dict_set (ob_id ob) ob g) \<subseteq> insert ob (snd ` set g)" by simp
  with assms show ?thesis
    by (elim graph_add_cases) (auto simp: graph_values_def)
qed

lemma load_pass_values:
  "load_pass g obs = Inr (g', rem) \<Longrightarrow>
   set (graph_values g') \<subseteq> set (graph_values g) \<union> set obs \<and> set rem \<subseteq> set obs"
proof (induction g obs arbitrary: g' rem rule: load_pass.induct)
  case (2 g ob obs)
  show ?case
  proof (cases "list_all (\<lambda>p. map_of g p \<noteq> None) (ob_parents ob)")
    case True
    with "2.prems" obtain g1 where g1: "graph_add g ob = Inr g1" "load_pass g1 obs = Inr (g', rem)" by auto
    from "2.IH"(1) [OF True g1(2)] graph_add_values [OF g1(1)] show ?thesis by auto
  next
    case False
    with "2.prems" obtain r where "load_pass g obs = Inr (g', r)" "rem = ob # r" by auto
    with "2.IH"(2) [OF False] show ?thesis by force
  qed
qed simp

lemma load_loop_values:
  "load_loop g obs = Inr g' \<Longrightarrow> set (graph_values g') \<subseteq> set (graph_values g) \<union> set obs"
proof (induction g obs rule: load_loop.induct)
  case (1 g pending)
  show ?case
  proof (cases "pending = []")
    case True
    with "1.prems" show ?thesis by (simp add: load_loop.simps)
  next
    case False
    with "1.prems" obtain g1 rem where lp: "load_pass g pending = Inr (g1, rem)"
      and lt: "length rem < length pending" and rest: "load_loop g1 rem = Inr g'"
      by (subst (asm) load_loop.simps) (auto split: sum.splits if_splits)
    from "1.IH" [OF False lp refl lt rest] load_pass_values [OF lp] show ?thesis by auto
  qed
qed

lemma from_records_values:
  assumes "from_records recs = Inr g" and "distinct (map ob_id recs)"
  shows "set (graph_values g) = set recs"
proof -
  have sub: "set (graph_values g) \<subseteq> set recs"
    using load_loop_values assms(1) by (fastforce simp: from_records_def graph_values_def)
  have "ob_id ` set (graph_values g) = ob_id ` set recs"
    using from_records_ids [OF assms(1)] graph_ok_from_ids [of "{}" g] from_records_graph_ok [OF assms(1)]
    unfolding graph_ok_def graph_ids_def by (metis list.set_map)
  moreover have "inj_on ob_id (set recs)" using assms(2) by (simp add: distinct_map)
  ultimately show ?thesis using sub by (metis inj_on_image_eq_iff order_refl)
qed

text \<open>C28: Records with distinct identifiers load as a graph exactly when they can be listed with every
  parent before its children, in whatever order they come; the graph then holds exactly these
  records. So loading always terminates with a graph or with the cyclic-or-missing-parent error.\<close>

theorem load_iff_orderable:
  assumes "distinct (map ob_id recs)"
  shows "((\<exists>g. from_records recs = Inr g) \<longleftrightarrow> (\<exists>xs. set xs = set recs \<and> topo {} xs)) \<and>
    (\<forall>g. from_records recs = Inr g \<longrightarrow> set (graph_values g) = set recs)"
proof -
  have "\<exists>xs. set xs = set recs \<and> topo {} xs" if "from_records recs = Inr g" for g
    using from_records_values [OF that assms] graph_ok_topo [of "{}" g] from_records_graph_ok [OF that]
    by (auto simp: graph_ok_def)
  moreover have "\<exists>g. from_records recs = Inr g" if "set xs = set recs" "topo {} xs" for xs
    using from_records_total [OF that(2) that(1) [symmetric] assms] by blast
  ultimately show ?thesis using from_records_values [OF _ assms] by blast
qed

definition ex_obs :: "string \<Rightarrow> obs_kind \<Rightarrow> string \<Rightarrow> string \<Rightarrow> string list \<Rightarrow> observation" where
  "ex_obs i k v s ps = \<lparr>ob_id = i, ob_kind = k, ob_value = v, ob_source = s, ob_parents = ps, ob_meta = []\<rparr>"

text \<open>A finding validated by another source, with evidence; listed children first.\<close>

definition ex_records :: "observation list" where
  "ex_records = [ex_obs ''e1'' Evidence ''log'' ''browser'' [''v1''],
     ex_obs ''v1'' Validation ''observed'' ''validator'' [''finding:f1''],
     ex_obs ''finding:f1'' Finding ''xss'' ''nuclei'' [''a1''], ex_obs ''a1'' Asset ''host'' ''recon'' []]"

definition ex_graph :: obs_graph where
  "ex_graph = map (\<lambda>ob. (ob_id ob, ob)) (rev ex_records)"

lemma ex_load: "from_records ex_records = Inr ex_graph"
  by code_simp

lemma load_iff_orderable_witness:
  "\<exists>xs. set xs = set ex_records \<and> topo {} xs"
proof -
  have "distinct (map ob_id ex_records)" by code_simp
  from load_iff_orderable [OF this] ex_load show ?thesis by blast
qed

text \<open>What a loaded graph validates: a finding counts as observed independently exactly when some
  validation that names it as a parent observed it from another source; as evidence-backed exactly
  when some evidence names such a validation as a parent; and adding an observation withdraws none of
  this.\<close>

theorem validation_meaning:
  assumes "from_records recs = Inr g"
  shows "(has_observed_independent_validation g fid \<longleftrightarrow>
      (\<exists>f v. observes g v f \<and> ob_id f = fid)) \<and>
    (has_evidence_backed_independent_validation g fid \<longleftrightarrow>
      (\<exists>f v. observes g v f \<and> evidenced g v \<and> ob_id f = fid)) \<and>
    (\<forall>ob g'. ob_id ob \<notin> graph_ids g \<longrightarrow> graph_add g ob = Inr g' \<longrightarrow>
      has_evidence_backed_independent_validation g fid \<longrightarrow> has_evidence_backed_independent_validation g' fid)"
proof -
  note ok = from_records_graph_ok [OF assms]
  have evd: "has_evidence_backed_independent_validation h fid \<longleftrightarrow>
      (\<exists>f v. observes h v f \<and> evidenced h v \<and> ob_id f = fid)" if "graph_ok h" for h
    using that by (auto simp: has_evidence_backed_independent_validation_def analyze_evidenced)
  have "has_evidence_backed_independent_validation g' fid"
    if new: "ob_id ob \<notin> graph_ids g" and add: "graph_add g ob = Inr g'"
      and e: "has_evidence_backed_independent_validation g fid" for ob g'
  proof -
    have "g' = g @ [(ob_id ob, ob)]"
      using add by (rule graph_add_cases) (use new map_of_graph_ids_Some [of g "ob_id ob"] in auto)
    then show ?thesis
      using evd [OF graph_add_ok [OF add ok]] evd [OF ok] e observes_mono evidenced_mono by blast
  qed
  then show ?thesis
    using evd [OF ok] ok by (auto simp: has_observed_independent_validation_def analyze_observed)
qed

lemma validation_meaning_witness:
  "\<exists>f v. observes ex_graph v f \<and> evidenced ex_graph v \<and> ob_id f = ''finding:f1''"
proof -
  have "has_evidence_backed_independent_validation ex_graph ''finding:f1''" by code_simp
  with validation_meaning [OF ex_load] show ?thesis by blast
qed

section \<open>Planned actions\<close>

text \<open>C25: The planner returns exactly one action. Unless it is a stop, the rules allow automated
  scanning, the limits hold and the action is about the target's host. A report is planned only when
  every finding of the graph was observed by an independent validation that has evidence attached,
  when the campaign's findings are those of the graph, all are confirmed or rejected, one is
  confirmed, and no report exists yet.\<close>

theorem plan_is_safe:
  assumes "from_records recs = Inr g" and "plan env c g = Inr actions"
  shows "\<exists>a. actions = [a] \<and> (pa_kind a \<noteq> Stop \<longrightarrow>
      automated_scanning (c_rules c) \<and> planner_limit_violation env g = Inr None \<and>
      (\<exists>host. url_host (c_url c) = Inr host \<and> host \<noteq> [] \<and> pa_target a = Some host)) \<and>
    (pa_kind a = Report \<longrightarrow>
      (\<forall>f \<in> set (by_kind Finding g). \<exists>v. observes g v f \<and> evidenced g v) \<and>
      campaign_finding_id ` set (by_kind Finding g) = f_id ` set (c_findings c) \<and>
      (\<forall>f \<in> set (c_findings c). resolved f) \<and> (\<exists>f \<in> set (c_findings c). f_status f = Confirmed) \<and>
      \<not> report_exists g)"
proof -
  note ok = from_records_graph_ok [OF assms(1)]
  from plan_one [OF assms(2)] obtain a where a: "actions = [a]" by blast
  have active: "automated_scanning (c_rules c) \<and> planner_limit_violation env g = Inr None \<and>
      (\<exists>host. url_host (c_url c) = Inr host \<and> host \<noteq> [] \<and> pa_target a = Some host)" if "pa_kind a \<noteq> Stop"
    using assms(2) [unfolded a] that by (elim plan_active) blast+
  have report: "(\<forall>f \<in> set (by_kind Finding g). \<exists>v. observes g v f \<and> evidenced g v) \<and>
      campaign_finding_id ` set (by_kind Finding g) = f_id ` set (c_findings c) \<and>
      (\<forall>f \<in> set (c_findings c). resolved f) \<and> (\<exists>f \<in> set (c_findings c). f_status f = Confirmed) \<and>
      \<not> report_exists g" if r: "pa_kind a = Report"
  proof -
    obtain host where "a = plan_progress c host g"
      using assms(2) [unfolded a] by (rule plan_active) (use r in auto)
    with r have "pa_kind (plan_progress c host g) = Report" by simp
    note rc = report_conditions [OF this]
    have "\<exists>v. observes g v f \<and> evidenced g v" if f: "f \<in> set (by_kind Finding g)" for f
    proof -
      have "ob_id f \<in> {ob_id f |f. \<exists>v. observes g v f \<and> evidenced g v}"
        using rc(1) f unfolding analyze_findings analyze_evidenced [OF ok] by blast
      then obtain f' v where "ob_id f = ob_id f'" "observes g v f'" "evidenced g v" by blast
      moreover from this have "f' = f"
        using by_kind_inj [OF ok f, of f' Finding] by (auto simp: observes_def attempts_def)
      ultimately show ?thesis by blast
    qed
    with rc show ?thesis by (auto simp: list_all_iff)
  qed
  from a active report show ?thesis by blast
qed

definition ex_finding :: finding where
  "ex_finding = \<lparr>f_id = ''f1'', f_title = ''xss'', f_severity = SHigh, f_asset = ''https://api.example.com'',
     f_endpoint = Some ''https://api.example.com/x'', f_summary = ''s'', f_evidence = [], f_steps = [],
     f_impact = ''i'', f_remediation = ''r'', f_cwe = Some ''cwe-79'', f_cvss = None, f_status = Confirmed,
     f_discovered_by = ''nuclei'', f_validated_by = None\<rparr>"

definition ex_planned :: campaign where
  "ex_planned = \<lparr>c_id = ''c1'', c_url = ''https://api.example.com/'', c_rules = ex_scope, c_state = CRunning,
     c_created_at = ''t'', c_updated_at = ''t'', c_findings = [ex_finding], c_events = []\<rparr>"

lemma ex_plan: "plan (\<lambda>_. None) ex_planned ex_graph =
    Inr [act Report (Some ''api.example.com'') ''confirmed findings are independently validated'' 70]"
  by code_simp

lemma plan_is_safe_witness:
  "\<exists>f v. f \<in> set (by_kind Finding ex_graph) \<and> observes ex_graph v f \<and> evidenced ex_graph v"
proof -
  have "ex_obs ''finding:f1'' Finding ''xss'' ''nuclei'' [''a1''] \<in> set (by_kind Finding ex_graph)"
    by (simp add: by_kind_def graph_values_def ex_graph_def ex_records_def ex_obs_def)
  moreover from plan_is_safe [OF ex_load ex_plan]
  have "\<forall>f \<in> set (by_kind Finding ex_graph). \<exists>v. observes ex_graph v f \<and> evidenced ex_graph v"
    by simp
  ultimately show ?thesis by blast
qed

text \<open>C29: In a loaded graph an evidence chain lists exactly the proper ancestors of its finding, and
  finds neither a cycle nor a dangling parent; a complete chain has an ancestor, an independent
  observed validation, evidence and at least two sources. Every finding has exactly one chain.\<close>

theorem evidence_chain_exact:
  assumes "from_records recs = Inr g"
  shows "(\<forall>c \<in> set (build_evidence_chains g).
      set (ec_ancestor_ids c) = {a. (ec_finding_id c, a) \<in> (parent_rel g)\<^sup>+} \<and> ec_dangling c = [] \<and>
      \<not> ec_cycle c \<and> (ec_complete c \<longrightarrow> (\<exists>p. (ec_finding_id c, p) \<in> parent_rel g) \<and>
        (\<exists>v f. observes g v f \<and> ob_id f = ec_finding_id c) \<and> ec_evidence_ids c \<noteq> [] \<and> 2 \<le> ec_source_count c)) \<and>
    mset (map ec_finding_id (build_evidence_chains g)) = mset (map ob_id (by_kind Finding g))"
proof (intro conjI ballI)
  note ok = from_records_graph_ok [OF assms]
  fix c assume "c \<in> set (build_evidence_chains g)"
  then obtain f where f: "f \<in> set (by_kind Finding g)" and c: "c = build_chain g (analyze_validation_state g) f"
    by (auto simp: build_evidence_chains_def Let_def)
  have mem: "ob_id f \<in> graph_ids g"
    using f ok graph_ok_from_ids [of "{}" g]
    by (auto simp: by_kind_def graph_ids_def graph_ok_def) (metis image_eqI list.set_map)
  obtain anc dang cyc where ai: "ancestry_integrity g (ob_id f) = (anc, dang, cyc)" by (metis prod_cases3)
  note an = ancestry_integrity_ok [OF ok ai mem]
  have sel: "ec_ancestor_ids c = anc" "ec_dangling c = dang" "ec_cycle c = cyc" "ec_finding_id c = ob_id f"
    using ai by (simp_all add: c build_chain_def Let_def)
  show "set (ec_ancestor_ids c) = {a. (ec_finding_id c, a) \<in> (parent_rel g)\<^sup>+}" "ec_dangling c = []" "\<not> ec_cycle c"
    using an sel by simp_all
  show "ec_complete c \<longrightarrow> (\<exists>p. (ec_finding_id c, p) \<in> parent_rel g) \<and>
      (\<exists>v f. observes g v f \<and> ob_id f = ec_finding_id c) \<and> ec_evidence_ids c \<noteq> [] \<and> 2 \<le> ec_source_count c"
  proof
    assume "ec_complete c"
    then have k: "ec_ancestor_ids c \<noteq> []" "ob_id f \<in> vs_observed (analyze_validation_state g)"
      "ec_evidence_ids c \<noteq> []" "2 \<le> ec_source_count c"
      unfolding c build_chain_complete by simp_all
    from k(1) an sel obtain a where "(ob_id f, a) \<in> (parent_rel g)\<^sup>+" by (cases anc) auto
    then have "\<exists>p. (ob_id f, p) \<in> parent_rel g" by (meson tranclD)
    moreover have "\<exists>v f'. observes g v f' \<and> ob_id f' = ob_id f"
      using k(2) unfolding analyze_observed [OF ok] by fastforce
    ultimately show "(\<exists>p. (ec_finding_id c, p) \<in> parent_rel g) \<and>
        (\<exists>v f. observes g v f \<and> ob_id f = ec_finding_id c) \<and> ec_evidence_ids c \<noteq> [] \<and> 2 \<le> ec_source_count c"
      using k(3,4) sel(4) by simp
  qed
next
  show "mset (map ec_finding_id (build_evidence_chains g)) = mset (map ob_id (by_kind Finding g))"
    by (simp add: build_evidence_chains_def Let_def multiset.map_comp comp_def)
qed

lemma evidence_chain_exact_witness:
  "\<exists>c. build_evidence_chains ex_graph = [c] \<and> set (ec_ancestor_ids c) = {a. (''finding:f1'', a) \<in> (parent_rel ex_graph)\<^sup>+}"
proof -
  have "map ec_finding_id (build_evidence_chains ex_graph) = [''finding:f1'']" by code_simp
  then obtain c where "build_evidence_chains ex_graph = [c]" "ec_finding_id c = ''finding:f1''" by auto
  with evidence_chain_exact [OF ex_load] show ?thesis by auto
qed

section \<open>Grouping and review\<close>

text \<open>The correlation of findings is the partition by their grouping key: two findings are in one
  group exactly when their canonical asset, endpoint, weakness and title agree; every finding is in a
  group, whose reported severity is at least its own.\<close>

theorem correlation_partition:
  assumes "correlate_findings fs = Inr cs" and "distinct (map f_id fs)" and "f \<in> set fs" and "f' \<in> set fs"
  shows "((\<exists>c \<in> set cs. f_id f \<in> set (fc_ids c) \<and> f_id f' \<in> set (fc_ids c)) \<longleftrightarrow>
      group_key_of f = group_key_of f') \<and>
    (\<exists>c \<in> set cs. f_id f \<in> set (fc_ids c) \<and> severity_rank (f_severity f) \<le> severity_rank (fc_highest c))"
proof -
  from assms(1) obtain d where d: "group_findings [] fs = Inr d" and cs: "set cs = correlate_group ` set d"
    by (auto simp: correlate_findings_def simp del: split_paired_Ex)
  have mem: "f_id x \<in> set (fc_ids (correlate_group (k, gs))) \<longleftrightarrow> group_key_of x = Inr k"
    if "(k, gs) \<in> set d" "x \<in> set fs" for k gs x
  proof -
    have "gs = filter (\<lambda>f. group_key_of f = Inr k) fs" by (rule group_findings_entries [OF d that(1)])
    moreover have "inj_on f_id (set fs)" using assms(2) by (simp add: distinct_map)
    ultimately show ?thesis
      using that(2) unfolding correlate_group_ids by (auto dest: inj_onD)
  qed
  obtain k gs where kg: "(k, gs) \<in> set d" "group_key_of f = Inr k" "f \<in> set gs"
    using group_findings_covers [OF d assms(3)] .
  have g: "correlate_group (k, gs) \<in> set cs" using cs kg(1) by blast
  have in_f: "f_id f \<in> set (fc_ids (correlate_group (k, gs)))" using mem [OF kg(1) assms(3)] kg(2) by blast
  have "group_key_of f' = group_key_of f"
    if "c \<in> set cs" "f_id f \<in> set (fc_ids c)" "f_id f' \<in> set (fc_ids c)" for c
  proof -
    from that(1) cs obtain k' gs' where "(k', gs') \<in> set d" "c = correlate_group (k', gs')" by auto
    with mem that(2,3) assms(3,4) show ?thesis by metis
  qed
  moreover have "f_id f' \<in> set (fc_ids (correlate_group (k, gs)))" if "group_key_of f = group_key_of f'"
    using mem [OF kg(1) assms(4)] kg(2) that by simp
  moreover have "severity_rank (f_severity f) \<le> severity_rank (fc_highest (correlate_group (k, gs)))"
    using highest_severity_ge [of f "sort_key f_id gs"] kg(3) by (cases k) (simp add: correlate_group_def Let_def)
  ultimately show ?thesis using g in_f by metis
qed

lemma correlation_partition_witness:
  "group_key_of ex_finding = group_key_of (ex_finding\<lparr>f_id := ''f2'', f_asset := ''https://API.example.com:443''\<rparr>)"
proof -
  let ?g = "ex_finding\<lparr>f_id := ''f2'', f_asset := ''https://API.example.com:443''\<rparr>"
  have "case correlate_findings [ex_finding, ?g] of Inl _ \<Rightarrow> False
      | Inr cs \<Rightarrow> map fc_ids cs = [[''f1'', ''f2'']]" by code_simp
  then obtain cs where cs: "correlate_findings [ex_finding, ?g] = Inr cs" "map fc_ids cs = [[''f1'', ''f2'']]"
    by (auto split: sum.splits)
  then obtain c where c: "c \<in> set cs" "fc_ids c = [''f1'', ''f2'']" by auto
  have "distinct (map f_id [ex_finding, ?g])" by code_simp
  from correlation_partition [OF cs(1) this, of ex_finding ?g]
  have "(\<exists>c \<in> set cs. f_id ex_finding \<in> set (fc_ids c) \<and> f_id ?g \<in> set (fc_ids c)) \<longleftrightarrow>
      group_key_of ex_finding = group_key_of ?g" by simp
  moreover have "\<exists>c \<in> set cs. f_id ex_finding \<in> set (fc_ids c) \<and> f_id ?g \<in> set (fc_ids c)"
    using c by (intro bexI [of _ c]) (simp_all add: ex_finding_def)
  ultimately show ?thesis by blast
qed

text \<open>Human review of a finding is offered as allowed only for a finding that is validated or
  confirmed, that no group lists as a likely duplicate, and whose graph finding was observed by an
  independent validation and has a complete evidence chain.\<close>

theorem review_advice_sound:
  assumes "build_finding_lifecycle fs g = Inr advice" and "a \<in> set advice" and "la_allowed a" and "la_human a"
  shows "\<exists>f \<in> set fs. \<exists>cs. la_finding_id a = f_id f \<and> f_status f \<in> {ValidationRequired, Confirmed} \<and>
    correlate_findings fs = Inr cs \<and> (\<forall>c \<in> set cs. fc_duplicate c \<longrightarrow> f_id f \<notin> set (fc_ids c)) \<and>
    (\<exists>c \<in> set (build_evidence_chains g). ec_finding_id c = ''finding:'' @ f_id f \<and> ec_complete c)"
proof -
  from assms(1) obtain cs where cs: "correlate_findings fs = Inr cs"
    and ad: "set advice = lifecycle_advice_for g (analyze_validation_state g) (build_evidence_chains g)
      (concat (map fc_ids (filter fc_duplicate cs))) ` set fs"
    by (auto simp: build_finding_lifecycle_def Let_def)
  with assms(2) obtain f where f: "f \<in> set fs" and a: "a = lifecycle_advice_for g (analyze_validation_state g)
      (build_evidence_chains g) (concat (map fc_ids (filter fc_duplicate cs))) f" by blast
  have id: "la_finding_id a = f_id f" by (simp add: a lifecycle_advice_for_def Let_def case_prod_beta)
  have st: "f_status f \<in> {ValidationRequired, Confirmed}"
    using assms(3,4) by (cases "f_status f") (simp_all add: a lifecycle_advice_for_def Let_def)
  then have "f_status f \<noteq> Candidate" by auto
  note al = advice_allowed [OF assms(3) [unfolded a] this]
  from al(3) obtain ob where "ob \<in> set (by_kind Finding g)" "ob_id ob = ''finding:'' @ f_id f"
    "ec_complete (build_chain g (analyze_validation_state g) ob)" by blast
  then have "\<exists>c \<in> set (build_evidence_chains g). ec_finding_id c = ''finding:'' @ f_id f \<and> ec_complete c"
    by (auto simp: build_evidence_chains_def Let_def)
  moreover have "\<forall>c \<in> set cs. fc_duplicate c \<longrightarrow> f_id f \<notin> set (fc_ids c)" using al(2) by auto
  ultimately show ?thesis using f id st cs by blast
qed

lemma review_advice_sound_witness:
  "\<exists>c. c \<in> set (build_evidence_chains ex_graph) \<and> ec_finding_id c = ''finding:f1'' \<and> ec_complete c"
proof -
  have "case build_finding_lifecycle [ex_finding] ex_graph of Inl _ \<Rightarrow> False
      | Inr as \<Rightarrow> map (\<lambda>a. (la_finding_id a, la_allowed a, la_human a)) as = [(''f1'', True, True)]" by code_simp
  then obtain a where "build_finding_lifecycle [ex_finding] ex_graph = Inr [a]" "la_allowed a" "la_human a"
    by (auto split: sum.splits)
  from review_advice_sound [OF this(1) _ this(2,3)] show ?thesis
    by (auto simp: ex_finding_def)
qed

section \<open>The budget\<close>

text \<open>SQLite queue: when the budget lets a planned action pass, the queue holds fewer jobs of the
  campaign than each limit the action is subject to: active and failed jobs for a scan, a validation
  or a report, and the jobs of its kind.\<close>

theorem sq_within_budget:
  assumes "sq_inv q" and "is_ident c" and "pa_kind a \<noteq> Stop" and "fst (apply_budget a u) = a"
    and "usage_of g (sq_campaign_job_counts q c) (sq_campaign_job_status_counts q c) l = Inr u"
  shows "bu_actions u < pb_actions l \<and>
    (pa_kind a \<in> {Scan, Validate, Report} \<longrightarrow>
      int (card {j \<in> set q. j_campaign j = c \<and> (j_status j = Queued \<or> j_status j = Running)}) < pb_inflight l \<and>
      int (card {j \<in> set q. j_campaign j = c \<and> j_status j = Failed}) < pb_failed l) \<and>
    (pa_kind a = Scan \<longrightarrow> int (card {j \<in> set q. j_campaign j = c \<and>
      (j_kind j = ''strix_scan'' \<or> j_kind j = ''nuclei_scan'')}) < pb_scans l) \<and>
    (pa_kind a = Validate \<longrightarrow>
      int (card {j \<in> set q. j_campaign j = c \<and> j_kind j = ''independent_validation''}) < pb_validations l) \<and>
    (pa_kind a = Report \<longrightarrow> int (card {j \<in> set q. j_campaign j = c \<and> j_kind j = ''report''}) < pb_reports l)"
  using sq_telemetry.within_budget [OF assms(1,2,5,4,3)] by blast

lemma sq_within_budget_witness:
  "int (card {j \<in> set [ex_queued]. j_campaign j = ''c1'' \<and> (j_status j = Queued \<or> j_status j = Running)}) < 12"
proof -
  have inv: "sq_inv [ex_queued]" by (rule sq.reachable_inv [OF ex_steps(1)])
  have c: "is_ident ''c1''" by code_simp
  let ?a = "act Scan None ''r'' 80"
  let ?u = "usage_of [] (sq_campaign_job_counts [ex_queued] ''c1'') (sq_campaign_job_status_counts [ex_queued] ''c1'') default_budget"
  obtain u where u: "?u = Inr u" using sq_telemetry.usage_exact [OF inv c] by blast
  have "case ?u of Inl _ \<Rightarrow> False | Inr u \<Rightarrow> bu_blocked u = []" by code_simp
  with u have pass: "fst (apply_budget ?a u) = ?a" by (simp add: apply_budget_def)
  from sq_within_budget [OF inv c _ pass u] show ?thesis by (simp add: default_budget_def)
qed

text \<open>Redis queue: the same holds of the rows of the Redis queue.\<close>

theorem rd_within_budget:
  assumes "rd_inv s" and "is_ident c" and "pa_kind a \<noteq> Stop" and "fst (apply_budget a u) = a"
    and "usage_of g (rd_campaign_job_counts s c) (rd_campaign_job_status_counts s c) l = Inr u"
  shows "bu_actions u < pb_actions l \<and>
    (pa_kind a \<in> {Scan, Validate, Report} \<longrightarrow>
      int (card {j \<in> ran (r_jobs s). j_campaign j = c \<and> (j_status j = Queued \<or> j_status j = Running)}) < pb_inflight l \<and>
      int (card {j \<in> ran (r_jobs s). j_campaign j = c \<and> j_status j = Failed}) < pb_failed l) \<and>
    (pa_kind a = Scan \<longrightarrow> int (card {j \<in> ran (r_jobs s). j_campaign j = c \<and>
      (j_kind j = ''strix_scan'' \<or> j_kind j = ''nuclei_scan'')}) < pb_scans l) \<and>
    (pa_kind a = Validate \<longrightarrow> int (card {j \<in> ran (r_jobs s). j_campaign j = c \<and>
      j_kind j = ''independent_validation''}) < pb_validations l) \<and>
    (pa_kind a = Report \<longrightarrow>
      int (card {j \<in> ran (r_jobs s). j_campaign j = c \<and> j_kind j = ''report''}) < pb_reports l)"
  using rd_telemetry.within_budget [OF assms(1,2,5,4,3)] by blast

lemma rd_within_budget_witness:
  "int (card {j \<in> ran (r_jobs ex_redis). j_campaign j = ''c1'' \<and> j_status j = Failed}) < 5"
proof -
  have inv: "rd_inv ex_redis" by (rule rd.reachable_inv [OF ex_rd_steps])
  have c: "is_ident ''c1''" by code_simp
  let ?a = "act Scan None ''r'' 80"
  let ?u = "usage_of [] (rd_campaign_job_counts ex_redis ''c1'') (rd_campaign_job_status_counts ex_redis ''c1'') default_budget"
  obtain u where u: "?u = Inr u" using rd_telemetry.usage_exact [OF inv c] by blast
  have "case ?u of Inl _ \<Rightarrow> False | Inr u \<Rightarrow> bu_blocked u = []" by code_simp
  with u have pass: "fst (apply_budget ?a u) = ?a" by (simp add: apply_budget_def)
  from rd_within_budget [OF inv c _ pass u] show ?thesis by (simp add: default_budget_def)
qed

end
