(* ===== verification/ObserverLease.thy ===== *)
theory ObserverLease
  imports Prelude
begin

text \<open>
  \<open>backend/app/observer_lease.py\<close>: the lease that lets one incident observer run per database. The
  one row of the table is the state; every operation is one transaction on it. Instants are
  microseconds (the ISO text of an instant in UTC orders as the instant). A run of the lease also
  records which owner was given which generation; what the lease is for is that a generation never
  belongs to two owners.
\<close>

record lease_row =
  ol_owner :: "string option"
  ol_expires :: "int option"
  ol_generation :: int

definition lease_init :: lease_row where
  "lease_init = \<lparr>ol_owner = None, ol_expires = None, ol_generation = 0\<rparr>"

definition lease_active :: "lease_row \<Rightarrow> int \<Rightarrow> bool" where
  "lease_active r now = (case ol_expires r of None \<Rightarrow> False | Some t \<Rightarrow> t > now)"

definition lease_acquire :: "lease_row \<Rightarrow> string \<Rightarrow> int \<Rightarrow> int \<Rightarrow> (lease_row \<times> int option) result" where
  "lease_acquire r owner ttl now =
     (if owner = [] \<or> length owner > 128 then Inl (ValueError ''owner must contain 1..128 characters'')
      else if \<not> (10 \<le> ttl \<and> ttl \<le> 3600)
      then Inl (ValueError ''ttl_seconds must be between 10 and 3600'')
      else if ol_owner r \<notin> {None, Some owner} \<and> lease_active r now then Inr (r, None)
      else (let g = ol_generation r + (if ol_owner r = Some owner then 0 else 1) in
            Inr (\<lparr>ol_owner = Some owner, ol_expires = Some (now + ttl * 1000000), ol_generation = g\<rparr>,
                 Some g)))"

definition lease_heartbeat :: "lease_row \<Rightarrow> string \<Rightarrow> int \<Rightarrow> int \<Rightarrow> int \<Rightarrow> lease_row \<times> bool" where
  "lease_heartbeat r owner g ttl now =
     (if ol_owner r = Some owner \<and> ol_generation r = g \<and> lease_active r now
      then (r\<lparr>ol_expires := Some (now + ttl * 1000000)\<rparr>, True) else (r, False))"

definition lease_is_current :: "lease_row \<Rightarrow> string \<Rightarrow> int \<Rightarrow> int \<Rightarrow> bool" where
  "lease_is_current r owner g now = (ol_owner r = Some owner \<and> ol_generation r = g \<and> lease_active r now)"

definition lease_release :: "lease_row \<Rightarrow> string \<Rightarrow> int option \<Rightarrow> lease_row \<times> bool" where
  "lease_release r owner g =
     (if ol_owner r = Some owner \<and> (g = None \<or> g = Some (ol_generation r))
      then (r\<lparr>ol_owner := None, ol_expires := None\<rparr>, True) else (r, False))"

section \<open>Runs\<close>

text \<open>The state and the pairs of owner and generation handed out so far.\<close>

inductive lease_run :: "lease_row \<Rightarrow> (string \<times> int) set \<Rightarrow> bool" where
  start: "lease_run lease_init {}"
| granted: "lease_run r G \<Longrightarrow> lease_acquire r owner ttl now = Inr (r', Some g) \<Longrightarrow>
    lease_run r' (insert (owner, g) G)"
| refused: "lease_run r G \<Longrightarrow> lease_acquire r owner ttl now = Inr (r', None) \<Longrightarrow> lease_run r' G"
| heartbeat: "lease_run r G \<Longrightarrow> lease_heartbeat r owner g ttl now = (r', b) \<Longrightarrow> lease_run r' G"
| released: "lease_run r G \<Longrightarrow> lease_release r owner g = (r', b) \<Longrightarrow> lease_run r' G"

text \<open>Generations handed out never exceed the current one; the current one, while the row has an
  owner, was given to that owner; every generation has one owner.\<close>

definition fenced :: "lease_row \<Rightarrow> (string \<times> int) set \<Rightarrow> bool" where
  "fenced r G \<longleftrightarrow> (\<forall>(w, g) \<in> G. g \<le> ol_generation r) \<and>
     (\<forall>w. ol_owner r = Some w \<longrightarrow> (\<forall>w' g. (w', g) \<in> G \<longrightarrow> g = ol_generation r \<longrightarrow> w' = w)) \<and>
     (\<forall>w w' g. (w, g) \<in> G \<longrightarrow> (w', g) \<in> G \<longrightarrow> w = w')"

lemma acquire_cases:
  assumes "lease_acquire r owner ttl now = Inr (r', x)"
  obtains (Refused) "x = None" "r' = r"
    | (Renewed) "x = Some (ol_generation r)" "ol_owner r = Some owner" "ol_owner r' = Some owner"
        "ol_generation r' = ol_generation r" "ol_expires r' = Some (now + ttl * 1000000)"
    | (New) "x = Some (ol_generation r + 1)" "ol_owner r \<noteq> Some owner" "ol_owner r' = Some owner"
        "ol_generation r' = ol_generation r + 1" "ol_expires r' = Some (now + ttl * 1000000)"
        "ol_owner r = None \<or> \<not> lease_active r now"
proof (cases "ol_owner r \<notin> {None, Some owner} \<and> lease_active r now")
  case True
  with assms show thesis by (intro Refused) (simp_all add: lease_acquire_def split: if_splits)
next
  case False
  then have "r' = \<lparr>ol_owner = Some owner, ol_expires = Some (now + ttl * 1000000),
      ol_generation = ol_generation r + (if ol_owner r = Some owner then 0 else 1)\<rparr> \<and>
    x = Some (ol_generation r + (if ol_owner r = Some owner then 0 else 1))"
    using assms by (simp add: lease_acquire_def Let_def split: if_splits)
  with False Renewed New show thesis by (cases "ol_owner r = Some owner") auto
qed

lemma fenced_granted:
  assumes "fenced r G" and "lease_acquire r owner ttl now = Inr (r', Some g)"
  shows "fenced r' (insert (owner, g) G)"
  using assms(2)
proof (cases rule: acquire_cases)
  case Renewed
  with assms(1) show ?thesis by (auto simp: fenced_def)
next
  case New
  have "g' < g" if "(w, g') \<in> G" for w g'
    using assms(1) New(1) that by (fastforce simp: fenced_def)
  with assms(1) New show ?thesis by (fastforce simp: fenced_def)
qed simp

lemma lease_run_fenced: "lease_run r G \<Longrightarrow> fenced r G"
proof (induction rule: lease_run.induct)
  case start
  show ?case by (simp add: fenced_def)
next
  case (granted r G owner ttl now r' g)
  then show ?case by (blast intro: fenced_granted)
next
  case (refused r G owner ttl now r')
  from refused(2) have "r' = r" by (cases rule: acquire_cases) auto
  with refused show ?case by simp
next
  case (heartbeat r G owner g ttl now r' b)
  then show ?case by (auto simp: fenced_def lease_heartbeat_def split: if_splits)
next
  case (released r G owner g r' b)
  then show ?case by (auto simp: fenced_def lease_release_def split: if_splits)
qed

text \<open>C21: Two owners are never given the same generation, and while one of them is current no other
  owner acquires the lease; the generation the holder presents is the one it was given.\<close>

theorem observer_lease_exclusive:
  assumes "lease_run r G" and "lease_is_current r owner g now"
  shows "(\<forall>w g'. (w, g') \<in> G \<longrightarrow> (\<forall>w'. (w', g') \<in> G \<longrightarrow> w' = w)) \<and>
    (\<forall>w g'. (w, g') \<in> G \<longrightarrow> lease_is_current r w g' now \<longrightarrow> w = owner \<and> g' = g) \<and>
    (\<forall>w ttl r' x. w \<noteq> owner \<longrightarrow> lease_acquire r w ttl now = Inr (r', x) \<longrightarrow> x = None \<and> r' = r)"
proof -
  have "\<forall>w g'. (w, g') \<in> G \<longrightarrow> (\<forall>w'. (w', g') \<in> G \<longrightarrow> w' = w)"
    using lease_run_fenced [OF assms(1)] unfolding fenced_def by blast
  with assms(2) show ?thesis
    by (auto simp: lease_is_current_def lease_acquire_def Let_def split: if_splits)
qed

lemma observer_lease_exclusive_witness:
  "lease_acquire \<lparr>ol_owner = Some ''a'', ol_expires = Some 10000000, ol_generation = 1\<rparr> ''b'' 10 5 =
     Inr (\<lparr>ol_owner = Some ''a'', ol_expires = Some 10000000, ol_generation = 1\<rparr>, None)"
proof -
  let ?r = "\<lparr>ol_owner = Some ''a'', ol_expires = Some 10000000, ol_generation = 1\<rparr>"
  have "lease_acquire lease_init ''a'' 10 0 = Inr (?r, Some 1)" by code_simp
  with lease_run.start have "lease_run ?r (insert (''a'', 1) {})" by (rule lease_run.granted)
  moreover have "lease_is_current ?r ''a'' 1 5" by code_simp
  ultimately have "\<forall>w ttl r' x. w \<noteq> ''a'' \<longrightarrow> lease_acquire ?r w ttl 5 = Inr (r', x) \<longrightarrow> x = None \<and> r' = ?r"
    using observer_lease_exclusive by blast
  then have b: "lease_acquire ?r ''b'' 10 5 = Inr (r', x) \<Longrightarrow> x = None \<and> r' = ?r" for r' x
    by (auto dest!: spec [of _ "''b''"])
  obtain r' x where e: "lease_acquire ?r ''b'' 10 5 = Inr (r', x)"
    by (simp add: lease_acquire_def Let_def lease_active_def)
  with b [OF e] show ?thesis by simp
qed

end
