(* ===== verification/RateLimit.thy ===== *)
theory RateLimit
  imports PyData
begin

text \<open>
  \<open>backend/app/api_rate_limit.py\<close>: the configuration, the in-memory fixed window limiter and the
  decision of the middleware. The clock is in microseconds. The limiter's dict is an association
  list from client keys to the window and the count in it; a check returns the new dict even when it
  raises, because entries of old windows have been dropped by then. How the key of a client is found
  and the Redis script are not modelled.
\<close>

record rate_limit_config =
  rl_enabled :: bool
  rl_requests :: int
  rl_window_seconds :: int
  rl_max_keys :: int
  rl_backend :: string

definition strict_bool :: "environ \<Rightarrow> string \<Rightarrow> bool \<Rightarrow> bool result" where
  "strict_bool env name dflt =
     (case env name of None \<Rightarrow> Inr dflt
      | Some raw \<Rightarrow>
          (let value = py_lower (py_strip raw) in
           if value \<in> {''1'', ''true'', ''yes'', ''on''} then Inr True
           else if value \<in> {''0'', ''false'', ''no'', ''off''} then Inr False
           else Inl (RateLimitConfigError (name @ '' must be a boolean''))))"

definition rl_bounded_int :: "environ \<Rightarrow> string \<Rightarrow> int \<Rightarrow> int \<Rightarrow> int \<Rightarrow> int result" where
  "rl_bounded_int env name dflt low high =
     (let raw = py_strip (case env name of None \<Rightarrow> int_str dflt | Some r \<Rightarrow> r) in
      case py_int raw of
        None \<Rightarrow> Inl (RateLimitConfigError (name @ '' must be an integer''))
      | Some v \<Rightarrow> if low \<le> v \<and> v \<le> high then Inr v
          else Inl (RateLimitConfigError (name @ '' must be between '' @ int_str low @ '' and '' @ int_str high)))"

definition load_rate_limit_config :: "environ \<Rightarrow> rate_limit_config result" where
  "load_rate_limit_config env =
     (let backend = py_lower (py_strip (case env ''XBOW_API_RATE_LIMIT_BACKEND'' of None \<Rightarrow> ''memory'' | Some b \<Rightarrow> b)) in
      if backend \<notin> {''memory'', ''redis''}
      then Inl (RateLimitConfigError ''XBOW_API_RATE_LIMIT_BACKEND must be memory or redis'')
      else
        rbind (strict_bool env ''XBOW_API_RATE_LIMIT_ENABLED'' False) (\<lambda>enabled.
        rbind (rl_bounded_int env ''XBOW_API_RATE_LIMIT_REQUESTS'' 120 1 10000) (\<lambda>requests.
        rbind (rl_bounded_int env ''XBOW_API_RATE_LIMIT_WINDOW_SECONDS'' 60 1 3600) (\<lambda>window.
        rbind (rl_bounded_int env ''XBOW_API_RATE_LIMIT_MAX_KEYS'' 10000 100 100000) (\<lambda>keys.
          Inr \<lparr>rl_enabled = enabled, rl_requests = requests, rl_window_seconds = window,
               rl_max_keys = keys, rl_backend = backend\<rparr>)))))"

definition config_ok :: "rate_limit_config \<Rightarrow> bool" where
  "config_ok cfg \<longleftrightarrow> 1 \<le> rl_requests cfg \<and> 1 \<le> rl_window_seconds cfg \<and> 1 \<le> rl_max_keys cfg"

lemma rl_bounded_int_range: "rl_bounded_int env name d lo hi = Inr v \<Longrightarrow> lo \<le> v \<and> v \<le> hi"
  by (auto simp: rl_bounded_int_def Let_def simp del: split_paired_All split: option.splits if_splits)

lemma load_config_ok: "load_rate_limit_config env = Inr cfg \<Longrightarrow> config_ok cfg"
  by (auto simp: load_rate_limit_config_def config_ok_def Let_def split: if_splits
      dest!: rl_bounded_int_range)

section \<open>The fixed window limiter\<close>

type_synonym windows = "(string \<times> int \<times> int) list"

definition window_of :: "rate_limit_config \<Rightarrow> int \<Rightarrow> int" where
  "window_of cfg now = now div (rl_window_seconds cfg * 1000000)"

definition retry_after :: "rate_limit_config \<Rightarrow> int \<Rightarrow> int" where
  "retry_after cfg now =
     max 1 (rl_window_seconds cfg - (now mod (rl_window_seconds cfg * 1000000)) div 1000000)"

definition prune :: "int \<Rightarrow> windows \<Rightarrow> windows" where
  "prune current entries = filter (\<lambda>(k, w, c). w = current) entries"

definition limiter_check ::
  "windows \<Rightarrow> string \<Rightarrow> rate_limit_config \<Rightarrow> int \<Rightarrow> windows \<times> (bool \<times> int) result" where
  "limiter_check entries key cfg now =
     (let window = window_of cfg now; retry = retry_after cfg now;
          fresh = (let pruned = prune window entries in
            if int (length pruned) \<ge> rl_max_keys cfg
            then (pruned, Inl (RuntimeError ''API rate limiter capacity exhausted''))
            else (dict_set key (window, 1) pruned, Inr (True, retry))) in
      case map_of entries key of
        None \<Rightarrow> fresh
      | Some (w, count) \<Rightarrow>
          if w \<noteq> window then fresh
          else if count \<ge> rl_requests cfg then (entries, Inr (False, retry))
          else (dict_set key (window, count + 1) entries, Inr (True, retry)))"

text \<open>The middleware: what happens to a request of a client.\<close>

datatype rate_limit_response = Pass | Misconfigured | Unavailable | TooMany int

definition rate_limit_decision ::
  "environ \<Rightarrow> windows \<Rightarrow> string \<Rightarrow> string result \<Rightarrow> int \<Rightarrow> windows \<times> rate_limit_response" where
  "rate_limit_decision env entries path key_r now =
     (if \<not> (py_startswith path ''/api/'' \<or> path = ''/api'') then (entries, Pass)
      else (case load_rate_limit_config env of
          Inl _ \<Rightarrow> (entries, Misconfigured)
        | Inr cfg \<Rightarrow>
            if \<not> rl_enabled cfg then (entries, Pass)
            else (case key_r of
                Inl _ \<Rightarrow> (entries, Misconfigured)
              | Inr key \<Rightarrow>
                  (case limiter_check entries key cfg now of
                     (entries', Inl _) \<Rightarrow> (entries', Unavailable)
                   | (entries', Inr (allowed, retry)) \<Rightarrow>
                       (entries', if allowed then Pass else TooMany retry)))))"

section \<open>A run of the limiter\<close>

text \<open>The requests are the client keys and the times they arrive; the outcome of each is recorded with
  its window.\<close>

type_synonym outcome = "string \<times> int \<times> (bool \<times> int) result"

fun limiter_run :: "rate_limit_config \<Rightarrow> windows \<Rightarrow> (string \<times> int) list \<Rightarrow> outcome list" where
  "limiter_run cfg entries [] = []"
| "limiter_run cfg entries ((key, now) # reqs) =
     (let (entries', r) = limiter_check entries key cfg now in
      (key, window_of cfg now, r) # limiter_run cfg entries' reqs)"

definition admitted :: "outcome list \<Rightarrow> string \<Rightarrow> int \<Rightarrow> int" where
  "admitted outs key w = int (length (filter (\<lambda>(k, v, r). k = key \<and> v = w \<and> (\<exists>t. r = Inr (True, t))) outs))"

text \<open>Between two checks every entry belongs to the window of the last one, and counts what was
  admitted in it.\<close>

definition counts_ok :: "rate_limit_config \<Rightarrow> windows \<Rightarrow> int \<Rightarrow> (string \<Rightarrow> int \<Rightarrow> int) \<Rightarrow> bool" where
  "counts_ok cfg entries cur adm \<longleftrightarrow>
     distinct (map fst entries) \<and> int (length entries) \<le> rl_max_keys cfg \<and>
     (\<forall>k w c. map_of entries k = Some (w, c) \<longrightarrow> w = cur \<and> c = adm k cur \<and> 1 \<le> c) \<and>
     (\<forall>k. map_of entries k = None \<longrightarrow> adm k cur = 0) \<and>
     (\<forall>k w. cur < w \<longrightarrow> adm k w = 0) \<and> (\<forall>k w. adm k w \<le> rl_requests cfg)"

lemma counts_okD:
  assumes "counts_ok cfg entries cur adm"
  shows "distinct (map fst entries)" and "int (length entries) \<le> rl_max_keys cfg"
    and "map_of entries k = Some (w, c) \<Longrightarrow> w = cur \<and> c = adm k cur \<and> 1 \<le> c"
    and "map_of entries k = None \<Longrightarrow> adm k cur = 0" and "cur < w \<Longrightarrow> adm k w = 0"
    and "adm k w \<le> rl_requests cfg"
  using assms unfolding counts_ok_def by blast+

lemma prune_same: "counts_ok cfg entries cur adm \<Longrightarrow> prune cur entries = entries"
proof -
  assume ok: "counts_ok cfg entries cur adm"
  have "w = cur" if "(k, w, c) \<in> set entries" for k w c
    using counts_okD(3) [OF ok, of k w c] counts_okD(1) [OF ok] that by simp
  then show ?thesis by (auto simp: prune_def intro!: filter_True)
qed

lemma prune_later: "counts_ok cfg entries cur adm \<Longrightarrow> cur < w \<Longrightarrow> prune w entries = []"
proof -
  assume ok: "counts_ok cfg entries cur adm" and "cur < w"
  have "w' = cur" if "(k, w', c) \<in> set entries" for k w' c
    using counts_okD(3) [OF ok, of k w' c] counts_okD(1) [OF ok] that by simp
  with \<open>cur < w\<close> show ?thesis by (auto simp: prune_def filter_empty_conv)
qed

definition count_in :: "(string \<Rightarrow> int \<Rightarrow> int) \<Rightarrow> outcome \<Rightarrow> string \<Rightarrow> int \<Rightarrow> int" where
  "count_in adm oc = (\<lambda>k w. adm k w + admitted [oc] k w)"

lemma length_dict_set: "length (dict_set k v d) = (if k \<in> fst ` set d then length d else Suc (length d))"
  using arg_cong [OF keys_dict_set [of k v d], of length] by (simp split: if_splits)

lemma admitted_one [simp]:
  "admitted [(k, v, r)] key w = (if k = key \<and> v = w \<and> (\<exists>t. r = Inr (True, t)) then 1 else 0)"
  by (simp add: admitted_def)

lemma admitted_Cons: "admitted (oc # outs) key w = admitted [oc] key w + admitted outs key w"
  by (simp add: admitted_def)

text \<open>A fresh entry in window \<open>w\<close>, after the entries of other windows have been dropped.\<close>

lemma fresh_ok:
  assumes ok: "counts_ok cfg entries cur adm" and "cur \<le> w" and cfg: "config_ok cfg"
    and zero: "adm key w = 0" and none: "map_of (prune w entries) key = None"
    and room: "int (length (prune w entries)) < rl_max_keys cfg"
  shows "counts_ok cfg (dict_set key (w, 1) (prune w entries)) w (count_in adm (key, w, Inr (True, t)))"
proof (cases "cur = w")
  case True
  then have p: "prune w entries = entries" using prune_same [OF ok] by simp
  have "key \<notin> fst ` set entries" using none p by (simp add: map_of_eq_None_iff)
  with True p none room zero cfg counts_okD [OF ok] show ?thesis
    unfolding counts_ok_def count_in_def config_ok_def
    by (auto simp: length_dict_set split: if_splits)
next
  case False
  with assms(2) have "cur < w" by simp
  then have p: "prune w entries = []" using prune_later [OF ok] by simp
  have "adm k w = 0" "w < w' \<Longrightarrow> adm k w' = 0" for k w'
    using counts_okD(5) [OF ok] \<open>cur < w\<close> by auto
  with p room cfg counts_okD(6) [OF ok] show ?thesis
    unfolding counts_ok_def count_in_def config_ok_def by (auto split: if_splits)
qed

lemma full_ok:
  assumes ok: "counts_ok cfg entries cur adm" and "cur \<le> w"
  shows "counts_ok cfg (prune w entries) w (count_in adm (key, w, Inl e))"
proof (cases "cur = w")
  case True
  with ok prune_same [OF ok] show ?thesis by (simp add: count_in_def)
next
  case False
  with assms(2) have "cur < w" by simp
  then have p: "prune w entries = []" using prune_later [OF ok] by simp
  have "adm k w = 0" "w < w' \<Longrightarrow> adm k w' = 0" for k w'
    using counts_okD(5) [OF ok] \<open>cur < w\<close> by auto
  moreover have "0 \<le> rl_max_keys cfg" using counts_okD(2) [OF ok] by simp
  ultimately show ?thesis
    using p counts_okD(6) [OF ok] by (simp add: counts_ok_def count_in_def)
qed

lemma bump_ok:
  assumes ok: "counts_ok cfg entries cur adm" and entry: "map_of entries key = Some (w, count)"
    and less: "\<not> count \<ge> rl_requests cfg"
  shows "counts_ok cfg (dict_set key (w, count + 1) entries) cur (count_in adm (key, w, Inr (True, t)))"
proof -
  note d = counts_okD [OF ok]
  have w: "w = cur" "count = adm key cur" "1 \<le> count" using d(3) [OF entry] by auto
  have key: "key \<in> fst ` set entries" using entry by (metis domI dom_map_of_conv_image_fst)
  have "\<forall>k w' c. map_of (dict_set key (w, count + 1) entries) k = Some (w', c) \<longrightarrow>
      w' = cur \<and> c = count_in adm (key, w, Inr (True, t)) k cur \<and> 1 \<le> c"
  proof (intro allI impI)
    fix k w' c assume m: "map_of (dict_set key (w, count + 1) entries) k = Some (w', c)"
    show "w' = cur \<and> c = count_in adm (key, w, Inr (True, t)) k cur \<and> 1 \<le> c"
    proof (cases "k = key")
      case True
      with m w show ?thesis by (auto simp: count_in_def)
    next
      case False
      with m d(3) [of k w' c] show ?thesis by (simp add: count_in_def)
    qed
  qed
  moreover have "\<forall>k. map_of (dict_set key (w, count + 1) entries) k = None \<longrightarrow>
      count_in adm (key, w, Inr (True, t)) k cur = 0"
    using d(4) by (simp add: count_in_def)
  moreover have "\<forall>k w'. cur < w' \<longrightarrow> count_in adm (key, w, Inr (True, t)) k w' = 0"
    using d(5) w(1) by (simp add: count_in_def)
  moreover have "\<forall>k w'. count_in adm (key, w, Inr (True, t)) k w' \<le> rl_requests cfg"
    using d(6) w less by (simp add: count_in_def)
  moreover have "distinct (map fst (dict_set key (w, count + 1) entries))" using d(1) by simp
  moreover have "int (length (dict_set key (w, count + 1) entries)) \<le> rl_max_keys cfg"
    using d(2) key by (simp add: length_dict_set)
  ultimately show ?thesis unfolding counts_ok_def by blast
qed

lemma limiter_check_ok:
  assumes ok: "counts_ok cfg entries cur adm" and le: "cur \<le> window_of cfg now" and cfg: "config_ok cfg"
    and step: "limiter_check entries key cfg now = (entries', r)"
  shows "counts_ok cfg entries' (window_of cfg now) (count_in adm (key, window_of cfg now, r))"
    and "(\<exists>t. r = Inr (False, t)) \<longleftrightarrow> adm key (window_of cfg now) = rl_requests cfg"
proof -
  let ?w = "window_of cfg now"
  have req: "1 \<le> rl_requests cfg" using cfg by (simp add: config_ok_def)
  consider (Fresh) "map_of (prune ?w entries) key = None" "adm key ?w = 0"
      "limiter_check entries key cfg now =
        (if int (length (prune ?w entries)) \<ge> rl_max_keys cfg
         then (prune ?w entries, Inl (RuntimeError ''API rate limiter capacity exhausted''))
         else (dict_set key (?w, 1) (prune ?w entries), Inr (True, retry_after cfg now)))"
    | (Known) count where "map_of entries key = Some (?w, count)" "cur = ?w" "count = adm key ?w" "1 \<le> count"
  proof (cases "map_of entries key")
    case None
    then have "map_of (prune ?w entries) key = None"
      by (auto simp: map_of_eq_None_iff prune_def image_iff)
    moreover have "adm key ?w = 0"
      using counts_okD(4) [OF ok None] counts_okD(5) [OF ok, of ?w key] le by (cases "cur = ?w") auto
    ultimately show thesis using None Fresh by (simp add: limiter_check_def Let_def)
  next
    case (Some wc)
    then obtain w c where wc: "map_of entries key = Some (w, c)" by (cases wc) auto
    note e = counts_okD(3) [OF ok wc]
    show thesis
    proof (cases "w = ?w")
      case True
      then show thesis by (intro Known [of c]) (use wc e in simp_all)
    next
      case False
      with e le have "cur < ?w" by auto
      then have "prune ?w entries = []" "adm key ?w = 0"
        using prune_later [OF ok] counts_okD(5) [OF ok] by auto
      with wc False Fresh show thesis by (simp add: limiter_check_def Let_def)
    qed
  qed
  then have "counts_ok cfg entries' ?w (count_in adm (key, ?w, r)) \<and>
    ((\<exists>t. r = Inr (False, t)) \<longleftrightarrow> adm key ?w = rl_requests cfg)"
  proof cases
    case Fresh
    show ?thesis
    proof (cases "int (length (prune ?w entries)) \<ge> rl_max_keys cfg")
      case True
      with step Fresh(3) have "entries' = prune ?w entries" "r = Inl (RuntimeError ''API rate limiter capacity exhausted'')"
        by simp_all
      with full_ok [OF ok le] Fresh(2) req show ?thesis by simp
    next
      case False
      with step Fresh(3) have "entries' = dict_set key (?w, 1) (prune ?w entries)" "r = Inr (True, retry_after cfg now)"
        by simp_all
      with fresh_ok [OF ok le cfg Fresh(2,1)] False Fresh(2) req show ?thesis by simp
    qed
  next
    case Known
    have key: "key \<in> fst ` set entries" using Known(1) by (metis domI dom_map_of_conv_image_fst)
    show ?thesis
    proof (cases "count \<ge> rl_requests cfg")
      case True
      with step Known have "entries' = entries" "r = Inr (False, retry_after cfg now)"
        by (simp_all add: limiter_check_def Let_def)
      moreover have "adm key ?w = rl_requests cfg" using True Known(3) counts_okD(6) [OF ok, of key ?w] by simp
      ultimately show ?thesis using ok Known(2) by (simp add: count_in_def)
    next
      case False
      with step Known have "entries' = dict_set key (?w, count + 1) entries" "r = Inr (True, retry_after cfg now)"
        by (simp_all add: limiter_check_def Let_def)
      moreover have "counts_ok cfg (dict_set key (?w, count + 1) entries) ?w
          (count_in adm (key, ?w, Inr (True, retry_after cfg now)))"
        using bump_ok [OF ok Known(1) False] Known(2) by simp
      ultimately show ?thesis using False Known(3) by simp
    qed
  qed
  then show "counts_ok cfg entries' ?w (count_in adm (key, ?w, r))"
    and "(\<exists>t. r = Inr (False, t)) \<longleftrightarrow> adm key ?w = rl_requests cfg" by blast+
qed

fun times_from :: "rate_limit_config \<Rightarrow> int \<Rightarrow> (string \<times> int) list \<Rightarrow> bool" where
  "times_from cfg cur [] = True"
| "times_from cfg cur ((key, now) # reqs) = (cur \<le> window_of cfg now \<and> times_from cfg (window_of cfg now) reqs)"

lemma limiter_run_ok:
  "counts_ok cfg entries cur adm \<Longrightarrow> config_ok cfg \<Longrightarrow> times_from cfg cur reqs \<Longrightarrow>
   adm key w + admitted (limiter_run cfg entries reqs) key w \<le> rl_requests cfg \<and>
   (\<forall>i < length reqs. \<forall>k v t. limiter_run cfg entries reqs ! i = (k, v, Inr (False, t)) \<longrightarrow>
      adm k v + admitted (take i (limiter_run cfg entries reqs)) k v = rl_requests cfg)"
proof (induction reqs arbitrary: entries cur adm)
  case Nil
  then show ?case using counts_okD(6) [OF Nil(1)] by (simp add: admitted_def)
next
  case (Cons req reqs)
  obtain k now where req: "req = (k, now)" by (cases req)
  let ?w = "window_of cfg now"
  obtain entries' r where step: "limiter_check entries k cfg now = (entries', r)"
    by (cases "limiter_check entries k cfg now")
  have le: "cur \<le> ?w" and times: "times_from cfg ?w reqs" using Cons.prems(3) req by auto
  note one = limiter_check_ok [OF Cons.prems(1) le Cons.prems(2) step]
  let ?oc = "(k, ?w, r)" and ?rest = "limiter_run cfg entries' reqs"
  have run: "limiter_run cfg entries (req # reqs) = ?oc # ?rest" using step by (simp add: req)
  note ih = Cons.IH [OF one(1) Cons.prems(2) times]
  have first: "adm key w + admitted (?oc # ?rest) key w \<le> rl_requests cfg"
    using conjunct1 [OF ih] unfolding admitted_Cons [of ?oc ?rest] count_in_def by linarith
  have "adm k' v + admitted (take i (?oc # ?rest)) k' v = rl_requests cfg"
    if i: "i < length (req # reqs)" and at: "(?oc # ?rest) ! i = (k', v, Inr (False, t))" for i k' v t
  proof (cases i)
    case 0
    with at one(2) show ?thesis by (auto simp: admitted_def)
  next
    case (Suc m)
    with i at ih have "count_in adm ?oc k' v + admitted (take m ?rest) k' v = rl_requests cfg" by simp
    then show ?thesis
      unfolding Suc take_Suc_Cons admitted_Cons [of ?oc "take m ?rest"] count_in_def by linarith
  qed
  with first run show ?case by simp
qed


definition ex_limits :: environ where
  "ex_limits = [''XBOW_API_RATE_LIMIT_REQUESTS'' \<mapsto> ''1'', ''XBOW_API_RATE_LIMIT_WINDOW_SECONDS'' \<mapsto> ''60'',
     ''XBOW_API_RATE_LIMIT_MAX_KEYS'' \<mapsto> ''100'']"

definition ex_config :: rate_limit_config where
  "ex_config = \<lparr>rl_enabled = False, rl_requests = 1, rl_window_seconds = 60, rl_max_keys = 100, rl_backend = ''memory''\<rparr>"


end
