(* ===== verification/PolicyIntegrity.thy ===== *)
theory PolicyIntegrity
  imports CampaignModel
begin

text \<open>
  \<open>backend/app/policy_integrity.py\<close>, \<open>resolve_secret\<close> of \<open>backend/app/secret_vault.py\<close> and
  \<open>policy_receipt\<close> of \<open>backend/app/main.py\<close>: the sealed decision whether an action may touch a host.
  SHA-256 and HMAC are parameters: \<open>H t\<close> and \<open>K s t\<close> are the hexadecimal digests of the UTF-8 bytes
  of \<open>t\<close> (under the key \<open>s\<close>). The lookup in the encrypted vault file is a parameter as well.
\<close>

section \<open>Secrets\<close>

definition vault_enabled :: "environ \<Rightarrow> bool result" where
  "vault_enabled env =
     (let value = py_lower (py_strip (case env ''XBOW_VAULT_ENABLED'' of None \<Rightarrow> ''false'' | Some v \<Rightarrow> v)) in
      if value \<notin> {''true'', ''false'', ''1'', ''0'', ''yes'', ''no'', ''on'', ''off''}
      then Inl (SecretVaultError ''XBOW_VAULT_ENABLED must be a boolean'')
      else Inr (value \<in> {''true'', ''1'', ''yes'', ''on''}))"

definition resolve_secret :: "environ \<Rightarrow> (string \<Rightarrow> string result) \<Rightarrow> string \<Rightarrow> string \<Rightarrow> string option result" where
  "resolve_secret env get_secret vault_name env_name =
     rbind (vault_enabled env) (\<lambda>enabled.
       let inline = env env_name in
       if \<not> enabled then Inr inline
       else (case get_secret vault_name of
           Inr s \<Rightarrow> Inr (Some s)
         | Inl (SecretVaultError m) \<Rightarrow>
             if truthy inline
             then Inl (SecretVaultError (''vault enabled but '' @ vault_name @
               '' unavailable; refusing environment fallback''))
             else Inl (SecretVaultError m)
         | Inl e \<Rightarrow> Inl e))"

section \<open>Digests\<close>

text \<open>\<open>hmac.compare_digest\<close> on two texts raises on a character beyond ASCII.\<close>

definition ascii :: "string \<Rightarrow> bool" where
  "ascii s = list_all (\<lambda>c. (of_char c :: nat) < 128) s"

definition compare_digest :: "string \<Rightarrow> string \<Rightarrow> bool result" where
  "compare_digest a b =
     (if ascii a \<and> ascii b then Inr (a = b)
      else Inl (TypeError ''comparing strings with non-ASCII characters is not supported''))"

definition str_or :: "string \<Rightarrow> pyval \<Rightarrow> string" where
  "str_or dflt v = (if pv_truthy v then py_str v else dflt)"

text \<open>What the code relies on of \<open>hashlib\<close> and \<open>hmac\<close>: a hexadecimal digest is a non-empty ASCII text.\<close>

definition hex_digests :: "('a \<Rightarrow> string) \<Rightarrow> bool" where
  "hex_digests H \<longleftrightarrow> (\<forall>t. H t \<noteq> [] \<and> ascii (H t))"

definition without_keys :: "string list \<Rightarrow> pydict \<Rightarrow> pydict" where
  "without_keys ks d = filter (\<lambda>(k, v). k \<notin> set ks) d"

section \<open>Receipts\<close>

definition integrity_fields :: "string list" where
  "integrity_fields = [''receipt_hash'', ''signature'', ''signature_alg'', ''integrity_mode'']"

definition canonical_policy_receipt :: "pydict \<Rightarrow> string" where
  "canonical_policy_receipt receipt = json_dumps True (PDict (without_keys integrity_fields receipt))"

definition seal_policy_receipt ::
  "(string \<Rightarrow> string) \<Rightarrow> (string \<Rightarrow> string \<Rightarrow> string) \<Rightarrow> string option result \<Rightarrow> pydict \<Rightarrow> pydict result" where
  "seal_policy_receipt H K secret_r receipt =
     (let canonical = canonical_policy_receipt receipt;
          s1 = dict_set ''receipt_hash'' (PStr (H canonical)) receipt in
      rbind secret_r (\<lambda>secret.
        Inr (case secret of
          Some (c # cs) \<Rightarrow>
            dict_set ''integrity_mode'' (PStr ''hmac-sha256'')
              (dict_set ''signature'' (PStr (K (c # cs) canonical))
                (dict_set ''signature_alg'' (PStr ''hmac-sha256'') s1))
        | _ \<Rightarrow>
            dict_set ''integrity_mode'' (PStr ''sha256'')
              (dict_set ''signature'' PNone (dict_set ''signature_alg'' PNone s1)))))"

record receipt_verdict =
  rv_valid :: bool
  rv_hash_valid :: bool
  rv_signature_valid :: "bool option"
  rv_mode :: string
  rv_reason :: "string option"

definition verify_policy_receipt ::
  "(string \<Rightarrow> string) \<Rightarrow> (string \<Rightarrow> string \<Rightarrow> string) \<Rightarrow> string option result \<Rightarrow> pydict \<Rightarrow> receipt_verdict result" where
  "verify_policy_receipt H K secret_r receipt =
     (let expected_hash = str_or_empty (pget receipt ''receipt_hash'');
          mode = pget receipt ''integrity_mode'';
          signature = pget receipt ''signature'' in
      if expected_hash = [] then
        Inr \<lparr>rv_valid = False, rv_hash_valid = False, rv_signature_valid = None,
             rv_mode = str_or ''unknown'' mode, rv_reason = Some ''receipt_hash missing''\<rparr>
      else (let canonical = canonical_policy_receipt receipt in
        rbind (compare_digest expected_hash (H canonical)) (\<lambda>hash_valid.
          if signature = PNone then
            Inr \<lparr>rv_valid = hash_valid, rv_hash_valid = hash_valid, rv_signature_valid = None,
                 rv_mode = str_or ''sha256'' mode,
                 rv_reason = (if hash_valid then None else Some ''receipt hash mismatch'')\<rparr>
          else if \<not> py_eq (pget receipt ''signature_alg'') (PStr ''hmac-sha256'') then
            Inr \<lparr>rv_valid = False, rv_hash_valid = hash_valid, rv_signature_valid = Some False,
                 rv_mode = str_or ''unknown'' mode, rv_reason = Some ''unsupported signature algorithm''\<rparr>
          else rbind secret_r (\<lambda>secret. case secret of
              Some (c # cs) \<Rightarrow>
                rbind (compare_digest (py_str signature) (K (c # cs) canonical)) (\<lambda>signature_valid.
                  Inr \<lparr>rv_valid = (hash_valid \<and> signature_valid), rv_hash_valid = hash_valid,
                       rv_signature_valid = Some signature_valid, rv_mode = ''hmac-sha256'',
                       rv_reason = (if hash_valid \<and> signature_valid then None
                                    else Some ''receipt integrity check failed'')\<rparr>)
            | _ \<Rightarrow>
                Inr \<lparr>rv_valid = False, rv_hash_valid = hash_valid, rv_signature_valid = None,
                     rv_mode = ''hmac-sha256'', rv_reason = Some ''verification key unavailable''\<rparr>))))"

section \<open>The decision\<close>

text \<open>\<open>blocked_actions.get(action, True)\<close>.\<close>

definition action_blocks :: "program_rules \<Rightarrow> (string \<times> bool) list" where
  "action_blocks rules =
     [(''destructive'', \<not> destructive_testing rules), (''dos'', \<not> denial_of_service rules),
      (''social_engineering'', \<not> social_engineering rules),
      (''credential_attack'', \<not> credential_attacks rules),
      (''automated_scan'', \<not> automated_scanning rules)]"

definition policy_decision :: "campaign \<Rightarrow> string \<Rightarrow> string \<Rightarrow> string \<Rightarrow> pydict result" where
  "policy_decision c host action now =
     (let rules = c_rules c in
      rbind (is_host_allowed host (allowed_targets rules) (denied_targets rules)) (\<lambda>allowed.
        let known = (map_of (action_blocks rules) action \<noteq> None);
            blocked = (case map_of (action_blocks rules) action of None \<Rightarrow> True | Some b \<Rightarrow> b) in
        Inr [(''allowed'', PBool (allowed \<and> \<not> blocked)), (''host'', PStr host), (''action'', PStr action),
             (''action_known'', PBool known), (''scope_allowed'', PBool allowed),
             (''action_blocked'', PBool blocked),
             (''authorization_reference'', PStr (authorization_reference rules)),
             (''timestamp'', PStr now)]))"

definition policy_receipt ::
  "(string \<Rightarrow> string) \<Rightarrow> (string \<Rightarrow> string \<Rightarrow> string) \<Rightarrow> string option result \<Rightarrow> campaign \<Rightarrow> string \<Rightarrow>
   string \<Rightarrow> string \<Rightarrow> pydict result" where
  "policy_receipt H K secret_r c host action now =
     rbind (policy_decision c host action now) (seal_policy_receipt H K secret_r)"

definition receipt_allows :: "pydict \<Rightarrow> bool" where
  "receipt_allows receipt = pv_truthy (pget receipt ''allowed'')"

section \<open>Sealing and verifying\<close>

lemma without_keys_dict_set [simp]:
  "k \<in> set ks \<Longrightarrow> without_keys ks (dict_set k v d) = without_keys ks d"
  by (induction d) (auto simp: without_keys_def split: if_splits)

lemma pget_dict_set [simp]: "pget (dict_set k v d) k' = (if k' = k then v else pget d k')"
  by (simp add: pget_def)

lemma canonical_integrity_field [simp]:
  "k \<in> set integrity_fields \<Longrightarrow> canonical_policy_receipt (dict_set k v r) = canonical_policy_receipt r"
  by (simp add: canonical_policy_receipt_def)

lemma integrity_field_names [simp]:
  "''receipt_hash'' \<in> set integrity_fields" "''signature'' \<in> set integrity_fields"
  "''signature_alg'' \<in> set integrity_fields" "''integrity_mode'' \<in> set integrity_fields"
  by (simp_all add: integrity_fields_def)

lemma hex_digestsD: "hex_digests H \<Longrightarrow> H t \<noteq> []" "hex_digests H \<Longrightarrow> ascii (H t)"
  by (simp_all add: hex_digests_def)

lemma seal_verify:
  assumes "hex_digests H" and "\<And>s. hex_digests (K s)" and "seal_policy_receipt H K secret_r r = Inr sealed"
  shows "\<exists>v. verify_policy_receipt H K secret_r sealed = Inr v \<and> rv_valid v \<and>
    rv_signature_valid v = (case secret_r of Inr (Some (c # cs)) \<Rightarrow> Some True | _ \<Rightarrow> None)"
  using assms(3) hex_digestsD [OF assms(1)] hex_digestsD [OF assms(2)]
  by (auto simp: seal_policy_receipt_def verify_policy_receipt_def Let_def str_or_empty_def py_str_def
      compare_digest_def split: option.splits list.splits sum.splits)

lemma verify_hash:
  assumes "verify_policy_receipt H K secret_r r = Inr v" and "rv_valid v"
  shows "H (canonical_policy_receipt r) = str_or_empty (pget r ''receipt_hash'')"
  using assms
  by (auto simp: verify_policy_receipt_def Let_def compare_digest_def split: if_splits option.splits list.splits)

text \<open>A receipt verifies right after it was sealed, with its signature checked exactly when a key
  is configured; and a receipt that verifies under the hash of a sealed one has the same canonical
  text or is a collision of SHA-256: no field of a sealed receipt can be changed under its hash.\<close>

theorem receipt_roundtrip_tamper:
  assumes "hex_digests H" and "\<And>s. hex_digests (K s)" and "seal_policy_receipt H K secret_r r = Inr sealed"
  shows "(\<exists>v. verify_policy_receipt H K secret_r sealed = Inr v \<and> rv_valid v \<and>
      rv_signature_valid v = (case secret_r of Inr (Some (c # cs)) \<Rightarrow> Some True | _ \<Rightarrow> None)) \<and>
    (\<forall>r' v'. pget r' ''receipt_hash'' = pget sealed ''receipt_hash'' \<longrightarrow>
       verify_policy_receipt H K secret_r r' = Inr v' \<longrightarrow> rv_valid v' \<longrightarrow>
       H (canonical_policy_receipt r') = H (canonical_policy_receipt r))"
proof -
  obtain v where v: "verify_policy_receipt H K secret_r sealed = Inr v" "rv_valid v"
    "rv_signature_valid v = (case secret_r of Inr (Some (c # cs)) \<Rightarrow> Some True | _ \<Rightarrow> None)"
    using seal_verify [OF assms] by blast
  have same: "canonical_policy_receipt sealed = canonical_policy_receipt r"
    using assms(3) by (auto simp: seal_policy_receipt_def Let_def split: option.splits list.splits)
  have "H (canonical_policy_receipt r') = H (canonical_policy_receipt r)"
    if "pget r' ''receipt_hash'' = pget sealed ''receipt_hash''"
      "verify_policy_receipt H K secret_r r' = Inr v'" "rv_valid v'" for r' v'
    using verify_hash [OF that(2,3)] verify_hash [OF v(1,2)] that(1) same by simp
  with v show ?thesis by blast
qed

text \<open>A stand-in for the digests in the instances.\<close>

definition ex_hash :: "string \<Rightarrow> string" where
  "ex_hash t = CHR ''h'' # map (\<lambda>c. if (of_char c :: nat) < 128 then c else CHR ''x'') t"

lemma ex_hash_hex: "hex_digests ex_hash"
  by (auto simp: hex_digests_def ex_hash_def ascii_def list_all_iff)

definition ex_hmac :: "string \<Rightarrow> string \<Rightarrow> string" where
  "ex_hmac s t = ex_hash (s @ t)"

lemma ex_hmac_hex: "hex_digests (ex_hmac s)"
  using ex_hash_hex by (simp add: ex_hmac_def hex_digests_def)

lemma receipt_roundtrip_tamper_witness:
  "\<exists>sealed v. seal_policy_receipt ex_hash ex_hmac (Inr (Some ''key'')) [(''allowed'', PBool True)] = Inr sealed \<and>
     verify_policy_receipt ex_hash ex_hmac (Inr (Some ''key'')) sealed = Inr v \<and> rv_valid v \<and>
     rv_signature_valid v = Some True"
proof -
  obtain sealed where s: "seal_policy_receipt ex_hash ex_hmac (Inr (Some ''key'')) [(''allowed'', PBool True)] = Inr sealed"
    by (simp add: seal_policy_receipt_def Let_def)
  with receipt_roundtrip_tamper [OF ex_hash_hex ex_hmac_hex s] show ?thesis by auto
qed

text \<open>A sealed policy receipt that allows an action was issued for a host inside the declared
  scope (matched by an allowed pattern and by no denied one) and for an action the rules know and
  permit; an unknown action is never allowed.\<close>

theorem receipt_allows_sound:
  assumes "policy_receipt H K secret_r c host action now = Inr receipt" and "receipt_allows receipt"
  shows "(\<exists>p \<in> set (allowed_targets (c_rules c)). pattern_matches host p) \<and>
    (\<forall>p \<in> set (denied_targets (c_rules c)). \<not> pattern_matches host p) \<and>
    (action, False) \<in> set (action_blocks (c_rules c))"
proof -
  from assms(1) obtain d where d: "policy_decision c host action now = Inr d"
    and s: "seal_policy_receipt H K secret_r d = Inr receipt" by (auto simp: policy_receipt_def)
  have "pget receipt ''allowed'' = pget d ''allowed''"
    using s by (auto simp: seal_policy_receipt_def Let_def split: option.splits list.splits)
  with d assms(2) have "is_host_allowed host (allowed_targets (c_rules c)) (denied_targets (c_rules c)) = Inr True"
    and "map_of (action_blocks (c_rules c)) action = Some False"
    by (auto simp: policy_decision_def receipt_allows_def Let_def pget_def split: option.splits)
  from is_host_allowed_Inr [OF this(1)] map_of_SomeD [OF this(2)] show ?thesis by simp
qed

definition ex_rules :: program_rules where
  "ex_rules = \<lparr>authorization_reference = ''ref'', allowed_targets = [''*.example.com''],
     denied_targets = [''admin.example.com''], max_requests_per_second = 2, destructive_testing = False,
     denial_of_service = False, social_engineering = False, credential_attacks = False,
     automated_scanning = True\<rparr>"

definition ex_campaign :: campaign where
  "ex_campaign = \<lparr>c_id = ''c1'', c_url = ''https://www.example.com'', c_rules = ex_rules, c_state = CReady,
     c_created_at = ''t'', c_updated_at = ''t'', c_findings = [], c_events = []\<rparr>"

lemma receipt_allows_sound_witness:
  "pattern_matches ''www.example.com'' ''*.example.com'' \<and>
   \<not> pattern_matches ''www.example.com'' ''admin.example.com'' \<and>
   (''automated_scan'', False) \<in> set (action_blocks ex_rules)"
proof -
  have ok: "is_host_allowed ''www.example.com'' [''*.example.com''] [''admin.example.com''] = Inr True"
    by code_simp
  then obtain r where r: "policy_receipt ex_hash ex_hmac (Inr None) ex_campaign ''www.example.com'' ''automated_scan'' ''t'' = Inr r"
    and a: "receipt_allows r"
    by (simp add: policy_receipt_def policy_decision_def seal_policy_receipt_def ex_campaign_def ex_rules_def
        action_blocks_def Let_def receipt_allows_def) (simp add: pget_def)
  from receipt_allows_sound [OF r a] show ?thesis by (simp add: ex_campaign_def ex_rules_def)
qed

end
