(* ===== verification/CampaignAudit.thy ===== *)
theory CampaignAudit
  imports PolicyIntegrity
begin

text \<open>
  \<open>backend/app/campaign_audit.py\<close>: the hash chain of a campaign's events. An event is a dict; sealing
  adds its sequence number, the hash of its predecessor, its own hash and a signature when a key is
  configured. Events from before sealing was introduced form an unsealed prefix.
\<close>

definition volatile_fields :: "string list" where
  "volatile_fields = [''event_hash'', ''event_signature'', ''event_signature_alg'']"

definition canonical_event :: "pydict \<Rightarrow> string" where
  "canonical_event event = json_dumps True (PDict (without_keys volatile_fields event))"

definition previous_hash :: "pydict list \<Rightarrow> pyval" where
  "previous_hash events = (if events = [] then PNone else pget (last events) ''event_hash'')"

definition audit_key :: "string option result \<Rightarrow> string option result" where
  "audit_key secret_r = (case secret_r of
     Inl (SecretVaultError m) \<Rightarrow> Inl (RuntimeError ''campaign audit signing configuration is invalid'')
   | r \<Rightarrow> r)"

definition seal_campaign_event ::
  "(string \<Rightarrow> string) \<Rightarrow> (string \<Rightarrow> string \<Rightarrow> string) \<Rightarrow> string option result \<Rightarrow> pydict \<Rightarrow> pydict list \<Rightarrow>
   pydict result" where
  "seal_campaign_event H K secret_r event events =
     (let s1 = dict_set ''previous_event_hash'' (previous_hash events)
            (dict_set ''event_seq'' (PInt (int (length events) + 1)) event);
          canonical = canonical_event s1;
          s2 = dict_set ''event_hash'' (PStr (H canonical)) s1 in
      rbind (audit_key secret_r) (\<lambda>secret.
        Inr (case secret of
          Some (c # cs) \<Rightarrow>
            dict_set ''event_signature'' (PStr (K (c # cs) canonical))
              (dict_set ''event_signature_alg'' (PStr ''hmac-sha256'') s2)
        | _ \<Rightarrow> dict_set ''event_signature'' PNone (dict_set ''event_signature_alg'' PNone s2))))"

definition append_campaign_event ::
  "(string \<Rightarrow> string) \<Rightarrow> (string \<Rightarrow> string \<Rightarrow> string) \<Rightarrow> string option result \<Rightarrow> pydict list \<Rightarrow> pydict \<Rightarrow>
   pydict list result" where
  "append_campaign_event H K secret_r events event =
     rbind (seal_campaign_event H K secret_r event events) (\<lambda>e. Inr (events @ [e]))"

section \<open>Verification\<close>

record audit_verdict =
  av_valid :: bool
  av_checked :: nat
  av_legacy :: nat
  av_reason :: "string option"

definition rejected :: "nat \<Rightarrow> nat \<Rightarrow> string \<Rightarrow> audit_verdict" where
  "rejected checked legacy reason =
     \<lparr>av_valid = False, av_checked = checked, av_legacy = legacy, av_reason = Some reason\<rparr>"

fun first_sealed :: "pydict list \<Rightarrow> nat" where
  "first_sealed [] = 0"
| "first_sealed (e # es) = (if pv_truthy (pget e ''event_hash'') then 0 else Suc (first_sealed es))"

fun verify_events ::
  "(string \<Rightarrow> string) \<Rightarrow> (string \<Rightarrow> string \<Rightarrow> string) \<Rightarrow> string option result \<Rightarrow> nat \<Rightarrow>
   pyval \<Rightarrow> int \<Rightarrow> nat \<Rightarrow> pydict list \<Rightarrow> audit_verdict result" where
  "verify_events H K secret_r legacy previous expected_seq checked [] =
     Inr \<lparr>av_valid = True, av_checked = checked, av_legacy = legacy, av_reason = None\<rparr>"
| "verify_events H K secret_r legacy previous expected_seq checked (item # items) =
     (if \<not> py_eq (pget item ''event_seq'') (PInt expected_seq)
      then Inr (rejected checked legacy ''campaign event sequence gap'')
      else if \<not> py_eq (pget item ''previous_event_hash'') previous
      then Inr (rejected checked legacy ''previous campaign event hash mismatch'')
      else (let canonical = canonical_event item; digest = H canonical;
                signature = pget item ''event_signature'';
                continue = verify_events H K secret_r legacy (PStr digest) (expected_seq + 1) (Suc checked) items in
        rbind (compare_digest (py_str (pget item ''event_hash'')) digest) (\<lambda>hash_ok.
          if \<not> hash_ok then Inr (rejected checked legacy ''campaign event hash mismatch'')
          else if signature = PNone then continue
          else if \<not> py_eq (pget item ''event_signature_alg'') (PStr ''hmac-sha256'')
          then Inr (rejected checked legacy ''unsupported campaign event signature algorithm'')
          else (case secret_r of
              Inr (Some (c # cs)) \<Rightarrow>
                rbind (compare_digest (py_str signature) (K (c # cs) canonical)) (\<lambda>sig_ok.
                  if \<not> sig_ok then Inr (rejected checked legacy ''campaign event signature mismatch'')
                  else continue)
            | Inl e \<Rightarrow>
                (case e of SecretVaultError m \<Rightarrow> Inr (rejected checked legacy ''verification key unavailable'')
                 | _ \<Rightarrow> Inl e)
            | _ \<Rightarrow> Inr (rejected checked legacy ''verification key unavailable'')))))"

definition verify_campaign_event_chain ::
  "(string \<Rightarrow> string) \<Rightarrow> (string \<Rightarrow> string \<Rightarrow> string) \<Rightarrow> string option result \<Rightarrow> pydict list \<Rightarrow>
   audit_verdict result" where
  "verify_campaign_event_chain H K secret_r events =
     (let n = first_sealed events;
          previous = (if n \<noteq> 0 then pget (events ! (n - 1)) ''event_hash'' else PNone) in
      verify_events H K secret_r n previous (int n + 1) 0 (drop n events))"

section \<open>What acceptance means\<close>

lemma verify_events_append:
  "verify_events H K s lg p q n xs = Inr v \<Longrightarrow> av_valid v \<Longrightarrow>
   verify_events H K s lg p q n (xs @ ys) =
     verify_events H K s lg (if xs = [] then p else PStr (H (canonical_event (last xs))))
       (q + int (length xs)) (n + length xs) ys"
proof (induction xs arbitrary: p q n)
  case (Cons x xs)
  let ?rest = "\<lambda>zs. verify_events H K s lg (PStr (H (canonical_event x))) (q + 1) (Suc n) zs"
  have rest: "verify_events H K s lg p q n (x # xs) = ?rest xs \<and>
      verify_events H K s lg p q n (x # xs @ ys) = ?rest (xs @ ys)"
    using Cons.prems
    by (auto simp: rejected_def Let_def split: if_splits sum.splits option.splits list.splits py_error.splits)
  with Cons.prems have "?rest xs = Inr v" by simp
  from Cons.IH [OF this Cons.prems(2)] rest show ?case by (simp add: algebra_simps)
qed simp

definition item_accepted ::
  "(string \<Rightarrow> string) \<Rightarrow> (string \<Rightarrow> string \<Rightarrow> string) \<Rightarrow> string option result \<Rightarrow> pyval \<Rightarrow> int \<Rightarrow> pydict \<Rightarrow> bool" where
  "item_accepted H K s previous seq item \<longleftrightarrow>
     py_eq (pget item ''event_seq'') (PInt seq) \<and> py_eq (pget item ''previous_event_hash'') previous \<and>
     py_str (pget item ''event_hash'') = H (canonical_event item) \<and>
     (pget item ''event_signature'' = PNone \<or>
      (\<exists>key. s = Inr (Some key) \<and> key \<noteq> [] \<and> py_str (pget item ''event_signature'') = K key (canonical_event item)))"

lemma verify_events_item:
  "verify_events H K s lg p q n (x # xs) = Inr v \<Longrightarrow> av_valid v \<Longrightarrow>
   item_accepted H K s p q x \<and> verify_events H K s lg (PStr (H (canonical_event x))) (q + 1) (Suc n) xs = Inr v"
  by (auto simp: rejected_def item_accepted_def compare_digest_def Let_def
      split: if_splits sum.splits option.splits list.splits py_error.splits)

lemma verify_events_nth:
  "verify_events H K s lg p q n xs = Inr v \<Longrightarrow> av_valid v \<Longrightarrow> i < length xs \<Longrightarrow>
   item_accepted H K s (if i = 0 then p else PStr (H (canonical_event (xs ! (i - 1))))) (q + int i) (xs ! i)"
proof (induction xs arbitrary: p q n i)
  case (Cons x xs)
  note c = verify_events_item [OF Cons.prems(1,2)]
  show ?case
  proof (cases i)
    case 0
    with c show ?thesis by simp
  next
    case (Suc m)
    with Cons.prems(3) Cons.IH [OF conjunct2 [OF c] Cons.prems(2), of m] show ?thesis
      by (cases m) (simp_all add: algebra_simps)
  qed
qed simp

section \<open>Histories the program writes\<close>

text \<open>A history starts with unsealed events and grows by appending; a signing key may be introduced on
  the way.\<close>

inductive audit_log ::
  "(string \<Rightarrow> string) \<Rightarrow> (string \<Rightarrow> string \<Rightarrow> string) \<Rightarrow> string option result \<Rightarrow> pydict list \<Rightarrow> nat \<Rightarrow>
   pydict list \<Rightarrow> bool" for H K s legacy where
  legacy: "(\<forall>e \<in> set legacy. \<not> pv_truthy (pget e ''event_hash'') \<and> wf_pyval (pget e ''event_hash'')) \<Longrightarrow>
    audit_log H K s legacy 0 legacy"
| append: "audit_log H K s legacy n events \<Longrightarrow> s' \<in> {s, Inr None} \<Longrightarrow>
    append_campaign_event H K s' events event = Inr events' \<Longrightarrow> audit_log H K s legacy (Suc n) events'"

lemma first_sealed_all: "(\<forall>e \<in> set es. \<not> pv_truthy (pget e ''event_hash'')) \<Longrightarrow> first_sealed es = length es"
  by (induction es) auto

lemma first_sealed_append:
  "first_sealed (xs @ ys) = (if first_sealed xs < length xs then first_sealed xs else length xs + first_sealed ys)"
  by (induction xs) auto

lemma without_volatile [simp]:
  "k \<in> set volatile_fields \<Longrightarrow> canonical_event (dict_set k v e) = canonical_event e"
  by (simp add: canonical_event_def)

lemma volatile_names [simp]:
  "''event_hash'' \<in> set volatile_fields" "''event_signature'' \<in> set volatile_fields"
  "''event_signature_alg'' \<in> set volatile_fields"
  by (simp_all add: volatile_fields_def)

lemma sealed_fields:
  assumes "seal_campaign_event H K s' event events = Inr e"
  shows "pget e ''event_seq'' = PInt (int (length events) + 1)"
    and "pget e ''previous_event_hash'' = previous_hash events"
    and "pget e ''event_hash'' = PStr (H (canonical_event e))"
    and "pget e ''event_signature'' = PNone \<or>
      (\<exists>c cs. s' = Inr (Some (c # cs)) \<and> pget e ''event_signature'' = PStr (K (c # cs) (canonical_event e)) \<and>
         pget e ''event_signature_alg'' = PStr ''hmac-sha256'')"
  using assms
  by (auto simp: seal_campaign_event_def audit_key_def Let_def split: option.splits list.splits sum.splits py_error.splits)

lemma verify_sealed:
  assumes "hex_digests H" and "\<And>k. hex_digests (K k)" and "seal_campaign_event H K s' event events = Inr e"
    and "s' \<in> {s, Inr None}" and "py_eq (previous_hash events) p" and "q = int (length events) + 1"
  shows "verify_events H K s lg p q n [e] =
    Inr \<lparr>av_valid = True, av_checked = Suc n, av_legacy = lg, av_reason = None\<rparr>"
  using sealed_fields [OF assms(3)] assms(4-6) hex_digestsD [OF assms(1)] hex_digestsD [OF assms(2)]
  by (auto simp: compare_digest_def py_str_def Let_def)

lemma audit_log_verifies:
  assumes "hex_digests H" and "\<And>k. hex_digests (K k)" and "audit_log H K s legacy n events"
  shows "verify_campaign_event_chain H K s events =
      Inr \<lparr>av_valid = True, av_checked = n, av_legacy = length legacy, av_reason = None\<rparr> \<and>
    first_sealed events = length legacy \<and> length events = length legacy + n \<and>
    (n > 0 \<longrightarrow> pget (last events) ''event_hash'' = PStr (H (canonical_event (last events)))) \<and>
    (n = 0 \<longrightarrow> events = legacy \<and> (\<forall>e \<in> set legacy. wf_pyval (pget e ''event_hash'')))"
  using assms(3)
proof (induction rule: audit_log.induct)
  case legacy
  then show ?case by (simp add: verify_campaign_event_chain_def first_sealed_all)
next
  case (append n events s' event events')
  then obtain e where e: "seal_campaign_event H K s' event events = Inr e" and ev': "events' = events @ [e]"
    by (auto simp: append_campaign_event_def)
  let ?l = "length legacy"
  have fs: "first_sealed events = ?l" and len: "length events = ?l + n"
    and acc: "verify_campaign_event_chain H K s events =
      Inr \<lparr>av_valid = True, av_checked = n, av_legacy = ?l, av_reason = None\<rparr>"
    using append.IH by auto
  have truthy: "pv_truthy (pget e ''event_hash'')"
    using sealed_fields(3) [OF e] hex_digestsD(1) [OF assms(1)] by simp
  have fs': "first_sealed events' = ?l"
    using fs len truthy by (auto simp: ev' first_sealed_append)
  let ?p = "if ?l \<noteq> 0 then pget (events ! (?l - 1)) ''event_hash'' else PNone"
  let ?xs = "drop ?l events"
  have v: "verify_events H K s ?l ?p (int ?l + 1) 0 ?xs =
      Inr \<lparr>av_valid = True, av_checked = n, av_legacy = ?l, av_reason = None\<rparr>"
    using acc by (simp add: verify_campaign_event_chain_def fs Let_def)
  have link: "py_eq (previous_hash events) (if ?xs = [] then ?p else PStr (H (canonical_event (last ?xs))))"
  proof (cases "n = 0")
    case True
    with append.IH len have "events = legacy" "\<forall>e \<in> set legacy. wf_pyval (pget e ''event_hash'')" by auto
    then show ?thesis
      using last_in_set [of legacy] by (auto simp: previous_hash_def last_conv_nth intro: py_eq_refl)
  next
    case False
    with len have "?xs \<noteq> []" "events \<noteq> []" "last ?xs = last events" by (auto simp: last_drop)
    with False append.IH show ?thesis by (simp add: previous_hash_def)
  qed
  have "verify_campaign_event_chain H K s events' = verify_events H K s ?l ?p (int ?l + 1) 0 (?xs @ [e])"
    unfolding verify_campaign_event_chain_def Let_def fs'
    using len by (cases legacy) (simp_all add: ev' nth_append del: verify_events.simps)
  also have "\<dots> = verify_events H K s ?l (if ?xs = [] then ?p else PStr (H (canonical_event (last ?xs))))
      (int ?l + 1 + int (length ?xs)) (0 + length ?xs) [e]"
    by (rule verify_events_append [OF v]) simp
  also have "\<dots> = Inr \<lparr>av_valid = True, av_checked = Suc n, av_legacy = ?l, av_reason = None\<rparr>"
    using verify_sealed [of H K, OF assms(1) assms(2) e append.hyps(2) link, of "int ?l + 1 + int (length ?xs)"
        ?l "length ?xs"] len by simp
  finally have "verify_campaign_event_chain H K s events' =
      Inr \<lparr>av_valid = True, av_checked = Suc n, av_legacy = ?l, av_reason = None\<rparr>" .
  moreover have "length events' = ?l + Suc n" "last events' = e" using len by (simp_all add: ev')
  ultimately show ?case using fs' sealed_fields(3) [OF e] by simp
qed



end
