(* ===== verification/ReportApproval.thy ===== *)
theory ReportApproval
  imports CampaignAudit
begin

text \<open>
  \<open>backend/app/report_approval.py\<close> and \<open>backend/app/submission_state.py\<close>: a person approves the exact
  bytes of a report artifact and the state of the campaign it rests on; only a currently approved
  report may be recorded as submitted. The state of a report is a function of the campaign's events.
  \<open>H\<close> is SHA-256 as in \<open>PolicyIntegrity\<close>; \<open>dump\<close> stands for pydantic's \<open>model_dump(mode="json")\<close> of
  a finding.
\<close>

record artifact =
  art_id :: string
  art_sha :: string
  art_kind :: string

section \<open>The basis of an approval\<close>

text \<open>\<open>ensure_ascii\<close>: a character beyond \<open>~\<close> occurs only inside a JSON string and is escaped there.\<close>

definition json_escape_ascii :: "string \<Rightarrow> string" where
  "json_escape_ascii t = concat (map (\<lambda>c. let n = (of_char c :: nat) in
     if n \<ge> 127 then [CHR 0x5C, CHR ''u'', CHR ''0'', CHR ''0'', hex_digit (n div 16), hex_digit (n mod 16)]
     else [c]) t)"

definition report_basis :: "(finding \<Rightarrow> pydict) \<Rightarrow> campaign \<Rightarrow> artifact \<Rightarrow> pyval" where
  "report_basis dump c a =
     (let confirmed = sort_key (\<lambda>d. case map_of d ''id'' of None \<Rightarrow> [] | Some v \<Rightarrow> py_str v)
            (map dump (filter (\<lambda>f. f_status f = Confirmed) (c_findings c)));
          strs = (\<lambda>xs. PList (map PStr (sort xs))) in
      PDict [(''artifact'', PDict [(''id'', PStr (art_id a)), (''sha256'', PStr (art_sha a)), (''kind'', PStr (art_kind a))]),
             (''target'', PStr (c_url c)),
             (''authorization_reference'', PStr (authorization_reference (c_rules c))),
             (''allowed_targets'', strs (allowed_targets (c_rules c))),
             (''denied_targets'', strs (denied_targets (c_rules c))),
             (''confirmed_findings'', PList (map PDict confirmed))])"

definition report_basis_digest :: "(string \<Rightarrow> string) \<Rightarrow> (finding \<Rightarrow> pydict) \<Rightarrow> campaign \<Rightarrow> artifact \<Rightarrow> string" where
  "report_basis_digest H dump c a = H (json_escape_ascii (json_dumps True (report_basis dump c a)))"

section \<open>Approval\<close>

definition approval_event ::
  "(string \<Rightarrow> string) \<Rightarrow> (finding \<Rightarrow> pydict) \<Rightarrow> campaign \<Rightarrow> artifact \<Rightarrow> string \<Rightarrow> string \<Rightarrow> pydict result" where
  "approval_event H dump c a reviewer ts =
     (let reviewer = py_strip reviewer in
      if reviewer = [] then Inl (ValueError ''reviewer is required'')
      else if art_kind a \<noteq> ''report'' then Inl (ValueError ''only report artifacts can be approved'')
      else Inr [(''type'', PStr ''report_approved''), (''artifact_id'', PStr (art_id a)),
                (''artifact_sha256'', PStr (art_sha a)),
                (''basis_digest'', PStr (report_basis_digest H dump c a)),
                (''reviewer'', PStr reviewer), (''at'', PStr ts)])"

definition revocation_event :: "string \<Rightarrow> string \<Rightarrow> string \<Rightarrow> pydict result" where
  "revocation_event artifact_id reviewer ts =
     (let reviewer = py_strip reviewer in
      if reviewer = [] then Inl (ValueError ''reviewer is required'')
      else Inr [(''type'', PStr ''report_approval_revoked''), (''artifact_id'', PStr artifact_id),
                (''reviewer'', PStr reviewer), (''at'', PStr ts)])"

definition event_is :: "string \<Rightarrow> pydict \<Rightarrow> bool" where
  "event_is t e = py_eq (pget e ''type'') (PStr t)"

definition about_artifact :: "string \<Rightarrow> pydict \<Rightarrow> bool" where
  "about_artifact i e = py_eq (pget e ''artifact_id'') (PStr i)"

definition approval_relevant :: "string \<Rightarrow> pydict \<Rightarrow> bool" where
  "approval_relevant i e =
     (about_artifact i e \<and> (event_is ''report_approved'' e \<or> event_is ''report_approval_revoked'' e))"

record approval_status =
  as_artifact_id :: string
  as_sha :: string
  as_approved :: bool
  as_stale :: bool
  as_reviewer :: pyval
  as_approved_at :: pyval
  as_digest :: string

definition approval_status_of ::
  "(string \<Rightarrow> string) \<Rightarrow> (finding \<Rightarrow> pydict) \<Rightarrow> campaign \<Rightarrow> artifact \<Rightarrow> approval_status" where
  "approval_status_of H dump c a =
     (let digest = report_basis_digest H dump c a;
          relevant = filter (approval_relevant (art_id a)) (c_events c);
          status = \<lparr>as_artifact_id = art_id a, as_sha = art_sha a, as_approved = False, as_stale = False,
            as_reviewer = PNone, as_approved_at = PNone, as_digest = digest\<rparr> in
      if relevant = [] then status
      else (let latest = last relevant in
        if event_is ''report_approval_revoked'' latest
        then status\<lparr>as_reviewer := pget latest ''reviewer''\<rparr>
        else (let stale = (\<not> py_eq (pget latest ''artifact_sha256'') (PStr (art_sha a)) \<or>
                          \<not> py_eq (pget latest ''basis_digest'') (PStr digest)) in
          status\<lparr>as_approved := \<not> stale, as_stale := stale, as_reviewer := pget latest ''reviewer'',
            as_approved_at := pget latest ''at''\<rparr>)))"

text \<open>\<open>approval_event_from_storage\<close> and \<open>approval_status_from_storage\<close>: the artifact is what the store
  returned after it had verified the bytes, an argument here.\<close>

definition approval_event_from_storage ::
  "(string \<Rightarrow> string) \<Rightarrow> (finding \<Rightarrow> pydict) \<Rightarrow> campaign \<Rightarrow> artifact result \<Rightarrow> string \<Rightarrow> string \<Rightarrow> pydict result" where
  "approval_event_from_storage H dump c stored reviewer ts =
     rbind stored (\<lambda>a. approval_event H dump c a reviewer ts)"

definition approval_status_from_storage ::
  "(string \<Rightarrow> string) \<Rightarrow> (finding \<Rightarrow> pydict) \<Rightarrow> campaign \<Rightarrow> artifact result \<Rightarrow> approval_status result" where
  "approval_status_from_storage H dump c stored =
     rbind stored (\<lambda>a. if art_kind a \<noteq> ''report'' then Inl (ValueError ''only report artifacts have approval status'')
       else Inr (approval_status_of H dump c a))"

section \<open>Submission\<close>

datatype submission_state = SDraft | SReviewRequired | SApproved | SSubmitted

record submission_status =
  ss_artifact_id :: string
  ss_state :: submission_state
  ss_approved :: bool
  ss_stale :: bool
  ss_reviewer :: pyval
  ss_submitted_at :: pyval
  ss_submitted_by :: pyval
  ss_platform :: pyval

definition submission_event :: "string \<Rightarrow> string \<Rightarrow> string \<Rightarrow> string \<Rightarrow> pydict result" where
  "submission_event artifact_id actor platform ts =
     (let i = py_strip artifact_id; a = py_strip actor; p = py_strip platform; t = py_strip ts in
      if i = [] then Inl (ValueError ''submission artifact id is required'')
      else if a = [] then Inl (ValueError ''submission actor is required'')
      else if p = [] then Inl (ValueError ''submission platform is required'')
      else if t = [] then Inl (ValueError ''submission timestamp is required'')
      else Inr [(''type'', PStr ''report_submitted''), (''artifact_id'', PStr i), (''actor'', PStr a),
                (''platform'', PStr p), (''at'', PStr t)])"

definition indexed_events :: "(pydict \<Rightarrow> bool) \<Rightarrow> pydict list \<Rightarrow> (nat \<times> pydict) list" where
  "indexed_events P es = filter (\<lambda>(i, e). P e) (zip [0..<length es] es)"

definition is_submission :: "string \<Rightarrow> pydict \<Rightarrow> bool" where
  "is_submission i e = (event_is ''report_submitted'' e \<and> about_artifact i e)"

definition submission_status_of ::
  "(string \<Rightarrow> string) \<Rightarrow> (finding \<Rightarrow> pydict) \<Rightarrow> campaign \<Rightarrow> artifact \<Rightarrow> submission_status result" where
  "submission_status_of H dump c a =
     (if art_kind a \<noteq> ''report'' then Inl (ValueError ''only report artifacts have submission state'')
      else (let approval = approval_status_of H dump c a;
                approvals = indexed_events (approval_relevant (art_id a)) (c_events c);
                revoked = (approvals \<noteq> [] \<and> event_is ''report_approval_revoked'' (snd (last approvals)));
                submissions = indexed_events (is_submission (art_id a)) (c_events c);
                status = \<lparr>ss_artifact_id = art_id a, ss_state = SApproved, ss_approved = True, ss_stale = False,
                  ss_reviewer = as_reviewer approval, ss_submitted_at = PNone, ss_submitted_by = PNone,
                  ss_platform = PNone\<rparr> in
        Inr (if \<not> as_approved approval then
               status\<lparr>ss_state := (if submissions \<noteq> [] \<or> as_stale approval \<or> revoked
                                   then SReviewRequired else SDraft),
                 ss_approved := False, ss_stale := as_stale approval\<rparr>
             else (let latest_approval = (if approvals \<noteq> [] then int (fst (last approvals)) else -1);
                       current = filter (\<lambda>(i, e). int i > latest_approval) submissions in
               if current \<noteq> [] then
                 (let latest = snd (last current) in
                  status\<lparr>ss_state := SSubmitted, ss_submitted_at := pget latest ''at'',
                    ss_submitted_by := pget latest ''actor'', ss_platform := pget latest ''platform''\<rparr>)
               else status))))"

definition assert_submission_allowed ::
  "(string \<Rightarrow> string) \<Rightarrow> (finding \<Rightarrow> pydict) \<Rightarrow> campaign \<Rightarrow> artifact \<Rightarrow> submission_status result" where
  "assert_submission_allowed H dump c a =
     rbind (submission_status_of H dump c a) (\<lambda>status.
       if ss_state status \<noteq> SApproved
       then Inl (ValueError ''report submission requires current human approval'') else Inr status)"

section \<open>Events after the last decision\<close>

lemma digest_events [simp]: "report_basis_digest H dump (c\<lparr>c_events := es\<rparr>) a = report_basis_digest H dump c a"
  by (simp add: report_basis_digest_def report_basis_def Let_def)

lemma filter_last_split:
  "filter P xs \<noteq> [] \<Longrightarrow> \<exists>pre post. xs = pre @ last (filter P xs) # post \<and> P (last (filter P xs)) \<and>
     (\<forall>y \<in> set post. \<not> P y)"
proof (induction xs rule: rev_induct)
  case (snoc x xs)
  show ?case
  proof (cases "P x")
    case True
    then show ?thesis by (intro exI [of _ xs] exI [of _ "[]"]) simp
  next
    case False
    with snoc obtain pre post where "xs = pre @ last (filter P xs) # post" "P (last (filter P xs))"
      "\<forall>y \<in> set post. \<not> P y" by auto
    with False show ?thesis by (intro exI [of _ pre] exI [of _ "post @ [x]"]) auto
  qed
qed simp

lemma filter_last_unique:
  "P e \<Longrightarrow> \<forall>y \<in> set post. \<not> P y \<Longrightarrow> filter P (pre @ e # post) \<noteq> [] \<and> last (filter P (pre @ e # post)) = e"
proof -
  assume "P e" "\<forall>y \<in> set post. \<not> P y"
  then have "filter P post = []" by (simp add: filter_empty_conv)
  with \<open>P e\<close> show ?thesis by simp
qed

lemma snd_indexed_events: "map snd (indexed_events P es) = filter P es"
proof -
  have "map snd (filter (\<lambda>(i, e). P e) (zip is es)) = filter P es" if "length is = length es" for "is" :: "nat list"
    using that by (induction "is" es rule: list_induct2) auto
  then show ?thesis by (simp add: indexed_events_def)
qed

lemma indexed_events_last:
  assumes "P e" and "\<forall>y \<in> set post. \<not> P y"
  shows "indexed_events P (pre @ e # post) \<noteq> []" and "last (indexed_events P (pre @ e # post)) = (length pre, e)"
proof -
  let ?es = "pre @ e # post"
  have z: "zip [0..<length ?es] ?es =
      zip [0..<length pre] pre @ (length pre, e) # zip [Suc (length pre)..<length ?es] post"
  proof -
    have "[0..<length ?es] = [0..<length pre] @ [length pre..<length ?es]"
      using upt_add_eq_append [of 0 "length pre" "Suc (length post)"] by simp
    moreover have "[length pre..<length ?es] = length pre # [Suc (length pre)..<length ?es]"
      by (rule upt_conv_Cons) simp
    ultimately show ?thesis by simp
  qed
  have "filter (\<lambda>(i, e). P e) (zip [Suc (length pre)..<length ?es] post) = []"
    using assms(2) by (auto simp: filter_empty_conv dest!: set_zip_rightD)
  then show "indexed_events P ?es \<noteq> []" "last (indexed_events P ?es) = (length pre, e)"
    using assms(1) unfolding indexed_events_def z filter_append by simp_all
qed

lemma indexed_events_mem: "(i, e) \<in> set (indexed_events P es) \<longleftrightarrow> i < length es \<and> es ! i = e \<and> P e"
proof -
  have "(i, e) \<in> set (zip [0..<length es] es) \<longleftrightarrow> i < length es \<and> es ! i = e"
    unfolding in_set_zip by (metis diff_zero fst_conv length_upt nth_upt plus_nat.add_0 snd_conv)
  then show ?thesis by (auto simp: indexed_events_def)
qed

text \<open>The report stands approved: the last decision about the artifact is an approval of exactly these
  bytes and this basis, and what follows it is \<open>post\<close>.\<close>

definition approved_by_last ::
  "(string \<Rightarrow> string) \<Rightarrow> (finding \<Rightarrow> pydict) \<Rightarrow> campaign \<Rightarrow> artifact \<Rightarrow> pydict list \<Rightarrow> pydict \<Rightarrow> pydict list \<Rightarrow> bool" where
  "approved_by_last H dump c a pre ev post \<longleftrightarrow> c_events c = pre @ ev # post \<and>
     about_artifact (art_id a) ev \<and> event_is ''report_approved'' ev \<and>
     py_eq (pget ev ''artifact_sha256'') (PStr (art_sha a)) \<and>
     py_eq (pget ev ''basis_digest'') (PStr (report_basis_digest H dump c a)) \<and>
     (\<forall>e \<in> set post. \<not> approval_relevant (art_id a) e)"

lemma event_is_unique: "event_is t e \<Longrightarrow> event_is t' e \<longleftrightarrow> t' = t"
  by (auto simp: event_is_def py_eq_PStr)

lemma approved_status:
  assumes "approved_by_last H dump c a pre ev post"
  shows "as_approved (approval_status_of H dump c a)" and "as_reviewer (approval_status_of H dump c a) = pget ev ''reviewer''"
proof -
  have p: "approval_relevant (art_id a) ev" and post: "\<forall>e \<in> set post. \<not> approval_relevant (art_id a) e"
    and e: "event_is ''report_approved'' ev"
    using assms by (auto simp: approved_by_last_def approval_relevant_def)
  have "\<not> event_is ''report_approval_revoked'' ev" using event_is_unique [OF e] by simp
  with filter_last_unique [OF p post, of pre] assms
  show "as_approved (approval_status_of H dump c a)"
    "as_reviewer (approval_status_of H dump c a) = pget ev ''reviewer''"
    by (simp_all add: approved_by_last_def approval_status_of_def Let_def del: filter_append)
qed

lemma approved_status_conv:
  assumes "as_approved (approval_status_of H dump c a)"
  obtains pre ev post where "approved_by_last H dump c a pre ev post"
proof -
  let ?f = "filter (approval_relevant (art_id a)) (c_events c)"
  have ne: "?f \<noteq> []" using assms by (auto simp: approval_status_of_def Let_def)
  from filter_last_split [OF ne] obtain pre post where s: "c_events c = pre @ last ?f # post"
    "approval_relevant (art_id a) (last ?f)" "\<forall>y \<in> set post. \<not> approval_relevant (art_id a) y" by blast
  moreover have "\<not> event_is ''report_approval_revoked'' (last ?f)"
    "py_eq (pget (last ?f) ''artifact_sha256'') (PStr (art_sha a))"
    "py_eq (pget (last ?f) ''basis_digest'') (PStr (report_basis_digest H dump c a))"
    using assms ne by (auto simp: approval_status_of_def Let_def split: if_splits)
  ultimately have "approved_by_last H dump c a pre (last ?f) post"
    by (auto simp: approved_by_last_def approval_relevant_def)
  with that show thesis .
qed

text \<open>The submissions counted for the current approval are those after it.\<close>

lemma current_submissions:
  assumes "approved_by_last H dump c a pre ev post"
  shows "indexed_events (approval_relevant (art_id a)) (c_events c) \<noteq> []"
    and "fst (last (indexed_events (approval_relevant (art_id a)) (c_events c))) = length pre"
    and "filter (\<lambda>(i, e). int i > int (length pre)) (indexed_events (is_submission (art_id a)) (c_events c)) = [] \<longleftrightarrow>
      (\<forall>e \<in> set post. \<not> is_submission (art_id a) e)"
proof -
  have p: "approval_relevant (art_id a) ev" and post: "\<forall>e \<in> set post. \<not> approval_relevant (art_id a) e"
    and ev: "c_events c = pre @ ev # post"
    using assms by (auto simp: approved_by_last_def approval_relevant_def)
  show "indexed_events (approval_relevant (art_id a)) (c_events c) \<noteq> []"
    "fst (last (indexed_events (approval_relevant (art_id a)) (c_events c))) = length pre"
    using indexed_events_last [OF p post, of pre] by (simp_all add: ev)
  have "(\<exists>i e. int i > int (length pre) \<and> (i, e) \<in> set (indexed_events (is_submission (art_id a)) (c_events c))) \<longleftrightarrow>
      (\<exists>e \<in> set post. is_submission (art_id a) e)"
  proof
    assume "\<exists>i e. int i > int (length pre) \<and> (i, e) \<in> set (indexed_events (is_submission (art_id a)) (c_events c))"
    then obtain i where i: "length pre < i" "i < length (c_events c)" "is_submission (art_id a) (c_events c ! i)"
      by (auto simp: indexed_events_mem)
    then have "c_events c ! i = post ! (i - length pre - 1)" "i - length pre - 1 < length post"
      by (auto simp: ev nth_append nth_Cons')
    with i(3) show "\<exists>e \<in> set post. is_submission (art_id a) e" by auto
  next
    assume "\<exists>e \<in> set post. is_submission (art_id a) e"
    then obtain k where k: "k < length post" "is_submission (art_id a) (post ! k)" by (auto simp: in_set_conv_nth)
    then have "(length pre + 1 + k, post ! k) \<in> set (indexed_events (is_submission (art_id a)) (c_events c))"
      by (auto simp: indexed_events_mem ev nth_append)
    then show "\<exists>i e. int i > int (length pre) \<and> (i, e) \<in> set (indexed_events (is_submission (art_id a)) (c_events c))"
      by (intro exI [of _ "length pre + 1 + k"] exI [of _ "post ! k"]) simp
  qed
  then show "filter (\<lambda>(i, e). int i > int (length pre)) (indexed_events (is_submission (art_id a)) (c_events c)) = [] \<longleftrightarrow>
      (\<forall>e \<in> set post. \<not> is_submission (art_id a) e)"
    unfolding filter_empty_conv by fast
qed

text \<open>C24: The submission gate. Recording a submission is allowed exactly when the artifact is a report
  whose last approval decision approved these very bytes and the campaign state they rest on, and
  nothing has been submitted under that approval yet.\<close>

theorem submission_gate:
  "(\<exists>status. assert_submission_allowed H dump c a = Inr status) \<longleftrightarrow>
     art_kind a = ''report'' \<and>
     (\<exists>pre ev post. approved_by_last H dump c a pre ev post \<and> (\<forall>e \<in> set post. \<not> is_submission (art_id a) e))"
    (is "?allowed \<longleftrightarrow> ?cond")
proof
  assume ?allowed
  then have kind: "art_kind a = ''report''" and ap: "as_approved (approval_status_of H dump c a)"
    by (auto simp: assert_submission_allowed_def submission_status_of_def Let_def split: if_splits)
  from approved_status_conv [OF ap] obtain pre ev post where abl: "approved_by_last H dump c a pre ev post" .
  note cs = current_submissions [OF abl]
  have "\<forall>e \<in> set post. \<not> is_submission (art_id a) e"
    unfolding cs(3) [symmetric] using \<open>?allowed\<close> kind ap cs(1,2)
    by (auto simp: assert_submission_allowed_def submission_status_of_def Let_def split: if_splits)
  with kind abl show ?cond by blast
next
  assume ?cond
  then obtain pre ev post where kind: "art_kind a = ''report''" and abl: "approved_by_last H dump c a pre ev post"
    and none: "\<forall>e \<in> set post. \<not> is_submission (art_id a) e" by blast
  note cs = current_submissions [OF abl]
  show ?allowed
    using kind approved_status(1) [OF abl] cs(1,2) none [folded cs(3)]
    by (simp add: assert_submission_allowed_def submission_status_of_def Let_def)
qed

lemma approval_event_Inr:
  assumes "approval_event H dump c a reviewer ts = Inr ev"
  shows "art_kind a = ''report''" and "about_artifact (art_id a) ev" and "event_is ''report_approved'' ev"
    and "pget ev ''artifact_sha256'' = PStr (art_sha a)"
    and "pget ev ''basis_digest'' = PStr (report_basis_digest H dump c a)"
  using assms
  by (auto simp: approval_event_def about_artifact_def event_is_def pget_def Let_def split: if_splits)

lemma not_approved_refused:
  "\<not> as_approved (approval_status_of H dump c a) \<Longrightarrow> assert_submission_allowed H dump c a \<noteq> Inr st"
  by (auto simp: assert_submission_allowed_def submission_status_of_def Let_def split: if_splits)

text \<open>The cycle of an approval. An approval opens the gate. It closes again when a submission is
  recorded, when the approval is revoked, and when the artifact's bytes or the campaign state the
  approval rests on have changed since.\<close>

theorem approval_cycle:
  assumes "approval_event H dump c a reviewer ts = Inr ev"
  shows "(\<exists>st. assert_submission_allowed H dump (c\<lparr>c_events := c_events c @ [ev]\<rparr>) a = Inr st) \<and>
    (\<forall>se st. is_submission (art_id a) se \<longrightarrow>
       assert_submission_allowed H dump (c\<lparr>c_events := c_events c @ [ev, se]\<rparr>) a \<noteq> Inr st) \<and>
    (\<forall>who ts' rv st. revocation_event (art_id a) who ts' = Inr rv \<longrightarrow>
       assert_submission_allowed H dump (c\<lparr>c_events := c_events c @ [ev, rv]\<rparr>) a \<noteq> Inr st) \<and>
    (\<forall>c' a' st. c_events c' = c_events c @ [ev] \<longrightarrow> art_id a' = art_id a \<longrightarrow>
       art_sha a' \<noteq> art_sha a \<or> report_basis_digest H dump c' a' \<noteq> report_basis_digest H dump c a \<longrightarrow>
       assert_submission_allowed H dump c' a' \<noteq> Inr st)"
proof (intro conjI allI impI)
  note ev = approval_event_Inr [OF assms]
  have rel: "approval_relevant (art_id a) ev" using ev by (simp add: approval_relevant_def)
  have "approved_by_last H dump (c\<lparr>c_events := c_events c @ [ev]\<rparr>) a (c_events c) ev []"
    using ev by (simp add: approved_by_last_def py_eq_PStr)
  with ev(1) show "\<exists>st. assert_submission_allowed H dump (c\<lparr>c_events := c_events c @ [ev]\<rparr>) a = Inr st"
    unfolding submission_gate by fastforce
  fix se st assume sub: "is_submission (art_id a) se"
  let ?c = "c\<lparr>c_events := c_events c @ [ev, se]\<rparr>"
  have nrel: "\<not> approval_relevant (art_id a) se"
    using sub event_is_unique [of "''report_submitted''" se] by (auto simp: is_submission_def approval_relevant_def)
  then have abl: "approved_by_last H dump ?c a (c_events c) ev [se]"
    using ev by (simp add: approved_by_last_def py_eq_PStr)
  show "assert_submission_allowed H dump ?c a \<noteq> Inr st"
  proof
    assume "assert_submission_allowed H dump ?c a = Inr st"
    then obtain pre ev' post where abl': "approved_by_last H dump ?c a pre ev' post"
      and none: "\<forall>e \<in> set post. \<not> is_submission (art_id a) e" using submission_gate by blast
    have "length pre = length (c_events c)"
      using current_submissions(2) [OF abl] current_submissions(2) [OF abl'] by simp
    moreover have "pre @ ev' # post = c_events c @ ev # [se]" using abl' by (simp add: approved_by_last_def)
    ultimately have "post = [se]" by simp
    with none sub show False by simp
  qed
next
  note ev = approval_event_Inr [OF assms]
  fix who ts' rv st assume "revocation_event (art_id a) who ts' = Inr rv"
  then have rv: "about_artifact (art_id a) rv" "event_is ''report_approval_revoked'' rv"
    by (auto simp: revocation_event_def about_artifact_def event_is_def pget_def Let_def split: if_splits)
  then have "approval_relevant (art_id a) rv" by (simp add: approval_relevant_def)
  then have "\<not> as_approved (approval_status_of H dump (c\<lparr>c_events := c_events c @ [ev, rv]\<rparr>) a)"
    using rv by (simp add: approval_status_of_def Let_def)
  then show "assert_submission_allowed H dump (c\<lparr>c_events := c_events c @ [ev, rv]\<rparr>) a \<noteq> Inr st"
    by (rule not_approved_refused)
next
  note ev = approval_event_Inr [OF assms]
  fix c' a' st assume c': "c_events c' = c_events c @ [ev]" and a': "art_id a' = art_id a"
    and d: "art_sha a' \<noteq> art_sha a \<or> report_basis_digest H dump c' a' \<noteq> report_basis_digest H dump c a"
  have "approval_relevant (art_id a) ev" using ev by (simp add: approval_relevant_def)
  then have f: "filter (approval_relevant (art_id a')) (c_events c') =
      filter (approval_relevant (art_id a)) (c_events c) @ [ev]" using c' a' by simp
  have "\<not> event_is ''report_approval_revoked'' ev" using event_is_unique [OF ev(3)] by simp
  then have "\<not> as_approved (approval_status_of H dump c' a')"
    unfolding approval_status_of_def Let_def f using d ev(4,5) by (auto simp: py_eq_PStr)
  then show "assert_submission_allowed H dump c' a' \<noteq> Inr st" by (rule not_approved_refused)
qed

definition ex_dump :: "finding \<Rightarrow> pydict" where
  "ex_dump f = [(''id'', PStr (f_id f))]"

definition ex_artifact :: artifact where
  "ex_artifact = \<lparr>art_id = ''a1'', art_sha = ''00'', art_kind = ''report''\<rparr>"

lemma approval_cycle_witness:
  "\<exists>ev st. approval_event ex_hash ex_dump ex_campaign ex_artifact ''alice'' ''t'' = Inr ev \<and>
     assert_submission_allowed ex_hash ex_dump (ex_campaign\<lparr>c_events := [ev]\<rparr>) ex_artifact = Inr st"
proof -
  have "py_strip ''alice'' \<noteq> []" by code_simp
  then obtain ev where ev: "approval_event ex_hash ex_dump ex_campaign ex_artifact ''alice'' ''t'' = Inr ev"
    by (simp add: approval_event_def ex_artifact_def Let_def)
  from approval_cycle [OF this] ev show ?thesis by (auto simp: ex_campaign_def)
qed

lemma submission_gate_witness:
  "\<exists>ev st pre e post. approval_event ex_hash ex_dump ex_campaign ex_artifact ''alice'' ''t'' = Inr ev \<and>
     assert_submission_allowed ex_hash ex_dump (ex_campaign\<lparr>c_events := [ev]\<rparr>) ex_artifact = Inr st \<and>
     approved_by_last ex_hash ex_dump (ex_campaign\<lparr>c_events := [ev]\<rparr>) ex_artifact pre e post"
proof -
  have "py_strip ''alice'' \<noteq> []" by code_simp
  then obtain ev where ev: "approval_event ex_hash ex_dump ex_campaign ex_artifact ''alice'' ''t'' = Inr ev"
    by (simp add: approval_event_def ex_artifact_def Let_def)
  note e = approval_event_Inr [OF ev]
  let ?c = "ex_campaign\<lparr>c_events := [ev]\<rparr>"
  have "report_basis_digest ex_hash ex_dump ?c ex_artifact = report_basis_digest ex_hash ex_dump ex_campaign ex_artifact"
    by (simp add: report_basis_digest_def report_basis_def)
  then have "approved_by_last ex_hash ex_dump ?c ex_artifact [] ev []"
    using e by (simp add: approved_by_last_def)
  then have "\<exists>pre e post. approved_by_last ex_hash ex_dump ?c ex_artifact pre e post \<and>
      (\<forall>x \<in> set post. \<not> is_submission (art_id ex_artifact) x)"
    by (intro exI [of _ "[]"] exI [of _ ev]) simp
  moreover have "art_kind ex_artifact = ''report''" by (simp add: ex_artifact_def)
  ultimately have "\<exists>st. assert_submission_allowed ex_hash ex_dump ?c ex_artifact = Inr st"
    unfolding submission_gate by blast
  with ev \<open>approved_by_last ex_hash ex_dump ?c ex_artifact [] ev []\<close> show ?thesis by blast
qed

end
