(* ===== verification/Incidents.thy ===== *)
theory Incidents
  imports Prelude
begin

text \<open>
  \<open>backend/app/incident_lifecycle.py\<close> and \<open>backend/app/domain_incident_lifecycle.py\<close>: the history of
  operational incidents, overall and per domain. An item of the history is a record (the overall
  history has no domain; its items carry the empty text). Instants are microseconds. The statistics
  over a history are not modelled.
\<close>

datatype incident_status = Opened | Acknowledged | Resolved

record incident =
  in_domain :: string
  in_fingerprint :: string
  in_dedupe :: string
  in_severity :: string
  in_status :: incident_status
  in_opened :: int
  in_last_seen :: int
  in_acknowledged :: "int option"
  in_resolved :: "int option"

text \<open>What a snapshot says of an incident that is going on.\<close>

record incident_report =
  ir_fingerprint :: string
  ir_dedupe :: string
  ir_severity :: string

definition max_history :: nat where
  "max_history = 1000"

definition incident_domains :: "string list" where
  "incident_domains = [''workload'', ''control_plane'', ''observability'']"

section \<open>Changing the latest item with a property\<close>

fun update_first :: "('a \<Rightarrow> bool) \<Rightarrow> ('a \<Rightarrow> 'a) \<Rightarrow> 'a list \<Rightarrow> 'a list" where
  "update_first P f [] = []"
| "update_first P f (x # xs) = (if P x then f x # xs else x # update_first P f xs)"

definition update_last :: "('a \<Rightarrow> bool) \<Rightarrow> ('a \<Rightarrow> 'a) \<Rightarrow> 'a list \<Rightarrow> 'a list" where
  "update_last P f xs = rev (update_first P f (rev xs))"

definition find_last :: "('a \<Rightarrow> bool) \<Rightarrow> 'a list \<Rightarrow> 'a option" where
  "find_last P xs = find P (rev xs)"

definition is_active :: "incident \<Rightarrow> bool" where
  "is_active i = (in_status i \<noteq> Resolved)"

definition resolve_item :: "int \<Rightarrow> incident \<Rightarrow> incident" where
  "resolve_item ts i = i\<lparr>in_status := Resolved, in_resolved := Some ts\<rparr>"

definition touch_item :: "string \<Rightarrow> int \<Rightarrow> incident \<Rightarrow> incident" where
  "touch_item sev ts i = i\<lparr>in_severity := sev, in_last_seen := ts\<rparr>"

definition open_item :: "string \<Rightarrow> incident_report \<Rightarrow> int \<Rightarrow> incident" where
  "open_item domain r ts =
     \<lparr>in_domain = domain, in_fingerprint = ir_fingerprint r, in_dedupe = ir_dedupe r,
      in_severity = ir_severity r, in_status = Opened, in_opened = ts, in_last_seen = ts,
      in_acknowledged = None, in_resolved = None\<rparr>"

section \<open>The overall history\<close>

definition apply_incident_snapshot :: "incident list \<Rightarrow> incident_report option \<Rightarrow> int \<Rightarrow> incident list" where
  "apply_incident_snapshot history incident now =
     (let items = py_last max_history history; active = find_last is_active items in
      case incident of
        None \<Rightarrow> (if active \<noteq> None then update_last is_active (resolve_item now) items else items)
      | Some r \<Rightarrow>
          (case active of
             Some a \<Rightarrow>
               if in_fingerprint a = ir_fingerprint r
               then update_last is_active (touch_item (ir_severity r) now) items
               else py_last max_history (update_last is_active (resolve_item now) items @ [open_item [] r now])
           | None \<Rightarrow> py_last max_history (items @ [open_item [] r now])))"

definition acknowledge_incident :: "incident list \<Rightarrow> string \<Rightarrow> int \<Rightarrow> incident list" where
  "acknowledge_incident history fingerprint now =
     update_last (\<lambda>i. in_fingerprint i = fingerprint \<and> in_status i = Opened)
       (\<lambda>i. i\<lparr>in_status := Acknowledged, in_acknowledged := Some now\<rparr>) (py_last max_history history)"

section \<open>One history per domain\<close>

definition active_in :: "string \<Rightarrow> incident \<Rightarrow> bool" where
  "active_in domain i = (in_domain i = domain \<and> is_active i)"

definition domain_step :: "(string \<Rightarrow> incident_report option) \<Rightarrow> int \<Rightarrow> incident list \<Rightarrow> string \<Rightarrow> incident list" where
  "domain_step incoming now items domain =
     (let active = find_last (active_in domain) items in
      case incoming domain of
        None \<Rightarrow> (if active \<noteq> None then update_last (active_in domain) (resolve_item now) items else items)
      | Some r \<Rightarrow>
          (case active of
             Some a \<Rightarrow>
               if in_fingerprint a = ir_fingerprint r
               then update_last (active_in domain) (touch_item (ir_severity r) now) items
               else update_last (active_in domain) (resolve_item now) items @ [open_item domain r now]
           | None \<Rightarrow> items @ [open_item domain r now]))"

definition apply_domain_incidents ::
  "incident list \<Rightarrow> (string \<Rightarrow> incident_report option) \<Rightarrow> int \<Rightarrow> incident list" where
  "apply_domain_incidents history incoming now =
     py_last max_history (foldl (domain_step incoming now) (py_last max_history history) incident_domains)"

definition active_incidents_by_domain :: "incident list \<Rightarrow> (string \<times> incident option) list" where
  "active_incidents_by_domain history =
     map (\<lambda>d. (d, find_last (active_in d) (py_last max_history history))) incident_domains"

section \<open>Lemmas\<close>

lemma length_update_first [simp]: "length (update_first P f xs) = length xs"
  by (induction xs) auto

lemma length_update_last [simp]: "length (update_last P f xs) = length xs"
  by (simp add: update_last_def)

lemma filter_update_first_other:
  "(\<And>x. P x \<Longrightarrow> \<not> Q x \<and> \<not> Q (f x)) \<Longrightarrow> filter Q (update_first P f xs) = filter Q xs"
  by (induction xs) auto

lemma filter_update_last_other:
  "(\<And>x. P x \<Longrightarrow> \<not> Q x \<and> \<not> Q (f x)) \<Longrightarrow> filter Q (update_last P f xs) = filter Q xs"
  by (simp add: update_last_def filter_update_first_other rev_filter [symmetric])

lemma filter_update_first_kept:
  "(\<And>x. P x \<Longrightarrow> P (f x)) \<Longrightarrow> filter P (update_first P f xs) =
    (case filter P xs of [] \<Rightarrow> [] | y # ys \<Rightarrow> f y # ys)"
  by (induction xs) auto

lemma filter_update_first_gone:
  "(\<And>x. P x \<Longrightarrow> \<not> P (f x)) \<Longrightarrow> filter P (update_first P f xs) = tl (filter P xs)"
  by (induction xs) auto

lemma filter_update_last_one:
  assumes "filter P xs = [a]"
  shows "(\<And>x. P x \<Longrightarrow> P (f x)) \<Longrightarrow> filter P (update_last P f xs) = [f a]"
    and "(\<And>x. P x \<Longrightarrow> \<not> P (f x)) \<Longrightarrow> filter P (update_last P f xs) = []"
proof -
  have r: "filter P (rev xs) = [a]" using assms by (simp add: rev_filter [symmetric])
  show "(\<And>x. P x \<Longrightarrow> P (f x)) \<Longrightarrow> filter P (update_last P f xs) = [f a]"
    using filter_update_first_kept [of P f "rev xs"] r by (simp add: update_last_def rev_filter [symmetric])
  show "(\<And>x. P x \<Longrightarrow> \<not> P (f x)) \<Longrightarrow> filter P (update_last P f xs) = []"
    using filter_update_first_gone [of P f "rev xs"] r by (simp add: update_last_def rev_filter [symmetric])
qed

lemma find_last_filter: "find_last P xs = (if filter P xs = [] then None else Some (last (filter P xs)))"
proof -
  have f: "find P ys = (case filter P ys of [] \<Rightarrow> None | y # _ \<Rightarrow> Some y)" for ys
    by (induction ys) auto
  show ?thesis
    by (cases "filter P xs" rule: rev_cases) (simp_all add: find_last_def f rev_filter [symmetric])
qed

lemma touch_resolve_simps [simp]:
  "is_active (touch_item s t i) = is_active i" "\<not> is_active (resolve_item t i)" "is_active (open_item d r t)"
  "in_domain (touch_item s t i) = in_domain i" "in_domain (resolve_item t i) = in_domain i"
  "in_domain (open_item d r t) = d" "in_fingerprint (touch_item s t i) = in_fingerprint i"
  "in_fingerprint (open_item d r t) = ir_fingerprint r"
  by (simp_all add: touch_item_def resolve_item_def open_item_def is_active_def)

lemma py_last_suffix: "\<exists>pre. xs = pre @ py_last n xs"
  by (metis append_take_drop_id py_last_def)

lemma filter_py_last_le: "length (filter P (py_last n xs)) \<le> length (filter P xs)"
proof -
  obtain pre where "xs = pre @ py_last n xs" using py_last_suffix by blast
  then have "filter P xs = filter P pre @ filter P (py_last n xs)" by (metis filter_append)
  then show ?thesis by simp
qed

lemma py_last_snoc: "n > 0 \<Longrightarrow> py_last n (xs @ [x]) = py_last (n - 1) xs @ [x]"
  by (cases n) (simp_all add: py_last_def Suc_diff_le)

text \<open>One transition, for the items with a property \<open>P\<close> of which at most one is active.\<close>

lemma one_or_none: "length xs \<le> 1 \<Longrightarrow> (xs = [] \<Longrightarrow> R) \<Longrightarrow> (\<And>a. xs = [a] \<Longrightarrow> R) \<Longrightarrow> R"
  by (cases xs) auto

lemma domain_step_active:
  assumes "length (filter (active_in d) items) \<le> 1"
  shows "map in_fingerprint (filter (active_in d) (domain_step inc now items d)) =
    (case inc d of None \<Rightarrow> [] | Some r \<Rightarrow> [ir_fingerprint r])"
  using assms
proof (rule one_or_none)
  assume "filter (active_in d) items = []"
  then show ?thesis
    by (auto simp: domain_step_def Let_def find_last_filter active_in_def split: option.splits)
next
  fix a assume a: "filter (active_in d) items = [a]"
  then have gone: "filter (active_in d) (update_last (active_in d) (resolve_item now) items) = []"
    and kept: "filter (active_in d) (update_last (active_in d) (touch_item s now) items) = [touch_item s now a]" for s
    using filter_update_last_one [OF a] by (simp_all add: active_in_def)
  show ?thesis
    using a gone kept by (auto simp: domain_step_def Let_def find_last_filter active_in_def split: option.splits)
qed

lemma domain_step_other:
  "d \<noteq> d' \<Longrightarrow> filter (\<lambda>i. in_domain i = d') (domain_step inc now items d) = filter (\<lambda>i. in_domain i = d') items"
proof -
  assume "d \<noteq> d'"
  then have "filter (\<lambda>i. in_domain i = d') (update_last (active_in d) f items) = filter (\<lambda>i. in_domain i = d') items"
    if "\<And>i. in_domain (f i) = in_domain i" for f
    using that by (intro filter_update_last_other) (auto simp: active_in_def)
  with \<open>d \<noteq> d'\<close> show ?thesis
    by (simp add: domain_step_def Let_def split: option.split)
qed

lemma active_in_filter: "filter (active_in d) xs = filter is_active (filter (\<lambda>i. in_domain i = d) xs)"
  by (induction xs) (auto simp: active_in_def)

lemma domain_step_active_other:
  "d \<noteq> d' \<Longrightarrow> filter (active_in d') (domain_step inc now items d) = filter (active_in d') items"
  unfolding active_in_filter by (drule domain_step_other) (rule arg_cong)

lemma domain_steps:
  "distinct ds \<Longrightarrow> length (filter (active_in d) items) \<le> 1 \<Longrightarrow>
   map in_fingerprint (filter (active_in d) (foldl (domain_step inc now) items ds)) =
     (if d \<in> set ds then (case inc d of None \<Rightarrow> [] | Some r \<Rightarrow> [ir_fingerprint r])
      else map in_fingerprint (filter (active_in d) items)) \<and>
   length (foldl (domain_step inc now) items ds) \<le> length items + length ds"
proof (induction ds arbitrary: items)
  case (Cons d0 ds)
  let ?i = "domain_step inc now items d0"
  have len: "length ?i \<le> length items + 1"
    by (auto simp: domain_step_def Let_def split: option.split)
  have one: "length (filter (active_in d) ?i) \<le> 1"
  proof (cases "d0 = d")
    case True
    then have "length (map in_fingerprint (filter (active_in d) ?i)) \<le> 1"
      unfolding True domain_step_active [OF Cons.prems(2)] by (simp split: option.split)
    then show ?thesis by simp
  next
    case False
    with Cons.prems(2) show ?thesis by (simp add: domain_step_active_other)
  qed
  from Cons.IH [of ?i] Cons.prems(1) one have
    ih: "map in_fingerprint (filter (active_in d) (foldl (domain_step inc now) ?i ds)) =
       (if d \<in> set ds then (case inc d of None \<Rightarrow> [] | Some r \<Rightarrow> [ir_fingerprint r])
        else map in_fingerprint (filter (active_in d) ?i))"
      "length (foldl (domain_step inc now) ?i ds) \<le> length ?i + length ds" by auto
  have "map in_fingerprint (filter (active_in d) ?i) =
      (if d0 = d then (case inc d of None \<Rightarrow> [] | Some r \<Rightarrow> [ir_fingerprint r])
       else map in_fingerprint (filter (active_in d) items))"
    using domain_step_active [OF Cons.prems(2)] by (auto simp: domain_step_active_other)
  with ih len Cons.prems(1) show ?case by auto
qed simp

text \<open>The overall history. As long as at most one incident is active, which every snapshot and
  acknowledgement preserves, a snapshot leaves exactly the reported incident active, or none when
  none is reported, and the history never exceeds its cap.\<close>

theorem incident_snapshot_tracks:
  assumes "length (filter is_active history) \<le> 1"
  shows "map in_fingerprint (filter is_active (apply_incident_snapshot history inc now)) =
      (case inc of None \<Rightarrow> [] | Some r \<Rightarrow> [ir_fingerprint r]) \<and>
    length (apply_incident_snapshot history inc now) \<le> max_history \<and>
    length (filter is_active (acknowledge_incident history fp now)) \<le> 1"
proof (intro conjI)
  let ?items = "py_last max_history history"
  have one: "length (filter is_active ?items) \<le> 1"
    using filter_py_last_le [of is_active max_history history] assms by simp
  have cap: "length ?items \<le> max_history" by simp
  have snoc: "filter is_active (py_last max_history (xs @ [open_item [] r now])) = [open_item [] r now]"
    if "filter is_active xs = []" for xs r
  proof -
    have "filter is_active (py_last (max_history - 1) xs) = []"
      using filter_py_last_le [of is_active "max_history - 1" xs] that by simp
    then show ?thesis by (simp add: py_last_snoc max_history_def)
  qed
  show "map in_fingerprint (filter is_active (apply_incident_snapshot history inc now)) =
      (case inc of None \<Rightarrow> [] | Some r \<Rightarrow> [ir_fingerprint r])"
    using one
  proof (rule one_or_none)
    assume "filter is_active ?items = []"
    then show ?thesis
      by (auto simp: apply_incident_snapshot_def Let_def find_last_filter snoc split: option.splits)
  next
    fix a assume a: "filter is_active ?items = [a]"
    have gone: "filter is_active (update_last is_active (resolve_item now) ?items) = []"
      and kept: "filter is_active (update_last is_active (touch_item s now) ?items) = [touch_item s now a]" for s
      using filter_update_last_one [OF a] by simp_all
    show ?thesis
      using a gone kept
      by (auto simp: apply_incident_snapshot_def Let_def find_last_filter snoc split: option.splits)
  qed
  show "length (apply_incident_snapshot history inc now) \<le> max_history"
    using cap by (auto simp: apply_incident_snapshot_def Let_def split: option.splits)
  let ?P = "\<lambda>i. in_fingerprint i = fp \<and> in_status i = Opened"
  let ?f = "\<lambda>i. i\<lparr>in_status := Acknowledged, in_acknowledged := Some now\<rparr>"
  have "length (filter is_active (update_first ?P ?f xs)) = length (filter is_active xs)" for xs
    by (induction xs) (auto simp: is_active_def)
  then show "length (filter is_active (acknowledge_incident history fp now)) \<le> 1"
    using one by (simp add: acknowledge_incident_def update_last_def rev_filter [symmetric])
qed

definition ex_report :: incident_report where
  "ex_report = \<lparr>ir_fingerprint = ''f1'', ir_dedupe = ''d1'', ir_severity = ''critical''\<rparr>"

lemma incident_snapshot_tracks_witness:
  "map in_fingerprint (filter is_active (apply_incident_snapshot [open_item [] ex_report 0] None 5)) = [] \<and>
   length (apply_incident_snapshot [open_item [] ex_report 0] None 5) \<le> max_history"
  using incident_snapshot_tracks [of "[open_item [] ex_report 0]" None 5] by simp

text \<open>The histories per domain are independent: as long as every domain has at most one active
  incident and the history is short enough for the new items, a snapshot leaves active in each of
  the three domains exactly the incident it reports there, and touches no item of a domain it does
  not know.\<close>

theorem domain_incidents_track:
  assumes "\<And>d. length (filter (active_in d) history) \<le> 1" and "length history + 3 \<le> max_history"
  shows "(\<forall>d \<in> set incident_domains.
      map in_fingerprint (filter (active_in d) (apply_domain_incidents history inc now)) =
        (case inc d of None \<Rightarrow> [] | Some r \<Rightarrow> [ir_fingerprint r])) \<and>
    (\<forall>d. d \<notin> set incident_domains \<longrightarrow>
      filter (\<lambda>i. in_domain i = d) (apply_domain_incidents history inc now) = filter (\<lambda>i. in_domain i = d) history)"
proof -
  let ?h = "foldl (domain_step inc now) history incident_domains"
  have h: "py_last max_history history = history" using assms(2) by (simp add: py_last_short)
  have dist: "distinct incident_domains" by (simp add: incident_domains_def)
  note steps = domain_steps [OF dist assms(1)]
  have "length ?h \<le> max_history" 
    using conjunct2 [OF steps [of "[]" inc now]] assms(2) by (simp add: incident_domains_def)
  then have res: "apply_domain_incidents history inc now = ?h"
    by (simp add: apply_domain_incidents_def h py_last_short)
  have other: "filter (\<lambda>i. in_domain i = d) (foldl (domain_step inc now) items ds) = filter (\<lambda>i. in_domain i = d) items"
    if "d \<notin> set ds" for d items ds
    using that by (induction ds arbitrary: items) (auto simp: domain_step_other)
  from steps other show ?thesis unfolding res by simp
qed

lemma domain_incidents_track_witness:
  "map in_fingerprint (filter (active_in ''workload'')
     (apply_domain_incidents [open_item ''workload'' ex_report 0] (\<lambda>d. None) 5)) = []"
proof -
  have "length (filter (active_in d) [open_item ''workload'' ex_report 0]) \<le> 1" for d by simp
  moreover have "length [open_item ''workload'' ex_report 0] + 3 \<le> max_history" by (simp add: max_history_def)
  ultimately show ?thesis
    using domain_incidents_track [of "[open_item ''workload'' ex_report 0]" "\<lambda>d. None" 5]
    by (simp add: incident_domains_def)
qed

end
