(* ===== verification/VersionEvidence.thy ===== *)
theory VersionEvidence
  imports PyData
begin

text \<open>
  \<open>backend/app/affected_version_range.py\<close> and \<open>backend/app/cpe_consistency.py\<close>: whether observed
  versions of a product lie in the affected ranges of a vulnerability, and whether the CPE names of a
  finding agree with the product, vendor and versions it declares. What the functions read of a
  finding are arguments. \<open>int()\<close> refuses texts of more than 4300 digits, so the version functions can
  raise.
\<close>

section \<open>Versions and ranges\<close>

definition version_text :: "string \<Rightarrow> bool" where
  "version_text s = (let ps = py_split (CHR ''.'') s in
     length ps \<le> 6 \<and> list_all (\<lambda>p. p \<noteq> [] \<and> list_all is_digit p) ps)"

definition int_part :: "string \<Rightarrow> int result" where
  "int_part p = (case py_int p of
     None \<Rightarrow> Inl (ValueError ''Exceeds the limit (4300 digits) for integer string conversion'')
   | Some v \<Rightarrow> Inr v)"

definition version_tuple :: "string \<Rightarrow> int list option result" where
  "version_tuple value =
     (let normalized = py_strip value in
      if \<not> version_text normalized then Inr None
      else rbind (rmap int_part (py_split (CHR ''.'') normalized)) (\<lambda>parts.
        Inr (Some (parts @ replicate (6 - length parts) 0))))"

datatype version_op = OpEq | OpLt | OpLe | OpGt | OpGe

text \<open>\<open>_CLAUSE_RE\<close>: an optional operator, blanks, a version.\<close>

definition clause_parts :: "string \<Rightarrow> (version_op \<times> string) option" where
  "clause_parts s =
     (let (op, rest) =
        (if py_startswith s ''<='' then (OpLe, drop 2 s)
         else if py_startswith s ''>='' then (OpGe, drop 2 s)
         else if py_startswith s ''=='' then (OpEq, drop 2 s)
         else if py_startswith s ''<'' then (OpLt, drop 1 s)
         else if py_startswith s ''>'' then (OpGt, drop 1 s)
         else if py_startswith s ''='' then (OpEq, drop 1 s)
         else (OpEq, s));
        target = lstrip_by py_isspace rest in
      if version_text target then Some (op, target) else None)"

fun op_holds :: "version_op \<Rightarrow> int list \<Rightarrow> int list \<Rightarrow> bool" where
  "op_holds OpEq v t = (v = t)"
| "op_holds OpLt v t = (v < t)"
| "op_holds OpLe v t = (v \<le> t)"
| "op_holds OpGt v t = (v > t)"
| "op_holds OpGe v t = (v \<ge> t)"

definition clause_matches :: "int list \<Rightarrow> string \<Rightarrow> bool option result" where
  "clause_matches version clause =
     (case clause_parts (py_strip clause) of
        None \<Rightarrow> Inr None
      | Some (op, text) \<Rightarrow> rbind (version_tuple text) (\<lambda>t. case t of
          None \<Rightarrow> Inr None
        | Some target \<Rightarrow> Inr (Some (op_holds op version target))))"

definition range_matches :: "int list \<Rightarrow> string \<Rightarrow> bool option result" where
  "range_matches version expression =
     (let clauses = map py_strip (py_split (CHR '','') expression) in
      if length clauses > 4 \<or> list_ex (\<lambda>p. p = []) clauses then Inr None
      else rbind (rmap (clause_matches version) clauses) (\<lambda>outcomes.
        if list_ex (\<lambda>x. x = None) outcomes then Inr None
        else Inr (Some (list_all (\<lambda>x. x = Some True) outcomes))))"

section \<open>Evidence\<close>

record range_inputs =
  ri_finding_id :: string
  ri_ranges :: "string list"
  ri_source :: string
  ri_verified :: "bool option"
  ri_cve_ids :: "string list"
  ri_observed :: "string list"

record range_evidence =
  re_finding_id :: string
  re_ranges :: "string list"
  re_observed :: "string list"
  re_matching :: "string list"
  re_outside :: "string list"
  re_unparseable :: "string list"
  re_state :: string
  re_binding :: string
  re_ambiguity :: "string option"
  re_source :: "string option"
  re_source_verified :: bool
  re_provenance :: string
  re_supported :: bool
  re_trusted :: bool
  re_exploitable :: bool

text \<open>The two loops over ranges and over observed versions.\<close>

fun split_ranges :: "string list \<Rightarrow> (string list \<times> string list) result" where
  "split_ranges [] = Inr ([], [])"
| "split_ranges (r # rs) =
     rbind (range_matches [0, 0, 0, 0, 0, 0] r) (\<lambda>probe.
     rbind (split_ranges rs) (\<lambda>(good, bad).
       Inr (if probe = None then (good, r # bad) else (r # good, bad))))"

text \<open>\<open>any(... is True for ...)\<close> stops at the first range that matches.\<close>

fun any_range :: "int list \<Rightarrow> string list \<Rightarrow> bool result" where
  "any_range v [] = Inr False"
| "any_range v (r # rs) = rbind (range_matches v r) (\<lambda>m. if m = Some True then Inr True else any_range v rs)"

fun sort_versions :: "string list \<Rightarrow> string list \<Rightarrow> (string list \<times> string list \<times> bool) result" where
  "sort_versions good [] = Inr ([], [], False)"
| "sort_versions good (raw # raws) =
     rbind (version_tuple raw) (\<lambda>t. case t of
       None \<Rightarrow> rbind (sort_versions good raws) (\<lambda>(m, out, u). Inr (m, out, True))
     | Some v \<Rightarrow> rbind (any_range v good) (\<lambda>hit.
         rbind (sort_versions good raws) (\<lambda>(m, out, u).
           Inr (if hit then (raw # m, out, u) else if good \<noteq> [] then (m, raw # out, u) else (m, out, u)))))"

definition build_range_evidence :: "range_inputs \<Rightarrow> range_evidence result" where
  "build_range_evidence x =
     (let ranges = filter (\<lambda>r. r \<noteq> []) (map py_strip (take 16 (ri_ranges x)));
          observed = sorted_set (filter (\<lambda>v. v \<noteq> []) (map py_strip (ri_observed x)));
          source = or_none (take 120 (py_strip (ri_source x)));
          verified = (source \<noteq> None \<and> ri_verified x = Some True);
          provenance = (if verified then ''verified'' else if source \<noteq> None then ''unverified'' else ''missing'');
          result = \<lparr>re_finding_id = ri_finding_id x, re_ranges = ranges, re_observed = observed, re_matching = [],
            re_outside = [], re_unparseable = [], re_state = ''unknown'', re_binding = ''single_cve'',
            re_ambiguity = None, re_source = source, re_source_verified = verified, re_provenance = provenance,
            re_supported = False, re_trusted = False, re_exploitable = False\<rparr> in
      if ranges = [] then Inr (result\<lparr>re_state := ''not_available'', re_binding := ''no_ranges''\<rparr>)
      else if length (ri_cve_ids x) \<noteq> 1 then
        Inr (result\<lparr>re_binding := (if length (ri_cve_ids x) > 1 then ''ambiguous_multi_cve'' else ''no_cve_binding''),
          re_ambiguity := Some (if length (ri_cve_ids x) > 1 then ''multiple_cves_share_unbound_ranges''
            else ''affected_range_without_cve'')\<rparr>)
      else
        rbind (split_ranges ranges) (\<lambda>(parseable, unparseable).
        rbind (sort_versions parseable observed) (\<lambda>(matching, outside, bad_observed).
          let state = (if observed = [] \<or> bad_observed \<or> parseable = [] then ''unknown''
                       else if matching \<noteq> [] \<and> outside \<noteq> [] then ''mixed''
                       else if matching \<noteq> [] then ''affected''
                       else if outside \<noteq> [] then ''not_affected''
                       else ''unknown'') in
          Inr (result\<lparr>re_matching := matching, re_outside := outside, re_unparseable := unparseable,
            re_state := state, re_supported := (state = ''affected'' \<and> unparseable = []),
            re_trusted := (state = ''affected'' \<and> unparseable = [] \<and> verified)\<rparr>))))"

section \<open>What the state means\<close>

text \<open>A range is parseable independently of the version it is probed with.\<close>

lemma clause_none_indep:
  "clause_matches v c = Inr None \<longleftrightarrow> clause_matches v' c = Inr None"
  "clause_matches v c = Inl e \<longleftrightarrow> clause_matches v' c = Inl e"
  by (auto simp: clause_matches_def rbind_def split: option.splits sum.splits)

definition in_range :: "int list \<Rightarrow> string \<Rightarrow> bool" where
  "in_range v r = (range_matches v r = Inr (Some True))"

lemma any_range_Inr: "any_range v rs = Inr b \<Longrightarrow> b \<longleftrightarrow> (\<exists>r \<in> set rs. in_range v r)"
  by (induction rs) (auto simp: in_range_def split: if_splits)

lemma split_ranges_set:
  "split_ranges rs = Inr (good, bad) \<Longrightarrow> set rs = set good \<union> set bad \<and>
   (\<forall>r \<in> set bad. range_matches [0, 0, 0, 0, 0, 0] r = Inr None) \<and>
   (\<forall>r \<in> set good. \<exists>b. range_matches [0, 0, 0, 0, 0, 0] r = Inr (Some b))"
  by (induction rs arbitrary: good bad) (auto split: if_splits)

definition version_in :: "string list \<Rightarrow> string \<Rightarrow> bool" where
  "version_in good raw = (\<exists>v. version_tuple raw = Inr (Some v) \<and> (\<exists>r \<in> set good. in_range v r))"

definition version_out :: "string list \<Rightarrow> string \<Rightarrow> bool" where
  "version_out good raw = (\<exists>v. version_tuple raw = Inr (Some v) \<and> \<not> (\<exists>r \<in> set good. in_range v r))"

lemma version_in_not_out: "version_in good raw \<Longrightarrow> \<not> version_out good raw"
  by (auto simp: version_in_def version_out_def)

lemma sort_versions_Inr:
  "sort_versions good raws = Inr (m, out, u) \<Longrightarrow>
   m = filter (version_in good) raws \<and> (good \<noteq> [] \<longrightarrow> out = filter (version_out good) raws) \<and>
   (u \<longleftrightarrow> (\<exists>r \<in> set raws. version_tuple r = Inr None))"
proof (induction raws arbitrary: m out u)
  case (Cons raw raws)
  from Cons.prems obtain t where t: "version_tuple raw = Inr t" by auto
  show ?case
  proof (cases t)
    case None
    with Cons t show ?thesis by (auto simp: version_in_def version_out_def)
  next
    case (Some v)
    with Cons.prems t obtain hit m' out' where h: "any_range v good = Inr hit"
      "sort_versions good raws = Inr (m', out', u)"
      "(m, out) = (if hit then (raw # m', out') else if good \<noteq> [] then (m', raw # out') else (m', out'))"
      by (auto split: if_splits)
    from any_range_Inr [OF h(1)] Cons.IH [OF h(2)] h(3) t Some show ?thesis
      by (auto simp: version_in_def version_out_def split: if_splits)
  qed
qed simp

lemma sort_versions_parsed:
  "sort_versions good raws = Inr z \<Longrightarrow> raw \<in> set raws \<Longrightarrow> \<exists>t. version_tuple raw = Inr t"
  by (induction raws arbitrary: z) (auto split: option.splits)

lemma clause_same_shape:
  "clause_matches v c = Inr a \<Longrightarrow> \<exists>b. clause_matches v' c = Inr b \<and> (a = None \<longleftrightarrow> b = None)"
  by (auto simp: clause_matches_def split: option.splits)

lemma clauses_same_shape:
  "rmap (clause_matches v) cs = Inr xs \<Longrightarrow>
   \<exists>ys. rmap (clause_matches v') cs = Inr ys \<and> (list_ex (\<lambda>x. x = None) xs \<longleftrightarrow> list_ex (\<lambda>x. x = None) ys)"
proof (induction cs arbitrary: xs)
  case (Cons c cs)
  then obtain a xs' where a: "clause_matches v c = Inr a" "rmap (clause_matches v) cs = Inr xs'" "xs = a # xs'"
    by auto
  from clause_same_shape [OF a(1)] obtain b where b: "clause_matches v' c = Inr b" "a = None \<longleftrightarrow> b = None" by blast
  from Cons.IH [OF a(2)] obtain ys where "rmap (clause_matches v') cs = Inr ys"
    "list_ex (\<lambda>x. x = None) xs' \<longleftrightarrow> list_ex (\<lambda>x. x = None) ys" by blast
  with a b show ?case by (intro exI [of _ "b # ys"]) simp
qed simp

lemma unparseable_indep: "range_matches v r = Inr None \<Longrightarrow> range_matches v' r = Inr None"
proof -
  let ?cs = "map py_strip (py_split (CHR '','') r)"
  assume n: "range_matches v r = Inr None"
  show ?thesis
  proof (cases "length ?cs > 4 \<or> list_ex (\<lambda>p. p = []) ?cs")
    case True
    then show ?thesis by (simp add: range_matches_def)
  next
    case False
    with n obtain xs where xs: "rmap (clause_matches v) ?cs = Inr xs" "list_ex (\<lambda>x. x = None) xs"
      by (auto simp: range_matches_def Let_def split: if_splits)
    from clauses_same_shape [OF xs(1)] xs(2) obtain ys where
      "rmap (clause_matches v') ?cs = Inr ys" "list_ex (\<lambda>x. x = None) ys" by blast
    with False show ?thesis by (simp add: range_matches_def Let_def)
  qed
qed

text \<open>A finding's version is reported as affected exactly when its single CVE has ranges, versions
  were observed, and every observed version is a version that lies in one of the ranges; it is
  trusted only when moreover every range was understood and its source verified; and no evidence of
  this kind ever claims exploitability.\<close>

theorem affected_state_exact:
  assumes "build_range_evidence x = Inr e"
  shows "(re_state e = ''affected'' \<longleftrightarrow> length (ri_cve_ids x) = 1 \<and> re_observed e \<noteq> [] \<and>
      (\<forall>raw \<in> set (re_observed e). \<exists>v r. version_tuple raw = Inr (Some v) \<and> r \<in> set (re_ranges e) \<and> in_range v r)) \<and>
    (re_trusted e \<longleftrightarrow> re_state e = ''affected'' \<and> re_unparseable e = [] \<and> re_source e \<noteq> None \<and> ri_verified x = Some True) \<and>
    (re_trusted e \<longrightarrow> re_supported e) \<and> \<not> re_exploitable e"
proof -
  let ?ranges = "filter (\<lambda>r. r \<noteq> []) (map py_strip (take 16 (ri_ranges x)))"
  let ?obs = "sorted_set (filter (\<lambda>v. v \<noteq> []) (map py_strip (ri_observed x)))"
  show ?thesis
  proof (cases "?ranges = [] \<or> length (ri_cve_ids x) \<noteq> 1")
    case True
    then consider (a) "?ranges = []" | (b) "?ranges \<noteq> []" "length (ri_cve_ids x) \<noteq> 1" by blast
    then show ?thesis
    proof cases
      case a
      then have "re_ranges e = [] \<and> re_state e = ''not_available'' \<and> \<not> re_trusted e \<and> \<not> re_exploitable e"
        using assms by (auto simp: build_range_evidence_def Let_def)
      then show ?thesis by (cases "re_observed e") auto
    next
      case b
      then show ?thesis using assms by (auto simp: build_range_evidence_def Let_def)
    qed
  next
    case False
    then obtain good bad m out u where sr: "split_ranges ?ranges = Inr (good, bad)"
      and sv: "sort_versions good ?obs = Inr (m, out, u)"
      and e: "re_ranges e = ?ranges" "re_observed e = ?obs" "re_unparseable e = bad"
        "re_state e = (if ?obs = [] \<or> u \<or> good = [] then ''unknown''
                       else if m \<noteq> [] \<and> out \<noteq> [] then ''mixed''
                       else if m \<noteq> [] then ''affected''
                       else if out \<noteq> [] then ''not_affected'' else ''unknown'')"
        "re_trusted e = (re_state e = ''affected'' \<and> bad = [] \<and> re_source e \<noteq> None \<and> ri_verified x = Some True)"
        "re_supported e = (re_state e = ''affected'' \<and> bad = [])" "\<not> re_exploitable e"
      using assms by (auto simp: build_range_evidence_def Let_def)
    note sr' = split_ranges_set [OF sr] and sv' = sort_versions_Inr [OF sv]
    have inr: "(\<exists>r \<in> set good. in_range v r) \<longleftrightarrow> (\<exists>r \<in> set ?ranges. in_range v r)" for v
    proof -
      have "\<not> in_range v r" if "r \<in> set bad" for r
        using sr' that unparseable_indep [of "[0, 0, 0, 0, 0, 0]" r v] by (auto simp: in_range_def)
      then show ?thesis using sr' by blast
    qed
    have "re_state e = ''affected'' \<longleftrightarrow> ?obs \<noteq> [] \<and> \<not> u \<and> good \<noteq> [] \<and> m \<noteq> [] \<and> out = []"
      unfolding e(4) by auto
    also have "\<dots> \<longleftrightarrow> ?obs \<noteq> [] \<and> (\<forall>raw \<in> set ?obs. version_in good raw)"
    proof
      assume h: "?obs \<noteq> [] \<and> \<not> u \<and> good \<noteq> [] \<and> m \<noteq> [] \<and> out = []"
      have ok: "version_tuple raw = Inr None \<or> version_in good raw \<or> version_out good raw" if "raw \<in> set ?obs" for raw
      proof -
        have "\<exists>t. version_tuple raw = Inr t"
          using sort_versions_parsed [OF sv that] .
        then show ?thesis unfolding version_in_def version_out_def by (metis not_None_eq)
      qed
      have "\<not> version_out good raw" if "raw \<in> set ?obs" for raw
      proof -
        have "filter (version_out good) ?obs = []" using h sv' by simp
        with that show ?thesis unfolding filter_empty_conv by blast
      qed
      with ok h sv' show "?obs \<noteq> [] \<and> (\<forall>raw \<in> set ?obs. version_in good raw)" by blast
    next
      assume h: "?obs \<noteq> [] \<and> (\<forall>raw \<in> set ?obs. version_in good raw)"
      then have "m = ?obs" using sv' by (simp add: filter_id_conv)
      moreover have "good \<noteq> []" using h by (cases ?obs) (auto simp: version_in_def)
      moreover have "out = []" using h sv' \<open>good \<noteq> []\<close> version_in_not_out [of good] unfolding filter_empty_conv
        by (metis filter_empty_conv)
      moreover have "\<not> u" using h sv' by (auto simp: version_in_def)
      ultimately show "?obs \<noteq> [] \<and> \<not> u \<and> good \<noteq> [] \<and> m \<noteq> [] \<and> out = []" using h by simp
    qed
    finally show ?thesis
      using False e inr unfolding version_in_def by auto
  qed
qed

definition ex_range :: range_inputs where
  "ex_range = \<lparr>ri_finding_id = ''f1'', ri_ranges = [''>=1.2, <2''], ri_source = ''nvd'', ri_verified = Some True,
     ri_cve_ids = [''CVE-2024-1''], ri_observed = ['' 1.10 '']\<rparr>"

lemma affected_state_exact_witness:
  "\<exists>e. build_range_evidence ex_range = Inr e \<and> re_state e = ''affected'' \<and> re_supported e"
proof -
  have "case build_range_evidence ex_range of Inl _ \<Rightarrow> False | Inr e \<Rightarrow> re_trusted e" by code_simp
  then obtain e where e: "build_range_evidence ex_range = Inr e" "re_trusted e" by (auto split: sum.splits)
  with affected_state_exact [OF e(1)] show ?thesis by blast
qed

section \<open>CPE names\<close>

record cpe_consistency =
  cc_finding_id :: string
  cc_cpes :: nat
  cc_parsed :: nat
  cc_product_match :: nat
  cc_generic_product :: nat
  cc_mismatch :: nat
  cc_vendor_match :: nat
  cc_generic_vendor :: nat
  cc_vendor_mismatch :: nat
  cc_version_match :: nat
  cc_generic_version :: nat
  cc_version_mismatch :: nat
  cc_reasons :: "string list"
  cc_supports_product :: bool
  cc_supports_vendor :: bool
  cc_supports_version :: bool

definition normalize_token :: "string \<Rightarrow> string" where
  "normalize_token value =
     map (\<lambda>c. if c = CHR ''_'' \<or> c = CHR ''-'' then CHR '' '' else c) (py_lower (py_strip value))"

definition parse_cpe23 :: "string \<Rightarrow> (string \<times> string \<times> string) option" where
  "parse_cpe23 value =
     (let raw = py_strip value; parts = py_split (CHR '':'') raw in
      if \<not> py_startswith raw ''cpe:2.3:'' then None
      else if length parts \<noteq> 13 then None
      else Some (py_strip (parts ! 3), py_strip (parts ! 4), py_strip (parts ! 5)))"

definition generic_token :: "string \<Rightarrow> bool" where
  "generic_token t = (t \<in> {[], ''*'', ''-''})"

definition count_list_of :: "('a \<Rightarrow> bool) \<Rightarrow> 'a list \<Rightarrow> nat" where
  "count_list_of P xs = length (filter P xs)"

definition build_cpe_consistency ::
  "string \<Rightarrow> string list \<Rightarrow> string \<Rightarrow> string \<Rightarrow> string list \<Rightarrow> cpe_consistency" where
  "build_cpe_consistency finding_id cpes product_raw vendor_raw observed_versions =
     (let product = normalize_token product_raw; vendor = normalize_token vendor_raw;
          parsed = map the (filter (\<lambda>x. x \<noteq> None) (map parse_cpe23 cpes));
          observed = map (\<lambda>v. py_lower (py_strip v)) (filter (\<lambda>v. py_strip v \<noteq> []) observed_versions);
          vendors = map (\<lambda>(v, p, r). normalize_token v) parsed;
          products = map (\<lambda>(v, p, r). normalize_token p) parsed;
          versions = map (\<lambda>(v, p, r). py_lower (py_strip r)) parsed;
          generic_vendors = count_list_of generic_token vendors;
          vendor_matches = (if vendor \<noteq> [] then count_list_of (\<lambda>t. \<not> generic_token t \<and> t = vendor) vendors else 0);
          vendor_mismatches = (if vendor \<noteq> [] then count_list_of (\<lambda>t. \<not> generic_token t \<and> t \<noteq> vendor) vendors else 0);
          generic = count_list_of generic_token products;
          matches = (if product \<noteq> [] then count_list_of (\<lambda>t. \<not> generic_token t \<and> t = product) products else 0);
          mismatches = (if product \<noteq> [] then count_list_of (\<lambda>t. \<not> generic_token t \<and> t \<noteq> product) products else 0);
          generic_versions = count_list_of generic_token versions;
          version_matches = (if observed \<noteq> [] then
            count_list_of (\<lambda>t. \<not> generic_token t \<and> t \<in> set observed) versions else 0);
          version_mismatches = (if observed \<noteq> [] then
            count_list_of (\<lambda>t. \<not> generic_token t \<and> t \<notin> set observed) versions else 0);
          reason = (\<lambda>c r. if c then [r] else []);
          reasons =
            reason (cpes \<noteq> [] \<and> length parsed \<noteq> length cpes) ''unparseable_cpe'' @
            reason (generic \<noteq> 0) ''generic_cpe_product'' @
            reason (mismatches \<noteq> 0) ''cpe_product_mismatch'' @
            reason (cpes \<noteq> [] \<and> product = []) ''declared_product_missing'' @
            reason (generic_vendors \<noteq> 0 \<and> vendor \<noteq> []) ''generic_cpe_vendor'' @
            reason (vendor_mismatches \<noteq> 0) ''cpe_vendor_mismatch'' @
            reason (generic_versions \<noteq> 0 \<and> observed \<noteq> []) ''generic_cpe_version'' @
            reason (version_mismatches \<noteq> 0) ''cpe_version_mismatch'';
          supports = (product \<noteq> [] \<and> matches > 0 \<and> mismatches = 0 \<and> generic = 0 \<and> length parsed = length cpes);
          supports_vendor = (vendor \<noteq> [] \<and> vendor_matches > 0 \<and> vendor_mismatches = 0 \<and>
            generic_vendors = 0 \<and> length parsed = length cpes);
          supports_version = (supports \<and> observed \<noteq> [] \<and> version_matches > 0 \<and> version_mismatches = 0 \<and>
            generic_versions = 0) in
      \<lparr>cc_finding_id = finding_id, cc_cpes = length cpes, cc_parsed = length parsed, cc_product_match = matches,
       cc_generic_product = generic, cc_mismatch = mismatches, cc_vendor_match = vendor_matches,
       cc_generic_vendor = generic_vendors, cc_vendor_mismatch = vendor_mismatches,
       cc_version_match = version_matches, cc_generic_version = generic_versions,
       cc_version_mismatch = version_mismatches, cc_reasons = sorted_set reasons,
       cc_supports_product = supports, cc_supports_vendor = supports_vendor,
       cc_supports_version = supports_version\<rparr>)"

section \<open>What support means\<close>

lemma count_list_of_0 [simp]: "count_list_of P xs = 0 \<longleftrightarrow> (\<forall>x \<in> set xs. \<not> P x)"
  by (auto simp: count_list_of_def filter_empty_conv)

lemma count_list_of_pos [simp]: "0 < count_list_of P xs \<longleftrightarrow> (\<exists>x \<in> set xs. P x)"
  by (auto simp: count_list_of_def filter_empty_conv)

lemma all_parsed_iff: "length (filter (\<lambda>x. x \<noteq> None) xs) = length xs \<longleftrightarrow> None \<notin> set xs"
proof (induction xs)
  case (Cons x xs)
  have "length (filter (\<lambda>x. x \<noteq> None) xs) \<noteq> Suc (length xs)"
    using length_filter_le [of "\<lambda>x. x \<noteq> None" xs] by linarith
  with Cons show ?case by (cases x) simp_all
qed simp

lemma mem_parsed: "x \<in> set (map the (filter (\<lambda>x. x \<noteq> None) xs)) \<longleftrightarrow> Some x \<in> set xs"
  by (induction xs) (auto split: option.splits)

lemma length_parsed:
  "length (map the (filter (\<lambda>x. x \<noteq> None) (map f xs))) = length xs \<longleftrightarrow> (\<forall>c \<in> set xs. f c \<noteq> None)"
  using all_parsed_iff [of "map f xs"] by (simp only: length_map set_map image_iff Bex_def Ball_def) metis

lemma supports_via_parsed:
  assumes "map the (filter (\<lambda>x. x \<noteq> None) (map parse_cpe23 cpes)) = P"
  shows "cc_supports_product (build_cpe_consistency fid cpes product vendor observed) \<longleftrightarrow>
      normalize_token product \<noteq> [] \<and> length P = length cpes \<and>
      (\<exists>x \<in> set P. case x of (v, p, r) \<Rightarrow>
        \<not> generic_token (normalize_token p) \<and> normalize_token p = normalize_token product) \<and>
      (\<forall>x \<in> set P. case x of (v, p, r) \<Rightarrow>
        \<not> generic_token (normalize_token p) \<and> normalize_token p = normalize_token product)" (is ?thesis1)
    "cc_supports_vendor (build_cpe_consistency fid cpes product vendor observed) \<longleftrightarrow>
      normalize_token vendor \<noteq> [] \<and> length P = length cpes \<and>
      (\<exists>x \<in> set P. case x of (v, p, r) \<Rightarrow>
        \<not> generic_token (normalize_token v) \<and> normalize_token v = normalize_token vendor) \<and>
      (\<forall>x \<in> set P. case x of (v, p, r) \<Rightarrow>
        \<not> generic_token (normalize_token v) \<and> normalize_token v = normalize_token vendor)" (is ?thesis2)
    "cc_supports_version (build_cpe_consistency fid cpes product vendor observed) \<longleftrightarrow>
      cc_supports_product (build_cpe_consistency fid cpes product vendor observed) \<and> length P = length cpes \<and>
      P \<noteq> [] \<and> map (\<lambda>v. py_lower (py_strip v)) (filter (\<lambda>v. py_strip v \<noteq> []) observed) \<noteq> [] \<and>
      (\<forall>x \<in> set P. case x of (v, p, r) \<Rightarrow> \<not> generic_token (py_lower (py_strip r)) \<and>
        py_lower (py_strip r) \<in> set (map (\<lambda>v. py_lower (py_strip v)) (filter (\<lambda>v. py_strip v \<noteq> []) observed)))" (is ?thesis3)
proof -
  note d = build_cpe_consistency_def Let_def assms case_prod_beta
  show "?thesis1" unfolding d cpe_consistency.simps by (simp, auto)
  show "?thesis2" unfolding d cpe_consistency.simps by (simp, auto)
  obtain obs where obs: "map (\<lambda>v. py_lower (py_strip v)) (filter (\<lambda>v. py_strip v \<noteq> []) observed) = obs" by simp
  show "?thesis3" unfolding d cpe_consistency.simps obs by (simp, auto)
qed

text \<open>A finding's CPE names support the identity of its product exactly when there is one, all of
  them can be parsed and every one of them names the declared product; likewise for the vendor; and
  they support a version only when they support the product and every version they name was observed.\<close>

theorem cpe_support_exact:
  "(cc_supports_product (build_cpe_consistency fid cpes product vendor observed) \<longleftrightarrow>
      cpes \<noteq> [] \<and> normalize_token product \<noteq> [] \<and> (\<forall>c \<in> set cpes. \<exists>v p r. parse_cpe23 c = Some (v, p, r) \<and>
        \<not> generic_token (normalize_token p) \<and> normalize_token p = normalize_token product)) \<and>
   (cc_supports_vendor (build_cpe_consistency fid cpes product vendor observed) \<longleftrightarrow>
      cpes \<noteq> [] \<and> normalize_token vendor \<noteq> [] \<and> (\<forall>c \<in> set cpes. \<exists>v p r. parse_cpe23 c = Some (v, p, r) \<and>
        \<not> generic_token (normalize_token v) \<and> normalize_token v = normalize_token vendor)) \<and>
   (cc_supports_version (build_cpe_consistency fid cpes product vendor observed) \<longrightarrow>
      cc_supports_product (build_cpe_consistency fid cpes product vendor observed) \<and>
      (\<forall>c \<in> set cpes. \<exists>v p r w. parse_cpe23 c = Some (v, p, r) \<and> w \<in> set observed \<and>
        py_lower (py_strip r) = py_lower (py_strip w)))"
proof -
  let ?K = "build_cpe_consistency fid cpes product vendor observed"
  define P where "P = map the (filter (\<lambda>x. x \<noteq> None) (map parse_cpe23 cpes))"
  note supp = supports_via_parsed [OF P_def [symmetric]]
  have len: "length P = length cpes \<longleftrightarrow> (\<forall>c \<in> set cpes. parse_cpe23 c \<noteq> None)"
    unfolding P_def by (rule length_parsed)
  have mem: "x \<in> set P \<longleftrightarrow> (\<exists>c \<in> set cpes. parse_cpe23 c = Some x)" for x
    unfolding P_def mem_parsed by (simp only: set_map image_iff) (metis (lifting))
  have all: "(\<forall>c \<in> set cpes. \<exists>v p r. parse_cpe23 c = Some (v, p, r) \<and> Q v p r) \<longleftrightarrow>
      length P = length cpes \<and> (\<forall>x \<in> set P. case x of (v, p, r) \<Rightarrow> Q v p r)" for Q
    unfolding mem Ball_def len by (auto split: prod.splits) (metis not_None_eq prod_cases3)+
  have ne: "P \<noteq> [] \<longleftrightarrow> cpes \<noteq> []" if "length P = length cpes" using that by auto
  show ?thesis
  proof (intro conjI impI)
    show "cc_supports_product ?K \<longleftrightarrow> cpes \<noteq> [] \<and> normalize_token product \<noteq> [] \<and>
        (\<forall>c \<in> set cpes. \<exists>v p r. parse_cpe23 c = Some (v, p, r) \<and>
          \<not> generic_token (normalize_token p) \<and> normalize_token p = normalize_token product)"
      unfolding all supp using ne by (cases P) (auto split: prod.splits)
    show "cc_supports_vendor ?K \<longleftrightarrow> cpes \<noteq> [] \<and> normalize_token vendor \<noteq> [] \<and>
        (\<forall>c \<in> set cpes. \<exists>v p r. parse_cpe23 c = Some (v, p, r) \<and>
          \<not> generic_token (normalize_token v) \<and> normalize_token v = normalize_token vendor)"
      unfolding all supp using ne by (cases P) (auto split: prod.splits)
    assume v: "cc_supports_version ?K"
    show "cc_supports_product ?K" using v unfolding supp by blast
    have "\<forall>x \<in> set P. case x of (v, p, r) \<Rightarrow> \<exists>w. w \<in> set observed \<and> py_lower (py_strip r) = py_lower (py_strip w)"
      using v unfolding supp(3) by (fastforce split: prod.splits)
    moreover have "length P = length cpes" using v unfolding supp by blast
    ultimately have "\<forall>c \<in> set cpes. \<exists>v p r. parse_cpe23 c = Some (v, p, r) \<and>
        (\<exists>w. w \<in> set observed \<and> py_lower (py_strip r) = py_lower (py_strip w))"
      unfolding all by blast
    then show "\<forall>c \<in> set cpes. \<exists>v p r w. parse_cpe23 c = Some (v, p, r) \<and> w \<in> set observed \<and>
        py_lower (py_strip r) = py_lower (py_strip w)" by blast
  qed
qed

lemma cpe_support_exact_witness:
  "cc_supports_version (build_cpe_consistency ''f'' [''cpe:2.3:a:acme:web_app:1.2:*:*:*:*:*:*:*''] ''Web App'' ''Acme'' ['' 1.2 '']) \<and>
   (\<exists>v p r. parse_cpe23 ''cpe:2.3:a:acme:web_app:1.2:*:*:*:*:*:*:*'' = Some (v, p, r) \<and>
     normalize_token p = normalize_token ''Web App'')"
proof -
  let ?c = "''cpe:2.3:a:acme:web_app:1.2:*:*:*:*:*:*:*''"
  let ?K = "build_cpe_consistency ''f'' [?c] ''Web App'' ''Acme'' ['' 1.2 '']"
  have v: "cc_supports_version ?K" by code_simp
  note m = cpe_support_exact [of "''f''" "[?c]" "''Web App''" "''Acme''" "['' 1.2 '']"]
  from m v have "cc_supports_product ?K" by blast
  with m have "\<exists>v p r. parse_cpe23 ?c = Some (v, p, r) \<and>
      \<not> generic_token (normalize_token p) \<and> normalize_token p = normalize_token ''Web App''"
    by simp
  with v show ?thesis by blast
qed

text \<open>The CPE value \<open>-\<close> (not applicable) of a product is listed among the generic tokens, but
  \<open>_normalize_token\<close> has replaced it by a blank before the test: it is never counted as generic, and is
  reported as a mismatch with whatever product the finding declares.\<close>

lemma normalize_token_no_dash: "CHR ''-'' \<notin> set (normalize_token value)"
  by (auto simp: normalize_token_def)

text \<open>The not-applicable value \<open>-\<close> of a CPE product is never recognised as generic: it is counted as a
  mismatch with any declared product.\<close>

theorem cpe_na_counted_as_mismatch:
  assumes "normalize_token product \<noteq> []" "normalize_token product \<noteq> '' ''"
    and "parse_cpe23 c = Some (v, ''-'', r)"
  shows "cc_generic_product (build_cpe_consistency fid [c] product vendor observed) = 0 \<and>
    cc_mismatch (build_cpe_consistency fid [c] product vendor observed) = 1"
proof -
  have "normalize_token ''-'' = '' ''" by code_simp
  then show ?thesis using assms
    by (auto simp: build_cpe_consistency_def Let_def count_list_of_def generic_token_def)
qed

lemma cpe_na_counted_as_mismatch_witness:
  "cc_mismatch (build_cpe_consistency ''f'' [''cpe:2.3:a:acme:-:1.2:*:*:*:*:*:*:*''] ''Web App'' ''Acme'' []) = 1"
proof -
  have a: "normalize_token ''Web App'' \<noteq> []" by code_simp
  have b: "normalize_token ''Web App'' \<noteq> '' ''" by code_simp
  have c: "parse_cpe23 ''cpe:2.3:a:acme:-:1.2:*:*:*:*:*:*:*'' = Some (''acme'', ''-'', ''1.2'')" by code_simp
  show ?thesis using cpe_na_counted_as_mismatch [OF a b c] by blast
qed

end
