(* ===== verification/PyFloat.thy ===== *)
theory PyFloat
  imports PyData
begin

text \<open>
  Python floats that may be infinite or not a number, with the comparisons of IEEE 754, and the
  built-in \<open>float()\<close>. Reading a float from a text is the parameter \<open>pf\<close>; an integer is not rounded
  (Python rounds beyond \<open>2^53\<close>, far above every bound the code compares with).
\<close>

datatype pyfloat = Fin rat | PosInf | NegInf | NotANumber

fun float_lt :: "pyfloat \<Rightarrow> pyfloat \<Rightarrow> bool" where
  "float_lt (Fin a) (Fin b) = (a < b)"
| "float_lt NegInf (Fin b) = True"
| "float_lt (Fin a) PosInf = True"
| "float_lt NegInf PosInf = True"
| "float_lt _ _ = False"

fun float_eq :: "pyfloat \<Rightarrow> pyfloat \<Rightarrow> bool" where
  "float_eq (Fin a) (Fin b) = (a = b)"
| "float_eq PosInf PosInf = True"
| "float_eq NegInf NegInf = True"
| "float_eq _ _ = False"

definition float_le :: "pyfloat \<Rightarrow> pyfloat \<Rightarrow> bool" where
  "float_le a b = (float_lt a b \<or> float_eq a b)"

lemma float_le_Fin [simp]: "float_le (Fin a) (Fin b) \<longleftrightarrow> a \<le> b"
  by (auto simp: float_le_def)

lemma float_nan [simp]: "\<not> float_lt NotANumber x" "\<not> float_lt x NotANumber"
    "\<not> float_le NotANumber x" "\<not> float_le x NotANumber"
  by (cases x; simp add: float_le_def)+

definition is_finite :: "pyfloat \<Rightarrow> bool" where
  "is_finite x = (case x of Fin _ \<Rightarrow> True | _ \<Rightarrow> False)"

lemma is_finiteE: "is_finite x \<Longrightarrow> (\<And>q. x = Fin q \<Longrightarrow> P) \<Longrightarrow> P"
  by (cases x) (auto simp: is_finite_def)

definition float_of :: "(string \<Rightarrow> pyfloat option) \<Rightarrow> pyval \<Rightarrow> pyfloat result" where
  "float_of pf v =
     (case v of
        PBool b \<Rightarrow> Inr (Fin (if b then 1 else 0))
      | PInt i \<Rightarrow> if \<bar>i\<bar> < 2 ^ 1024 - 2 ^ 970 then Inr (Fin (of_int i))
                  else Inl (OverflowError ''int too large to convert to float'')
      | PFloat q t \<Rightarrow> Inr (Fin q)
      | PStr s \<Rightarrow> (case pf s of None \<Rightarrow> Inl (ValueError ''could not convert string to float'') | Some x \<Rightarrow> Inr x)
      | _ \<Rightarrow> Inl (TypeError ''float() argument must be a string or a real number''))"

end
