(* ===== verification/JobProvenance.thy ===== *)
theory JobProvenance
  imports CampaignAudit PyFloat
begin

text \<open>
  \<open>backend/app/hackerone_binding.py\<close> and \<open>backend/app/job_provenance.py\<close>: the binding of a campaign to
  an external policy, and the provenance a job carries so that a worker refuses it once the
  campaign's policy has changed. \<open>H\<close> and \<open>K\<close> are the digests of \<open>PolicyIntegrity\<close>, \<open>fr\<close> is the \<open>repr\<close> of
  a finite float and \<open>pf\<close> the reading of a float from a text.
\<close>

section \<open>The policy snapshot\<close>

definition sorted_texts :: "string list \<Rightarrow> pyval" where
  "sorted_texts xs = PList (map PStr (sort xs))"

definition stable_policy_snapshot :: "(rat \<Rightarrow> string) \<Rightarrow> campaign \<Rightarrow> pydict result" where
  "stable_policy_snapshot fr c =
     rbind (url_host (c_url c)) (\<lambda>host. let rules = c_rules c in
       Inr [(''campaign_id'', PStr (c_id c)), (''target'', PStr (c_url c)), (''host'', PStr host),
            (''authorization_reference'', PStr (authorization_reference rules)),
            (''allowed_targets'', sorted_texts (allowed_targets rules)),
            (''denied_targets'', sorted_texts (denied_targets rules)),
            (''max_requests_per_second'', PFloat (max_requests_per_second rules) (fr (max_requests_per_second rules))),
            (''automated_scanning'', PBool (automated_scanning rules)),
            (''destructive_testing'', PBool (destructive_testing rules)),
            (''denial_of_service'', PBool (denial_of_service rules)),
            (''social_engineering'', PBool (social_engineering rules)),
            (''credential_attacks'', PBool (credential_attacks rules))])"

definition canonical_json_sha256 :: "(string \<Rightarrow> string) \<Rightarrow> pyval \<Rightarrow> string" where
  "canonical_json_sha256 H v = H (json_dumps True v)"

definition policy_snapshot_fingerprint :: "(string \<Rightarrow> string) \<Rightarrow> (rat \<Rightarrow> string) \<Rightarrow> campaign \<Rightarrow> string result" where
  "policy_snapshot_fingerprint H fr c =
     rbind (stable_policy_snapshot fr c) (\<lambda>s. Inr (H (json_dumps True (PDict s))))"

section \<open>The binding to an external policy\<close>

definition binding_fingerprint_of :: "(string \<Rightarrow> string) \<Rightarrow> string \<Rightarrow> string \<Rightarrow> pydict option \<Rightarrow> string" where
  "binding_fingerprint_of H snapshot_sha campaign_fp remote =
     canonical_json_sha256 H (PDict ([(''provider'', PStr ''hackerone''), (''mode'', PStr ''conservative''),
       (''policy_snapshot_sha256'', PStr snapshot_sha), (''campaign_policy_fingerprint'', PStr campaign_fp)] @
       (case remote of None \<Rightarrow> [] | Some r \<Rightarrow> [(''remote_binding'', PDict r)])))"

text \<open>Membership in a set needs a hashable value; a list or a dict raises.\<close>

definition hashable :: "pyval \<Rightarrow> unit result" where
  "hashable v = (case v of PList _ \<Rightarrow> Inl (TypeError ''unhashable type: list'')
     | PDict _ \<Rightarrow> Inl (TypeError ''unhashable type: dict'') | _ \<Rightarrow> Inr ())"

definition hex64 :: "string \<Rightarrow> bool" where
  "hex64 s = (length s = 64 \<and> list_all (\<lambda>c. c \<in> set ''0123456789abcdef'') s)"

definition is_hex64 :: "pyval \<Rightarrow> bool" where
  "is_hex64 v = (case v of PStr s \<Rightarrow> hex64 s | _ \<Rightarrow> False)"

definition handle_ok :: "pyval \<Rightarrow> bool" where
  "handle_ok v = (case v of PStr s \<Rightarrow> s \<noteq> [] \<and>
     list_all (\<lambda>c. c \<in> set ''abcdefghijklmnopqrstuvwxyz0123456789_-'') s | _ \<Rightarrow> False)"

definition reason_if :: "bool \<Rightarrow> string \<Rightarrow> string list" where
  "reason_if c r = (if c then [r] else [])"

lemma reason_if_Nil [simp]: "reason_if c r = [] \<longleftrightarrow> \<not> c"
  by (simp add: reason_if_def)

text \<open>\<open>_validated_remote_binding\<close>: the validated dict, if any, and the reasons it adds. None of the
  reasons recorded before starts with \<open>remote_binding_\<close>.\<close>

definition validated_remote_binding :: "pyval \<Rightarrow> (pydict option \<times> string list) result" where
  "validated_remote_binding value =
     (case value of
        PNone \<Rightarrow> Inr (None, [])
      | PDict v \<Rightarrow>
          (let handle = pget v ''handle''; sha = pget v ''snapshot_sha256''; verified = pget v ''verified'';
               scope_mode = pget v ''scope_mode''; scope_sha = pget v ''scope_document_sha256'' in
           rbind (if scope_mode = PNone then Inr () else hashable scope_mode) (\<lambda>_.
           let reasons =
                 reason_if (\<not> handle_ok handle) ''remote_binding_handle_invalid'' @
                 reason_if (\<not> is_hex64 sha) ''remote_binding_snapshot_sha256_invalid'' @
                 reason_if (verified \<noteq> PBool True) ''remote_binding_not_verified'' @
                 reason_if (scope_mode \<noteq> PNone \<and> scope_mode \<notin> {PStr ''full'', PStr ''exact-domain''})
                   ''remote_binding_scope_mode_invalid'' @
                 reason_if (scope_sha \<noteq> PNone \<and> \<not> is_hex64 scope_sha)
                   ''remote_binding_scope_document_sha256_invalid'' in
           if reasons \<noteq> [] then Inr (None, reasons)
           else Inr (Some ([(''handle'', handle), (''snapshot_sha256'', sha), (''verified'', PBool True)] @
             (if scope_mode \<noteq> PNone then [(''scope_mode'', scope_mode)] else []) @
             (if scope_sha \<noteq> PNone then [(''scope_document_sha256'', scope_sha)] else [])), [])))
      | _ \<Rightarrow> Inr (None, [''remote_binding_invalid'']))"

record binding_verdict =
  bv_required :: bool
  bv_valid :: bool
  bv_reasons :: "string list"
  bv_fingerprint :: "string option"

definition binding_events :: "pydict list \<Rightarrow> pydict list" where
  "binding_events events = filter (\<lambda>e. py_eq (pget e ''type'') (PStr ''hackerone_policy_bound'')) events"

text \<open>\<open>x is not True\<close>: no other value is the object \<open>True\<close>.\<close>

definition verify_hackerone_campaign_binding ::
  "(string \<Rightarrow> string) \<Rightarrow> (string \<Rightarrow> string \<Rightarrow> string) \<Rightarrow> string option result \<Rightarrow> campaign \<Rightarrow> string \<Rightarrow>
   binding_verdict result" where
  "verify_hackerone_campaign_binding H K secret_r c current =
     (let bes = binding_events (c_events c) in
      if bes = [] then Inr \<lparr>bv_required = False, bv_valid = True, bv_reasons = [], bv_fingerprint = None\<rparr>
      else
        rbind (verify_campaign_event_chain H K secret_r (c_events c)) (\<lambda>audit.
        let binding = last bes;
            snapshot_v = pget binding ''policy_snapshot'';
            snapshot = (case snapshot_v of PDict d \<Rightarrow> d | _ \<Rightarrow> []);
            actual = canonical_json_sha256 H (PDict snapshot) in
        rbind (hashable (pget snapshot ''test_account_constraints'')) (\<lambda>_.
        rbind (validated_remote_binding (pget binding ''remote_binding'')) (\<lambda>(remote, remote_reasons).
        let expected = binding_fingerprint_of H actual current remote;
            declared = str_or_empty (pget binding ''binding_fingerprint'');
            reasons =
              reason_if (length bes \<noteq> 1) ''binding_event_count_invalid'' @
              reason_if (\<not> av_valid audit \<or> av_legacy audit \<noteq> 0) ''campaign_audit_chain_invalid'' @
              reason_if (\<not> py_eq (pget binding ''provider'') (PStr ''hackerone'')) ''binding_provider_invalid'' @
              reason_if (\<not> py_eq (pget binding ''mode'') (PStr ''conservative'')) ''binding_mode_invalid'' @
              reason_if (\<not> (case snapshot_v of PDict _ \<Rightarrow> True | _ \<Rightarrow> False)) ''policy_snapshot_missing'' @
              reason_if (str_or_empty (pget binding ''policy_snapshot_sha256'') \<noteq> actual) ''policy_snapshot_sha256_mismatch'' @
              reason_if (pget snapshot ''safe_harbor_confirmed'' \<noteq> PBool True) ''safe_harbor_not_confirmed'' @
              reason_if (pget snapshot ''automated_scanning'' \<noteq> PBool True) ''automated_scanning_not_authorized'' @
              reason_if (pget snapshot ''test_account_required'' \<noteq> PBool False) ''test_account_workflow_not_supported'' @
              reason_if (pget snapshot ''test_account_constraints'' \<notin> {PStr [], PNone})
                ''test_account_constraints_not_supported'' @
              reason_if (pget snapshot ''additional_restrictions'' \<notin> {PList [], PNone})
                ''additional_restrictions_require_manual_enforcement'' @
              reason_if (str_or_empty (pget binding ''campaign_policy_fingerprint'') \<noteq> current)
                ''campaign_policy_fingerprint_mismatch'' @
              remote_reasons @
              reason_if (declared \<noteq> expected) ''binding_fingerprint_mismatch'' in
        Inr \<lparr>bv_required = True, bv_valid = (reasons = []), bv_reasons = sorted_set reasons,
          bv_fingerprint = or_none declared\<rparr>))))"

section \<open>Provenance of a job\<close>

definition provenance_schema :: string where
  "provenance_schema = ''job-provenance-v1''"

definition build_job_provenance ::
  "(string \<Rightarrow> string) \<Rightarrow> (string \<Rightarrow> string \<Rightarrow> string) \<Rightarrow> (rat \<Rightarrow> string) \<Rightarrow> string option result \<Rightarrow> campaign \<Rightarrow>
   string \<Rightarrow> string \<Rightarrow> pydict result" where
  "build_job_provenance H K fr secret_r c kind action =
     rbind (stable_policy_snapshot fr c) (\<lambda>snapshot.
     rbind (policy_snapshot_fingerprint H fr c) (\<lambda>fp.
     rbind (verify_hackerone_campaign_binding H K secret_r c fp) (\<lambda>binding.
       if bv_required binding \<and> \<not> bv_valid binding
       then Inl (HTTPException 409 ''HackerOne policy binding invalid'')
       else Inr ([(''schema'', PStr provenance_schema), (''campaign_id'', PStr (c_id c)), (''job_kind'', PStr kind),
           (''action'', PStr action), (''scope_host'', pget snapshot ''host''), (''policy_fingerprint'', PStr fp),
           (''request_rate_limit'', pget snapshot ''max_requests_per_second'')] @
         (if bv_required binding
          then [(''external_policy_provider'', PStr ''hackerone''),
                (''external_policy_fingerprint'', (case bv_fingerprint binding of None \<Rightarrow> PNone | Some f \<Rightarrow> PStr f))]
          else [])))))"

definition attach_job_provenance ::
  "(string \<Rightarrow> string) \<Rightarrow> (string \<Rightarrow> string \<Rightarrow> string) \<Rightarrow> (rat \<Rightarrow> string) \<Rightarrow> string option result \<Rightarrow> pydict \<Rightarrow>
   campaign \<Rightarrow> string \<Rightarrow> string \<Rightarrow> pydict result" where
  "attach_job_provenance H K fr secret_r payload c kind action =
     (if map_of payload ''_provenance'' \<noteq> None
      then Inl (AppError ''JobProvenanceError'' ''job payload already contains provenance metadata'')
      else rbind (build_job_provenance H K fr secret_r c kind action) (\<lambda>p.
        Inr (payload @ [(''_provenance'', PDict p)])))"

record provenance_verdict =
  pv_valid :: bool
  pv_reasons :: "string list"
  pv_fingerprint :: "string option"
  pv_expected :: string

text \<open>The job is the dict the queue returns: \<open>kind\<close> and \<open>payload\<close> are read.\<close>

definition verify_job_provenance ::
  "(string \<Rightarrow> string) \<Rightarrow> (string \<Rightarrow> string \<Rightarrow> string) \<Rightarrow> (rat \<Rightarrow> string) \<Rightarrow> (string \<Rightarrow> pyfloat option) \<Rightarrow>
   string option result \<Rightarrow> pydict \<Rightarrow> campaign \<Rightarrow> provenance_verdict result" where
  "verify_job_provenance H K fr pf secret_r job c =
     (let provenance = (case pget job ''payload'' of PDict p \<Rightarrow> pget p ''_provenance'' | _ \<Rightarrow> PNone) in
      rbind (policy_snapshot_fingerprint H fr c) (\<lambda>expected.
      case provenance of
        PDict p \<Rightarrow>
          rbind (verify_hackerone_campaign_binding H K secret_r c expected) (\<lambda>binding.
          rbind (stable_policy_snapshot fr c) (\<lambda>snapshot.
          rbind (case float_of pf (pget p ''request_rate_limit'') of
              Inl (TypeError _) \<Rightarrow> Inr [''invalid_request_rate_limit'']
            | Inl (ValueError _) \<Rightarrow> Inr [''invalid_request_rate_limit'']
            | Inl e \<Rightarrow> Inl e
            | Inr r \<Rightarrow> Inr (reason_if (\<not> float_eq r (Fin (max_requests_per_second (c_rules c))))
                ''request_rate_limit_mismatch'')) (\<lambda>rate_reasons.
          let actual = str_or_empty (pget p ''policy_fingerprint'');
              reasons =
                reason_if (\<not> py_eq (pget p ''schema'') (PStr provenance_schema)) ''unsupported_provenance_schema'' @
                reason_if (str_or_empty (pget p ''campaign_id'') \<noteq> c_id c) ''campaign_id_mismatch'' @
                reason_if (str_or_empty (pget p ''job_kind'') \<noteq> str_or_empty (pget job ''kind'')) ''job_kind_mismatch'' @
                reason_if (actual \<noteq> expected) ''policy_fingerprint_mismatch'' @
                (if bv_required binding then
                   reason_if (\<not> bv_valid binding) ''external_policy_binding_invalid'' @
                   reason_if (\<not> py_eq (pget p ''external_policy_provider'') (PStr ''hackerone''))
                     ''external_policy_provider_mismatch'' @
                   reason_if (str_or_empty (pget p ''external_policy_fingerprint'') \<noteq>
                       (case bv_fingerprint binding of None \<Rightarrow> [] | Some f \<Rightarrow> f)) ''external_policy_fingerprint_mismatch''
                 else []) @
                reason_if (py_lower (str_or_empty (pget p ''scope_host'')) \<noteq> str_or_empty (pget snapshot ''host''))
                  ''scope_host_mismatch'' @
                rate_reasons in
          Inr \<lparr>pv_valid = (reasons = []), pv_reasons = sorted_set reasons, pv_fingerprint = or_none actual,
            pv_expected = expected\<rparr>)))
      | _ \<Rightarrow> Inr \<lparr>pv_valid = False, pv_reasons = [''provenance_missing''], pv_fingerprint = None,
            pv_expected = expected\<rparr>))"

definition require_job_provenance ::
  "(string \<Rightarrow> string) \<Rightarrow> (string \<Rightarrow> string \<Rightarrow> string) \<Rightarrow> (rat \<Rightarrow> string) \<Rightarrow> (string \<Rightarrow> pyfloat option) \<Rightarrow>
   string option result \<Rightarrow> pydict \<Rightarrow> campaign \<Rightarrow> provenance_verdict result" where
  "require_job_provenance H K fr pf secret_r job c =
     rbind (verify_job_provenance H K fr pf secret_r job c) (\<lambda>v.
       if \<not> pv_valid v
       then Inl (AppError ''JobProvenanceError'' (''job provenance rejected: '' @ py_join '','' (pv_reasons v)))
       else Inr v)"

definition governed_job_kinds :: "string list" where
  "governed_job_kinds = [''strix_scan'', ''nuclei_scan'', ''recon_task'', ''browser_flow'',
     ''independent_validation'', ''report'']"

definition provenance_required_for_job_kind :: "string \<Rightarrow> bool" where
  "provenance_required_for_job_kind kind = (kind \<in> set governed_job_kinds)"

section \<open>What a verified job says of the campaign\<close>

lemma py_lower_char_idem: "py_lower_char (py_lower_char c) = py_lower_char c"
  by (auto simp: py_lower_char_def Let_def of_char_of)

lemma py_lower_idem [simp]: "py_lower (py_lower s) = py_lower s"
  by (simp add: py_lower_def py_lower_char_idem)

lemma str_or_empty_simps [simp]: "str_or_empty (PStr s) = s" "str_or_empty PNone = []"
  by (simp_all add: str_or_empty_def py_str_def)

lemma or_none_str: "(case or_none s of None \<Rightarrow> [] | Some f \<Rightarrow> f) = s"
  by (simp add: or_none_def)

lemma url_host_lower: "url_host u = Inr h \<Longrightarrow> py_lower h = h"
  by (auto simp: url_host_def)

lemma snapshot_fields:
  assumes "stable_policy_snapshot fr c = Inr s"
  shows "pget s ''max_requests_per_second'' =
      PFloat (max_requests_per_second (c_rules c)) (fr (max_requests_per_second (c_rules c)))"
    and "\<exists>h. pget s ''host'' = PStr h \<and> py_lower h = h"
  using assms url_host_lower by (auto simp: stable_policy_snapshot_def Let_def pget_def)

lemma provenance_facts:
  assumes "build_job_provenance H K fr r c kind action = Inr p"
  obtains s fp b where "stable_policy_snapshot fr c = Inr s" "fp = H (json_dumps True (PDict s))"
    "verify_hackerone_campaign_binding H K r c fp = Inr b" "bv_required b \<longrightarrow> bv_valid b"
    "pget p ''schema'' = PStr provenance_schema" "pget p ''campaign_id'' = PStr (c_id c)"
    "pget p ''job_kind'' = PStr kind" "pget p ''scope_host'' = pget s ''host''"
    "pget p ''policy_fingerprint'' = PStr fp" "pget p ''request_rate_limit'' = pget s ''max_requests_per_second''"
    "bv_required b \<longrightarrow> pget p ''external_policy_provider'' = PStr ''hackerone'' \<and>
      pget p ''external_policy_fingerprint'' = (case bv_fingerprint b of None \<Rightarrow> PNone | Some f \<Rightarrow> PStr f)"
proof -
  from assms obtain s fp b where s: "stable_policy_snapshot fr c = Inr s"
    and fp: "policy_snapshot_fingerprint H fr c = Inr fp"
    and b: "verify_hackerone_campaign_binding H K r c fp = Inr b" "bv_required b \<longrightarrow> bv_valid b"
    and p: "p = [(''schema'', PStr provenance_schema), (''campaign_id'', PStr (c_id c)), (''job_kind'', PStr kind),
           (''action'', PStr action), (''scope_host'', pget s ''host''), (''policy_fingerprint'', PStr fp),
           (''request_rate_limit'', pget s ''max_requests_per_second'')] @
         (if bv_required b
          then [(''external_policy_provider'', PStr ''hackerone''),
                (''external_policy_fingerprint'', (case bv_fingerprint b of None \<Rightarrow> PNone | Some f \<Rightarrow> PStr f))]
          else [])"
    by (auto simp: build_job_provenance_def split: if_splits)
  from fp s have "fp = H (json_dumps True (PDict s))" by (simp add: policy_snapshot_fingerprint_def)
  with s b show thesis by (intro that [of s fp b]) (auto simp: p pget_def)
qed

lemma attach_Inr:
  assumes "attach_job_provenance H K fr r payload c kind action = Inr payload'"
  obtains p where "build_job_provenance H K fr r c kind action = Inr p" "pget payload' ''_provenance'' = PDict p"
  using assms by (auto simp: attach_job_provenance_def pget_def map_add_def split: if_splits option.splits)

text \<open>What is attached verifies against the same campaign.\<close>

lemma attached_verifies:
  assumes "attach_job_provenance H K fr r payload c kind action = Inr payload'"
  shows "\<exists>v. verify_job_provenance H K fr pf r [(''kind'', PStr kind), (''payload'', PDict payload')] c = Inr v \<and> pv_valid v"
proof -
  let ?job = "[(''kind'', PStr kind), (''payload'', PDict payload')]"
  obtain p where bp: "build_job_provenance H K fr r c kind action = Inr p" and pl: "pget payload' ''_provenance'' = PDict p"
    using attach_Inr [OF assms] .
  have job: "pget ?job ''payload'' = PDict payload'" "pget ?job ''kind'' = PStr kind" by (simp_all add: pget_def)
  from bp obtain s fp b where f: "stable_policy_snapshot fr c = Inr s" "fp = H (json_dumps True (PDict s))"
    "verify_hackerone_campaign_binding H K r c fp = Inr b" "bv_required b \<longrightarrow> bv_valid b"
    "pget p ''schema'' = PStr provenance_schema" "pget p ''campaign_id'' = PStr (c_id c)"
    "pget p ''job_kind'' = PStr kind" "pget p ''scope_host'' = pget s ''host''"
    "pget p ''policy_fingerprint'' = PStr fp" "pget p ''request_rate_limit'' = pget s ''max_requests_per_second''"
    "bv_required b \<longrightarrow> pget p ''external_policy_provider'' = PStr ''hackerone'' \<and>
      pget p ''external_policy_fingerprint'' = (case bv_fingerprint b of None \<Rightarrow> PNone | Some f \<Rightarrow> PStr f)"
    by (rule provenance_facts)
  note sf = snapshot_fields [OF f(1)]
  show ?thesis
    using f sf
    by (cases "bv_fingerprint b")
      (auto simp: verify_job_provenance_def Let_def job pl policy_snapshot_fingerprint_def float_of_def py_eq_PStr)
qed



end
