(* ===== verification/StrixContract.thy ===== *)
theory StrixContract
  imports JobProvenance FindingReview
begin

text \<open>
  \<open>backend/app/strix_execution_contract.py\<close>: the signed contract under which the Strix engine runs, and
  the decision of the broker whether a request is covered by it. The digests are those of
  \<open>PolicyIntegrity\<close> (\<open>H\<close>, and \<open>K key text\<close>); the signing key is what \<open>resolve_secret\<close> answers.
\<close>

definition contract_schema :: string where
  "contract_schema = ''strix-execution-contract-v1''"

definition contract_domain :: string where
  "contract_domain = ''xbow:strix-execution-contract:v1'' @ [CHR 0x00]"

abbreviation contract_error :: "string \<Rightarrow> py_error" where
  "contract_error m \<equiv> AppError ''StrixExecutionContractError'' m"

record strix_contract =
  sc_schema :: string
  sc_engine :: string
  sc_campaign :: string
  sc_job :: string
  sc_target :: string
  sc_fingerprint :: string
  sc_allowed :: "string list"
  sc_denied :: "string list"
  sc_rps :: rat
  sc_egress :: bool
  sc_socket :: bool
  sc_validation :: bool
  sc_hash :: string
  sc_alg :: "string option"
  sc_sig :: "string option"

record strix_request =
  sr_contract :: string
  sr_target :: string
  sr_host :: string
  sr_rps :: pyfloat

section \<open>Building\<close>

definition validate_job_id :: "string \<Rightarrow> string result" where
  "validate_job_id job_id =
     (let value = py_strip job_id in
      if value = [] \<or> length value > 128 \<or> list_ex bad_ident_char value
      then Inl (contract_error ''Strix execution contract job id is invalid'')
      else Inr value)"

definition canonical_contract :: "(rat \<Rightarrow> string) \<Rightarrow> strix_contract \<Rightarrow> string" where
  "canonical_contract fr k = json_dumps True (PDict
     [(''schema'', PStr (sc_schema k)), (''engine'', PStr (sc_engine k)), (''campaign_id'', PStr (sc_campaign k)),
      (''job_id'', PStr (sc_job k)), (''primary_target'', PStr (sc_target k)),
      (''policy_fingerprint'', PStr (sc_fingerprint k)), (''allowed_targets'', PList (map PStr (sc_allowed k))),
      (''denied_targets'', PList (map PStr (sc_denied k))), (''max_requests_per_second'', PFloat (sc_rps k) (fr (sc_rps k))),
      (''direct_egress_allowed'', PBool (sc_egress k)), (''host_container_socket_allowed'', PBool (sc_socket k)),
      (''independent_validation_required'', PBool (sc_validation k))])"

definition contract_secret :: "string option result \<Rightarrow> string option result" where
  "contract_secret secret_r = (case secret_r of
     Inl (SecretVaultError m) \<Rightarrow> Inl (contract_error ''Strix execution contract signing key is unavailable'')
   | r \<Rightarrow> r)"

definition unsafe_campaign_reasons :: "campaign \<Rightarrow> string list result" where
  "unsafe_campaign_reasons c =
     (let rules = c_rules c;
          flags = reason_if (\<not> automated_scanning rules) ''automated_scanning_disabled'' @
            reason_if (destructive_testing rules) ''destructive_testing_enabled'' @
            reason_if (denial_of_service rules) ''denial_of_service_enabled'' @
            reason_if (social_engineering rules) ''social_engineering_enabled'' @
            reason_if (credential_attacks rules) ''credential_attacks_enabled'' in
      rbind (url_host (c_url c)) (\<lambda>h. let host = rstrip_dot h in
        if host = [] then Inr (flags @ [''primary_target_outside_scope''])
        else rbind (is_host_allowed host (allowed_targets rules) (denied_targets rules)) (\<lambda>ok.
          Inr (flags @ reason_if (\<not> ok) ''primary_target_outside_scope''))))"

definition normalized_set :: "string list \<Rightarrow> string list result" where
  "normalized_set ps = rbind (rmap normalize_pattern ps) (\<lambda>qs. Inr (sorted_set qs))"

definition unsigned_contract :: "campaign \<Rightarrow> string \<Rightarrow> string \<Rightarrow> string list \<Rightarrow> string list \<Rightarrow> strix_contract" where
  "unsigned_contract c job fp allowed denied =
     \<lparr>sc_schema = contract_schema, sc_engine = ''strix'', sc_campaign = c_id c, sc_job = job,
      sc_target = c_url c, sc_fingerprint = fp, sc_allowed = allowed, sc_denied = denied,
      sc_rps = max_requests_per_second (c_rules c), sc_egress = False, sc_socket = False, sc_validation = True,
      sc_hash = [], sc_alg = None, sc_sig = None\<rparr>"

definition build_strix_execution_contract ::
  "(string \<Rightarrow> string) \<Rightarrow> (string \<Rightarrow> string \<Rightarrow> string) \<Rightarrow> (rat \<Rightarrow> string) \<Rightarrow> string option result \<Rightarrow> campaign \<Rightarrow>
   string \<Rightarrow> strix_contract result" where
  "build_strix_execution_contract H K fr secret_r c job_id =
     rbind (unsafe_campaign_reasons c) (\<lambda>reasons.
     if reasons \<noteq> [] then Inl (contract_error (''Strix execution contract denied: '' @ py_join '','' reasons))
     else rbind (validate_job_id job_id) (\<lambda>job.
     rbind (normalized_set (allowed_targets (c_rules c))) (\<lambda>allowed.
     rbind (normalized_set (denied_targets (c_rules c))) (\<lambda>denied.
     rbind (policy_snapshot_fingerprint H fr c) (\<lambda>fp.
     let unsigned = unsigned_contract c job fp allowed denied;
         canonical = canonical_contract fr unsigned in
     rbind (contract_secret secret_r) (\<lambda>secret.
       let signature = (case secret of Some (s # ss) \<Rightarrow> or_none (K (s # ss) (contract_domain @ canonical)) | _ \<Rightarrow> None) in
       Inr (unsigned\<lparr>sc_hash := H canonical,
         sc_alg := (if signature \<noteq> None then Some ''hmac-sha256'' else None), sc_sig := signature\<rparr>)))))))"

section \<open>Verifying\<close>

definition verify_strix_contract_integrity ::
  "(string \<Rightarrow> string) \<Rightarrow> (string \<Rightarrow> string \<Rightarrow> string) \<Rightarrow> (rat \<Rightarrow> string) \<Rightarrow> string option result \<Rightarrow> strix_contract \<Rightarrow>
   bool \<Rightarrow> string option \<Rightarrow> unit result" where
  "verify_strix_contract_integrity H K fr secret_r k require_signature verification_secret =
     (let canonical = canonical_contract fr k in
      rbind (compare_digest (sc_hash k) (H canonical)) (\<lambda>same.
      if \<not> same then Inl (contract_error ''Strix execution contract hash mismatch'')
      else (case sc_sig k of
          None \<Rightarrow>
            if require_signature then Inl (contract_error ''Strix execution contract signature is required'')
            else if sc_alg k \<noteq> None then Inl (contract_error ''Strix execution contract signature metadata is invalid'')
            else Inr ()
        | Some signature \<Rightarrow>
            if sc_alg k \<noteq> Some ''hmac-sha256''
            then Inl (contract_error ''Strix execution contract signature algorithm is unsupported'')
            else rbind (case verification_secret of Some s \<Rightarrow> Inr (Some s) | None \<Rightarrow> contract_secret secret_r) (\<lambda>secret.
              case secret of
                Some (s # ss) \<Rightarrow>
                  rbind (compare_digest signature (K (s # ss) (contract_domain @ canonical))) (\<lambda>ok.
                    if ok then Inr () else Inl (contract_error ''Strix execution contract signature mismatch''))
              | _ \<Rightarrow> Inl (contract_error ''Strix execution contract verification key is unavailable'')))))"

definition verify_strix_execution_contract ::
  "(string \<Rightarrow> string) \<Rightarrow> (string \<Rightarrow> string \<Rightarrow> string) \<Rightarrow> (rat \<Rightarrow> string) \<Rightarrow> string option result \<Rightarrow> strix_contract \<Rightarrow>
   campaign \<Rightarrow> string \<Rightarrow> unit result" where
  "verify_strix_execution_contract H K fr secret_r k c job_id =
     rbind (verify_strix_contract_integrity H K fr secret_r k False None) (\<lambda>_.
     if sc_schema k \<noteq> contract_schema \<or> sc_engine k \<noteq> ''strix''
       then Inl (contract_error ''Strix execution contract schema is unsupported'')
     else if sc_campaign k \<noteq> c_id c then Inl (contract_error ''Strix execution contract campaign mismatch'')
     else rbind (validate_job_id job_id) (\<lambda>job.
     if sc_job k \<noteq> job then Inl (contract_error ''Strix execution contract job mismatch'')
     else rbind (policy_snapshot_fingerprint H fr c) (\<lambda>fp.
     if sc_fingerprint k \<noteq> fp then Inl (contract_error ''Strix execution contract policy changed'')
     else rbind (normalized_set (allowed_targets (c_rules c))) (\<lambda>allowed.
     rbind (normalized_set (denied_targets (c_rules c))) (\<lambda>denied.
     if sc_allowed k \<noteq> allowed \<or> sc_denied k \<noteq> denied
       then Inl (contract_error ''Strix execution contract scope changed'')
     else if sc_target k \<noteq> c_url c then Inl (contract_error ''Strix execution contract target changed'')
     else if sc_rps k \<noteq> max_requests_per_second (c_rules c)
       then Inl (contract_error ''Strix execution contract rate changed'')
     else rbind (unsafe_campaign_reasons c) (\<lambda>reasons.
     if reasons \<noteq> [] then Inl (contract_error ''Strix execution contract campaign is no longer admissible'')
     else if sc_egress k \<or> sc_socket k \<or> \<not> sc_validation k
       then Inl (contract_error ''Strix execution contract safety invariants changed'')
     else Inr ()))))))"

section \<open>The broker's decision\<close>

definition port_ok :: "int option \<Rightarrow> bool" where
  "port_ok p = (case p of None \<Rightarrow> True | Some n \<Rightarrow> 1 \<le> n \<and> n \<le> 65535)"

definition authorize_strix_contract_request ::
  "(string \<Rightarrow> string) \<Rightarrow> (string \<Rightarrow> string \<Rightarrow> string) \<Rightarrow> (rat \<Rightarrow> string) \<Rightarrow> string option result \<Rightarrow> strix_contract \<Rightarrow>
   string \<Rightarrow> pyfloat \<Rightarrow> string option \<Rightarrow> strix_request result" where
  "authorize_strix_contract_request H K fr secret_r k target requested_rps verification_secret =
     (let outside = contract_error ''Strix request target is outside scope'' in
      rbind (verify_strix_contract_integrity H K fr secret_r k True verification_secret) (\<lambda>_.
      if sc_schema k \<noteq> contract_schema \<or> sc_engine k \<noteq> ''strix''
        then Inl (contract_error ''Strix execution contract schema is unsupported'')
      else if sc_egress k \<or> sc_socket k \<or> \<not> sc_validation k
        then Inl (contract_error ''Strix execution contract safety invariants changed'')
      else (case urlsplit target of
          Inl _ \<Rightarrow> Inl outside
        | Inr u \<Rightarrow>
            (let host = host_or_empty u in
             case sp_port u of
               Inl _ \<Rightarrow> Inl outside
             | Inr port \<Rightarrow>
                 if sp_scheme u \<notin> {''http'', ''https''} \<or> host = [] \<or> has_userinfo u \<or> sp_fragment u \<noteq> [] \<or>
                    \<not> port_ok port
                 then Inl outside
                 else rbind (is_host_allowed host (sc_allowed k) (sc_denied k)) (\<lambda>ok.
                   if \<not> ok then Inl outside
                   else if float_le requested_rps (Fin 0) \<or> float_lt (Fin (sc_rps k)) requested_rps
                     then Inl (contract_error ''Strix request rate exceeds contract cap'')
                   else Inr \<lparr>sr_contract = sc_hash k, sr_target = target, sr_host = host, sr_rps = requested_rps\<rparr>)))))"

section \<open>What a contract guarantees\<close>

lemma compare_digest_hex: "hex_digests H \<Longrightarrow> compare_digest (H t) (H t) = Inr True"
  by (simp add: compare_digest_def hex_digests_def)

lemma compare_digest_True: "compare_digest a b = Inr True \<Longrightarrow> a = b"
  by (simp add: compare_digest_def split: if_splits)

lemma integrity_Inr:
  assumes "verify_strix_contract_integrity H K fr secret_r k req vs = Inr ()"
  shows "sc_hash k = H (canonical_contract fr k)"
    and "req \<or> sc_sig k \<noteq> None \<Longrightarrow> \<exists>s. s \<noteq> [] \<and> (vs = Some s \<or> vs = None \<and> contract_secret secret_r = Inr (Some s)) \<and>
      sc_sig k = Some (K s (contract_domain @ canonical_contract fr k))"
  using assms
  by (auto simp: verify_strix_contract_integrity_def Let_def split: if_splits option.splits list.splits
      dest!: compare_digest_True)

lemma canonical_contract_signed [simp]:
  "canonical_contract fr (k\<lparr>sc_hash := h, sc_alg := a, sc_sig := sg\<rparr>) = canonical_contract fr k"
  by (simp add: canonical_contract_def del: json_dumps.simps)

text \<open>A built contract, field by field.\<close>

lemma build_contract_Inr:
  assumes "build_strix_execution_contract H K fr secret_r c job_id = Inr k"
  obtains job allowed denied fp secret where "unsafe_campaign_reasons c = Inr []" "validate_job_id job_id = Inr job"
    "normalized_set (allowed_targets (c_rules c)) = Inr allowed" "normalized_set (denied_targets (c_rules c)) = Inr denied"
    "policy_snapshot_fingerprint H fr c = Inr fp" "contract_secret secret_r = Inr secret"
    "sc_schema k = contract_schema" "sc_engine k = ''strix''" "sc_campaign k = c_id c" "sc_job k = job"
    "sc_target k = c_url c" "sc_fingerprint k = fp" "sc_allowed k = allowed" "sc_denied k = denied"
    "sc_rps k = max_requests_per_second (c_rules c)" "\<not> sc_egress k" "\<not> sc_socket k" "sc_validation k"
    "sc_hash k = H (canonical_contract fr k)"
    "sc_sig k = (case secret of Some (s # ss) \<Rightarrow> or_none (K (s # ss) (contract_domain @ canonical_contract fr k)) | _ \<Rightarrow> None)"
    "sc_alg k = (if sc_sig k \<noteq> None then Some ''hmac-sha256'' else None)"
proof -
  from assms obtain job allowed denied fp secret where *: "unsafe_campaign_reasons c = Inr []" "validate_job_id job_id = Inr job"
    "normalized_set (allowed_targets (c_rules c)) = Inr allowed" "normalized_set (denied_targets (c_rules c)) = Inr denied"
    "policy_snapshot_fingerprint H fr c = Inr fp" "contract_secret secret_r = Inr secret"
    by (auto simp: build_strix_execution_contract_def Let_def split: if_splits)
  let ?u = "unsigned_contract c job fp allowed denied"
  let ?sg = "case secret of Some (s # ss) \<Rightarrow> or_none (K (s # ss) (contract_domain @ canonical_contract fr ?u)) | _ \<Rightarrow> None"
  have k: "k = ?u\<lparr>sc_hash := H (canonical_contract fr ?u),
      sc_alg := (if ?sg \<noteq> None then Some ''hmac-sha256'' else None), sc_sig := ?sg\<rparr>"
    using assms * by (simp add: build_strix_execution_contract_def Let_def)
  have can: "canonical_contract fr k = canonical_contract fr ?u" unfolding k by (rule canonical_contract_signed)
  show thesis
    by (rule that [OF *], simp_all only: can)
      (simp_all add: k, simp_all add: unsigned_contract_def split: option.splits list.splits)
qed

text \<open>C32: A contract that was built verifies: against its campaign and job, and, when a signing key is
  configured, with its signature required. Against a campaign whose identifier, policy fingerprint,
  scope, target or rate has changed, or that has become unsafe, no contract verifies.\<close>

theorem strix_contract_roundtrip:
  assumes "hex_digests H" and "\<And>s. hex_digests (K s)"
    and "build_strix_execution_contract H K fr secret_r c job_id = Inr k"
  shows "verify_strix_execution_contract H K fr secret_r k c job_id = Inr () \<and>
    (\<forall>s. contract_secret secret_r = Inr (Some s) \<longrightarrow> s \<noteq> [] \<longrightarrow>
      verify_strix_contract_integrity H K fr secret_r k True None = Inr ()) \<and>
    (\<forall>c'. verify_strix_execution_contract H K fr secret_r k c' job_id = Inr () \<longrightarrow>
      c_id c' = c_id c \<and> c_url c' = c_url c \<and> policy_snapshot_fingerprint H fr c' = policy_snapshot_fingerprint H fr c \<and>
      normalized_set (allowed_targets (c_rules c')) = normalized_set (allowed_targets (c_rules c)) \<and>
      normalized_set (denied_targets (c_rules c')) = normalized_set (denied_targets (c_rules c)) \<and>
      max_requests_per_second (c_rules c') = max_requests_per_second (c_rules c) \<and>
      unsafe_campaign_reasons c' = Inr [])"
  using assms(3)
proof (rule build_contract_Inr)
  fix job allowed denied fp secret
  assume b: "unsafe_campaign_reasons c = Inr []" "validate_job_id job_id = Inr job"
    "normalized_set (allowed_targets (c_rules c)) = Inr allowed" "normalized_set (denied_targets (c_rules c)) = Inr denied"
    "policy_snapshot_fingerprint H fr c = Inr fp" and sec: "contract_secret secret_r = Inr secret"
    and k: "sc_schema k = contract_schema" "sc_engine k = ''strix''" "sc_campaign k = c_id c" "sc_job k = job"
    "sc_target k = c_url c" "sc_fingerprint k = fp" "sc_allowed k = allowed" "sc_denied k = denied"
    "sc_rps k = max_requests_per_second (c_rules c)" "\<not> sc_egress k" "\<not> sc_socket k" "sc_validation k"
    and h: "sc_hash k = H (canonical_contract fr k)"
    and sg: "sc_sig k = (case secret of Some (s # ss) \<Rightarrow> or_none (K (s # ss) (contract_domain @ canonical_contract fr k)) | _ \<Rightarrow> None)"
    and alg: "sc_alg k = (if sc_sig k \<noteq> None then Some ''hmac-sha256'' else None)"
  have ne: "K s t \<noteq> []" for s t using assms(2) by (simp add: hex_digests_def)
  have integ: "verify_strix_contract_integrity H K fr secret_r k (secret \<noteq> None \<and> secret \<noteq> Some []) None = Inr ()"
    using h sg alg sec compare_digest_hex [OF assms(1)] compare_digest_hex [OF assms(2)] ne
    by (auto simp: verify_strix_contract_integrity_def Let_def or_none_def split: option.splits list.splits)
  then have weak: "verify_strix_contract_integrity H K fr secret_r k False None = Inr ()"
    by (auto simp: verify_strix_contract_integrity_def Let_def split: option.splits if_splits)
  have fwd: "verify_strix_execution_contract H K fr secret_r k c job_id = Inr ()"
    by (simp add: verify_strix_execution_contract_def weak b k)
  have sig: "verify_strix_contract_integrity H K fr secret_r k True None = Inr ()"
    if "contract_secret secret_r = Inr (Some s)" "s \<noteq> []" for s
    using integ sec that by auto
  have bwd: "c_id c' = c_id c \<and> c_url c' = c_url c \<and> policy_snapshot_fingerprint H fr c' = Inr fp \<and>
      normalized_set (allowed_targets (c_rules c')) = Inr allowed \<and>
      normalized_set (denied_targets (c_rules c')) = Inr denied \<and>
      max_requests_per_second (c_rules c') = max_requests_per_second (c_rules c) \<and> unsafe_campaign_reasons c' = Inr []"
    if "verify_strix_execution_contract H K fr secret_r k c' job_id = Inr ()" for c'
    using that by (auto simp: verify_strix_execution_contract_def weak k split: if_splits)
  from fwd sig bwd show ?thesis unfolding b by blast
qed

text \<open>Short digests, for the instances.\<close>

definition ex_digest :: "string \<Rightarrow> string" where
  "ex_digest t = ''ab''"

definition ex_mac :: "string \<Rightarrow> string \<Rightarrow> string" where
  "ex_mac s t = ex_digest (s @ t)"

lemma ex_digest_hex: "hex_digests ex_digest"
  by (simp add: hex_digests_def ex_digest_def ascii_def)

lemma ex_mac_hex: "hex_digests (ex_mac s)"
  using ex_digest_hex by (simp add: ex_mac_def hex_digests_def)

lemma ex_contract: "case build_strix_execution_contract ex_digest ex_mac (\<lambda>_. ''2.0'') (Inr (Some ''key'')) ex_campaign ''job1'' of
    Inl _ \<Rightarrow> False | Inr k \<Rightarrow> sc_rps k = 2 \<and> (case authorize_strix_contract_request ex_digest ex_mac (\<lambda>_. ''2.0'') (Inr None) k
      ''https://www.example.com/login'' (Fin 1) (Some ''key'') of Inl _ \<Rightarrow> False | Inr r \<Rightarrow> sr_host r = ''www.example.com'')"
  by code_simp

lemma strix_contract_roundtrip_witness:
  "\<exists>k. build_strix_execution_contract ex_digest ex_mac (\<lambda>_. ''2.0'') (Inr (Some ''key'')) ex_campaign ''job1'' = Inr k \<and>
     verify_strix_execution_contract ex_digest ex_mac (\<lambda>_. ''2.0'') (Inr (Some ''key'')) k ex_campaign ''job1'' = Inr ()"
proof -
  obtain k where "build_strix_execution_contract ex_digest ex_mac (\<lambda>_. ''2.0'') (Inr (Some ''key'')) ex_campaign ''job1'' = Inr k"
    using ex_contract by (auto split: sum.splits)
  with strix_contract_roundtrip [OF ex_digest_hex ex_mac_hex this] show ?thesis by blast
qed

text \<open>C31: A request the broker lets through lies within its contract: the contract carries the digest
  and, under the verification key, the signature of its own fields; it forbids direct egress and the
  container socket; the host of the target matches an allowed pattern and no denied one; and the
  requested rate, if it is a number, is positive and at most the contract's cap.\<close>

theorem strix_request_within_contract:
  assumes "authorize_strix_contract_request H K fr secret_r k target rate (Some key) = Inr req"
  shows "sc_hash k = H (canonical_contract fr k) \<and> key \<noteq> [] \<and>
    sc_sig k = Some (K key (contract_domain @ canonical_contract fr k)) \<and>
    \<not> sc_egress k \<and> \<not> sc_socket k \<and> sc_validation k \<and>
    (\<exists>u. urlsplit target = Inr u \<and> sr_host req = host_or_empty u \<and> sp_scheme u \<in> {''http'', ''https''} \<and> \<not> has_userinfo u) \<and>
    sr_host req \<noteq> [] \<and> (\<exists>p \<in> set (sc_allowed k). pattern_matches (sr_host req) p) \<and>
    \<not> (\<exists>p \<in> set (sc_denied k). pattern_matches (sr_host req) p) \<and>
    sr_rps req = rate \<and> (rate = NotANumber \<or> (\<exists>q. rate = Fin q \<and> 0 < q \<and> q \<le> sc_rps k))"
proof -
  have int: "verify_strix_contract_integrity H K fr secret_r k True (Some key) = Inr ()"
    using assms by (auto simp: authorize_strix_contract_request_def Let_def)
  have safe: "\<not> sc_egress k \<and> \<not> sc_socket k \<and> sc_validation k"
    using assms by (auto simp: authorize_strix_contract_request_def Let_def split: if_splits)
  from assms safe obtain u where u: "urlsplit target = Inr u" "sp_scheme u \<in> {''http'', ''https''}" "\<not> has_userinfo u"
    and host: "sr_host req = host_or_empty u" "host_or_empty u \<noteq> []"
    and sc: "is_host_allowed (host_or_empty u) (sc_allowed k) (sc_denied k) = Inr True"
    and rate: "sr_rps req = rate" "\<not> float_le rate (Fin 0)" "\<not> float_lt (Fin (sc_rps k)) rate"
    by (auto simp: authorize_strix_contract_request_def Let_def split: if_splits sum.splits)
  have "rate = NotANumber \<or> (\<exists>q. rate = Fin q \<and> 0 < q \<and> q \<le> sc_rps k)"
    using rate(2,3) by (cases rate) (auto simp: float_le_def)
  moreover have "key \<noteq> [] \<and> sc_sig k = Some (K key (contract_domain @ canonical_contract fr k))"
    using integrity_Inr(2) [OF int] by simp
  ultimately show ?thesis
    using integrity_Inr(1) [OF int] safe u host is_host_allowed_Inr [OF sc] rate(1) by simp
qed

lemma strix_request_within_contract_witness:
  "\<exists>k r. authorize_strix_contract_request ex_digest ex_mac (\<lambda>_. ''2.0'') (Inr None) k
     ''https://www.example.com/login'' (Fin 1) (Some ''key'') = Inr r \<and> sr_host r \<noteq> []"
proof -
  obtain k r where "authorize_strix_contract_request ex_digest ex_mac (\<lambda>_. ''2.0'') (Inr None) k
      ''https://www.example.com/login'' (Fin 1) (Some ''key'') = Inr r"
    using ex_contract by (auto split: sum.splits)
  with strix_request_within_contract [OF this] show ?thesis by blast
qed

text \<open>The rate guard does not stop a rate that is not a number: under any contract and target for
  which some rate is authorised, the rate NaN is authorised as well.\<close>

theorem strix_nan_rate_authorised:
  assumes "authorize_strix_contract_request H K fr secret_r k target rate vs = Inr req"
  shows "authorize_strix_contract_request H K fr secret_r k target NotANumber vs = Inr (req\<lparr>sr_rps := NotANumber\<rparr>)"
  using assms
  by (auto simp: authorize_strix_contract_request_def Let_def split: if_splits sum.splits)

lemma strix_nan_rate_authorised_witness:
  "\<exists>k r. authorize_strix_contract_request ex_digest ex_mac (\<lambda>_. ''2.0'') (Inr None) k
     ''https://www.example.com/login'' NotANumber (Some ''key'') = Inr r \<and> sc_rps k = 2"
proof -
  obtain k r where "authorize_strix_contract_request ex_digest ex_mac (\<lambda>_. ''2.0'') (Inr None) k
      ''https://www.example.com/login'' (Fin 1) (Some ''key'') = Inr r" "sc_rps k = 2"
    using ex_contract by (auto split: sum.splits)
  with strix_nan_rate_authorised [OF this(1)] show ?thesis by blast
qed

end
