(* ===== verification/StrixTickets.thy ===== *)
theory StrixTickets
  imports StrixContract
begin

text \<open>
  \<open>backend/app/strix_command_admission.py\<close>, \<open>backend/app/strix_runner_exec_ticket.py\<close> and
  \<open>issue_command_ticket\<close> of \<open>backend/app/strix_broker.py\<close>: the broker admits one command of a signed
  contract and signs a ticket for it; the runner executes a command only with a ticket that verifies
  against it. A ticket is the dict the dataclasses are dumped to.
\<close>

section \<open>Commands\<close>

definition command_schema :: string where
  "command_schema = ''strix-command-admission-v1''"

definition web_active_executables :: "string list" where
  "web_active_executables = [''curl'', ''dalfox'', ''feroxbuster'', ''ffuf'', ''gobuster'', ''httpx'', ''katana'',
     ''nikto'', ''nuclei'', ''sqlmap'']"

definition profile_executables :: "(string \<times> string list) list" where
  "profile_executables = [(''bootstrap-v1'', [''curl'']), (''web-active-v1'', web_active_executables)]"

definition profile_max_timeout :: "(string \<times> rat) list" where
  "profile_max_timeout = [(''bootstrap-v1'', 30), (''web-active-v1'', 300)]"

definition shell_interpreters :: "string list" where
  "shell_interpreters = [''ash'', ''bash'', ''busybox'', ''dash'', ''env'', ''fish'', ''node'', ''perl'', ''php'',
     ''python'', ''python3'', ''ruby'', ''sh'', ''zsh'']"

definition is_alnum_ascii :: "char \<Rightarrow> bool" where
  "is_alnum_ascii c = (let n = (of_char c :: nat) in (48 \<le> n \<and> n \<le> 57) \<or> (65 \<le> n \<and> n \<le> 90) \<or> (97 \<le> n \<and> n \<le> 122))"

definition id_re :: "string \<Rightarrow> bool" where
  "id_re s = (1 \<le> length s \<and> length s \<le> 128 \<and> list_all (\<lambda>c. is_alnum_ascii c \<or> c \<in> set ''._:-'') s)"

definition executable_re :: "string \<Rightarrow> bool" where
  "executable_re s = (1 \<le> length s \<and> length s \<le> 64 \<and> list_all (\<lambda>c. is_alnum_ascii c \<or> c \<in> set ''._+-'') s)"

definition profile_re :: "string \<Rightarrow> bool" where
  "profile_re s = (1 \<le> length s \<and> length s \<le> 64 \<and> list_all (\<lambda>c. is_alnum_ascii c \<or> c \<in> set ''._-'') s)"

text \<open>The float \<open>0.1\<close>.\<close>

definition float_tenth :: rat where
  "float_tenth = 3602879701896397 / 36028797018963968"

definition arg_ok :: "string \<Rightarrow> bool" where
  "arg_ok a = (1 \<le> length a \<and> length a \<le> 4096 \<and>
     list_all (\<lambda>c. \<not> ((of_char c :: nat) < 32 \<and> c \<noteq> CHR 0x09 \<or> (of_char c :: nat) = 127)) a)"

definition argv_bytes_of :: "string list \<Rightarrow> nat" where
  "argv_bytes_of argv = sum_list (map utf8_len argv)"

definition executable_path_ok :: "string \<Rightarrow> bool" where
  "executable_path_ok e = (executable_re e \<and> CHR ''/'' \<notin> set e \<and> CHR 0x5C \<notin> set e)"

definition join_argv :: "string list \<Rightarrow> string" where
  "join_argv argv = py_join [CHR 0x00] argv"

abbreviation command_error :: "string \<Rightarrow> py_error" where
  "command_error m \<equiv> AppError ''StrixCommandAdmissionError'' m"

definition validate_command_contract ::
  "(string \<Rightarrow> string) \<Rightarrow> (string \<Rightarrow> string \<Rightarrow> string) \<Rightarrow> (rat \<Rightarrow> string) \<Rightarrow> string option result \<Rightarrow> strix_contract \<Rightarrow>
   string option \<Rightarrow> unit result" where
  "validate_command_contract H K fr secret_r k vs =
     (case verify_strix_contract_integrity H K fr secret_r k True vs of
        Inl (AppError cls m) \<Rightarrow>
          (if cls = ''StrixExecutionContractError''
           then Inl (command_error ''Strix command execution contract is not authenticated'') else Inl (AppError cls m))
      | Inl e \<Rightarrow> Inl e
      | Inr _ \<Rightarrow>
          if sc_schema k \<noteq> contract_schema \<or> sc_engine k \<noteq> ''strix''
            then Inl (command_error ''Strix command execution contract is unsupported'')
          else if sc_egress k \<or> sc_socket k \<or> \<not> sc_validation k
            then Inl (command_error ''Strix command execution contract safety invariants changed'')
          else Inr ())"

definition validate_argv :: "string list \<Rightarrow> string \<Rightarrow> (string \<times> nat) result" where
  "validate_argv argv profile =
     (case map_of profile_executables profile of
        None \<Rightarrow> Inl (command_error ''Strix command profile is unsupported'')
      | Some executables \<Rightarrow>
          if \<not> (1 \<le> length argv \<and> length argv \<le> 64) \<or> \<not> list_all arg_ok argv
            then Inl (command_error ''Strix command argv is invalid'')
          else if argv_bytes_of argv > 16 * 1024 then Inl (command_error ''Strix command argv exceeds byte limit'')
          else (let executable = hd argv in
            if \<not> executable_path_ok executable
              then Inl (command_error ''Strix command executable path is not admitted'')
            else if executable \<in> set shell_interpreters
              then Inl (command_error ''Strix command shell interpreter is not admitted'')
            else if executable \<notin> set executables
              then Inl (command_error ''Strix command executable is outside reviewed profile'')
            else Inr (executable, argv_bytes_of argv)))"

definition timeout_ok :: "string \<Rightarrow> pyfloat \<Rightarrow> bool" where
  "timeout_ok profile timeout =
     (case map_of profile_max_timeout profile of None \<Rightarrow> False
      | Some m \<Rightarrow> is_finite timeout \<and> \<not> float_lt timeout (Fin float_tenth) \<and> \<not> float_lt (Fin m) timeout)"

definition float_value :: "pyfloat \<Rightarrow> rat" where
  "float_value x = (case x of Fin q \<Rightarrow> q | _ \<Rightarrow> 0)"

text \<open>The authorised command, as \<open>to_dict\<close> gives it.\<close>

definition authorize_strix_command ::
  "(string \<Rightarrow> string) \<Rightarrow> (string \<Rightarrow> string \<Rightarrow> string) \<Rightarrow> (rat \<Rightarrow> string) \<Rightarrow> string option result \<Rightarrow> strix_contract \<Rightarrow>
   string \<Rightarrow> string \<Rightarrow> string \<Rightarrow> string list \<Rightarrow> pyfloat \<Rightarrow> string option \<Rightarrow> pydict result" where
  "authorize_strix_command H K fr secret_r k session request profile argv timeout vs =
     rbind (validate_command_contract H K fr secret_r k vs) (\<lambda>_.
     if \<not> id_re session then Inl (command_error ''Strix command session id is invalid'')
     else if \<not> id_re request then Inl (command_error ''Strix command request id is invalid'')
     else rbind (validate_argv argv profile) (\<lambda>(executable, n).
     if \<not> timeout_ok profile timeout then Inl (command_error ''Strix command timeout exceeds reviewed profile'')
     else Inr [(''schema'', PStr command_schema), (''contract_hash'', PStr (sc_hash k)), (''session_id'', PStr session),
       (''request_id'', PStr request), (''profile'', PStr profile), (''executable'', PStr executable),
       (''argv_sha256'', PStr (H (join_argv argv))), (''argc'', PInt (int (length argv))), (''argv_bytes'', PInt (int n)),
       (''timeout_seconds'', PFloat (float_value timeout) (fr (float_value timeout))),
       (''shell_interpreter_allowed'', PBool False), (''direct_egress_allowed'', PBool False),
       (''network_scope_enforcement'', PStr ''broker_required''), (''active_execution_enabled'', PBool False)]))"

section \<open>Tickets\<close>

definition ticket_schema :: string where
  "ticket_schema = ''strix-runner-exec-ticket-v1''"

definition ticket_domain :: string where
  "ticket_domain = ''xbow:strix-runner-exec-ticket:v1'' @ [CHR 0x00]"

abbreviation ticket_error :: "string \<Rightarrow> py_error" where
  "ticket_error m \<equiv> AppError ''StrixRunnerExecTicketError'' m"

definition secret_bytes :: "string \<Rightarrow> string result" where
  "secret_bytes secret =
     (if utf8_len secret < 32 then Inl (ticket_error ''runner exec ticket secret must be at least 32 bytes'')
      else if utf8_len secret > 4096 then Inl (ticket_error ''runner exec ticket secret exceeds maximum size'')
      else Inr secret)"

definition argv_digest :: "(string \<Rightarrow> string) \<Rightarrow> string list \<Rightarrow> (string \<times> nat \<times> nat \<times> string) result" where
  "argv_digest H argv =
     (if \<not> (1 \<le> length argv \<and> length argv \<le> 64) \<or> \<not> list_all arg_ok argv
      then Inl (ticket_error ''runner exec argv is invalid'')
      else if argv_bytes_of argv > 16 * 1024 then Inl (ticket_error ''runner exec argv exceeds byte limit'')
      else if \<not> executable_path_ok (hd argv) \<or> hd argv \<in> set shell_interpreters
      then Inl (ticket_error ''runner exec executable is not admitted'')
      else Inr (H (join_argv argv), length argv, argv_bytes_of argv, hd argv))"

definition unsigned_fields :: "string list" where
  "unsigned_fields = [''contract_hash'', ''session_id'', ''request_id'', ''profile'', ''executable'', ''argv_sha256'',
     ''argc'', ''argv_bytes'', ''timeout_seconds'', ''shell_interpreter_allowed'', ''direct_egress_allowed'',
     ''network_scope_enforcement'', ''active_execution_enabled'']"

definition unsigned_payload :: "pydict \<Rightarrow> pydict" where
  "unsigned_payload values = [(''schema'', PStr ticket_schema), (''command_schema'', PStr command_schema)] @
     map (\<lambda>k. (k, pget values k)) unsigned_fields"

definition ticket_canonical :: "pydict \<Rightarrow> string" where
  "ticket_canonical values = json_dumps True (PDict (unsigned_payload values))"

definition str_field :: "(string \<Rightarrow> bool) \<Rightarrow> pyval \<Rightarrow> bool" where
  "str_field P v = (case v of PStr s \<Rightarrow> P s | _ \<Rightarrow> False)"

definition int_field :: "int \<Rightarrow> int \<Rightarrow> pyval \<Rightarrow> bool" where
  "int_field lo hi v = (case v of PInt i \<Rightarrow> lo \<le> i \<and> i \<le> hi | _ \<Rightarrow> False)"

definition the_str :: "pyval \<Rightarrow> string" where
  "the_str v = (case v of PStr s \<Rightarrow> s | _ \<Rightarrow> [])"

text \<open>The \<open>try\<close> around \<open>float(values.get("timeout_seconds"))\<close> catches \<open>TypeError\<close> and \<open>ValueError\<close> only.\<close>

definition ticket_float :: "(string \<Rightarrow> pyfloat option) \<Rightarrow> pyval \<Rightarrow> pyfloat result" where
  "ticket_float pf v = (case float_of pf v of
     Inl (TypeError _) \<Rightarrow> Inl (ticket_error ''runner exec timeout is invalid'')
   | Inl (ValueError _) \<Rightarrow> Inl (ticket_error ''runner exec timeout is invalid'')
   | r \<Rightarrow> r)"

definition validate_descriptor :: "(string \<Rightarrow> pyfloat option) \<Rightarrow> pydict \<Rightarrow> unit result" where
  "validate_descriptor pf d =
     (let profile = pget d ''profile''; executable = pget d ''executable'' in
      if \<not> py_eq (pget d ''schema'') (PStr command_schema)
        then Inl (ticket_error ''runner exec command descriptor schema is unsupported'')
      else if \<not> str_field hex64 (pget d ''contract_hash'') then Inl (ticket_error ''runner exec contract hash is invalid'')
      else if \<not> str_field id_re (pget d ''session_id'') then Inl (ticket_error ''runner exec session_id is invalid'')
      else if \<not> str_field id_re (pget d ''request_id'') then Inl (ticket_error ''runner exec request_id is invalid'')
      else if \<not> str_field (\<lambda>p. profile_re p \<and> map_of profile_executables p \<noteq> None) profile
        then Inl (ticket_error ''runner exec profile is invalid'')
      else if \<not> str_field (\<lambda>e. executable_path_ok e \<and> e \<notin> set shell_interpreters \<and>
          e \<in> set (the (map_of profile_executables (the_str profile)))) executable
        then Inl (ticket_error ''runner exec executable is not admitted'')
      else if \<not> str_field hex64 (pget d ''argv_sha256'') then Inl (ticket_error ''runner exec argv digest is invalid'')
      else if \<not> int_field 1 64 (pget d ''argc'') then Inl (ticket_error ''runner exec argc is invalid'')
      else if \<not> int_field 1 (16 * 1024) (pget d ''argv_bytes'')
        then Inl (ticket_error ''runner exec argv byte count is invalid'')
      else rbind (ticket_float pf (pget d ''timeout_seconds'')) (\<lambda>timeout.
        if \<not> timeout_ok (the_str profile) timeout then Inl (ticket_error ''runner exec timeout is invalid'')
        else if pget d ''shell_interpreter_allowed'' \<noteq> PBool False \<or> pget d ''direct_egress_allowed'' \<noteq> PBool False \<or>
             \<not> py_eq (pget d ''network_scope_enforcement'') (PStr ''broker_required'') \<or>
             pget d ''active_execution_enabled'' \<noteq> PBool False
          then Inl (ticket_error ''runner exec safety invariants changed'')
        else Inr ()))"

definition build_strix_runner_exec_ticket ::
  "(string \<Rightarrow> string \<Rightarrow> string) \<Rightarrow> (string \<Rightarrow> pyfloat option) \<Rightarrow> pydict \<Rightarrow> string \<Rightarrow> pydict result" where
  "build_strix_runner_exec_ticket K pf descriptor signing_secret =
     rbind (validate_descriptor pf descriptor) (\<lambda>_.
     rbind (secret_bytes signing_secret) (\<lambda>secret.
       let unsigned = unsigned_payload descriptor in
       Inr (unsigned @ [(''signature_alg'', PStr ''hmac-sha256''),
         (''signature'', PStr (K secret (ticket_domain @ ticket_canonical unsigned)))])))"

definition ticket_keys :: "string set" where
  "ticket_keys = set ([''schema'', ''command_schema''] @ unsigned_fields @ [''signature_alg'', ''signature''])"

definition ticket_descriptor :: "pydict \<Rightarrow> pydict" where
  "ticket_descriptor t = (''schema'', pget t ''command_schema'') # map (\<lambda>k. (k, pget t k)) unsigned_fields"

definition verify_strix_runner_exec_ticket ::
  "(string \<Rightarrow> string) \<Rightarrow> (string \<Rightarrow> string \<Rightarrow> string) \<Rightarrow> (string \<Rightarrow> pyfloat option) \<Rightarrow> pydict \<Rightarrow> string \<Rightarrow> string \<Rightarrow>
   string list \<Rightarrow> pyfloat \<Rightarrow> string \<Rightarrow> pydict result" where
  "verify_strix_runner_exec_ticket H K pf t session request argv timeout verification_secret =
     (if fst ` set t \<noteq> ticket_keys then Inl (ticket_error ''runner exec ticket shape is invalid'')
      else rbind (validate_descriptor pf (ticket_descriptor t)) (\<lambda>_.
      if \<not> py_eq (pget t ''schema'') (PStr ticket_schema)
        then Inl (ticket_error ''runner exec ticket schema is unsupported'')
      else if \<not> py_eq (pget t ''signature_alg'') (PStr ''hmac-sha256'')
        then Inl (ticket_error ''runner exec ticket signature algorithm is unsupported'')
      else if \<not> str_field hex64 (pget t ''signature'') then Inl (ticket_error ''runner exec ticket signature is invalid'')
      else rbind (secret_bytes verification_secret) (\<lambda>secret.
      rbind (compare_digest (the_str (pget t ''signature'')) (K secret (ticket_domain @ ticket_canonical t))) (\<lambda>same.
      if \<not> same then Inl (ticket_error ''runner exec ticket signature mismatch'')
      else rbind (argv_digest H argv) (\<lambda>(digest, argc, n, executable).
      if \<not> is_finite timeout then Inl (ticket_error ''runner exec timeout is invalid'')
      else rbind (float_of pf (pget t ''timeout_seconds'')) (\<lambda>tt.
      if \<not> py_eq (pget t ''session_id'') (PStr session) \<or> \<not> py_eq (pget t ''request_id'') (PStr request) \<or>
         \<not> py_eq (pget t ''argv_sha256'') (PStr digest) \<or> \<not> py_eq (pget t ''argc'') (PInt (int argc)) \<or>
         \<not> py_eq (pget t ''argv_bytes'') (PInt (int n)) \<or> \<not> py_eq (pget t ''executable'') (PStr executable) \<or>
         \<not> float_eq tt timeout
        then Inl (ticket_error ''runner exec ticket does not match request'')
      else Inr t))))))"

section \<open>The broker\<close>

definition broker_verification_secret :: "environ \<Rightarrow> string result" where
  "broker_verification_secret env =
     (let secret = (case env ''XBOW_STRIX_BROKER_HMAC_KEY'' of None \<Rightarrow> [] | Some s \<Rightarrow> s) in
      if secret = [] then Inl (HTTPException 503 ''Strix broker verification key is unavailable'')
      else if utf8_len secret > 4096 then Inl (HTTPException 503 ''Strix broker verification key is invalid'')
      else Inr secret)"

text \<open>Both ticket modules accept the same secrets.\<close>

definition runner_admission_signing_secret :: "environ \<Rightarrow> string result" where
  "runner_admission_signing_secret env =
     (let secret = (case env ''XBOW_STRIX_RUNNER_ADMISSION_HMAC_KEY'' of None \<Rightarrow> [] | Some s \<Rightarrow> s) in
      if secret = [] then Inl (HTTPException 503 ''Strix runner admission signing key is unavailable'')
      else (case secret_bytes secret of
          Inl _ \<Rightarrow> Inl (HTTPException 503 ''Strix runner admission signing key is invalid'')
        | Inr s \<Rightarrow> Inr s))"

definition issue_command_ticket ::
  "(string \<Rightarrow> string) \<Rightarrow> (string \<Rightarrow> string \<Rightarrow> string) \<Rightarrow> (rat \<Rightarrow> string) \<Rightarrow> (string \<Rightarrow> pyfloat option) \<Rightarrow> environ \<Rightarrow>
   string option result \<Rightarrow> strix_contract \<Rightarrow> string \<Rightarrow> string \<Rightarrow> string \<Rightarrow> string list \<Rightarrow> pyfloat \<Rightarrow> pydict result" where
  "issue_command_ticket H K fr pf env secret_r k session request profile argv timeout =
     rbind (broker_verification_secret env) (\<lambda>vs.
     rbind (case authorize_strix_command H K fr secret_r k session request profile argv timeout (Some vs) of
         Inl (AppError cls m) \<Rightarrow>
           (if cls = ''StrixCommandAdmissionError'' then Inl (HTTPException 403 ''Strix command admission rejected'')
            else Inl (AppError cls m))
       | r \<Rightarrow> r) (\<lambda>authorized.
     rbind (runner_admission_signing_secret env) (\<lambda>signing.
       build_strix_runner_exec_ticket K pf authorized signing)))"

section \<open>Facts about tickets\<close>

lemma pget_map_keys:
  "pget (map (\<lambda>k. (k, f k)) ks @ rest) k = (if k \<in> set ks then f k else pget rest k)"
  by (induction ks) (auto simp: pget_def)

lemma pget_Cons: "pget ((k', v) # d) k = (if k = k' then v else pget d k)"
  by (simp add: pget_def)

lemma pget_unsigned:
  "k \<in> set unsigned_fields \<Longrightarrow> pget (unsigned_payload v @ rest) k = pget v k"
  by (auto simp: unsigned_payload_def pget_map_keys pget_Cons unsigned_fields_def)

lemma unsigned_payload_cong:
  "(\<And>k. k \<in> set unsigned_fields \<Longrightarrow> pget v k = pget v' k) \<Longrightarrow> unsigned_payload v = unsigned_payload v'"
  by (simp add: unsigned_payload_def)

lemma unsigned_payload_idem [simp]:
  "unsigned_payload (unsigned_payload v @ rest) = unsigned_payload v"
  "unsigned_payload (unsigned_payload v) = unsigned_payload v"
  using pget_unsigned [of _ v "[]"] by (auto intro!: unsigned_payload_cong simp: pget_unsigned)

lemma validate_descriptor_cong:
  assumes "pget d ''schema'' = pget d' ''schema''" and "\<And>k. k \<in> set unsigned_fields \<Longrightarrow> pget d k = pget d' k"
  shows "validate_descriptor pf d = validate_descriptor pf d'"
proof -
  have "pget d k = pget d' k" if "k \<in> set (''schema'' # unsigned_fields)" for k using assms that by auto
  then have *: "list_all (\<lambda>k. pget d k = pget d' k) (''schema'' # unsigned_fields)" by (simp add: list_all_iff)
  show ?thesis unfolding validate_descriptor_def Let_def
    using * unfolding unsigned_fields_def list.pred_inject by (simp only: simp_thms)
qed

lemma pget_descriptor: "k \<in> set unsigned_fields \<Longrightarrow> pget (ticket_descriptor t) k = pget t k"
  using pget_map_keys [of "pget t" unsigned_fields "[]" k]
  by (auto simp: ticket_descriptor_def pget_Cons unsigned_fields_def)

lemma hex64_ascii: "hex64 s \<Longrightarrow> ascii s"
proof -
  have "list_all (\<lambda>c. (of_char c :: nat) < 128) ''0123456789abcdef''" by code_simp
  then show "hex64 s \<Longrightarrow> ascii s" unfolding hex64_def ascii_def list_all_iff by blast
qed

lemma compare_digest_refl: "hex64 s \<Longrightarrow> compare_digest s s = Inr True"
  by (simp add: compare_digest_def hex64_ascii)

lemma profile_re_known: "map_of profile_executables p = Some es \<Longrightarrow> profile_re p"
proof -
  have all: "list_all profile_re (map fst profile_executables)" by code_simp
  assume "map_of profile_executables p = Some es"
  then have "(p, es) \<in> set profile_executables" by (rule map_of_SomeD)
  then have "p \<in> set (map fst profile_executables)" unfolding set_map by (rule rev_image_eqI) simp
  with all show ?thesis unfolding list_all_iff by blast
qed

lemma validate_argv_Inr:
  "validate_argv argv profile = Inr (e, n) \<Longrightarrow> \<exists>es. map_of profile_executables profile = Some es \<and> e = hd argv \<and>
     n = argv_bytes_of argv \<and> argv \<noteq> [] \<and> length argv \<le> 64 \<and> list_all arg_ok argv \<and> n \<le> 16 * 1024 \<and>
     executable_path_ok e \<and> e \<notin> set shell_interpreters \<and> e \<in> set es"
  by (cases argv) (auto simp: validate_argv_def Let_def split: option.splits if_splits)

lemma argv_bytes_pos: "argv \<noteq> [] \<Longrightarrow> list_all arg_ok argv \<Longrightarrow> 1 \<le> argv_bytes_of argv"
  by (cases argv; cases "hd argv") (auto simp: argv_bytes_of_def arg_ok_def utf8_len_def)

lemma arg_no_nul: "arg_ok a \<Longrightarrow> CHR 0x00 \<notin> set a"
  by (auto simp: arg_ok_def list_all_iff)

lemma join_argv_inj:
  assumes "list_all arg_ok xs" and "list_all arg_ok ys" and "xs \<noteq> []" and "ys \<noteq> []" and "join_argv xs = join_argv ys"
  shows "xs = ys"
proof -
  have "py_split (CHR 0x00) (join_argv zs) = zs" if "list_all arg_ok zs" "zs \<noteq> []" for zs
    using that arg_no_nul by (simp add: join_argv_def py_split_join list_all_iff)
  then show ?thesis using assms by metis
qed

lemma authorized_descriptor:
  assumes "authorize_strix_command H K fr r k session request profile argv timeout vs = Inr d"
    and "\<And>t. hex64 (H t)"
  shows "validate_descriptor pf d = Inr ()" and "argv_digest H argv = Inr (H (join_argv argv), length argv, argv_bytes_of argv, hd argv)"
    and "is_finite timeout" and "pget d ''session_id'' = PStr session" "pget d ''request_id'' = PStr request"
    "pget d ''argv_sha256'' = PStr (H (join_argv argv))" "pget d ''argc'' = PInt (int (length argv))"
    "pget d ''argv_bytes'' = PInt (int (argv_bytes_of argv))" "pget d ''executable'' = PStr (hd argv)"
    "float_of pf (pget d ''timeout_seconds'') = Inr timeout"
proof -
  from assms(1) obtain e n where c: "validate_command_contract H K fr r k vs = Inr ()" and ids: "id_re session" "id_re request"
    and v: "validate_argv argv profile = Inr (e, n)" and to: "timeout_ok profile timeout"
    and d: "d = [(''schema'', PStr command_schema), (''contract_hash'', PStr (sc_hash k)), (''session_id'', PStr session),
       (''request_id'', PStr request), (''profile'', PStr profile), (''executable'', PStr e),
       (''argv_sha256'', PStr (H (join_argv argv))), (''argc'', PInt (int (length argv))), (''argv_bytes'', PInt (int n)),
       (''timeout_seconds'', PFloat (float_value timeout) (fr (float_value timeout))),
       (''shell_interpreter_allowed'', PBool False), (''direct_egress_allowed'', PBool False),
       (''network_scope_enforcement'', PStr ''broker_required''), (''active_execution_enabled'', PBool False)]"
    by (auto simp: authorize_strix_command_def split: if_splits prod.splits)
  from validate_argv_Inr [OF v] obtain es where es: "map_of profile_executables profile = Some es" "e = hd argv"
    "n = argv_bytes_of argv" "argv \<noteq> []" "length argv \<le> 64" "list_all arg_ok argv" "n \<le> 16 * 1024"
    "executable_path_ok e" "e \<notin> set shell_interpreters" "e \<in> set es" by blast
  have len: "1 \<le> length argv" using es(4) by (cases argv) auto
  from c have "verify_strix_contract_integrity H K fr r k True vs = Inr ()"
    by (auto simp: validate_command_contract_def split: sum.splits py_error.splits if_splits)
  then have hash: "hex64 (sc_hash k)" using integrity_Inr(1) assms(2) by metis
  show fin: "is_finite timeout" using to by (auto simp: timeout_ok_def split: option.splits)
  then obtain q where q: "timeout = Fin q" by (rule is_finiteE)
  show "argv_digest H argv = Inr (H (join_argv argv), length argv, argv_bytes_of argv, hd argv)"
    using es len by (simp add: argv_digest_def)
  note g = d pget_def
  show "pget d ''session_id'' = PStr session" "pget d ''request_id'' = PStr request"
    "pget d ''argv_sha256'' = PStr (H (join_argv argv))" "pget d ''argc'' = PInt (int (length argv))"
    "pget d ''argv_bytes'' = PInt (int (argv_bytes_of argv))" "pget d ''executable'' = PStr (hd argv)"
    "float_of pf (pget d ''timeout_seconds'') = Inr timeout"
    using es by (simp_all add: g float_of_def q float_value_def)
  show "validate_descriptor pf d = Inr ()"
    using es len hash ids to argv_bytes_pos [OF es(4,6)] profile_re_known [OF es(1)] assms(2)
    by (simp add: validate_descriptor_def Let_def g ticket_float_def float_of_def q float_value_def str_field_def
        int_field_def the_str_def)
qed

text \<open>C34: Every command the broker admits gets a ticket, and the runner accepts that ticket for exactly
  this session, request, argument vector and timeout: the two modules check the same limits.\<close>

theorem command_ticket_roundtrip:
  assumes "authorize_strix_command H K fr r k session request profile argv timeout vs = Inr d"
    and "\<And>t. hex64 (H t)" and "\<And>s t. hex64 (K s t)" and "secret_bytes key = Inr key"
  shows "\<exists>t. build_strix_runner_exec_ticket K pf d key = Inr t \<and>
    verify_strix_runner_exec_ticket H K pf t session request argv timeout key = Inr t"
proof -
  note a = authorized_descriptor [OF assms(1,2)]
  let ?u = "unsigned_payload d"
  let ?sg = "K key (ticket_domain @ ticket_canonical ?u)"
  let ?t = "?u @ [(''signature_alg'', PStr ''hmac-sha256''), (''signature'', PStr ?sg)]"
  have b: "build_strix_runner_exec_ticket K pf d key = Inr ?t"
    by (simp add: build_strix_runner_exec_ticket_def a(1) assms(4) Let_def)
  have f: "pget ?t x = pget d x" if "x \<in> set unsigned_fields" for x using that by (rule pget_unsigned)
  have s: "pget ?t ''schema'' = PStr ticket_schema" "pget ?t ''command_schema'' = PStr command_schema"
    by (simp_all add: unsigned_payload_def pget_Cons)
  have g: "pget ?t ''signature_alg'' = PStr ''hmac-sha256''" "pget ?t ''signature'' = PStr ?sg"
    by (simp_all add: unsigned_payload_def pget_map_keys pget_Cons unsigned_fields_def)
  have keys: "fst ` set ?t = ticket_keys"
    by (simp add: unsigned_payload_def ticket_keys_def image_Un image_image)
  have ds: "pget d ''schema'' = PStr command_schema"
    using a(1) [of pf] by (auto simp: validate_descriptor_def Let_def py_eq_PStr split: if_splits)
  have desc: "validate_descriptor pf (ticket_descriptor ?t) = Inr ()"
    unfolding a(1) [of pf, symmetric]
    by (rule validate_descriptor_cong) (simp_all add: pget_descriptor f, simp add: ticket_descriptor_def pget_Cons s ds)
  have can: "ticket_canonical ?t = ticket_canonical ?u" by (simp add: ticket_canonical_def)
  have fs: "pget ?t ''session_id'' = PStr session" "pget ?t ''request_id'' = PStr request"
    "pget ?t ''argv_sha256'' = PStr (H (join_argv argv))" "pget ?t ''argc'' = PInt (int (length argv))"
    "pget ?t ''argv_bytes'' = PInt (int (argv_bytes_of argv))" "pget ?t ''executable'' = PStr (hd argv)"
    "float_of pf (pget ?t ''timeout_seconds'') = Inr timeout"
    using a(4-10) f by (simp_all add: unsigned_fields_def)
  have feq: "float_eq timeout timeout" using a(3) by (rule is_finiteE) simp
  have "verify_strix_runner_exec_ticket H K pf ?t session request argv timeout key = Inr ?t"
    unfolding verify_strix_runner_exec_ticket_def keys desc s g can fs a(2)
    using assms(3,4) a(3) feq by (simp add: str_field_def the_str_def compare_digest_refl)
  with b show ?thesis by blast
qed

lemma argv_digest_Inr:
  "argv_digest H argv = Inr (g, m, n, e) \<Longrightarrow> g = H (join_argv argv) \<and> m = length argv \<and> e = hd argv \<and> argv \<noteq> [] \<and>
     list_all arg_ok argv \<and> hd argv \<notin> set shell_interpreters"
  by (cases argv) (auto simp: argv_digest_def split: if_splits)

lemma verify_ticket_Inr:
  assumes "verify_strix_runner_exec_ticket H K pf t session request argv timeout key = Inr t'"
  shows "t' = t" and "validate_descriptor pf (ticket_descriptor t) = Inr ()"
    and "str_field hex64 (pget t ''signature'')" and "secret_bytes key = Inr key"
    and "the_str (pget t ''signature'') = K key (ticket_domain @ ticket_canonical t)"
    and "\<exists>m n. argv_digest H argv = Inr (H (join_argv argv), m, n, hd argv)"
    and "pget t ''argv_sha256'' = PStr (H (join_argv argv))" and "pget t ''executable'' = PStr (hd argv)"
    and "pget t ''session_id'' = PStr session" and "pget t ''request_id'' = PStr request"
    and "\<exists>q. timeout = Fin q \<and> float_of pf (pget t ''timeout_seconds'') = Inr (Fin q)"
proof -
  from assms have d: "validate_descriptor pf (ticket_descriptor t) = Inr ()"
    by (auto simp: verify_strix_runner_exec_ticket_def split: if_splits)
  from assms d obtain secret where sec: "secret_bytes key = Inr secret" and sf: "str_field hex64 (pget t ''signature'')"
    by (auto simp: verify_strix_runner_exec_ticket_def split: if_splits)
  then have key: "secret = key" by (auto simp: secret_bytes_def split: if_splits)
  from assms d sec obtain g m n e tt where cmp: "compare_digest (the_str (pget t ''signature'')) (K secret (ticket_domain @ ticket_canonical t)) = Inr True"
    and ad: "argv_digest H argv = Inr (g, m, n, e)" and fin: "is_finite timeout"
    and tt: "float_of pf (pget t ''timeout_seconds'') = Inr tt" "float_eq tt timeout" and t': "t' = t"
    and eqs: "pget t ''session_id'' = PStr session" "pget t ''request_id'' = PStr request" "pget t ''argv_sha256'' = PStr g"
      "pget t ''executable'' = PStr e"
    by (auto simp: verify_strix_runner_exec_ticket_def py_eq_PStr split: if_splits)
  show "t' = t" "validate_descriptor pf (ticket_descriptor t) = Inr ()" "str_field hex64 (pget t ''signature'')"
    "pget t ''session_id'' = PStr session" "pget t ''request_id'' = PStr request" by fact+
  show "secret_bytes key = Inr key" using sec key by simp
  show "the_str (pget t ''signature'') = K key (ticket_domain @ ticket_canonical t)" using compare_digest_True [OF cmp] key by simp
  show "\<exists>m n. argv_digest H argv = Inr (H (join_argv argv), m, n, hd argv)" "pget t ''argv_sha256'' = PStr (H (join_argv argv))"
    "pget t ''executable'' = PStr (hd argv)" using argv_digest_Inr [OF ad] ad eqs by auto
  show "\<exists>q. timeout = Fin q \<and> float_of pf (pget t ''timeout_seconds'') = Inr (Fin q)"
    using fin tt by (cases tt) (auto elim!: is_finiteE)
qed

lemma descriptor_Inr:
  assumes "validate_descriptor pf d = Inr ()"
  obtains p e es timeout where "pget d ''profile'' = PStr p" "map_of profile_executables p = Some es"
    "pget d ''executable'' = PStr e" "e \<in> set es" "e \<notin> set shell_interpreters"
    "float_of pf (pget d ''timeout_seconds'') = Inr timeout" "timeout_ok p timeout"
    "pget d ''direct_egress_allowed'' = PBool False" "pget d ''active_execution_enabled'' = PBool False"
proof -
  from assms have "str_field (\<lambda>p. profile_re p \<and> map_of profile_executables p \<noteq> None) (pget d ''profile'')"
    by (auto simp: validate_descriptor_def Let_def split: if_splits)
  then obtain p es where p: "pget d ''profile'' = PStr p" "map_of profile_executables p = Some es"
    by (auto simp: str_field_def split: pyval.splits)
  from assms have "str_field (\<lambda>e. executable_path_ok e \<and> e \<notin> set shell_interpreters \<and>
      e \<in> set (the (map_of profile_executables (the_str (pget d ''profile''))))) (pget d ''executable'')"
    by (auto simp: validate_descriptor_def Let_def split: if_splits)
  then obtain e where e: "pget d ''executable'' = PStr e" "e \<notin> set shell_interpreters" "e \<in> set es"
    using p by (auto simp: str_field_def the_str_def split: pyval.splits)
  from assms obtain timeout where "ticket_float pf (pget d ''timeout_seconds'') = Inr timeout" "timeout_ok (the_str (pget d ''profile'')) timeout"
    and fl: "pget d ''direct_egress_allowed'' = PBool False" "pget d ''active_execution_enabled'' = PBool False"
    by (auto simp: validate_descriptor_def Let_def split: if_splits)
  then have "float_of pf (pget d ''timeout_seconds'') = Inr timeout" "timeout_ok p timeout"
    using p(1) by (auto simp: ticket_float_def the_str_def split: sum.splits py_error.splits)
  with p e fl show thesis by (intro that)
qed

text \<open>C33: The runner executes nothing but reviewed programs: a ticket it accepts is signed under its key
  for this session and request, names an executable of a reviewed profile that is no shell and is the
  first argument, keeps the timeout within the profile's bounds, and forbids direct egress. Two
  argument vectors accepted under one ticket are equal, unless they are a collision of SHA-256.\<close>

theorem exec_ticket_sound:
  assumes "verify_strix_runner_exec_ticket H K pf t session request argv timeout key = Inr t'"
  shows "pget t ''session_id'' = PStr session \<and> pget t ''request_id'' = PStr request \<and>
    the_str (pget t ''signature'') = K key (ticket_domain @ ticket_canonical t) \<and> argv \<noteq> [] \<and>
    (\<exists>p es q m. pget t ''profile'' = PStr p \<and> map_of profile_executables p = Some es \<and> hd argv \<in> set es \<and>
      hd argv \<notin> set shell_interpreters \<and> timeout = Fin q \<and> map_of profile_max_timeout p = Some m \<and> float_tenth \<le> q \<and> q \<le> m) \<and>
    pget t ''direct_egress_allowed'' = PBool False \<and>
    (\<forall>s' r' argv' timeout' t''. verify_strix_runner_exec_ticket H K pf t s' r' argv' timeout' key = Inr t'' \<longrightarrow>
      s' = session \<and> r' = request \<and> timeout' = timeout \<and>
      (argv' = argv \<or> (join_argv argv' \<noteq> join_argv argv \<and> H (join_argv argv') = H (join_argv argv))))"
proof -
  note v = verify_ticket_Inr [OF assms]
  from v(6) obtain m n where "argv_digest H argv = Inr (H (join_argv argv), m, n, hd argv)" by blast
  note ar = argv_digest_Inr [OF this]
  from v(2) obtain p e es to where de: "pget (ticket_descriptor t) ''profile'' = PStr p" "map_of profile_executables p = Some es"
    "pget (ticket_descriptor t) ''executable'' = PStr e" "e \<in> set es" "e \<notin> set shell_interpreters"
    "float_of pf (pget (ticket_descriptor t) ''timeout_seconds'') = Inr to" "timeout_ok p to"
    "pget (ticket_descriptor t) ''direct_egress_allowed'' = PBool False" by (rule descriptor_Inr)
  have pg: "pget (ticket_descriptor t) x = pget t x" if "x \<in> set unsigned_fields" for x using that by (rule pget_descriptor)
  have "pget t ''profile'' = PStr p" "e = hd argv" "pget t ''direct_egress_allowed'' = PBool False"
    "float_of pf (pget t ''timeout_seconds'') = Inr to"
    using de v(8) pg by (simp_all add: unsigned_fields_def)
  moreover obtain q where q: "timeout = Fin q" "float_of pf (pget t ''timeout_seconds'') = Inr (Fin q)" using v(11) by blast
  ultimately have to: "to = Fin q" by simp
  obtain mx where mx: "map_of profile_max_timeout p = Some mx" "float_tenth \<le> q" "q \<le> mx"
    using de(7) by (auto simp: to timeout_ok_def split: option.splits)
  have other: "s' = session \<and> r' = request \<and> timeout' = timeout \<and>
      (argv' = argv \<or> (join_argv argv' \<noteq> join_argv argv \<and> H (join_argv argv') = H (join_argv argv)))"
    if "verify_strix_runner_exec_ticket H K pf t s' r' argv' timeout' key = Inr t''" for s' r' argv' timeout' t''
  proof -
    note w = verify_ticket_Inr [OF that]
    from w(6) obtain m n where "argv_digest H argv' = Inr (H (join_argv argv'), m, n, hd argv')" by blast
    note ar' = argv_digest_Inr [OF this]
    have "timeout' = timeout" using v(11) w(11) by auto
    moreover have "argv' = argv" if "join_argv argv' = join_argv argv"
      using join_argv_inj [OF _ _ _ _ that] ar ar' by blast
    ultimately show ?thesis using v(7,9,10) w(7,9,10) by auto
  qed
  from v(5,9,10) ar q(1) mx de(2,4,5) \<open>pget t ''profile'' = PStr p\<close> \<open>e = hd argv\<close> \<open>pget t ''direct_egress_allowed'' = PBool False\<close> other
  show ?thesis by blast
qed

definition ex_hex :: "string \<Rightarrow> string" where
  "ex_hex t = replicate 64 CHR ''a''"

lemma ex_hex64: "hex64 (ex_hex t)"
  by (simp add: hex64_def ex_hex_def list_all_iff)

definition ex_key :: string where
  "ex_key = replicate 40 CHR ''k''"

lemma ex_key_ok: "secret_bytes ex_key = Inr ex_key"
  by code_simp

lemma ex_authorized: "case build_strix_execution_contract ex_hex (\<lambda>s. ex_hex) (\<lambda>_. ''2.0'') (Inr (Some ''key'')) ex_campaign ''job1'' of
    Inl _ \<Rightarrow> False | Inr k \<Rightarrow> (case authorize_strix_command ex_hex (\<lambda>s. ex_hex) (\<lambda>_. ''2.0'') (Inr None) k ''s1'' ''r1''
      ''web-active-v1'' [''curl'', ''-I''] (Fin 2) (Some ''key'') of Inl _ \<Rightarrow> False | Inr _ \<Rightarrow> True)"
  by code_simp

lemma command_ticket_roundtrip_witness:
  "\<exists>d t. build_strix_runner_exec_ticket (\<lambda>s. ex_hex) (\<lambda>_. None) d ex_key = Inr t \<and>
    verify_strix_runner_exec_ticket ex_hex (\<lambda>s. ex_hex) (\<lambda>_. None) t ''s1'' ''r1'' [''curl'', ''-I''] (Fin 2) ex_key = Inr t"
proof -
  obtain k d where "authorize_strix_command ex_hex (\<lambda>s. ex_hex) (\<lambda>_. ''2.0'') (Inr None) k ''s1'' ''r1''
      ''web-active-v1'' [''curl'', ''-I''] (Fin 2) (Some ''key'') = Inr d"
    using ex_authorized by (auto split: sum.splits)
  from command_ticket_roundtrip [OF this ex_hex64 ex_hex64 ex_key_ok] show ?thesis by blast
qed

definition ex_ticket :: pydict where
  "ex_ticket = [(''schema'', PStr ticket_schema), (''command_schema'', PStr command_schema),
     (''contract_hash'', PStr (ex_hex [])), (''session_id'', PStr ''s1''), (''request_id'', PStr ''r1''),
     (''profile'', PStr ''web-active-v1''), (''executable'', PStr ''curl''), (''argv_sha256'', PStr (ex_hex [])),
     (''argc'', PInt 2), (''argv_bytes'', PInt 6), (''timeout_seconds'', PFloat 2 ''2.0''),
     (''shell_interpreter_allowed'', PBool False), (''direct_egress_allowed'', PBool False),
     (''network_scope_enforcement'', PStr ''broker_required''), (''active_execution_enabled'', PBool False),
     (''signature_alg'', PStr ''hmac-sha256''), (''signature'', PStr (ex_hex []))]"

lemma exec_ticket_sound_witness:
  "\<exists>p es. pget ex_ticket ''profile'' = PStr p \<and> map_of profile_executables p = Some es \<and> ''curl'' \<in> set es"
proof -
  have "verify_strix_runner_exec_ticket ex_hex (\<lambda>s. ex_hex) (\<lambda>_. None) ex_ticket ''s1'' ''r1'' [''curl'', ''-I''] (Fin 2) ex_key
      = Inr ex_ticket" by code_simp
  from exec_ticket_sound [OF this] show ?thesis by auto
qed

end
