(* ===== verification/StrixManifest.thy ===== *)
theory StrixManifest
  imports StrixTickets
begin

text \<open>
  \<open>backend/app/strix_runner_manifest_ticket.py\<close> and \<open>issue_manifest_ticket\<close> of
  \<open>backend/app/strix_broker.py\<close>: tickets, valid for two minutes, under which the runner creates a
  session from an image and a manifest it has the digest of.
\<close>

definition manifest_schema :: string where
  "manifest_schema = ''strix-manifest-admission-v1''"

definition manifest_ticket_schema :: string where
  "manifest_ticket_schema = ''strix-runner-manifest-ticket-v2''"

definition manifest_domain :: string where
  "manifest_domain = ''xbow:strix-runner-manifest-ticket:v2'' @ [CHR 0x00]"

definition ticket_ttl :: int where
  "ticket_ttl = 120"

definition clock_skew :: int where
  "clock_skew = 5"

definition max_time :: int where
  "max_time = 253402300799"

abbreviation manifest_error :: "string \<Rightarrow> py_error" where
  "manifest_error m \<equiv> AppError ''StrixRunnerManifestTicketError'' m"

section \<open>Descriptors\<close>

definition manifest_secret_bytes :: "string \<Rightarrow> string result" where
  "manifest_secret_bytes secret =
     (if utf8_len secret < 32 then Inl (manifest_error ''runner manifest ticket secret must be at least 32 bytes'')
      else if utf8_len secret > 4096 then Inl (manifest_error ''runner manifest ticket secret exceeds maximum size'')
      else Inr secret)"

definition image_ok :: "string \<Rightarrow> bool" where
  "image_ok s = (1 \<le> length s \<and> length s \<le> 512 \<and>
     list_all (\<lambda>c. \<not> ((of_char c :: nat) < 32 \<or> (of_char c :: nat) = 127)) s)"

definition valid_ports :: "pyval \<Rightarrow> pyval list result" where
  "valid_ports v =
     (case v of
        PList ps \<Rightarrow>
          if length ps > 16 then Inl (manifest_error ''runner manifest exposed ports are invalid'')
          else if \<not> list_all (int_field 1 65535) ps then Inl (manifest_error ''runner manifest exposed port is invalid'')
          else if \<not> distinct ps then Inl (manifest_error ''runner manifest exposed ports contain duplicates'')
          else Inr ps
      | _ \<Rightarrow> Inl (manifest_error ''runner manifest exposed ports are invalid''))"

definition counter_limits :: "(string \<times> int) list" where
  "counter_limits = [(''entry_count'', 128), (''inline_file_count'', 128), (''local_dir_count'', 128),
     (''inline_file_bytes'', 4 * 1024 * 1024), (''environment_value_bytes'', 16 * 1024)]"

definition the_int :: "pyval \<Rightarrow> int" where
  "the_int v = (case v of PInt i \<Rightarrow> i | _ \<Rightarrow> 0)"

definition safety_flags :: "string list" where
  "safety_flags = [''host_paths_included'', ''raw_file_content_included'', ''filesystem_io_performed'',
     ''manifest_materialized'', ''upload_enabled'', ''active_execution_enabled'']"

text \<open>\<open>values.get("exposed_ports", ())\<close>: a missing entry is the empty tuple.\<close>

definition ports_entry :: "pydict \<Rightarrow> pyval" where
  "ports_entry d = (case map_of d ''exposed_ports'' of None \<Rightarrow> PList [] | Some v \<Rightarrow> v)"

definition validate_manifest_descriptor :: "pydict \<Rightarrow> pydict result" where
  "validate_manifest_descriptor d =
     (if \<not> py_eq (pget d ''schema'') (PStr manifest_schema)
        then Inl (manifest_error ''runner manifest admission schema is unsupported'')
      else if \<not> str_field hex64 (pget d ''contract_hash'') then Inl (manifest_error ''runner manifest contract hash is invalid'')
      else if \<not> str_field id_re (pget d ''request_id'') then Inl (manifest_error ''runner manifest request id is invalid'')
      else if \<not> str_field image_ok (pget d ''image'') then Inl (manifest_error ''runner manifest image is invalid'')
      else rbind (valid_ports (ports_entry d)) (\<lambda>ports.
      if \<not> str_field hex64 (pget d ''manifest_digest'') then Inl (manifest_error ''runner manifest digest is invalid'')
      else (case filter (\<lambda>(name, maximum). \<not> int_field 0 maximum (pget d name)) counter_limits of
          (name, _) # _ \<Rightarrow> Inl (manifest_error (''runner manifest '' @ name @ '' is invalid''))
        | [] \<Rightarrow>
            if the_int (pget d ''inline_file_count'') + the_int (pget d ''local_dir_count'') \<noteq> the_int (pget d ''entry_count'')
              then Inl (manifest_error ''runner manifest entry counts are inconsistent'')
            else if \<not> list_all (\<lambda>f. pget d f = PBool False) safety_flags
              then Inl (manifest_error ''runner manifest safety invariants changed'')
            else Inr ([(''schema'', PStr manifest_ticket_schema), (''manifest_schema'', PStr manifest_schema),
              (''contract_hash'', pget d ''contract_hash''), (''request_id'', pget d ''request_id''),
              (''image'', pget d ''image''), (''exposed_ports'', PList ports), (''manifest_digest'', pget d ''manifest_digest'')] @
              map (\<lambda>(name, _). (name, pget d name)) counter_limits @ map (\<lambda>f. (f, PBool False)) safety_flags))))"

section \<open>Time\<close>

definition ticket_clock :: "pyfloat \<Rightarrow> rat result" where
  "ticket_clock now = (case now of
     Fin q \<Rightarrow> if 1 \<le> q \<and> q \<le> of_int max_time then Inr q else Inl (manifest_error ''runner manifest ticket clock is invalid'')
   | _ \<Rightarrow> Inl (manifest_error ''runner manifest ticket clock is invalid''))"

definition validate_ticket_times :: "pyval \<Rightarrow> pyval \<Rightarrow> rat \<Rightarrow> unit result" where
  "validate_ticket_times issued expires now =
     (if \<not> int_field 1 max_time issued \<or> \<not> int_field 1 max_time expires \<or>
         \<not> (0 < the_int expires - the_int issued \<and> the_int expires - the_int issued \<le> ticket_ttl)
        then Inl (manifest_error ''runner manifest ticket validity interval is invalid'')
      else if of_int (the_int issued) > now + of_int clock_skew
        then Inl (manifest_error ''runner manifest ticket is not yet valid'')
      else if now \<ge> of_int (the_int expires) then Inl (manifest_error ''runner manifest ticket has expired'')
      else Inr ())"

section \<open>Issuing and verifying\<close>

definition manifest_fields :: "string list" where
  "manifest_fields = [''schema'', ''manifest_schema'', ''contract_hash'', ''request_id'', ''issued_at'', ''expires_at'',
     ''image'', ''exposed_ports'', ''manifest_digest''] @ map fst counter_limits @ safety_flags"

definition manifest_canonical :: "pydict \<Rightarrow> string" where
  "manifest_canonical d = json_dumps True (PDict (map (\<lambda>k. (k, pget d k)) manifest_fields))"

definition build_strix_runner_manifest_ticket ::
  "(string \<Rightarrow> string \<Rightarrow> string) \<Rightarrow> pydict \<Rightarrow> string \<Rightarrow> pyfloat \<Rightarrow> pydict result" where
  "build_strix_runner_manifest_ticket K descriptor signing_secret now =
     rbind (ticket_clock now) (\<lambda>clock. let issued = \<lfloor>clock\<rfloor> in
     rbind (validate_manifest_descriptor descriptor) (\<lambda>v.
     let unsigned = v @ [(''issued_at'', PInt issued), (''expires_at'', PInt (issued + ticket_ttl))] in
     rbind (validate_ticket_times (PInt issued) (PInt (issued + ticket_ttl)) (of_int issued)) (\<lambda>_.
     rbind (manifest_secret_bytes signing_secret) (\<lambda>secret.
       Inr (unsigned @ [(''signature_alg'', PStr ''hmac-sha256''),
         (''signature'', PStr (K secret (manifest_domain @ manifest_canonical unsigned)))])))))"

definition kept_fields :: "string list" where
  "kept_fields = [''contract_hash'', ''request_id'', ''image'', ''exposed_ports'', ''manifest_digest''] @
     map fst counter_limits @ safety_flags"

definition manifest_descriptor_of :: "pydict \<Rightarrow> pydict" where
  "manifest_descriptor_of t = (''schema'', pget t ''manifest_schema'') #
     map (\<lambda>k. (k, pget t k)) kept_fields"

text \<open>The ticket itself: its shape, its signature and its interval.\<close>

definition authentic_manifest_ticket :: "(string \<Rightarrow> string \<Rightarrow> string) \<Rightarrow> pydict \<Rightarrow> string \<Rightarrow> unit result" where
  "authentic_manifest_ticket K t verification_secret =
     (if fst ` set t \<noteq> set (manifest_fields @ [''signature_alg'', ''signature''])
        then Inl (manifest_error ''runner manifest ticket shape is invalid'')
      else if \<not> py_eq (pget t ''schema'') (PStr manifest_ticket_schema)
        then Inl (manifest_error ''runner manifest ticket schema is unsupported'')
      else if \<not> py_eq (pget t ''manifest_schema'') (PStr manifest_schema)
        then Inl (manifest_error ''runner manifest ticket admission schema is unsupported'')
      else if \<not> py_eq (pget t ''signature_alg'') (PStr ''hmac-sha256'')
        then Inl (manifest_error ''runner manifest ticket signature algorithm is unsupported'')
      else if \<not> str_field hex64 (pget t ''signature'') then Inl (manifest_error ''runner manifest ticket signature is invalid'')
      else rbind (validate_manifest_descriptor (manifest_descriptor_of t)) (\<lambda>v.
      let issued = pget t ''issued_at''; expires = pget t ''expires_at'';
          unsigned = v @ [(''issued_at'', issued), (''expires_at'', expires)] in
      if \<not> (case issued of PInt _ \<Rightarrow> True | _ \<Rightarrow> False)
        then Inl (manifest_error ''runner manifest ticket validity interval is invalid'')
      else rbind (validate_ticket_times issued expires (of_int (the_int issued))) (\<lambda>_.
      rbind (manifest_secret_bytes verification_secret) (\<lambda>secret.
      rbind (compare_digest (the_str (pget t ''signature'')) (K secret (manifest_domain @ manifest_canonical unsigned))) (\<lambda>same.
      if \<not> same then Inl (manifest_error ''runner manifest ticket signature mismatch'')
      else Inr ())))))"

definition verify_strix_runner_manifest_ticket ::
  "(string \<Rightarrow> string \<Rightarrow> string) \<Rightarrow> pydict \<Rightarrow> string \<Rightarrow> string \<Rightarrow> int list \<Rightarrow> string \<Rightarrow> string \<Rightarrow> pyfloat \<Rightarrow> pydict result" where
  "verify_strix_runner_manifest_ticket K t request_id img ports digest verification_secret now =
     rbind (authentic_manifest_ticket K t verification_secret) (\<lambda>_.
     rbind (ticket_clock now) (\<lambda>clock.
     rbind (validate_ticket_times (pget t ''issued_at'') (pget t ''expires_at'') clock) (\<lambda>_.
     rbind (valid_ports (PList (map PInt ports))) (\<lambda>expected_ports.
     if \<not> py_eq (pget t ''request_id'') (PStr request_id)
       then Inl (manifest_error ''runner manifest ticket does not match create request'')
     else if \<not> image_ok img then Inl (manifest_error ''runner manifest image is invalid'')
     else if \<not> py_eq (pget t ''image'') (PStr img) \<or> pget t ''exposed_ports'' \<noteq> PList expected_ports \<or>
             \<not> py_eq (pget t ''manifest_digest'') (PStr digest)
       then Inl (manifest_error ''runner manifest ticket does not match create request'')
     else Inr t))))"

text \<open>The broker's handler; the request's manifest is the dict the validated document is dumped to.\<close>

definition issue_manifest_ticket ::
  "(string \<Rightarrow> string) \<Rightarrow> (string \<Rightarrow> string \<Rightarrow> string) \<Rightarrow> (rat \<Rightarrow> string) \<Rightarrow> environ \<Rightarrow> string option result \<Rightarrow>
   strix_contract \<Rightarrow> pydict \<Rightarrow> string \<Rightarrow> string \<Rightarrow> int list \<Rightarrow> pyfloat \<Rightarrow> pydict result" where
  "issue_manifest_ticket H K fr env secret_r k manifest request_id img ports now =
     (let refuse = (\<lambda>cls r. case r of
          Inl (AppError c m) \<Rightarrow> (if c = cls then Inl (HTTPException 403 ''Strix manifest admission rejected'') else Inl (AppError c m))
        | _ \<Rightarrow> r) in
      rbind (broker_verification_secret env) (\<lambda>vs.
      rbind (case verify_strix_contract_integrity H K fr secret_r k True (Some vs) of
          Inl (AppError c m) \<Rightarrow> (if c = ''StrixExecutionContractError''
             then Inl (HTTPException 403 ''Strix manifest admission rejected'') else Inl (AppError c m))
        | r \<Rightarrow> r) (\<lambda>_.
      if sc_schema k \<noteq> contract_schema \<or> sc_engine k \<noteq> ''strix'' \<or> sc_egress k \<or> sc_socket k \<or> \<not> sc_validation k
        then Inl (HTTPException 403 ''Strix manifest admission rejected'')
      else rbind (runner_admission_signing_secret env) (\<lambda>signing.
        refuse ''StrixRunnerManifestTicketError''
          (build_strix_runner_manifest_ticket K
            (foldl (\<lambda>d (x, v). dict_set x v d) manifest
              [(''contract_hash'', PStr (sc_hash k)), (''request_id'', PStr request_id), (''image'', PStr img),
               (''exposed_ports'', PList (map PInt ports)), (''active_execution_enabled'', PBool False)])
            signing now)))))"

section \<open>Facts about manifest tickets\<close>

lemma valid_ports_Inr: "valid_ports v = Inr ps \<Longrightarrow> v = PList ps"
  by (auto simp: valid_ports_def split: pyval.splits if_splits)

lemmas manifest_lists = counter_limits_def safety_flags_def manifest_fields_def

lemma validate_manifest_Inr:
  assumes "validate_manifest_descriptor d = Inr v"
  shows "\<And>rest. pget (v @ rest) ''schema'' = PStr manifest_ticket_schema"
    and "\<And>rest. pget (v @ rest) ''manifest_schema'' = PStr manifest_schema"
    and "\<And>rest k. k \<in> set kept_fields \<Longrightarrow> k \<noteq> ''exposed_ports'' \<Longrightarrow> pget (v @ rest) k = pget d k"
    and "\<And>rest. pget (v @ rest) ''exposed_ports'' = ports_entry d"
    and "\<And>rest. k \<notin> fst ` set v \<Longrightarrow> pget (v @ rest) k = pget rest k"
    and "fst ` set v = {''schema'', ''manifest_schema''} \<union> set kept_fields"
    and "pget d ''schema'' = PStr manifest_schema"
    and "\<forall>f \<in> set safety_flags. pget d f = PBool False"
    and "the_int (pget d ''inline_file_count'') + the_int (pget d ''local_dir_count'') = the_int (pget d ''entry_count'')"
    and "\<exists>ps. valid_ports (ports_entry d) = Inr ps"
proof -
  from assms obtain ps where ps: "valid_ports (ports_entry d) = Inr ps"
    and flags: "\<forall>f \<in> set safety_flags. pget d f = PBool False"
    and counts: "the_int (pget d ''inline_file_count'') + the_int (pget d ''local_dir_count'') = the_int (pget d ''entry_count'')"
    and v: "v = [(''schema'', PStr manifest_ticket_schema), (''manifest_schema'', PStr manifest_schema),
              (''contract_hash'', pget d ''contract_hash''), (''request_id'', pget d ''request_id''),
              (''image'', pget d ''image''), (''exposed_ports'', PList ps), (''manifest_digest'', pget d ''manifest_digest'')] @
              map (\<lambda>(name, _). (name, pget d name)) counter_limits @ map (\<lambda>f. (f, PBool False)) safety_flags"
    and sch: "pget d ''schema'' = PStr manifest_schema"
    by (auto simp: validate_manifest_descriptor_def list_all_iff py_eq_PStr split: if_splits list.splits prod.splits)
  show "\<exists>ps. valid_ports (ports_entry d) = Inr ps" using ps by blast
  show "\<forall>f \<in> set safety_flags. pget d f = PBool False" by (rule flags)
  show "the_int (pget d ''inline_file_count'') + the_int (pget d ''local_dir_count'') = the_int (pget d ''entry_count'')" by (rule counts)
  show "pget d ''schema'' = PStr manifest_schema" by (rule sch)
  show "fst ` set v = {''schema'', ''manifest_schema''} \<union> set kept_fields"
    unfolding v kept_fields_def by (auto simp: counter_limits_def safety_flags_def)
  show "pget (v @ rest) ''schema'' = PStr manifest_ticket_schema" "pget (v @ rest) ''manifest_schema'' = PStr manifest_schema" for rest
    by (simp_all add: v pget_def)
  show "pget (v @ rest) ''exposed_ports'' = ports_entry d" for rest
    using valid_ports_Inr [OF ps] by (simp add: v pget_def)
  show "pget (v @ rest) k = pget d k" if "k \<in> set kept_fields" "k \<noteq> ''exposed_ports''" for rest k
  proof -
    have "list_all (\<lambda>k. k \<noteq> ''exposed_ports'' \<longrightarrow> pget (v @ rest) k = pget d k) kept_fields"
      using flags by (simp add: v kept_fields_def counter_limits_def safety_flags_def pget_Cons)
    with that show ?thesis by (auto simp: list_all_iff)
  qed
  show "pget (v @ rest) k = pget rest k" if "k \<notin> fst ` set v" for rest
  proof -
    have "map_of v k = None" using that by (simp add: map_of_eq_None_iff)
    then show ?thesis by (simp add: pget_def map_add_def)
  qed
qed

lemma schema_not_kept: "''schema'' \<notin> set kept_fields"
  by code_simp

lemma exposed_kept: "''exposed_ports'' \<in> set kept_fields"
  by code_simp

lemma pget_manifest_descriptor: "k \<in> set kept_fields \<Longrightarrow> pget (manifest_descriptor_of t) k = pget t k"
    "ports_entry (manifest_descriptor_of t) = pget t ''exposed_ports''"
proof -
  have mo: "map_of (map (\<lambda>k. (k, f k)) ks) k = (if k \<in> set ks then Some (f k) else None)" for f ks k
    by (induction ks) auto
  have m: "map_of (manifest_descriptor_of t) k = Some (pget t k)" if "k \<in> set kept_fields" for k
    using that schema_not_kept by (cases "k = ''schema''") (simp_all add: manifest_descriptor_of_def mo)
  show "k \<in> set kept_fields \<Longrightarrow> pget (manifest_descriptor_of t) k = pget t k"
    by (simp only: pget_def [of "manifest_descriptor_of t"] m option.case)
  show "ports_entry (manifest_descriptor_of t) = pget t ''exposed_ports''"
    by (simp only: ports_entry_def m [OF exposed_kept] option.case)
qed

lemma validate_manifest_cong:
  assumes "pget d ''schema'' = pget d' ''schema''" and "ports_entry d = ports_entry d'"
    and eq: "\<And>k. k \<in> set kept_fields \<Longrightarrow> k \<noteq> ''exposed_ports'' \<Longrightarrow> pget d k = pget d' k"
  shows "validate_manifest_descriptor d = validate_manifest_descriptor d'"
proof -
  have names: "list_all (\<lambda>k. k \<in> set kept_fields \<and> k \<noteq> ''exposed_ports'') (map fst counter_limits @ safety_flags)"
    by code_simp
  have eq5: "list_all (\<lambda>k. k \<in> set kept_fields \<and> k \<noteq> ''exposed_ports'') [''contract_hash'', ''request_id'', ''image'',
      ''manifest_digest'', ''inline_file_count'', ''local_dir_count'', ''entry_count'']" by code_simp
  have five: "list_all (\<lambda>k. pget d k = pget d' k) [''contract_hash'', ''request_id'', ''image'', ''manifest_digest'',
      ''inline_file_count'', ''local_dir_count'', ''entry_count'']"
    using eq5 eq unfolding list_all_iff by blast
  have nm: "pget d (fst x) = pget d' (fst x)" if "x \<in> set counter_limits" for x
    using names that eq unfolding list_all_iff set_append set_map by blast
  have fl: "pget d x = pget d' x" if "x \<in> set safety_flags" for x
    using names that eq unfolding list_all_iff set_append by blast
  have c: "filter (\<lambda>(n, m). \<not> int_field 0 m (pget d n)) counter_limits = filter (\<lambda>(n, m). \<not> int_field 0 m (pget d' n)) counter_limits"
    by (rule filter_cong [OF refl]) (auto dest!: nm)
  have m: "map (\<lambda>(n, _). (n, pget d n)) counter_limits = map (\<lambda>(n, _). (n, pget d' n)) counter_limits"
    by (rule map_cong [OF refl]) (auto dest!: nm)
  have l: "list_all (\<lambda>f. pget d f = PBool False) safety_flags = list_all (\<lambda>f. pget d' f = PBool False) safety_flags"
    unfolding list_all_iff using fl by metis
  show ?thesis unfolding validate_manifest_descriptor_def c m l assms(1,2)
    using five unfolding list.pred_inject by (simp only: simp_thms)
qed

lemma manifest_fields_split: "set manifest_fields = {''schema'', ''manifest_schema'', ''issued_at'', ''expires_at''} \<union> set kept_fields"
  by (auto simp: manifest_fields_def kept_fields_def)

lemma manifest_canonical_cong:
  "(\<And>k. k \<in> set manifest_fields \<Longrightarrow> pget v k = pget v' k) \<Longrightarrow> manifest_canonical v = manifest_canonical v'"
  by (simp add: manifest_canonical_def cong: map_cong)

text \<open>What is signed is the ticket itself.\<close>

lemma unsigned_canonical:
  assumes v: "validate_manifest_descriptor (manifest_descriptor_of t) = Inr v"
    and "pget t ''schema'' = PStr manifest_ticket_schema" "pget t ''manifest_schema'' = PStr manifest_schema"
  shows "manifest_canonical (v @ [(''issued_at'', pget t ''issued_at''), (''expires_at'', pget t ''expires_at'')]) = manifest_canonical t"
proof (rule manifest_canonical_cong)
  let ?rest = "[(''issued_at'', pget t ''issued_at''), (''expires_at'', pget t ''expires_at'')]"
  note f = validate_manifest_Inr [OF v]
  have ie: "''issued_at'' \<notin> fst ` set v" "''expires_at'' \<notin> fst ` set v"
    unfolding f(6) by (simp_all add: kept_fields_def counter_limits_def safety_flags_def)
  have four: "x \<in> {a, b, c, d} \<union> L \<Longrightarrow> x = a \<or> x = b \<or> x = c \<or> x = d \<or> x \<in> L" for x a b c d and L :: "string set"
    by blast
  fix k assume "k \<in> set manifest_fields"
  from four [OF this [unfolded manifest_fields_split]]
  consider "k = ''schema''" | "k = ''manifest_schema''" | "k = ''issued_at''" | "k = ''expires_at''" |
      "k = ''exposed_ports''" | "k \<in> set kept_fields" "k \<noteq> ''exposed_ports''" by argo
  then show "pget (v @ ?rest) k = pget t k"
  proof cases
    case 1 then show ?thesis using f(1) assms(2) by simp
  next
    case 2 then show ?thesis using f(2) assms(3) by simp
  next
    case 3 then show ?thesis using f(5) [OF ie(1), of ?rest] by (simp add: pget_Cons)
  next
    case 4 then show ?thesis using f(5) [OF ie(2), of ?rest] by (simp add: pget_Cons)
  next
    case 5 then show ?thesis using f(4) pget_manifest_descriptor(2) by simp
  next
    case 6 then show ?thesis using f(3) pget_manifest_descriptor(1) by simp
  qed
qed

lemma times_Inr:
  "validate_ticket_times a b now = Inr () \<longleftrightarrow> (\<exists>i e. a = PInt i \<and> b = PInt e \<and> 1 \<le> i \<and> i \<le> max_time \<and> 1 \<le> e \<and> e \<le> max_time \<and>
     i < e \<and> e \<le> i + ticket_ttl \<and> of_int i \<le> now + of_int clock_skew \<and> now < of_int e)"
  by (cases a; cases b) (auto simp: validate_ticket_times_def int_field_def the_int_def)

lemma authentic_Inr:
  assumes "authentic_manifest_ticket K t key = Inr ()"
  obtains v where "pget t ''schema'' = PStr manifest_ticket_schema" "pget t ''manifest_schema'' = PStr manifest_schema"
    "validate_manifest_descriptor (manifest_descriptor_of t) = Inr v" "manifest_secret_bytes key = Inr key"
    "the_str (pget t ''signature'') = K key (manifest_domain @ manifest_canonical t)"
proof -
  from assms have sch: "pget t ''schema'' = PStr manifest_ticket_schema" "pget t ''manifest_schema'' = PStr manifest_schema"
    by (auto simp: authentic_manifest_ticket_def py_eq_PStr split: if_splits)
  from assms obtain v secret where v: "validate_manifest_descriptor (manifest_descriptor_of t) = Inr v"
    and sec: "manifest_secret_bytes key = Inr secret"
    and cmp: "compare_digest (the_str (pget t ''signature'')) (K secret (manifest_domain @ manifest_canonical
      (v @ [(''issued_at'', pget t ''issued_at''), (''expires_at'', pget t ''expires_at'')]))) = Inr True"
    by (auto simp: authentic_manifest_ticket_def Let_def split: if_splits)
  have "secret = key" using sec by (auto simp: manifest_secret_bytes_def split: if_splits)
  with sec compare_digest_True [OF cmp] show thesis
    unfolding unsigned_canonical [OF v sch] by (intro that [OF sch v]) simp_all
qed

text \<open>A manifest ticket the runner accepts is signed under its key, was issued for this request, image,
  list of ports and manifest digest, carries no permission to touch the host, and is accepted only
  from five seconds before it was issued until, at most two minutes after, it expires.\<close>

theorem manifest_ticket_sound:
  assumes "verify_strix_runner_manifest_ticket K t request_id img ports digest key now = Inr t'"
  shows "t' = t \<and> the_str (pget t ''signature'') = K key (manifest_domain @ manifest_canonical t) \<and>
    pget t ''request_id'' = PStr request_id \<and> pget t ''image'' = PStr img \<and> pget t ''manifest_digest'' = PStr digest \<and>
    pget t ''exposed_ports'' = PList (map PInt ports) \<and> (\<forall>f \<in> set safety_flags. pget t f = PBool False) \<and>
    (\<exists>q i e. now = Fin q \<and> pget t ''issued_at'' = PInt i \<and> pget t ''expires_at'' = PInt e \<and>
      of_int i - 5 \<le> q \<and> q < of_int e \<and> e \<le> i + 120)"
proof -
  from assms have au: "authentic_manifest_ticket K t key = Inr ()"
    by (auto simp: verify_strix_runner_manifest_ticket_def)
  then obtain v where v: "validate_manifest_descriptor (manifest_descriptor_of t) = Inr v"
    and sg: "the_str (pget t ''signature'') = K key (manifest_domain @ manifest_canonical t)" by (rule authentic_Inr)
  from assms obtain clock u eps where clock: "ticket_clock now = Inr clock"
    and times: "validate_ticket_times (pget t ''issued_at'') (pget t ''expires_at'') clock = Inr u"
    and eps: "valid_ports (PList (map PInt ports)) = Inr eps"
    and last: "(if \<not> py_eq (pget t ''request_id'') (PStr request_id)
       then Inl (manifest_error ''runner manifest ticket does not match create request'')
     else if \<not> image_ok img then Inl (manifest_error ''runner manifest image is invalid'')
     else if \<not> py_eq (pget t ''image'') (PStr img) \<or> pget t ''exposed_ports'' \<noteq> PList eps \<or>
             \<not> py_eq (pget t ''manifest_digest'') (PStr digest)
       then Inl (manifest_error ''runner manifest ticket does not match create request'')
     else Inr t) = Inr t'"
    unfolding verify_strix_runner_manifest_ticket_def rbind_Inr_iff by blast
  have eqs: "pget t ''request_id'' = PStr request_id" "pget t ''image'' = PStr img" "pget t ''exposed_ports'' = PList eps"
    "pget t ''manifest_digest'' = PStr digest" "t' = t"
    using last unfolding py_eq_PStr by (simp_all only: if_split simp_thms sum.distinct sum.inject not_not de_Morgan_disj split: if_split_asm)
  have times: "validate_ticket_times (pget t ''issued_at'') (pget t ''expires_at'') clock = Inr ()" using times by simp
  have "eps = map PInt ports" using valid_ports_Inr [OF eps] by simp
  moreover have "now = Fin clock" using clock by (auto simp: ticket_clock_def split: pyfloat.splits if_splits)
  moreover obtain i e where "pget t ''issued_at'' = PInt i" "pget t ''expires_at'' = PInt e" "of_int i - 5 \<le> clock" "clock < of_int e"
    "e \<le> i + 120" using times unfolding times_Inr by (auto simp: ticket_ttl_def clock_skew_def)
  moreover have "\<forall>f \<in> set safety_flags. pget t f = PBool False"
    using validate_manifest_Inr(8) [OF v] pget_manifest_descriptor(1) by (simp add: kept_fields_def)
  ultimately show ?thesis using sg eqs by blast
qed

text \<open>A manifest ticket the broker issues is accepted by the runner for the described request from five
  seconds before its issue until two minutes after, and at no later time.\<close>

theorem manifest_ticket_lifetime:
  assumes "build_strix_runner_manifest_ticket K d key (Fin q) = Inr t" and "\<And>s x. hex64 (K s x)"
    and "pget d ''request_id'' = PStr request_id" "pget d ''image'' = PStr img" "pget d ''manifest_digest'' = PStr digest"
    and "ports_entry d = PList (map PInt ports)" and "1 \<le> now" "now \<le> of_int max_time"
  shows "verify_strix_runner_manifest_ticket K t request_id img ports digest key (Fin now) = Inr t \<longleftrightarrow>
    of_int \<lfloor>q\<rfloor> - 5 \<le> now \<and> now < of_int \<lfloor>q\<rfloor> + 120"
proof -
  let ?i = "\<lfloor>q\<rfloor>"
  from assms(1) obtain v secret where v: "validate_manifest_descriptor d = Inr v" and sec: "manifest_secret_bytes key = Inr secret"
    and tm: "validate_ticket_times (PInt ?i) (PInt (?i + ticket_ttl)) (of_int ?i) = Inr ()"
    and t: "t = v @ [(''issued_at'', PInt ?i), (''expires_at'', PInt (?i + ticket_ttl)), (''signature_alg'', PStr ''hmac-sha256''),
         (''signature'', PStr (K secret (manifest_domain @ manifest_canonical (v @ [(''issued_at'', PInt ?i), (''expires_at'', PInt (?i + ticket_ttl))]))))]"
    by (auto simp: build_strix_runner_manifest_ticket_def ticket_clock_def Let_def split: if_splits)
  note f = validate_manifest_Inr [OF v]
  let ?rest = "drop (length v) t"
  have tr: "t = v @ ?rest" by (simp add: t)
  have out: "k \<notin> fst ` set v" if "k \<in> {''issued_at'', ''expires_at'', ''signature_alg'', ''signature''}" for k
    using that unfolding f(6) by (auto simp: kept_fields_def counter_limits_def safety_flags_def)
  have p: "pget t ''issued_at'' = PInt ?i" "pget t ''expires_at'' = PInt (?i + ticket_ttl)"
    "pget t ''signature_alg'' = PStr ''hmac-sha256''"
    "pget t ''signature'' = PStr (K secret (manifest_domain @ manifest_canonical (v @ [(''issued_at'', PInt ?i), (''expires_at'', PInt (?i + ticket_ttl))])))"
    unfolding t by (simp_all add: f(5) [OF out] pget_Cons)
  have sch: "pget t ''schema'' = PStr manifest_ticket_schema" "pget t ''manifest_schema'' = PStr manifest_schema"
    using f(1,2) by (simp_all add: t)
  have kept: "pget t k = pget d k" if "k \<in> set kept_fields" "k \<noteq> ''exposed_ports''" for k
    using f(3) that by (simp add: t)
  have pe: "pget t ''exposed_ports'' = ports_entry d" using f(4) by (simp add: t)
  have keys: "fst ` set t = set (manifest_fields @ [''signature_alg'', ''signature''])"
  proof -
    have shuffle: "{a, b} \<union> L \<union> {c, d, e, g} = {a, b, c, d} \<union> L \<union> {e, g}" for a b c d e g and L :: "string set"
      by blast
    have "fst ` set t = fst ` set v \<union> {''issued_at'', ''expires_at'', ''signature_alg'', ''signature''}"
      unfolding t by (simp only: set_append image_Un list.set image_insert image_empty fst_conv)
    then show ?thesis unfolding f(6) shuffle by (simp only: set_append manifest_fields_split list.set)
  qed
  have desc: "validate_manifest_descriptor (manifest_descriptor_of t) = validate_manifest_descriptor d"
  proof (rule validate_manifest_cong)
    show "pget (manifest_descriptor_of t) ''schema'' = pget d ''schema''"
      using f(7) sch by (simp add: manifest_descriptor_of_def pget_Cons)
    show "ports_entry (manifest_descriptor_of t) = ports_entry d" using pget_manifest_descriptor(2) pe by simp
    show "pget (manifest_descriptor_of t) k = pget d k" if "k \<in> set kept_fields" "k \<noteq> ''exposed_ports''" for k
      using pget_manifest_descriptor(1) [OF that(1)] kept [OF that] by simp
  qed
  have key: "secret = key" using sec by (auto simp: manifest_secret_bytes_def split: if_splits)
  have can: "manifest_canonical (v @ [(''issued_at'', PInt ?i), (''expires_at'', PInt (?i + ticket_ttl))]) = manifest_canonical t"
    using unsigned_canonical [of t v] desc v sch p by simp
  obtain ps where ps: "valid_ports (ports_entry d) = Inr ps" using f(10) by blast
  have img: "image_ok img"
    using v assms(4) by (auto simp: validate_manifest_descriptor_def str_field_def split: if_splits)
  have au: "authentic_manifest_ticket K t key = Inr ()"
    unfolding authentic_manifest_ticket_def keys desc v
    using sch p sec tm assms(2) by (simp add: Let_def can key str_field_def the_str_def the_int_def compare_digest_refl)
  have kept3: "pget t ''request_id'' = PStr request_id" "pget t ''image'' = PStr img" "pget t ''manifest_digest'' = PStr digest"
    using assms(3-5) kept [of "''request_id''"] kept [of "''image''"] kept [of "''manifest_digest''"]
    by (simp_all add: kept_fields_def)
  have vp: "valid_ports (PList (map PInt ports)) = Inr (map PInt ports)"
    using ps assms(6) valid_ports_Inr [OF ps] by simp
  have ret: "verify_strix_runner_manifest_ticket K t request_id img ports digest key (Fin now) = Inr t \<longleftrightarrow>
      validate_ticket_times (PInt ?i) (PInt (?i + ticket_ttl)) now = Inr ()"
    unfolding verify_strix_runner_manifest_ticket_def au p vp pe kept3
    using assms(6-8) img by (simp add: ticket_clock_def rbind_Inr_iff)
  show ?thesis
    using tm unfolding ret times_Inr by (auto simp: ticket_ttl_def clock_skew_def)
qed

definition ex_manifest :: pydict where
  "ex_manifest = [(''schema'', PStr manifest_schema), (''manifest_digest'', PStr (ex_hex [])), (''entry_count'', PInt 2),
     (''inline_file_count'', PInt 1), (''local_dir_count'', PInt 1), (''inline_file_bytes'', PInt 10),
     (''environment_value_bytes'', PInt 0), (''contract_hash'', PStr (ex_hex [])), (''request_id'', PStr ''r1''),
     (''image'', PStr ''strix:1''), (''exposed_ports'', PList [PInt 8080])] @ map (\<lambda>f. (f, PBool False)) safety_flags"

lemma ex_manifest_ticket: "case build_strix_runner_manifest_ticket (\<lambda>s. ex_hex) ex_manifest ex_key (Fin 1000) of
    Inl _ \<Rightarrow> False | Inr t \<Rightarrow> True"
  by code_simp

lemma manifest_ticket_lifetime_witness:
  "\<exists>t. verify_strix_runner_manifest_ticket (\<lambda>s. ex_hex) t ''r1'' ''strix:1'' [8080] (ex_hex []) ex_key (Fin 1119) = Inr t \<and>
     verify_strix_runner_manifest_ticket (\<lambda>s. ex_hex) t ''r1'' ''strix:1'' [8080] (ex_hex []) ex_key (Fin 1120) \<noteq> Inr t"
proof -
  obtain t where t: "build_strix_runner_manifest_ticket (\<lambda>s. ex_hex) ex_manifest ex_key (Fin 1000) = Inr t"
    using ex_manifest_ticket by (auto split: sum.splits)
  have f: "pget ex_manifest ''request_id'' = PStr ''r1''" "pget ex_manifest ''image'' = PStr ''strix:1''"
    "pget ex_manifest ''manifest_digest'' = PStr (ex_hex [])" "ports_entry ex_manifest = PList (map PInt [8080])"
    by (simp_all add: ex_manifest_def pget_def ports_entry_def)
  note l = manifest_ticket_lifetime [OF t ex_hex64 f]
  have "(1119 :: rat) \<le> of_int max_time" "(1120 :: rat) \<le> of_int max_time" by (simp_all add: max_time_def)
  with l [of 1119] l [of 1120] show ?thesis by (intro exI [of _ t]) simp
qed

lemma manifest_ticket_sound_witness:
  "\<exists>t i. verify_strix_runner_manifest_ticket (\<lambda>s. ex_hex) t ''r1'' ''strix:1'' [8080] (ex_hex []) ex_key (Fin 1050) = Inr t \<and>
     pget t ''issued_at'' = PInt i \<and> i \<le> 1055"
proof -
  have "case build_strix_runner_manifest_ticket (\<lambda>s. ex_hex) ex_manifest ex_key (Fin 1000) of Inl _ \<Rightarrow> False
    | Inr t \<Rightarrow> (case verify_strix_runner_manifest_ticket (\<lambda>s. ex_hex) t ''r1'' ''strix:1'' [8080] (ex_hex []) ex_key (Fin 1050) of
        Inl _ \<Rightarrow> False | Inr _ \<Rightarrow> True)" by code_simp
  then obtain t t' where v: "verify_strix_runner_manifest_ticket (\<lambda>s. ex_hex) t ''r1'' ''strix:1'' [8080] (ex_hex []) ex_key (Fin 1050) = Inr t'"
    by (auto split: sum.splits)
  from manifest_ticket_sound [OF this] obtain i where "t' = t" "pget t ''issued_at'' = PInt i" "of_int i - 5 \<le> (1050 :: rat)"
    by auto
  moreover from this(3) have "i \<le> 1055" by linarith
  ultimately show ?thesis using v by blast
qed

end
