(* ===== verification/PyJson.thy ===== *)
theory PyJson
  imports PyData
begin

text \<open>
  \<open>json.loads\<close> of Python's standard library, and that it inverts \<open>json.dumps\<close>. The parser is the
  recursive descent of \<open>json.scanner\<close> with a depth bound: each call consumes a character, so the
  length of the text is always enough (\<open>json_loads_dumps\<close>). Turning the text of a float into the
  float, given by its value and its \<open>repr\<close>, is the parameter \<open>pf\<close>; \<open>NaN\<close>, \<open>Infinity\<close> and code
  points above 255 have no value in \<open>pyval\<close> and are errors here.
\<close>

definition json_error :: py_error where
  "json_error = AppError ''JSONDecodeError'' ''invalid JSON document''"

definition json_ws :: "char \<Rightarrow> bool" where
  "json_ws c = (let n = (of_char c :: nat) in n = 32 \<or> n = 9 \<or> n = 10 \<or> n = 13)"

abbreviation skip_ws :: "string \<Rightarrow> string" where
  "skip_ws \<equiv> dropWhile json_ws"

section \<open>Strings\<close>

definition hex_val :: "char \<Rightarrow> nat option" where
  "hex_val c = (let n = (of_char c :: nat) in
     if 48 \<le> n \<and> n \<le> 57 then Some (n - 48)
     else if 97 \<le> n \<and> n \<le> 102 then Some (n - 87)
     else if 65 \<le> n \<and> n \<le> 70 then Some (n - 55) else None)"

definition simple_escape :: "char \<Rightarrow> char option" where
  "simple_escape c = (let n = (of_char c :: nat) in
     if n = 34 \<or> n = 92 \<or> n = 47 then Some c
     else if n = 98 then Some (char_of (8 :: nat))
     else if n = 102 then Some (char_of (12 :: nat))
     else if n = 110 then Some (char_of (10 :: nat))
     else if n = 114 then Some (char_of (13 :: nat))
     else if n = 116 then Some (char_of (9 :: nat)) else None)"

definition unicode_escape :: "string \<Rightarrow> (char \<times> string) option" where
  "unicode_escape s = (case s of
       a # b # c # d # r \<Rightarrow>
         (case (hex_val a, hex_val b, hex_val c, hex_val d) of
            (Some h1, Some h2, Some h3, Some h4) \<Rightarrow>
              if h1 = 0 \<and> h2 = 0 then Some (char_of (16 * h3 + h4), r) else None
          | _ \<Rightarrow> None)
     | _ \<Rightarrow> None)"

lemma unicode_escape_shorter: "unicode_escape s = Some (c, r) \<Longrightarrow> length r < length s"
  by (auto simp: unicode_escape_def split: list.splits option.splits if_splits)

text \<open>The characters of a string after its opening quote, and what follows the closing one.\<close>

function json_string :: "string \<Rightarrow> (string \<times> string) option" where
  "json_string s = (case s of [] \<Rightarrow> None
     | c # r \<Rightarrow>
         if c = CHR 0x22 then Some ([], r)
         else if c = CHR 0x5C then
           (case r of [] \<Rightarrow> None
            | e # r' \<Rightarrow>
                (case (if e = CHR ''u'' then unicode_escape r' else map_option (\<lambda>x. (x, r')) (simple_escape e)) of
                   None \<Rightarrow> None
                 | Some (x, r'') \<Rightarrow> map_option (\<lambda>(t, q). (x # t, q)) (json_string r'')))
         else if (of_char c :: nat) < 32 then None
         else map_option (\<lambda>(t, q). (c # t, q)) (json_string r))"
  by pat_completeness auto
termination
  by (relation "measure length") (auto split: if_splits dest!: unicode_escape_shorter)

declare json_string.simps [simp del]

section \<open>Numbers\<close>

text \<open>The longest match of \<open>-?(0|[1-9][0-9]*)([.][0-9]+)?([eE][-+]?[0-9]+)?\<close>.\<close>

definition num_sign :: "string \<Rightarrow> string \<times> string" where
  "num_sign s = (case s of c # r \<Rightarrow> if c = CHR ''-'' then ([c], r) else ([], s) | [] \<Rightarrow> ([], []))"

definition num_int :: "string \<Rightarrow> string \<times> string" where
  "num_int s = (case s of
       c # r \<Rightarrow> if c = CHR ''0'' then ([c], r) else (takeWhile is_digit s, dropWhile is_digit s)
     | [] \<Rightarrow> ([], []))"

definition num_frac :: "string \<Rightarrow> string \<times> string" where
  "num_frac s = (case s of
       c # r \<Rightarrow> if c = CHR ''.'' \<and> takeWhile is_digit r \<noteq> []
                then (c # takeWhile is_digit r, dropWhile is_digit r) else ([], s)
     | [] \<Rightarrow> ([], []))"

definition num_exp :: "string \<Rightarrow> string \<times> string" where
  "num_exp s = (case s of
       c # r \<Rightarrow> if c = CHR ''e'' \<or> c = CHR ''E'' then
           (let (sg, q) = (case r of d # q' \<Rightarrow> if d = CHR ''-'' \<or> d = CHR ''+'' then ([d], q') else ([], r) | [] \<Rightarrow> ([], [])) in
            if takeWhile is_digit q \<noteq> [] then (c # sg @ takeWhile is_digit q, dropWhile is_digit q) else ([], s))
         else ([], s)
     | [] \<Rightarrow> ([], []))"

definition json_number ::
  "(string \<Rightarrow> (rat \<times> string) option) \<Rightarrow> string \<Rightarrow> (pyval \<times> string) option" where
  "json_number pf s =
     (let (sg, r1) = num_sign s; (ip, r2) = num_int r1; (fp, r3) = num_frac r2; (ep, r4) = num_exp r3 in
      if ip = [] then None
      else if fp = [] \<and> ep = []
        then map_option (\<lambda>i. (PInt i, r4)) (py_int (sg @ ip))
        else map_option (\<lambda>(q, t). (PFloat q t, r4)) (pf (sg @ ip @ fp @ ep)))"

section \<open>Values\<close>

definition json_word :: "string \<Rightarrow> (pyval \<times> string) option" where
  "json_word s =
     (if py_startswith s ''null'' then Some (PNone, drop 4 s)
      else if py_startswith s ''true'' then Some (PBool True, drop 4 s)
      else if py_startswith s ''false'' then Some (PBool False, drop 5 s)
      else None)"

fun json_value :: "(string \<Rightarrow> (rat \<times> string) option) \<Rightarrow> nat \<Rightarrow> string \<Rightarrow> (pyval \<times> string) option"
  and json_elems :: "(string \<Rightarrow> (rat \<times> string) option) \<Rightarrow> nat \<Rightarrow> string \<Rightarrow> (pyval list \<times> string) option"
  and json_members :: "(string \<Rightarrow> (rat \<times> string) option) \<Rightarrow> nat \<Rightarrow> pydict \<Rightarrow> string \<Rightarrow> (pydict \<times> string) option" where
  "json_value pf 0 s = None"
| "json_value pf (Suc n) s = (case s of [] \<Rightarrow> None
     | c # r \<Rightarrow>
         if c = CHR 0x22 then map_option (\<lambda>(t, q). (PStr t, q)) (json_string r)
         else if c = CHR ''['' then
           (case skip_ws r of [] \<Rightarrow> None
            | d # q \<Rightarrow> if d = CHR '']'' then Some (PList [], q)
                       else map_option (\<lambda>(vs, q). (PList vs, q)) (json_elems pf n (d # q)))
         else if c = CHR ''{'' then
           (case skip_ws r of [] \<Rightarrow> None
            | d # q \<Rightarrow> if d = CHR ''}'' then Some (PDict [], q)
                       else map_option (\<lambda>(vs, q). (PDict vs, q)) (json_members pf n [] (d # q)))
         else (case json_word s of Some w \<Rightarrow> Some w | None \<Rightarrow> json_number pf s))"
| "json_elems pf 0 s = None"
| "json_elems pf (Suc n) s = (case json_value pf n s of None \<Rightarrow> None
     | Some (v, r) \<Rightarrow>
         (case skip_ws r of [] \<Rightarrow> None
          | c # q \<Rightarrow> if c = CHR '']'' then Some ([v], q)
                     else if c = CHR '','' then map_option (\<lambda>(vs, q). (v # vs, q)) (json_elems pf n (skip_ws q))
                     else None))"
| "json_members pf 0 d s = None"
| "json_members pf (Suc n) d s = (case s of [] \<Rightarrow> None
     | c # r \<Rightarrow> if c \<noteq> CHR 0x22 then None
       else (case json_string r of None \<Rightarrow> None
         | Some (k, r1) \<Rightarrow>
             (case skip_ws r1 of [] \<Rightarrow> None
              | c1 # r2 \<Rightarrow> if c1 \<noteq> CHR '':'' then None
                else (case json_value pf n (skip_ws r2) of None \<Rightarrow> None
                  | Some (v, r3) \<Rightarrow>
                      (let d' = dict_set k v d in
                       case skip_ws r3 of [] \<Rightarrow> None
                       | c3 # r4 \<Rightarrow> if c3 = CHR ''}'' then Some (d', r4)
                                    else if c3 = CHR '','' then json_members pf n d' (skip_ws r4)
                                    else None)))))"

definition json_loads :: "(string \<Rightarrow> (rat \<times> string) option) \<Rightarrow> string \<Rightarrow> pyval result" where
  "json_loads pf s =
     (case json_value pf (length s) (skip_ws s) of None \<Rightarrow> Inl json_error
      | Some (v, r) \<Rightarrow> if skip_ws r = [] then Inr v else Inl json_error)"

section \<open>Reading back strings and numbers\<close>

lemma hex_val_digit: "n < 16 \<Longrightarrow> hex_val (hex_digit n) = Some n"
  by (auto simp: hex_val_def hex_digit_def Let_def)

lemma json_string_step:
  "json_string (json_char c @ s) = map_option (\<lambda>(t, q). (c # t, q)) (json_string s)"
proof -
  let ?n = "of_char c :: nat"
  consider "?n = 34 \<or> ?n = 92" | "?n \<in> {8, 9, 10, 12, 13}" | "?n < 32" "?n \<notin> {8, 9, 10, 12, 13}"
    | "?n \<ge> 32" "?n \<noteq> 34" "?n \<noteq> 92"
    by linarith
  then show ?thesis
  proof cases
    case 1
    then show ?thesis
      by (auto simp: json_char_def json_string.simps [of "CHR 0x5C # _"] simple_escape_def)
  next
    case 2
    then have "c = char_of (8::nat) \<or> c = char_of (9::nat) \<or> c = char_of (10::nat) \<or> c = char_of (12::nat) \<or> c = char_of (13::nat)"
      by (metis char_of_char insertE singletonD)
    then show ?thesis
      by (auto simp: json_char_def json_string.simps [of "CHR 0x5C # _"] simple_escape_def)
  next
    case 3
    have "16 * (?n div 16) + ?n mod 16 = ?n" by simp
    then have "char_of (16 * (?n div 16) + ?n mod 16) = c" by simp
    moreover have "hex_val (hex_digit (?n div 16)) = Some (?n div 16)" "hex_val (hex_digit (?n mod 16)) = Some (?n mod 16)"
      using 3 by (auto intro!: hex_val_digit)
    moreover have "hex_val (CHR ''0'') = Some 0" by code_simp
    ultimately show ?thesis
      using 3 by (auto simp: json_char_def Let_def json_string.simps [of "CHR 0x5C # _"] unicode_escape_def)
  next
    case 4
    then have "c \<noteq> CHR 0x22" "c \<noteq> CHR 0x5C" by auto
    with 4 show ?thesis
      by (auto simp: json_char_def Let_def json_string.simps [of "c # _"])
  qed
qed

lemma json_string_escaped: "json_string (concat (map json_char t) @ CHR 0x22 # s) = Some (t, s)"
  by (induction t) (simp_all add: json_string_step json_string.simps [of "CHR 0x22 # _"])

lemma digits_value_nat_str: "digits_value a (nat_str n @ s) = digits_value (a * 10 ^ length (nat_str n) + int n) s"
proof (induction n arbitrary: a s rule: nat_str.induct)
  case (1 n)
  have d: "is_digit (char_of (48 + k))" "digit_val (char_of (48 + k)) = int k" if "k < 10" for k :: nat
    using that by (auto simp: is_digit_def digit_val_def Let_def)
  show ?case
  proof (cases "n < 10")
    case True
    then show ?thesis by (simp add: nat_str.simps [of n] d mult.commute)
  next
    case False
    have "int n = 10 * int (n div 10) + int (n mod 10)" by presburger
    with False 1 show ?thesis
      by (simp add: nat_str.simps [of n] d algebra_simps)
  qed
qed

lemma is_digit_char: "k < 10 \<Longrightarrow> is_digit (char_of (48 + k :: nat))"
  by (simp add: is_digit_def Let_def)

lemma nat_str_digits: "c \<in> set (nat_str n) \<Longrightarrow> is_digit c"
proof (induction n rule: nat_str.induct)
  case (1 n)
  then show ?case by (cases "n < 10") (auto simp: nat_str.simps [of n] is_digit_char)
qed

lemma nat_str_ne [simp]: "nat_str n \<noteq> []"
  by (cases "n < 10") (simp_all add: nat_str.simps [of n])

lemma hd_nat_str: "hd (nat_str n) = CHR ''0'' \<Longrightarrow> n = 0"
proof (induction n rule: nat_str.induct)
  case (1 n)
  show ?case
  proof (cases "n < 10")
    case True
    with 1 have "(of_char (char_of (48 + n) :: char) :: nat) = of_char (CHR ''0'')" by (simp add: nat_str.simps [of n])
    with True show ?thesis by simp
  next
    case False
    with 1 have "n div 10 = 0" by (simp add: nat_str.simps [of n])
    with False show ?thesis by simp
  qed
qed

lemma nat_str_0: "nat_str 0 = ''0''"
  by code_simp

definition num_stop :: "string \<Rightarrow> bool" where
  "num_stop r = (r = [] \<or> hd r \<in> {CHR '','', CHR '']'', CHR ''}''})"

lemma takeWhile_stop: "(\<And>c. c \<in> set t \<Longrightarrow> P c) \<Longrightarrow> r = [] \<or> \<not> P (hd r) \<Longrightarrow>
    takeWhile P (t @ r) = t \<and> dropWhile P (t @ r) = r"
  by (cases r) auto

lemma stop_digit: "num_stop r \<Longrightarrow> r = [] \<or> \<not> is_digit (hd r)"
  by (auto simp: num_stop_def is_digit_def Let_def)

lemma stop_frac: "num_stop r \<Longrightarrow> num_frac r = ([], r)"
  by (auto simp: num_stop_def num_frac_def split: list.splits)

lemma stop_exp: "num_stop r \<Longrightarrow> num_exp r = ([], r)"
  by (auto simp: num_stop_def num_exp_def split: list.splits)

lemma num_int_nat_str:
  assumes "num_stop r" shows "num_int (nat_str n @ r) = (nat_str n, r)"
proof (cases "n = 0")
  case True
  then show ?thesis by (simp add: nat_str_0 num_int_def)
next
  case False
  then have "hd (nat_str n) \<noteq> CHR ''0''" using hd_nat_str by blast
  moreover obtain c cs where "nat_str n = c # cs" by (cases "nat_str n") auto
  moreover have "takeWhile is_digit (nat_str n @ r) = nat_str n \<and> dropWhile is_digit (nat_str n @ r) = r"
    using assms by (intro takeWhile_stop nat_str_digits stop_digit)
  ultimately show ?thesis by (simp add: num_int_def)
qed

lemma py_int_nat_str:
  assumes "length (nat_str n) \<le> 4300"
  shows "unsigned_value (nat_str n) = Some (int n)"
proof -
  obtain c cs where c: "nat_str n = c # cs" by (cases "nat_str n") auto
  have "filter is_digit (nat_str n) = nat_str n"
    by (simp add: filter_id_conv nat_str_digits)
  moreover have "digits_value 0 (nat_str n) = Some (int n)"
    using digits_value_nat_str [of 0 n "[]"] by simp
  moreover have "is_digit c" using c nat_str_digits [of c n] by simp
  ultimately show ?thesis using assms c by (simp add: unsigned_value_def)
qed

lemma digit_not_space: "is_digit c \<or> c = CHR ''-'' \<Longrightarrow> \<not> int_space s c"
  by (auto simp: is_digit_def int_space_def py_isspace_def Let_def)

lemma strip_none:
  "(\<And>c. c \<in> set t \<Longrightarrow> \<not> P c) \<Longrightarrow> rstrip_by P (lstrip_by P t) = t"
proof -
  assume a: "\<And>c. c \<in> set t \<Longrightarrow> \<not> P c"
  then have "dropWhile P t = t" by (cases t) auto
  moreover from a have "dropWhile P (rev t) = rev t" by (cases "rev t") (simp_all add: rev_eq_Cons_iff)
  ultimately show ?thesis by (simp add: lstrip_by_def rstrip_by_def)
qed

lemma py_int_int_str:
  assumes "length (int_str i) \<le> 4300"
  shows "py_int (int_str i) = Some i"
proof -
  obtain c cs where c: "nat_str (nat \<bar>i\<bar>) = c # cs" by (cases "nat_str (nat \<bar>i\<bar>)") auto
  then have d: "is_digit c" using nat_str_digits [of c "nat \<bar>i\<bar>"] by simp
  have "rstrip_by (int_space (int_str i)) (lstrip_by (int_space (int_str i)) (int_str i)) = int_str i"
    by (rule strip_none) (auto simp: int_str_def split: if_splits intro!: digit_not_space dest: nat_str_digits)
  moreover have "unsigned_value (nat_str (nat \<bar>i\<bar>)) = Some \<bar>i\<bar>"
    using assms by (subst py_int_nat_str) (auto simp: int_str_def split: if_splits)
  moreover from d have "c \<noteq> CHR ''-''" "c \<noteq> CHR ''+''" by (auto simp: is_digit_def Let_def)
  ultimately show ?thesis
    using c by (cases "i < 0") (auto simp: py_int_def int_str_def)
qed

lemma json_number_int:
  assumes "length (int_str i) \<le> 4300" and "num_stop r"
  shows "json_number pf (int_str i @ r) = Some (PInt i, r)"
proof -
  obtain c cs where c: "nat_str (nat \<bar>i\<bar>) = c # cs" by (cases "nat_str (nat \<bar>i\<bar>)") auto
  have "is_digit c" using nat_str_digits [of c "nat \<bar>i\<bar>"] c by simp
  then have "num_sign (int_str i @ r) = (if i < 0 then ''-'' else [], nat_str (nat \<bar>i\<bar>) @ r)"
    using c by (auto simp: num_sign_def int_str_def is_digit_def Let_def)
  then show ?thesis
    using assms py_int_int_str [OF assms(1)]
    by (auto simp: json_number_def num_int_nat_str stop_frac stop_exp int_str_def)
qed

section \<open>The round trip\<close>

text \<open>The text of a float is a number with a fraction or an exponent that \<open>pf\<close> reads back.\<close>

definition float_text :: "string \<Rightarrow> bool" where
  "float_text t = (let (sg, r1) = num_sign t; (ip, r2) = num_int r1; (fp, r3) = num_frac r2; (ep, r4) = num_exp r3 in
     ip \<noteq> [] \<and> (fp \<noteq> [] \<or> ep \<noteq> []) \<and> t = sg @ ip @ fp @ ep)"

fun json_ok :: "(string \<Rightarrow> (rat \<times> string) option) \<Rightarrow> pyval \<Rightarrow> bool" where
  "json_ok pf (PInt i) = (length (int_str i) \<le> 4300)"
| "json_ok pf (PFloat q t) = (float_text t \<and> pf t = Some (q, t))"
| "json_ok pf (PList vs) = list_all (json_ok pf) vs"
| "json_ok pf (PDict d) = (distinct (map fst d) \<and> list_all (\<lambda>(k, v). json_ok pf v) d)"
| "json_ok pf _ = True"

text \<open>What is read back: the same value, with the items of its dicts sorted if they were sorted.\<close>

fun json_norm :: "bool \<Rightarrow> pyval \<Rightarrow> pyval" where
  "json_norm sk (PList vs) = PList (map (json_norm sk) vs)"
| "json_norm sk (PDict d) = (let d' = map (\<lambda>(k, v). (k, json_norm sk v)) d in PDict (if sk then sort_items d' else d'))"
| "json_norm sk v = v"

lemma json_norm_False [simp]: "json_norm False v = v"
  by (induction "False" v rule: json_norm.induct) (auto simp: map_idI intro!: map_idI)

lemma digits_stop:
  assumes "num_stop r"
  shows "takeWhile is_digit (s @ r) = takeWhile is_digit s" "dropWhile is_digit (s @ r) = dropWhile is_digit s @ r"
proof -
  have "takeWhile is_digit r = []" "dropWhile is_digit r = r"
    using stop_digit [OF assms] by (cases r; auto)+
  then show "takeWhile is_digit (s @ r) = takeWhile is_digit s" "dropWhile is_digit (s @ r) = dropWhile is_digit s @ r"
    by (induction s) auto
qed

lemma num_stop_hd: "num_stop (c # r) \<Longrightarrow> c \<in> {CHR '','', CHR '']'', CHR ''}''}"
  by (simp add: num_stop_def)

lemma lexers_stop:
  assumes "num_stop r"
  shows "num_sign (s @ r) = (fst (num_sign s), snd (num_sign s) @ r)"
    and "num_int (s @ r) = (fst (num_int s), snd (num_int s) @ r)"
    and "num_frac (s @ r) = (fst (num_frac s), snd (num_frac s) @ r)"
    and "num_exp (s @ r) = (fst (num_exp s), snd (num_exp s) @ r)"
proof -
  note digits = digits_stop [OF assms] digits_stop [OF assms, of "[]", simplified]
  have e: "num_sign r = ([], r)" "num_int r = ([], r)"
    using assms digits by (cases r; auto simp: num_sign_def num_int_def dest!: num_stop_hd)+
  show "num_sign (s @ r) = (fst (num_sign s), snd (num_sign s) @ r)"
    using e(1) by (cases s) (auto simp: num_sign_def)
  show "num_int (s @ r) = (fst (num_int s), snd (num_int s) @ r)"
  proof (cases s)
    case (Cons c s')
    then show ?thesis using digits(1,2) [of s] by (simp add: num_int_def)
  qed (use e in \<open>simp add: num_int_def\<close>)
  show "num_frac (s @ r) = (fst (num_frac s), snd (num_frac s) @ r)"
  proof (cases s)
    case (Cons c s')
    then show ?thesis by (simp add: num_frac_def digits)
  qed (use stop_frac [OF assms] in \<open>simp add: num_frac_def\<close>)
  show "num_exp (s @ r) = (fst (num_exp s), snd (num_exp s) @ r)"
  proof (cases s)
    case (Cons c s')
    show ?thesis
    proof (cases s')
      case Nil
      then show ?thesis using Cons digits assms
        by (cases r) (auto simp: num_exp_def dest!: num_stop_hd)
    next
      case (Cons d s'')
      then show ?thesis using \<open>s = c # s'\<close> digits(1,2) [of s''] digits(1,2) [of s']
        by (simp add: num_exp_def)
    qed
  qed (use stop_exp [OF assms] in \<open>simp add: num_exp_def\<close>)
qed

lemma lexers_split:
  "fst (num_sign s) @ snd (num_sign s) = s" "fst (num_int s) @ snd (num_int s) = s"
  "fst (num_frac s) @ snd (num_frac s) = s" "fst (num_exp s) @ snd (num_exp s) = s"
proof -
  show "fst (num_sign s) @ snd (num_sign s) = s" by (cases s) (auto simp: num_sign_def)
  show "fst (num_int s) @ snd (num_int s) = s" by (cases s) (auto simp: num_int_def)
  show "fst (num_frac s) @ snd (num_frac s) = s" by (cases s) (auto simp: num_frac_def)
  show "fst (num_exp s) @ snd (num_exp s) = s"
  proof (cases s)
    case (Cons c s')
    then show ?thesis
      by (cases s') (auto simp: num_exp_def Let_def, (metis append_Nil takeWhile_dropWhile_id)+)
  qed (simp add: num_exp_def)
qed

lemma json_number_float:
  assumes "float_text t" and "pf t = Some (q, t)" and "num_stop r"
  shows "json_number pf (t @ r) = Some (PFloat q t, r)"
proof -
  obtain sg r1 where 1: "num_sign t = (sg, r1)" by fastforce
  obtain ip r2 where 2: "num_int r1 = (ip, r2)" by fastforce
  obtain fp r3 where 3: "num_frac r2 = (fp, r3)" by fastforce
  obtain ep r4 where 4: "num_exp r3 = (ep, r4)" by fastforce
  have t: "ip \<noteq> []" "fp \<noteq> [] \<or> ep \<noteq> []" "sg @ ip @ fp @ ep = t"
    using assms(1) by (auto simp: float_text_def 1 2 3 4)
  have "t = sg @ r1" "r1 = ip @ r2" "r2 = fp @ r3" "r3 = ep @ r4"
    using lexers_split [of t] lexers_split [of r1] lexers_split [of r2] lexers_split [of r3] 1 2 3 4 by simp_all
  with t(3) have "r4 = []" by simp
  with t show ?thesis
    using assms(2) by (auto simp: json_number_def lexers_stop [OF assms(3)] 1 2 3 4)
qed

lemma int_str_hd: "hd (int_str i) = CHR ''-'' \<or> is_digit (hd (int_str i))" "int_str i \<noteq> []"
proof -
  obtain c cs where "nat_str (nat \<bar>i\<bar>) = c # cs" by (cases "nat_str (nat \<bar>i\<bar>)") auto
  then show "hd (int_str i) = CHR ''-'' \<or> is_digit (hd (int_str i))" "int_str i \<noteq> []"
    using nat_str_digits [of c "nat \<bar>i\<bar>"] by (auto simp: int_str_def)
qed

lemma float_text_hd:
  assumes "float_text t" shows "hd t = CHR ''-'' \<or> is_digit (hd t)" "t \<noteq> []"
proof -
  obtain c t' where t: "t = c # t'" using assms by (cases t) (auto simp: float_text_def num_sign_def num_int_def)
  have "c = CHR ''-'' \<or> is_digit c"
  proof (rule ccontr)
    assume "\<not> ?thesis"
    moreover from this have "c \<noteq> CHR ''0''" by (auto simp: is_digit_def Let_def)
    ultimately have "num_sign t = ([], t)" "num_int t = ([], t)" by (simp_all add: t num_sign_def num_int_def)
    with assms show False by (simp add: float_text_def split: prod.splits)
  qed
  then show "hd t = CHR ''-'' \<or> is_digit (hd t)" "t \<noteq> []" by (simp_all add: t)
qed

lemma number_start:
  assumes "t \<noteq> []" and "hd t = CHR ''-'' \<or> is_digit (hd t)"
  shows "json_value pf (Suc n) (t @ r) = json_number pf (t @ r)" and "\<not> json_ws (hd t)"
proof -
  obtain c t' where t: "t = c # t'" using assms(1) by (cases t) auto
  have "c \<noteq> CHR 0x22" "c \<noteq> CHR ''[''" "c \<noteq> CHR ''{''" "c \<noteq> CHR ''n''" "c \<noteq> CHR ''t''" "c \<noteq> CHR ''f''"
    using assms(2) by (auto simp: t is_digit_def Let_def)
  then show "json_value pf (Suc n) (t @ r) = json_number pf (t @ r)"
    by (simp add: t json_word_def py_startswith_def)
  show "\<not> json_ws (hd t)" using assms(2) by (auto simp: t is_digit_def json_ws_def Let_def)
qed

lemma dumps_hd:
  assumes "json_ok pf v"
  shows "json_dumps sk v \<noteq> []" and "\<not> json_ws (hd (json_dumps sk v))" and "hd (json_dumps sk v) \<noteq> CHR '']''"
proof -
  have *: "t \<noteq> [] \<and> \<not> json_ws (hd t) \<and> hd t \<noteq> CHR '']''" if "t \<noteq> []" "hd t = CHR ''-'' \<or> is_digit (hd t)" for t
    using number_start(2) [OF that] that by (auto simp: is_digit_def Let_def)
  have "json_dumps sk v \<noteq> [] \<and> \<not> json_ws (hd (json_dumps sk v)) \<and> hd (json_dumps sk v) \<noteq> CHR '']''"
  proof (cases v)
    case (PInt i)
    then show ?thesis using * [OF int_str_hd(2,1)] by simp
  next
    case (PFloat q t)
    with assms have "float_text t" by simp
    then show ?thesis using * [OF float_text_hd(2,1)] PFloat by simp
  qed (auto simp: json_ws_def json_str_def Let_def)
  then show "json_dumps sk v \<noteq> []" and "\<not> json_ws (hd (json_dumps sk v))" and "hd (json_dumps sk v) \<noteq> CHR '']''"
    by blast+
qed

lemma skip_ws_id: "t \<noteq> [] \<Longrightarrow> \<not> json_ws (hd t) \<Longrightarrow> skip_ws (t @ r) = t @ r"
  by (cases t) auto

lemma join_hd: "t \<noteq> [] \<Longrightarrow> py_join s (t # ts) \<noteq> [] \<and> hd (py_join s (t # ts)) = hd t"
  by (cases ts) auto

definition reads_back :: "(string \<Rightarrow> (rat \<times> string) option) \<Rightarrow> bool \<Rightarrow> pyval \<Rightarrow> bool" where
  "reads_back pf sk v = (json_dumps sk v \<noteq> [] \<and> \<not> json_ws (hd (json_dumps sk v)) \<and>
     (\<forall>n r. num_stop r \<longrightarrow> length (json_dumps sk v) \<le> n \<longrightarrow>
        json_value pf n (json_dumps sk v @ r) = Some (json_norm sk v, r)))"

lemma elems_read_back:
  assumes "vs \<noteq> []" and "\<And>v. v \<in> set vs \<Longrightarrow> reads_back pf sk v"
    and "length (py_join '','' (map (json_dumps sk) vs)) < n"
  shows "json_elems pf n (py_join '','' (map (json_dumps sk) vs) @ CHR '']'' # r) = Some (map (json_norm sk) vs, r)"
  using assms
proof (induction vs arbitrary: n)
  case (Cons v vs)
  from Cons.prems(3) obtain m where n: "n = Suc m" by (cases n) auto
  have v: "reads_back pf sk v" using Cons.prems(2) by simp
  have ws: "\<not> json_ws (CHR '','')" "\<not> json_ws (CHR '']'')" by (simp_all add: json_ws_def)
  show ?case
  proof (cases "vs = []")
    case True
    with v Cons.prems(3) ws show ?thesis by (simp add: reads_back_def n num_stop_def)
  next
    case False
    let ?rest = "py_join '','' (map (json_dumps sk) vs) @ CHR '']'' # r"
    obtain w ws' where vs: "vs = w # ws'" using False by (cases vs) auto
    then have "reads_back pf sk w" using Cons.prems(2) by simp
    then have "skip_ws ?rest = ?rest"
      using join_hd [of "json_dumps sk w" "'',''" "map (json_dumps sk) ws'"] by (intro skip_ws_id) (auto simp: vs reads_back_def)
    moreover have len: "length (json_dumps sk v) \<le> m" "length (py_join '','' (map (json_dumps sk) vs)) < m"
      using Cons.prems(3) v by (auto simp: n vs reads_back_def dest!: length_greater_0_conv [THEN iffD2])
    moreover have "json_elems pf m ?rest = Some (map (json_norm sk) vs, r)"
      using Cons.IH [OF False] Cons.prems(2) len by simp
    moreover have "json_value pf m (json_dumps sk v @ CHR '','' # ?rest) = Some (json_norm sk v, CHR '','' # ?rest)"
      using v len by (simp add: reads_back_def num_stop_def)
    ultimately show ?thesis using ws by (simp add: n vs)
  qed
qed simp

definition member_text :: "bool \<Rightarrow> string \<times> pyval \<Rightarrow> string" where
  "member_text sk m = (case m of (k, v) \<Rightarrow> json_str k @ '':'' @ json_dumps sk v)"

lemma json_string_str: "json_string (concat (map json_char k) @ CHR 0x22 # s) = Some (k, s)"
  by (rule json_string_escaped)

lemma members_read_back:
  assumes "d \<noteq> []" and "\<And>k v. (k, v) \<in> set d \<Longrightarrow> reads_back pf sk v"
    and "distinct (map fst (acc @ d))" and "length (py_join '','' (map (member_text sk) d)) < n"
  shows "json_members pf n acc (py_join '','' (map (member_text sk) d) @ CHR ''}'' # r) =
    Some (acc @ map (\<lambda>(k, v). (k, json_norm sk v)) d, r)"
  using assms
proof (induction d arbitrary: n acc)
  case (Cons m d)
  obtain k v where m: "m = (k, v)" by (cases m)
  from Cons.prems(4) obtain n' where n: "n = Suc n'" by (cases n) auto
  have v: "reads_back pf sk v" using Cons.prems(2) [of k v] by (simp add: m)
  have ws: "\<not> json_ws (CHR '','')" "\<not> json_ws (CHR ''}'')" "\<not> json_ws (CHR '':'')" by (simp_all add: json_ws_def)
  have fresh: "dict_set k (json_norm sk v) acc = acc @ [(k, json_norm sk v)]"
    using Cons.prems(3) by (intro dict_set_new) (auto simp: m)
  have shape: "member_text sk m @ s = CHR 0x22 # concat (map json_char k) @ CHR 0x22 # CHR '':'' # json_dumps sk v @ s" for s
    by (simp add: m member_text_def json_str_def)
  have skip: "skip_ws (json_dumps sk v @ s) = json_dumps sk v @ s" for s
    using v by (intro skip_ws_id) (auto simp: reads_back_def)
  show ?case
  proof (cases "d = []")
    case True
    have "length (json_dumps sk v) \<le> n'" using Cons.prems(4) by (simp add: True n m member_text_def)
    then have "json_value pf n' (json_dumps sk v @ CHR ''}'' # r) = Some (json_norm sk v, CHR ''}'' # r)"
      using v by (simp add: reads_back_def num_stop_def)
    then show ?thesis using ws by (simp add: True n shape skip json_string_str fresh) (simp add: m)
  next
    case False
    let ?rest = "py_join '','' (map (member_text sk) d) @ CHR ''}'' # r"
    obtain w d' where d: "d = w # d'" using False by (cases d) auto
    have "member_text sk w \<noteq> [] \<and> hd (member_text sk w) = CHR 0x22"
      by (cases w) (simp add: member_text_def json_str_def)
    then have "skip_ws ?rest = ?rest"
      using join_hd [of "member_text sk w" "'',''" "map (member_text sk) d'"]
      by (intro skip_ws_id) (auto simp: d json_ws_def)
    moreover have len: "length (json_dumps sk v) \<le> n'" "length (py_join '','' (map (member_text sk) d)) < n'"
      using Cons.prems(4) shape [of "[]"] by (auto simp: n d dest!: arg_cong [where f = length])
    moreover have "json_members pf n' (acc @ [(k, json_norm sk v)]) ?rest =
        Some (acc @ map (\<lambda>(k, v). (k, json_norm sk v)) (m # d), r)"
      using Cons.IH [OF False _ _ len(2), of "acc @ [(k, json_norm sk v)]"] Cons.prems(2,3) by (auto simp: m)
    moreover have "json_value pf n' (json_dumps sk v @ CHR '','' # ?rest) = Some (json_norm sk v, CHR '','' # ?rest)"
      using v len by (simp add: reads_back_def num_stop_def)
    moreover have "py_join '','' (map (member_text sk) (m # d)) @ CHR ''}'' # r = member_text sk m @ CHR '','' # ?rest"
      by (simp add: d)
    ultimately show ?thesis using ws by (simp only: shape n) (simp add: skip json_string_str fresh)
  qed
qed simp

lemma sort_items_map: "sort_items (map (\<lambda>(k, v). (k, g k v)) d) = map (\<lambda>(k, v). (k, g k v)) (sort_items d)"
proof -
  have "insort_key fst (k, g k v) (map (\<lambda>(k, v). (k, g k v)) e) = map (\<lambda>(k, v). (k, g k v)) (insort_key fst (k, v) e)" for k v e
    by (induction e) auto
  then show ?thesis unfolding sort_items_def by (induction d) auto
qed

lemma value_reads_back: "json_ok pf v \<Longrightarrow> reads_back pf sk v"
proof (induction pf v rule: json_ok.induct)
  case (1 pf i)
  have "json_value pf n (int_str i @ r) = Some (PInt i, r)" if "num_stop r" "length (int_str i) \<le> n" for n r
    using that 1 number_start(1) [OF int_str_hd(2,1)] json_number_int [of i r pf]
    by (cases n) (auto simp: int_str_hd(2))
  then show ?case using dumps_hd [OF 1] by (simp add: reads_back_def)
next
  case (2 pf q t)
  then have t: "float_text t" "pf t = Some (q, t)" by simp_all
  have "json_value pf n (t @ r) = Some (PFloat q t, r)" if "num_stop r" "length t \<le> n" for n r
    using that number_start(1) [OF float_text_hd(2,1)] t json_number_float [of t pf q r]
    by (cases n) (auto simp: float_text_hd(2))
  then show ?case using dumps_hd [OF 2] by (simp add: reads_back_def)
next
  case (3 pf vs)
  let ?body = "py_join '','' (map (json_dumps sk) vs)"
  have rb: "\<And>v. v \<in> set vs \<Longrightarrow> reads_back pf sk v"
    using 3 by (auto simp: list_all_iff)
  have "json_value pf n (json_dumps sk (PList vs) @ r) = Some (json_norm sk (PList vs), r)"
    if len: "length (json_dumps sk (PList vs)) \<le> n" for n r
  proof -
    obtain m where n: "n = Suc m" and m: "length ?body < m" using len by (cases n) auto
    show ?thesis
    proof (cases "vs = []")
      case True
      then show ?thesis by (simp add: n json_ws_def)
    next
      case False
      then obtain w ws where vs: "vs = w # ws" by (cases vs) auto
      have w: "json_ok pf w" using 3(2) by (simp add: vs)
      have hd: "?body \<noteq> []" "hd ?body = hd (json_dumps sk w)"
        using join_hd [OF dumps_hd(1) [OF w], of "'',''"] by (simp_all add: vs)
      then obtain c b where b: "?body = c # b" by (cases ?body) auto
      have "\<not> json_ws c" "c \<noteq> CHR '']''" using hd dumps_hd(2,3) [OF w, of sk] by (simp_all add: b)
      then show ?thesis using elems_read_back [OF False rb m, of r] by (simp add: n b)
    qed
  qed
  then show ?case using dumps_hd [OF 3(2)] by (simp add: reads_back_def)
next
  case (4 pf d)
  define e where "e = (if sk then sort_items d else d)"
  let ?body = "py_join '','' (map (member_text sk) e)"
  let ?f = "\<lambda>(k, v). (k, member_text sk (k, v))"
  have srt: "sort_items (map ?f d) = map ?f (sort_items d)" by (rule sort_items_map)
  have "map snd (map ?f l) = map (member_text sk) l" for l by auto
  with srt have e: "set e = set d" "distinct (map fst e)"
    "map snd (if sk then sort_items (map ?f d) else map ?f d) = map (member_text sk) e"
    using 4(2) by (auto simp: e_def sort_items_def distinct_map)
  have norm: "json_norm sk (PDict d) = PDict (map (\<lambda>(k, v). (k, json_norm sk v)) e)"
    by (simp add: e_def sort_items_map)
  have shape: "json_dumps sk (PDict d) = ''{'' @ ?body @ ''}''"
  proof -
    have "(\<lambda>(k, v). (k, json_str k @ '':'' @ json_dumps sk v)) = ?f" by (auto simp: member_text_def fun_eq_iff)
    with e(3) show ?thesis by (simp only: json_dumps.simps Let_def)
  qed
  have rb: "\<And>k v. (k, v) \<in> set e \<Longrightarrow> reads_back pf sk v"
    using 4 by (fastforce simp: list_all_iff e(1))
  have "json_value pf n (json_dumps sk (PDict d) @ r) = Some (json_norm sk (PDict d), r)"
    if len: "length (json_dumps sk (PDict d)) \<le> n" for n r
  proof -
    obtain m where n: "n = Suc m" and m: "length ?body < m" using len unfolding shape by (cases n) auto
    show ?thesis
    proof (cases "e = []")
      case True
      then show ?thesis unfolding shape norm by (simp add: n json_ws_def)
    next
      case False
      then obtain w ws where vs: "e = w # ws" by (cases e) auto
      have "member_text sk w \<noteq> [] \<and> hd (member_text sk w) = CHR 0x22"
        by (cases w) (simp add: member_text_def json_str_def)
      then have hd: "?body \<noteq> []" "hd ?body = CHR 0x22"
        using join_hd [of "member_text sk w" "'',''"] by (simp_all add: vs)
      then obtain b where b: "?body = CHR 0x22 # b" by (cases ?body) auto
      have ws: "\<not> json_ws (CHR 0x22)" by (simp add: json_ws_def)
      have "json_members pf m [] (?body @ CHR ''}'' # r) = Some (map (\<lambda>(k, v). (k, json_norm sk v)) e, r)"
        using members_read_back [OF False rb _ m, where acc = "[]" and r = r] e(2) by simp
      with ws show ?thesis unfolding shape norm by (simp add: n b)
    qed
  qed
  then show ?case using dumps_hd [OF 4(2)] by (simp add: reads_back_def)
qed (auto simp: reads_back_def json_ws_def json_word_def py_startswith_def json_str_def json_string_str Suc_le_eq Suc_less_eq2)

theorem json_loads_dumps:
  assumes "json_ok pf v" shows "json_loads pf (json_dumps sk v) = Inr (json_norm sk v)"
  using value_reads_back [OF assms, of sk] skip_ws_id [of "json_dumps sk v" "[]"]
  by (auto simp: reads_back_def json_loads_def num_stop_def dest!: spec [of _ "length (json_dumps sk v)"] spec [of _ "[]"])

end
