(* ===== verification/StorageCore.thy ===== *)
theory StorageCore
  imports PyJson ObservationGraph
begin

text \<open>
  \<open>backend/app/storage_core.py\<close> and \<open>backend/app/storage.py\<close>, without the artifacts (\<open>ArtifactStore\<close>):
  the versioned documents, written under a compare-and-swap on their version; the observations, the
  snapshots and the flow bindings, which are written once. A table is the list of its rows in
  insertion order, a transaction one step, an \<open>ORDER BY\<close> with ties keeps the order of insertion. Documents are
  dicts with text keys, stored as JSON text; \<open>pf\<close> is the parser of floats of \<open>PyJson\<close>.
\<close>

section \<open>Limits and identifiers\<close>

definition max_campaign_document_bytes :: "environ \<Rightarrow> int result" where
  "max_campaign_document_bytes env = bounded_env ''2097152'' ''XBOW_MAX_CAMPAIGN_DOCUMENT_BYTES must be an integer''
     65536 (10 * 1024 * 1024) ''XBOW_MAX_CAMPAIGN_DOCUMENT_BYTES must be between 64 KiB and 10 MiB''
     (env ''XBOW_MAX_CAMPAIGN_DOCUMENT_BYTES'')"

definition max_observation_bytes :: "environ \<Rightarrow> int result" where
  "max_observation_bytes env = bounded_env ''65536'' ''XBOW_MAX_OBSERVATION_BYTES must be an integer''
     1024 (1024 * 1024) ''XBOW_MAX_OBSERVATION_BYTES must be between 1 KiB and 1 MiB''
     (env ''XBOW_MAX_OBSERVATION_BYTES'')"

definition st_identifier_max :: "nat \<Rightarrow> string \<Rightarrow> string \<Rightarrow> string result" where
  "st_identifier_max max_length value name =
     (let normalized = py_strip value in
      if normalized = [] then Inl (ValueError (name @ '' required''))
      else if length normalized > max_length then Inl (ValueError (name @ '' too long''))
      else if list_ex bad_ident_char normalized
        then Inl (ValueError (name @ '' contains invalid characters''))
      else Inr normalized)"

definition st_identifier :: "string \<Rightarrow> string \<Rightarrow> string result" where
  "st_identifier = st_identifier_max 200"

lemma st_identifier_Inr: "st_identifier v n = Inr s \<Longrightarrow> is_ident s \<and> s = py_strip v"
  by (auto simp: st_identifier_def st_identifier_max_def is_ident_def Let_def split: if_splits)

lemma st_identifier_ident [simp]: "is_ident s \<Longrightarrow> st_identifier s n = Inr s"
  by (auto simp: st_identifier_def st_identifier_max_def is_ident_def Let_def)

text \<open>A value bound to a text column of SQLite (\<open>None\<close> is NULL), and the constraint NOT NULL.\<close>

definition sql_bind :: "pyval \<Rightarrow> string option result" where
  "sql_bind v = (case v of
       PNone \<Rightarrow> Inr None
     | PStr s \<Rightarrow> Inr (Some s)
     | PBool b \<Rightarrow> Inr (Some (if b then ''1'' else ''0''))
     | PInt i \<Rightarrow> if - (2 ^ 63) \<le> i \<and> i < 2 ^ 63 then Inr (Some (int_str i))
                 else Inl (OverflowError ''Python int too large to convert to SQLite INTEGER'')
     | PFloat q t \<Rightarrow> Inr (Some t)
     | _ \<Rightarrow> Inl (AppError ''sqlite3.ProgrammingError'' ''type is not supported''))"

definition not_null :: "string option \<Rightarrow> string result" where
  "not_null v = (case v of None \<Rightarrow> Inl (IntegrityError ''NOT NULL constraint failed'') | Some s \<Rightarrow> Inr s)"

section \<open>The tables\<close>

record doc_row =
  dr_id :: string
  dr_document :: string
  dr_updated :: string
  dr_version :: int

record stated_row = doc_row +
  sr_state :: string
  sr_created :: string

record profile_row = doc_row +
  pr_handle :: string
  pr_snapshot :: string

record obs_row =
  or_campaign :: string
  or_id :: string
  or_kind :: string
  or_value :: string
  or_source :: string
  or_parents :: string
  or_metadata :: string
  or_created :: string

record snapshot_row =
  sn_campaign :: string
  sn_fingerprint :: string
  sn_document :: string
  sn_created :: string

record binding_row =
  br_flow :: string
  br_campaign :: string
  br_policy :: string
  br_endpoint :: string
  br_provider :: string
  br_created :: string

record artifact_row =
  ar_id :: string
  ar_campaign :: string
  ar_finding :: "string option"
  ar_kind :: string
  ar_media :: string
  ar_path :: string
  ar_sha :: string
  ar_size :: int
  ar_created :: string
  ar_key :: "string option"

text \<open>The database and, below the artifact root, the files by their absolute path.\<close>

record storage =
  st_campaigns :: "stated_row list"
  st_batches :: "stated_row list"
  st_catalog :: "doc_row list"
  st_intel :: "doc_row list"
  st_profiles :: "profile_row list"
  st_observations :: "obs_row list"
  st_hypotheses :: "snapshot_row list"
  st_advisories :: "snapshot_row list"
  st_bindings :: "binding_row list"
  st_artifacts :: "artifact_row list"
  st_files :: "string list \<Rightarrow> string option"

definition st_empty :: storage where
  "st_empty = \<lparr>st_campaigns = [], st_batches = [], st_catalog = [], st_intel = [], st_profiles = [],
     st_observations = [], st_hypotheses = [], st_advisories = [], st_bindings = [], st_artifacts = [],
     st_files = (\<lambda>_. None)\<rparr>"

section \<open>Versioned documents\<close>

definition find_row :: "string \<Rightarrow> 'a doc_row_scheme list \<Rightarrow> 'a doc_row_scheme option" where
  "find_row k t = find (\<lambda>r. dr_id r = k) t"

text \<open>
  The transaction the five \<open>save_\<close> methods share: the row inserted with version 1, or changed under
  \<open>UPDATE ... WHERE id=? AND version=?\<close>. \<open>fresh\<close> and \<open>change\<close> fail when a column cannot be bound.
\<close>

definition cas_write ::
  "string \<Rightarrow> string \<Rightarrow> int option \<Rightarrow> 'a doc_row_scheme result \<Rightarrow>
   ('a doc_row_scheme \<Rightarrow> 'a doc_row_scheme) result \<Rightarrow> 'a doc_row_scheme list \<Rightarrow>
   ('a doc_row_scheme list \<times> int) result" where
  "cas_write what k expected fresh change t =
     (let conflict = Inl (ConflictError (what @ '' version conflict'')) in
      case find_row k t of
        None \<Rightarrow> if expected \<notin> {None, Some 0} then conflict
          else rbind fresh (\<lambda>r. Inr (t @ [r\<lparr>dr_id := k, dr_version := 1\<rparr>], 1))
      | Some r \<Rightarrow>
          (let current = dr_version r; p = (\<lambda>r. dr_id r = k \<and> dr_version r = current) in
           if expected \<noteq> None \<and> expected \<noteq> Some current then conflict
           else rbind change (\<lambda>f.
             if length (filter p t) \<noteq> 1 then conflict
             else Inr (map (\<lambda>r. if p r then (f r)\<lparr>dr_id := k, dr_version := current + 1\<rparr> else r) t, current + 1))))"

definition has_fields :: "string list \<Rightarrow> pydict \<Rightarrow> bool" where
  "has_fields ks d = list_all (\<lambda>k. map_of d k \<noteq> None) ks"

definition encode_document :: "environ \<Rightarrow> string \<Rightarrow> pydict \<Rightarrow> string result" where
  "encode_document env msg d =
     (let encoded = json_dumps False (PDict d) in
      rbind (max_campaign_document_bytes env) (\<lambda>limit.
        if int (utf8_len encoded) > limit then Inl (ValueError msg) else Inr encoded))"

definition with_id :: "pydict \<Rightarrow> string \<Rightarrow> (string \<times> pydict) result" where
  "with_id d name = rbind (st_identifier (py_str (pget d ''id'')) name) (\<lambda>i. Inr (i, dict_set ''id'' (PStr i) d))"

definition decode_row :: "(string \<Rightarrow> (rat \<times> string) option) \<Rightarrow> 'a doc_row_scheme option \<Rightarrow> (pyval \<times> int) option result" where
  "decode_row pf r = (case r of None \<Rightarrow> Inr None
     | Some r \<Rightarrow> rbind (json_loads pf (dr_document r)) (\<lambda>d. Inr (Some (d, dr_version r))))"

text \<open>\<open>save_campaign\<close>: the identifier, the document with it and its text; the row to insert; the change.\<close>

definition prepare_campaign :: "environ \<Rightarrow> pydict \<Rightarrow> (string \<times> pydict \<times> string) result" where
  "prepare_campaign env document =
     (if \<not> has_fields [''id'', ''state'', ''created_at'', ''updated_at''] document
      then Inl (ValueError ''campaign document missing required fields'')
      else rbind (with_id document ''campaign_id'') (\<lambda>(i, d).
      rbind (encode_document env ''campaign document exceeds size limit'' d) (\<lambda>encoded. Inr (i, d, encoded))))"

definition campaign_insert :: "string \<Rightarrow> pydict \<Rightarrow> string \<Rightarrow> stated_row result" where
  "campaign_insert i d encoded =
     rbind (sql_bind (pget d ''created_at'')) (\<lambda>c. rbind (sql_bind (pget d ''updated_at'')) (\<lambda>u.
     rbind (not_null c) (\<lambda>c. rbind (not_null u) (\<lambda>u.
     Inr \<lparr>dr_id = i, dr_document = encoded, dr_updated = u, dr_version = 1,
          sr_state = py_str (pget d ''state''), sr_created = c\<rparr>))))"

definition campaign_update :: "pydict \<Rightarrow> string \<Rightarrow> (stated_row \<Rightarrow> stated_row) result" where
  "campaign_update d encoded =
     rbind (sql_bind (pget d ''updated_at'')) (\<lambda>u. rbind (not_null u) (\<lambda>u.
     Inr (\<lambda>r. r\<lparr>dr_document := encoded, sr_state := py_str (pget d ''state''), dr_updated := u\<rparr>)))"

definition save_campaign :: "environ \<Rightarrow> pydict \<Rightarrow> int option \<Rightarrow> storage \<Rightarrow> (storage \<times> int) result" where
  "save_campaign env document expected st =
     rbind (prepare_campaign env document) (\<lambda>(i, d, encoded).
     rbind (cas_write ''campaign'' i expected (campaign_insert i d encoded) (campaign_update d encoded) (st_campaigns st))
       (\<lambda>(t, v). Inr (st\<lparr>st_campaigns := t\<rparr>, v)))"

definition get_campaign_record ::
  "(string \<Rightarrow> (rat \<times> string) option) \<Rightarrow> storage \<Rightarrow> string \<Rightarrow> (pyval \<times> int) option result" where
  "get_campaign_record pf st campaign_id =
     rbind (st_identifier campaign_id ''campaign_id'') (\<lambda>i. decode_row pf (find_row i (st_campaigns st)))"

definition get_campaign ::
  "(string \<Rightarrow> (rat \<times> string) option) \<Rightarrow> storage \<Rightarrow> string \<Rightarrow> pyval option result" where
  "get_campaign pf st campaign_id =
     rbind (get_campaign_record pf st campaign_id) (\<lambda>r. Inr (map_option fst r))"

text \<open>\<open>ORDER BY ... DESC\<close> and \<open>LIMIT\<close>.\<close>

definition sort_desc :: "('a \<Rightarrow> 'b::linorder) \<Rightarrow> 'a list \<Rightarrow> 'a list" where
  "sort_desc f xs = rev (sort_key f (rev xs))"

definition list_campaigns ::
  "(string \<Rightarrow> (rat \<times> string) option) \<Rightarrow> storage \<Rightarrow> int option \<Rightarrow> pyval list result" where
  "list_campaigns pf st limit =
     (let rows = sort_desc sr_created (st_campaigns st) in
      case limit of
        None \<Rightarrow> rmap (\<lambda>r. json_loads pf (dr_document r)) rows
      | Some n \<Rightarrow> if \<not> (1 \<le> n \<and> n \<le> 5000) then Inl (ValueError ''campaign list limit must be between 1 and 5000'')
                 else rmap (\<lambda>r. json_loads pf (dr_document r)) (take (nat n) rows))"

text \<open>The other versioned documents. A column of a batch, catalog or profile is bound after \<open>str()\<close>.\<close>

definition list_field :: "pydict \<Rightarrow> string \<Rightarrow> nat \<Rightarrow> nat \<Rightarrow> bool" where
  "list_field d k lo hi = (case pget d k of PList xs \<Rightarrow> lo \<le> length xs \<and> length xs \<le> hi | _ \<Rightarrow> False)"

definition save_hackerone_batch :: "environ \<Rightarrow> pydict \<Rightarrow> int option \<Rightarrow> storage \<Rightarrow> (storage \<times> int) result" where
  "save_hackerone_batch env document expected st =
     (if \<not> has_fields [''id'', ''state'', ''mode'', ''members'', ''created_at'', ''updated_at''] document
      then Inl (ValueError ''HackerOne batch document missing required fields'')
      else rbind (with_id document ''hackerone_batch_id'') (\<lambda>(i, d).
      if py_str (pget d ''mode'') \<notin> {''sequential'', ''parallel''}
        then Inl (ValueError ''unsupported HackerOne batch mode'')
      else if \<not> list_field d ''members'' 1 20 then Inl (ValueError ''HackerOne batch must contain 1..20 members'')
      else rbind (encode_document env ''HackerOne batch document exceeds size limit'' d) (\<lambda>encoded.
      let state = py_str (pget d ''state''); updated = py_str (pget d ''updated_at'') in
      rbind (cas_write ''HackerOne batch'' i expected
        (Inr \<lparr>dr_id = i, dr_document = encoded, dr_updated = updated, dr_version = 1, sr_state = state,
              sr_created = py_str (pget d ''created_at'')\<rparr>)
        (Inr (\<lambda>r. r\<lparr>dr_document := encoded, sr_state := state, dr_updated := updated\<rparr>))
        (st_batches st)) (\<lambda>(t, v). Inr (st\<lparr>st_batches := t\<rparr>, v)))))"

definition get_hackerone_batch_record ::
  "(string \<Rightarrow> (rat \<times> string) option) \<Rightarrow> storage \<Rightarrow> string \<Rightarrow> (pyval \<times> int) option result" where
  "get_hackerone_batch_record pf st batch_id =
     rbind (st_identifier batch_id ''hackerone_batch_id'') (\<lambda>i. decode_row pf (find_row i (st_batches st)))"

definition list_hackerone_batches ::
  "(string \<Rightarrow> (rat \<times> string) option) \<Rightarrow> storage \<Rightarrow> int \<Rightarrow> pyval list result" where
  "list_hackerone_batches pf st limit =
     (if \<not> (1 \<le> limit \<and> limit \<le> 500) then Inl (ValueError ''HackerOne batch list limit must be between 1 and 500'')
      else rmap (\<lambda>r. json_loads pf (dr_document r)) (take (nat limit) (sort_desc sr_created (st_batches st))))"

definition list_active_hackerone_batches ::
  "(string \<Rightarrow> (rat \<times> string) option) \<Rightarrow> storage \<Rightarrow> int \<Rightarrow> pyval list result" where
  "list_active_hackerone_batches pf st limit =
     (if \<not> (1 \<le> limit \<and> limit \<le> 500)
      then Inl (ValueError ''HackerOne active batch list limit must be between 1 and 500'')
      else rmap (\<lambda>r. json_loads pf (dr_document r)) (take (nat limit)
        (sort_key dr_updated (filter (\<lambda>r. sr_state r \<notin> {''completed'', ''cancelled''}) (st_batches st)))))"

definition save_hackerone_catalog_state :: "environ \<Rightarrow> pydict \<Rightarrow> int option \<Rightarrow> storage \<Rightarrow> (storage \<times> int) result" where
  "save_hackerone_catalog_state env document expected st =
     (if \<not> has_fields [''id'', ''programs'', ''fingerprint'', ''checked_at'', ''updated_at''] document
      then Inl (ValueError ''HackerOne catalog document missing required fields'')
      else rbind (with_id document ''hackerone_catalog_id'') (\<lambda>(i, d).
      if \<not> list_field d ''programs'' 0 5000 then Inl (ValueError ''HackerOne catalog programs are invalid'')
      else rbind (encode_document env ''HackerOne catalog document exceeds size limit'' d) (\<lambda>encoded.
      let updated = py_str (pget d ''updated_at'') in
      rbind (cas_write ''HackerOne catalog'' i expected
        (Inr \<lparr>dr_id = i, dr_document = encoded, dr_updated = updated, dr_version = 1\<rparr>)
        (Inr (\<lambda>r. r\<lparr>dr_document := encoded, dr_updated := updated\<rparr>))
        (st_catalog st)) (\<lambda>(t, v). Inr (st\<lparr>st_catalog := t\<rparr>, v)))))"

definition get_hackerone_catalog_state_record ::
  "(string \<Rightarrow> (rat \<times> string) option) \<Rightarrow> storage \<Rightarrow> string \<Rightarrow> (pyval \<times> int) option result" where
  "get_hackerone_catalog_state_record pf st catalog_id =
     rbind (st_identifier catalog_id ''hackerone_catalog_id'') (\<lambda>i. decode_row pf (find_row i (st_catalog st)))"

definition save_hackerone_intelligence_state ::
  "environ \<Rightarrow> pydict \<Rightarrow> int option \<Rightarrow> storage \<Rightarrow> (storage \<times> int) result" where
  "save_hackerone_intelligence_state env document expected st =
     (if \<not> has_fields [''id'', ''reports'', ''categories'', ''program_signals'', ''checked_at'', ''updated_at''] document
      then Inl (ValueError ''HackerOne intelligence document missing required fields'')
      else rbind (with_id document ''hackerone_intelligence_id'') (\<lambda>(i, d).
      if \<not> list_field d ''reports'' 0 500 then Inl (ValueError ''HackerOne intelligence reports are invalid'')
      else rbind (encode_document env ''HackerOne intelligence document exceeds size limit'' d) (\<lambda>encoded.
      let updated = py_str (pget d ''updated_at'') in
      rbind (cas_write ''HackerOne intelligence'' i expected
        (Inr \<lparr>dr_id = i, dr_document = encoded, dr_updated = updated, dr_version = 1\<rparr>)
        (Inr (\<lambda>r. r\<lparr>dr_document := encoded, dr_updated := updated\<rparr>))
        (st_intel st)) (\<lambda>(t, v). Inr (st\<lparr>st_intel := t\<rparr>, v)))))"

definition get_hackerone_intelligence_state_record ::
  "(string \<Rightarrow> (rat \<times> string) option) \<Rightarrow> storage \<Rightarrow> string \<Rightarrow> (pyval \<times> int) option result" where
  "get_hackerone_intelligence_state_record pf st intelligence_id =
     rbind (st_identifier intelligence_id ''hackerone_intelligence_id'') (\<lambda>i. decode_row pf (find_row i (st_intel st)))"

definition lower_hex64 :: "string \<Rightarrow> bool" where
  "lower_hex64 s = (length s = 64 \<and> list_all (\<lambda>c. c \<in> set ''0123456789abcdef'') s)"

text \<open>The row of a review profile is keyed by the stripped id, its document keeps the id as it came.\<close>

definition save_hackerone_review_profile ::
  "environ \<Rightarrow> pydict \<Rightarrow> int option \<Rightarrow> storage \<Rightarrow> (storage \<times> int) result" where
  "save_hackerone_review_profile env document expected st =
     (if \<not> has_fields [''id'', ''handle'', ''snapshot_sha256'', ''preferred_primary_url'', ''policy'', ''saved_at'',
          ''updated_at''] document
      then Inl (ValueError ''HackerOne review profile missing required fields'')
      else rbind (st_identifier (py_str (pget document ''id'')) ''hackerone_review_profile_id'') (\<lambda>i.
      rbind (st_identifier_max 128 (py_str (pget document ''handle'')) ''hackerone_program_handle'') (\<lambda>handle.
      let sha = py_lower (py_strip (py_str (pget document ''snapshot_sha256''))) in
      if \<not> lower_hex64 sha then Inl (ValueError ''HackerOne review profile fingerprint is invalid'')
      else if \<not> (case pget document ''policy'' of PDict _ \<Rightarrow> True | _ \<Rightarrow> False)
        then Inl (ValueError ''HackerOne review profile policy is invalid'')
      else rbind (encode_document env ''HackerOne review profile exceeds size limit'' document) (\<lambda>encoded.
      let updated = py_str (pget document ''updated_at'') in
      rbind (cas_write ''HackerOne review profile'' i expected
        (Inr \<lparr>dr_id = i, dr_document = encoded, dr_updated = updated, dr_version = 1, pr_handle = handle, pr_snapshot = sha\<rparr>)
        (Inr (\<lambda>r. r\<lparr>dr_document := encoded, dr_updated := updated\<rparr>))
        (st_profiles st)) (\<lambda>(t, v). Inr (st\<lparr>st_profiles := t\<rparr>, v))))))"

definition get_hackerone_review_profile ::
  "(string \<Rightarrow> (rat \<times> string) option) \<Rightarrow> storage \<Rightarrow> string \<Rightarrow> pyval option result" where
  "get_hackerone_review_profile pf st profile_id =
     rbind (st_identifier profile_id ''hackerone_review_profile_id'') (\<lambda>i.
     rbind (decode_row pf (find_row i (st_profiles st))) (\<lambda>r. Inr (map_option fst r)))"

definition list_hackerone_review_profiles ::
  "(string \<Rightarrow> (rat \<times> string) option) \<Rightarrow> storage \<Rightarrow> int \<Rightarrow> pyval list result" where
  "list_hackerone_review_profiles pf st limit =
     (if \<not> (1 \<le> limit \<and> limit \<le> 1000) then Inl (ValueError ''HackerOne review profile limit must be between 1 and 1000'')
      else rmap (\<lambda>r. json_loads pf (dr_document r)) (take (nat limit) (sort_desc dr_updated (st_profiles st))))"

section \<open>Observations\<close>

definition kind_names :: "(string \<times> obs_kind) list" where
  "kind_names = [(''asset'', Asset), (''endpoint'', Endpoint), (''form'', Form), (''technology'', Technology),
     (''waf'', Waf), (''finding'', Finding), (''evidence'', Evidence), (''validation'', Validation)]"

text \<open>\<open>tuple(str(item) for item in value)\<close>.\<close>

definition str_items :: "pyval \<Rightarrow> string list result" where
  "str_items v = (case v of
       PList xs \<Rightarrow> Inr (map py_str xs)
     | PStr s \<Rightarrow> Inr (map (\<lambda>c. [c]) s)
     | PDict d \<Rightarrow> Inr (map fst d)
     | _ \<Rightarrow> Inl (TypeError ''object is not iterable''))"

record obs_record =
  oc_campaign :: string
  oc_id :: string
  oc_kind :: string
  oc_value :: string
  oc_source :: string
  oc_parents :: "string list"
  oc_metadata :: pydict
  oc_created :: string

definition has_campaign :: "string \<Rightarrow> storage \<Rightarrow> bool" where
  "has_campaign c st = (find_row c (st_campaigns st) \<noteq> None)"

definition find_obs :: "string \<Rightarrow> string \<Rightarrow> storage \<Rightarrow> obs_row option" where
  "find_obs c i st = find (\<lambda>r. or_campaign r = c \<and> or_id r = i) (st_observations st)"

definition text_list :: "string list \<Rightarrow> pyval" where
  "text_list xs = PList (map PStr xs)"

text \<open>\<open>tuple(json.loads(...))\<close> of a column of parents and \<open>json.loads\<close> of one of metadata; the columns
  hold what \<open>put_observation\<close> wrote, a list of texts and an object.\<close>

definition load_parents :: "(string \<Rightarrow> (rat \<times> string) option) \<Rightarrow> string \<Rightarrow> string list result" where
  "load_parents pf t = rbind (json_loads pf t) (\<lambda>v. case v of
       PList xs \<Rightarrow> rmap (\<lambda>x. case x of PStr s \<Rightarrow> Inr s | _ \<Rightarrow> Inl (TypeError ''parent_ids'')) xs
     | _ \<Rightarrow> Inl (TypeError ''parent_ids''))"

definition load_metadata :: "(string \<Rightarrow> (rat \<times> string) option) \<Rightarrow> string \<Rightarrow> pydict result" where
  "load_metadata pf t = rbind (json_loads pf t) (\<lambda>v. case v of
       PDict d \<Rightarrow> Inr d | _ \<Rightarrow> Inl (TypeError ''metadata''))"

text \<open>The checks on an observation before the transaction.\<close>

definition normalize_observation :: "environ \<Rightarrow> string \<Rightarrow> pydict \<Rightarrow> string \<Rightarrow> obs_record result" where
  "normalize_observation env campaign_id observation now =
     rbind (st_identifier campaign_id ''campaign_id'') (\<lambda>c.
     if \<not> has_fields [''id'', ''kind'', ''value'', ''source''] observation
       then Inl (ValueError ''observation missing required fields'')
     else (let kind = py_str (pget observation ''kind'') in
       if map_of kind_names kind = None then Inl (ValueError ''unsupported observation kind'')
       else rbind (case map_of observation ''parent_ids'' of None \<Rightarrow> Inr [] | Some v \<Rightarrow> str_items v) (\<lambda>raw.
       if length raw > 64 then Inl (ValueError ''observation parent_ids exceed limit'')
       else rbind (rmap (\<lambda>p. st_identifier p ''parent_id'') raw) (\<lambda>parents.
       case (case map_of observation ''metadata'' of None \<Rightarrow> PDict [] | Some v \<Rightarrow> v) of
         PDict metadata \<Rightarrow>
           rbind (st_identifier (py_str (pget observation ''id'')) ''observation_id'') (\<lambda>i.
           let created = pget observation ''created_at'';
               r = \<lparr>oc_campaign = c, oc_id = i, oc_kind = kind, oc_value = py_str (pget observation ''value''),
                    oc_source = py_str (pget observation ''source''), oc_parents = parents, oc_metadata = metadata,
                    oc_created = (if pv_truthy created then py_str created else now)\<rparr>;
               encoded = json_dumps False (PDict [(''id'', PStr i), (''kind'', PStr kind), (''value'', PStr (oc_value r)),
                 (''source'', PStr (oc_source r)), (''parent_ids'', text_list parents), (''metadata'', PDict metadata)]) in
           rbind (max_observation_bytes env) (\<lambda>limit.
             if int (utf8_len encoded) > limit then Inl (ValueError ''observation exceeds size limit'') else Inr r))
       | _ \<Rightarrow> Inl (ValueError ''observation metadata must be an object'')))))"

definition obs_row_of :: "obs_record \<Rightarrow> obs_row" where
  "obs_row_of r = \<lparr>or_campaign = oc_campaign r, or_id = oc_id r, or_kind = oc_kind r, or_value = oc_value r,
     or_source = oc_source r, or_parents = json_dumps False (text_list (oc_parents r)),
     or_metadata = json_dumps False (PDict (oc_metadata r)), or_created = oc_created r\<rparr>"

definition put_observation ::
  "environ \<Rightarrow> (string \<Rightarrow> (rat \<times> string) option) \<Rightarrow> string \<Rightarrow> pydict \<Rightarrow> string \<Rightarrow> storage \<Rightarrow> (storage \<times> obs_record) result" where
  "put_observation env pf campaign_id observation now st =
     rbind (normalize_observation env campaign_id observation now) (\<lambda>r.
     let c = oc_campaign r in
     if \<not> has_campaign c st then Inl (KeyError c)
     else if \<not> list_all (\<lambda>p. find_obs c p st \<noteq> None) (oc_parents r)
       then Inl (ValueError ''observation references unknown parent'')
     else (case find_obs c (oc_id r) st of
         Some e \<Rightarrow>
           rbind (load_parents pf (or_parents e)) (\<lambda>ps.
           rbind (load_metadata pf (or_metadata e)) (\<lambda>md.
           if or_kind e = oc_kind r \<and> or_value e = oc_value r \<and> or_source e = oc_source r \<and>
              ps = oc_parents r \<and> py_eq (PDict md) (PDict (oc_metadata r))
           then Inr (st, r\<lparr>oc_created := or_created e\<rparr>)
           else Inl (ValueError ''observation id reused with different content'')))
       | None \<Rightarrow> Inr (st\<lparr>st_observations := st_observations st @ [obs_row_of r]\<rparr>, r)))"

definition obs_of_row :: "(string \<Rightarrow> (rat \<times> string) option) \<Rightarrow> obs_row \<Rightarrow> obs_record result" where
  "obs_of_row pf r =
     rbind (load_parents pf (or_parents r)) (\<lambda>ps. rbind (load_metadata pf (or_metadata r)) (\<lambda>md.
       Inr \<lparr>oc_campaign = or_campaign r, oc_id = or_id r, oc_kind = or_kind r, oc_value = or_value r,
         oc_source = or_source r, oc_parents = ps, oc_metadata = md, oc_created = or_created r\<rparr>))"

definition list_observations ::
  "(string \<Rightarrow> (rat \<times> string) option) \<Rightarrow> storage \<Rightarrow> string \<Rightarrow> obs_record list result" where
  "list_observations pf st campaign_id =
     rbind (st_identifier campaign_id ''campaign_id'') (\<lambda>c.
       rmap (obs_of_row pf) (sort_key (\<lambda>r. (or_created r, or_id r)) (filter (\<lambda>r. or_campaign r = c) (st_observations st))))"

text \<open>\<open>load_observation_graph\<close> of \<open>observation_graph.py\<close>, with and without the times of first insertion;
  the rows' kinds are the allowed ones.\<close>

definition observation_of :: "obs_record \<Rightarrow> observation" where
  "observation_of r = \<lparr>ob_id = oc_id r, ob_kind = the (map_of kind_names (oc_kind r)), ob_value = oc_value r,
     ob_source = oc_source r, ob_parents = oc_parents r, ob_meta = oc_metadata r\<rparr>"

definition set_default :: "string \<Rightarrow> pyval \<Rightarrow> pydict \<Rightarrow> pydict" where
  "set_default k v d = (if map_of d k = None then dict_set k v d else d)"

definition with_discovery_time :: "obs_record \<Rightarrow> obs_record" where
  "with_discovery_time r =
     (if oc_kind r \<notin> {''endpoint'', ''form'', ''technology'', ''waf''} \<or> py_strip (oc_created r) = [] then r
      else r\<lparr>oc_metadata := set_default ''observed_at'' (PStr (oc_created r))
             (set_default ''first_seen_at'' (PStr (oc_created r)) (oc_metadata r))\<rparr>)"

definition load_observation_graph ::
  "(string \<Rightarrow> (rat \<times> string) option) \<Rightarrow> storage \<Rightarrow> string \<Rightarrow> bool \<Rightarrow> obs_graph result" where
  "load_observation_graph pf st campaign_id first_seen =
     rbind (list_observations pf st campaign_id) (\<lambda>rs.
       from_records (map observation_of (if first_seen then map with_discovery_time rs else rs)))"

text \<open>\<open>Observation.to_dict\<close>.\<close>

definition kind_text :: "obs_kind \<Rightarrow> string" where
  "kind_text k = (case k of Asset \<Rightarrow> ''asset'' | Endpoint \<Rightarrow> ''endpoint'' | Form \<Rightarrow> ''form''
     | Technology \<Rightarrow> ''technology'' | Waf \<Rightarrow> ''waf'' | Finding \<Rightarrow> ''finding'' | Evidence \<Rightarrow> ''evidence''
     | Validation \<Rightarrow> ''validation'')"

definition observation_dict :: "observation \<Rightarrow> pydict" where
  "observation_dict ob = [(''id'', PStr (ob_id ob)), (''kind'', PStr (kind_text (ob_kind ob))),
     (''value'', PStr (ob_value ob)), (''source'', PStr (ob_source ob)),
     (''parent_ids'', text_list (ob_parents ob)), (''metadata'', PDict (ob_meta ob))]"

section \<open>Snapshots and flow bindings\<close>

definition find_snapshot :: "string \<Rightarrow> string \<Rightarrow> snapshot_row list \<Rightarrow> snapshot_row option" where
  "find_snapshot c f t = find (\<lambda>r. sn_campaign r = c \<and> sn_fingerprint r = f) t"

text \<open>The transaction of the two \<open>put_..._snapshot\<close> methods.\<close>

definition write_snapshot ::
  "string \<Rightarrow> string \<Rightarrow> string \<Rightarrow> string \<Rightarrow> string \<Rightarrow> storage \<Rightarrow> snapshot_row list \<Rightarrow> (snapshot_row list \<times> snapshot_row) result" where
  "write_snapshot c f encoded now msg st t =
     (if \<not> has_campaign c st then Inl (KeyError c)
      else (case find_snapshot c f t of
          Some e \<Rightarrow> if sn_document e \<noteq> encoded then Inl (ValueError msg) else Inr (t, e)
        | None \<Rightarrow> (let r = \<lparr>sn_campaign = c, sn_fingerprint = f, sn_document = encoded, sn_created = now\<rparr> in
                  Inr (t @ [r], r))))"

definition put_advisory_focus_snapshot ::
  "environ \<Rightarrow> string \<Rightarrow> string \<Rightarrow> pydict \<Rightarrow> string \<Rightarrow> storage \<Rightarrow> (storage \<times> snapshot_row) result" where
  "put_advisory_focus_snapshot env campaign_id fingerprint advisory now st =
     rbind (st_identifier campaign_id ''campaign_id'') (\<lambda>c.
     rbind (st_identifier_max 64 fingerprint ''advisory_fingerprint'') (\<lambda>f.
     let encoded = json_dumps True (PDict advisory) in
     rbind (max_campaign_document_bytes env) (\<lambda>limit.
     if int (utf8_len encoded) > limit then Inl (ValueError ''advisory snapshot exceeds size limit'')
     else rbind (write_snapshot c f encoded now ''advisory fingerprint reused with different snapshot'' st (st_advisories st))
       (\<lambda>(t, r). Inr (st\<lparr>st_advisories := t\<rparr>, r)))))"

definition put_hypothesis_snapshot ::
  "environ \<Rightarrow> string \<Rightarrow> string \<Rightarrow> pyval list \<Rightarrow> string \<Rightarrow> storage \<Rightarrow> (storage \<times> snapshot_row) result" where
  "put_hypothesis_snapshot env campaign_id fingerprint hypotheses now st =
     rbind (st_identifier campaign_id ''campaign_id'') (\<lambda>c.
     rbind (st_identifier_max 64 fingerprint ''graph_fingerprint'') (\<lambda>f.
     let encoded = json_dumps True (PDict [(''graph_fingerprint'', PStr f), (''hypotheses'', PList hypotheses)]) in
     rbind (max_campaign_document_bytes env) (\<lambda>limit.
     if int (utf8_len encoded) > limit then Inl (ValueError ''hypothesis snapshot exceeds size limit'')
     else rbind (write_snapshot c f encoded now ''graph fingerprint reused with different hypothesis snapshot'' st (st_hypotheses st))
       (\<lambda>(t, r). Inr (st\<lparr>st_hypotheses := t\<rparr>, r)))))"

definition snapshot_rows :: "string \<Rightarrow> int \<Rightarrow> string \<Rightarrow> snapshot_row list \<Rightarrow> snapshot_row list result" where
  "snapshot_rows campaign_id limit msg t =
     rbind (st_identifier campaign_id ''campaign_id'') (\<lambda>c.
       if \<not> (1 \<le> limit \<and> limit \<le> 500) then Inl (ValueError msg)
       else Inr (take (nat limit) (sort_desc sn_created (filter (\<lambda>r. sn_campaign r = c) t))))"

definition list_advisory_focus_snapshots ::
  "(string \<Rightarrow> (rat \<times> string) option) \<Rightarrow> storage \<Rightarrow> string \<Rightarrow> int \<Rightarrow> (string \<times> pyval \<times> string) list result" where
  "list_advisory_focus_snapshots pf st campaign_id limit =
     rbind (snapshot_rows campaign_id limit ''advisory snapshot limit must be between 1 and 500'' (st_advisories st))
       (rmap (\<lambda>r. rbind (json_loads pf (sn_document r)) (\<lambda>d. Inr (sn_fingerprint r, d, sn_created r))))"

definition list_hypothesis_snapshots ::
  "(string \<Rightarrow> (rat \<times> string) option) \<Rightarrow> storage \<Rightarrow> string \<Rightarrow> int \<Rightarrow> (pyval \<times> string) list result" where
  "list_hypothesis_snapshots pf st campaign_id limit =
     rbind (snapshot_rows campaign_id limit ''hypothesis snapshot limit must be between 1 and 500'' (st_hypotheses st))
       (rmap (\<lambda>r. rbind (json_loads pf (sn_document r)) (\<lambda>d. Inr (d, sn_created r))))"

definition normalize_pentagi_flow_binding :: "pydict \<Rightarrow> string \<Rightarrow> binding_row result" where
  "normalize_pentagi_flow_binding binding created =
     (if \<not> has_fields [''flow_id'', ''campaign_id'', ''policy_fingerprint'', ''endpoint'', ''model_provider''] binding
      then Inl (ValueError ''PentAGI flow binding missing required fields'')
      else rbind (st_identifier (py_str (pget binding ''flow_id'')) ''flow_id'') (\<lambda>f.
      rbind (st_identifier (py_str (pget binding ''campaign_id'')) ''campaign_id'') (\<lambda>c.
      rbind (st_identifier_max 64 (py_str (pget binding ''policy_fingerprint'')) ''policy_fingerprint'') (\<lambda>p.
      if \<not> lower_hex64 p then Inl (ValueError ''policy_fingerprint must be a lowercase SHA-256 hex digest'')
      else rbind (st_identifier_max 2048 (py_str (pget binding ''endpoint'')) ''pentagi_endpoint'') (\<lambda>e.
      rbind (st_identifier_max 64 (py_str (pget binding ''model_provider'')) ''model_provider'') (\<lambda>m.
        Inr \<lparr>br_flow = f, br_campaign = c, br_policy = p, br_endpoint = e, br_provider = m, br_created = created\<rparr>))))))"

definition find_binding :: "string \<Rightarrow> storage \<Rightarrow> binding_row option" where
  "find_binding f st = find (\<lambda>r. br_flow r = f) (st_bindings st)"

definition put_pentagi_flow_binding :: "pydict \<Rightarrow> string \<Rightarrow> storage \<Rightarrow> (storage \<times> binding_row) result" where
  "put_pentagi_flow_binding binding now st =
     rbind (normalize_pentagi_flow_binding binding now) (\<lambda>r.
     if \<not> has_campaign (br_campaign r) st then Inl (KeyError (br_campaign r))
     else (case find_binding (br_flow r) st of
         Some e \<Rightarrow> if e\<lparr>br_created := now\<rparr> \<noteq> r then Inl (ValueError ''PentAGI flow binding conflict'') else Inr (st, e)
       | None \<Rightarrow> Inr (st\<lparr>st_bindings := st_bindings st @ [r]\<rparr>, r)))"

definition get_pentagi_flow_binding :: "storage \<Rightarrow> string \<Rightarrow> binding_row option result" where
  "get_pentagi_flow_binding st flow_id = rbind (st_identifier flow_id ''flow_id'') (\<lambda>f. Inr (find_binding f st))"

end
