(* ===== verification/ArtifactStore.thy ===== *)
theory ArtifactStore
  imports StorageCore
begin

text \<open>
  The artifacts of \<open>backend/app/storage_core.py\<close>: rows in the database, contents in files below the
  artifact root. A path is the list of its components from the file system's root, without symbolic
  links; contents are bytes. \<open>H\<close> is SHA-256 of bytes, in hexadecimal; the identifier of a new
  artifact (\<open>uuid4\<close>) is an argument. A write is two transactions, between which other writers may
  run; \<open>put_artifact_racing\<close> takes the state of each.
\<close>

section \<open>Paths\<close>

definition path_parts :: "string \<Rightarrow> string list" where
  "path_parts s = filter (\<lambda>p. p \<noteq> [] \<and> p \<noteq> ''.'') (py_split (CHR ''/'') s)"

text \<open>\<open>root / s\<close>: an absolute \<open>s\<close> replaces the root.\<close>

definition join_path :: "string list \<Rightarrow> string \<Rightarrow> string list" where
  "join_path r s = (if py_startswith s ''/'' then path_parts s else r @ path_parts s)"

definition resolve_path :: "string list \<Rightarrow> string list" where
  "resolve_path ps = foldl (\<lambda>acc p. if p = ''..'' then butlast acc else acc @ [p]) [] ps"

definition below :: "string list \<Rightarrow> string list \<Rightarrow> bool" where
  "below r p = (take (length r) p = r)"

definition artifact_error :: "string \<Rightarrow> py_error" where
  "artifact_error m = AppError ''ArtifactIntegrityError'' m"

definition safe_campaign_artifact_dir :: "string list \<Rightarrow> string \<Rightarrow> string list result" where
  "safe_campaign_artifact_dir r campaign_id =
     (let resolved = resolve_path (join_path r campaign_id) in
      if below r resolved then Inr resolved
      else Inl (artifact_error ''campaign artifact path escaped storage root''))"

section \<open>Checks\<close>

definition artifact_kinds :: "string list" where
  "artifact_kinds = [''scanner_stdout'', ''scanner_stderr'', ''http_evidence'', ''screenshot'', ''validation'',
     ''report'', ''pentagi_receipt'', ''pentagi_status'']"

definition max_artifact_bytes :: "environ \<Rightarrow> int result" where
  "max_artifact_bytes env = bounded_env ''10485760'' ''XBOW_MAX_ARTIFACT_BYTES must be an integer''
     1024 (100 * 1024 * 1024) ''XBOW_MAX_ARTIFACT_BYTES must be between 1 KiB and 100 MiB''
     (env ''XBOW_MAX_ARTIFACT_BYTES'')"

definition validate_media_type :: "string \<Rightarrow> string result" where
  "validate_media_type media_type =
     (let value = py_strip media_type; bad = Inl (ValueError ''invalid artifact media type'') in
      if value = [] \<or> length value > 120 \<or> CHR ''/'' \<notin> set value then bad
      else if list_ex (\<lambda>c. (of_char c :: nat) < 32 \<or> (of_char c :: nat) = 127) value then bad
      else Inr value)"

definition artifact_key :: "string option \<Rightarrow> string option result" where
  "artifact_key key = (case key of None \<Rightarrow> Inr None
     | Some k \<Rightarrow> (let k' = py_strip k in
         if k' = [] then Inl (ValueError ''idempotency_key must not be blank'')
         else if length k' > 200 then Inl (ValueError ''idempotency_key too long'')
         else if list_ex bad_ident_char k' then Inl (ValueError ''idempotency_key contains invalid characters'')
         else Inr (Some k')))"

definition opt_identifier :: "string option \<Rightarrow> string \<Rightarrow> string option result" where
  "opt_identifier v name = (case v of None \<Rightarrow> Inr None | Some s \<Rightarrow> rbind (st_identifier s name) (\<lambda>i. Inr (Some i)))"

text \<open>The arguments of \<open>put_artifact\<close> once they have passed its checks.\<close>

record artifact_request =
  aq_campaign :: string
  aq_finding :: "string option"
  aq_kind :: string
  aq_key :: "string option"
  aq_media :: string
  aq_content :: string

definition check_artifact ::
  "environ \<Rightarrow> string \<Rightarrow> string \<Rightarrow> string \<Rightarrow> string \<Rightarrow> string option \<Rightarrow> string option \<Rightarrow> artifact_request result" where
  "check_artifact env campaign_id kind content media finding key =
     rbind (st_identifier campaign_id ''campaign_id'') (\<lambda>c.
     rbind (opt_identifier finding ''finding_id'') (\<lambda>f.
     if kind \<notin> set artifact_kinds then Inl (ValueError ''unsupported artifact kind'')
     else rbind (artifact_key key) (\<lambda>k.
     rbind (max_artifact_bytes env) (\<lambda>limit.
     if int (length content) > limit then Inl (ValueError ''artifact exceeds size limit'')
     else rbind (validate_media_type media) (\<lambda>m.
       Inr \<lparr>aq_campaign = c, aq_finding = f, aq_kind = kind, aq_key = k, aq_media = m, aq_content = content\<rparr>)))))"

section \<open>Operations\<close>

definition find_by_key :: "string \<Rightarrow> string option \<Rightarrow> storage \<Rightarrow> artifact_row option" where
  "find_by_key c key st = (case key of None \<Rightarrow> None
     | Some k \<Rightarrow> find (\<lambda>r. ar_campaign r = c \<and> ar_key r = Some k) (st_artifacts st))"

definition same_artifact :: "(string \<Rightarrow> string) \<Rightarrow> artifact_request \<Rightarrow> artifact_row \<Rightarrow> bool" where
  "same_artifact H q r = (ar_sha r = H (aq_content q) \<and> ar_kind r = aq_kind q \<and> ar_media r = aq_media q \<and>
     ar_finding r = aq_finding q)"

definition public_artifact :: "artifact_row \<Rightarrow> artifact_row" where
  "public_artifact r = r\<lparr>ar_path := []\<rparr>"

definition new_artifact :: "(string \<Rightarrow> string) \<Rightarrow> artifact_request \<Rightarrow> string \<Rightarrow> string list \<Rightarrow> string \<Rightarrow> artifact_row" where
  "new_artifact H q aid relative now =
     \<lparr>ar_id = aid, ar_campaign = aq_campaign q, ar_finding = aq_finding q, ar_kind = aq_kind q, ar_media = aq_media q,
      ar_path = py_join ''/'' relative, ar_sha = H (aq_content q), ar_size = int (length (aq_content q)),
      ar_created = now, ar_key = aq_key q\<rparr>"

text \<open>The file is written first; when the row is refused (identifier or key taken, or no campaign) the
  file is removed again and the row under the key, if it is the same artifact, is the answer.\<close>

definition insert_artifact ::
  "(string \<Rightarrow> string) \<Rightarrow> string list \<Rightarrow> artifact_request \<Rightarrow> string \<Rightarrow> string \<Rightarrow> storage \<Rightarrow> storage \<times> artifact_row result" where
  "insert_artifact H r q aid now st =
     (case safe_campaign_artifact_dir r (aq_campaign q) of Inl e \<Rightarrow> (st, Inl e)
      | Inr dir \<Rightarrow>
          (let path = dir @ [aid @ ''.bin'']; a = new_artifact H q aid (drop (length r) path) now in
           if list_ex (\<lambda>x. ar_id x = aid) (st_artifacts st) \<or> find_by_key (aq_campaign q) (aq_key q) st \<noteq> None \<or>
              \<not> has_campaign (aq_campaign q) st
           then (st\<lparr>st_files := (st_files st)(path := None)\<rparr>,
             (if aq_key q = None then Inl (IntegrityError ''artifact row refused'')
              else (case find_by_key (aq_campaign q) (aq_key q) st of
                  None \<Rightarrow> Inl (artifact_error ''idempotent artifact write conflicted'')
                | Some e \<Rightarrow> if same_artifact H q e then Inr (public_artifact e)
                           else Inl (artifact_error ''idempotent artifact write conflicted''))))
           else (st\<lparr>st_artifacts := st_artifacts st @ [a], st_files := (st_files st)(path \<mapsto> aq_content q)\<rparr>,
             Inr (public_artifact a))))"

definition put_artifact_racing ::
  "environ \<Rightarrow> (string \<Rightarrow> string) \<Rightarrow> string list \<Rightarrow> string \<Rightarrow> string \<Rightarrow> string \<Rightarrow> string \<Rightarrow> string \<Rightarrow> string \<Rightarrow> string option \<Rightarrow>
   string option \<Rightarrow> storage \<Rightarrow> storage \<Rightarrow> storage \<times> artifact_row result" where
  "put_artifact_racing env H r aid now campaign_id kind content media finding key st1 st2 =
     (case check_artifact env campaign_id kind content media finding key of Inl e \<Rightarrow> (st1, Inl e)
      | Inr q \<Rightarrow>
          if \<not> has_campaign (aq_campaign q) st1 then (st1, Inl (KeyError (aq_campaign q)))
          else (case find_by_key (aq_campaign q) (aq_key q) st1 of
              Some e \<Rightarrow> (st1, if same_artifact H q e then Inr (public_artifact e)
                else Inl (artifact_error ''idempotency key reused with different artifact metadata or content''))
            | None \<Rightarrow> insert_artifact H r q aid now st2))"

definition put_artifact ::
  "environ \<Rightarrow> (string \<Rightarrow> string) \<Rightarrow> string list \<Rightarrow> string \<Rightarrow> string \<Rightarrow> string \<Rightarrow> string \<Rightarrow> string \<Rightarrow> string \<Rightarrow> string option \<Rightarrow>
   string option \<Rightarrow> storage \<Rightarrow> storage \<times> artifact_row result" where
  "put_artifact env H r aid now campaign_id kind content media finding key st =
     put_artifact_racing env H r aid now campaign_id kind content media finding key st st"

definition list_artifacts :: "storage \<Rightarrow> string \<Rightarrow> artifact_row list result" where
  "list_artifacts st campaign_id = rbind (st_identifier campaign_id ''campaign_id'') (\<lambda>c.
     Inr (map public_artifact (sort_key ar_created (filter (\<lambda>r. ar_campaign r = c) (st_artifacts st)))))"

definition get_artifact :: "storage \<Rightarrow> string \<Rightarrow> string \<Rightarrow> artifact_row option result" where
  "get_artifact st campaign_id artifact_id =
     rbind (st_identifier campaign_id ''campaign_id'') (\<lambda>c. rbind (st_identifier artifact_id ''artifact_id'') (\<lambda>a.
       Inr (find (\<lambda>r. ar_id r = a \<and> ar_campaign r = c) (st_artifacts st))))"

definition has_artifact :: "storage \<Rightarrow> string \<Rightarrow> string option \<Rightarrow> string option \<Rightarrow> bool result" where
  "has_artifact st campaign_id finding kind =
     rbind (st_identifier campaign_id ''campaign_id'') (\<lambda>c. rbind (opt_identifier finding ''finding_id'') (\<lambda>f.
       if (case kind of None \<Rightarrow> False | Some k \<Rightarrow> k \<notin> set artifact_kinds) then Inl (ValueError ''unsupported artifact kind'')
       else Inr (list_ex (\<lambda>r. ar_campaign r = c \<and> (f = None \<or> ar_finding r = f) \<and>
         (case kind of None \<Rightarrow> True | Some k \<Rightarrow> ar_kind r = k)) (st_artifacts st))))"

definition read_artifact ::
  "(string \<Rightarrow> string) \<Rightarrow> string list \<Rightarrow> storage \<Rightarrow> string \<Rightarrow> string \<Rightarrow> (artifact_row \<times> string) result" where
  "read_artifact H r st campaign_id artifact_id =
     rbind (get_artifact st campaign_id artifact_id) (\<lambda>m. case m of
         None \<Rightarrow> Inl (KeyError artifact_id)
       | Some a \<Rightarrow>
           (let path = resolve_path (join_path r (ar_path a)) in
            if \<not> below r path then Inl (artifact_error ''artifact path escaped storage root'')
            else (case st_files st path of
                None \<Rightarrow> Inl (artifact_error ''artifact content is missing'')
              | Some content \<Rightarrow>
                  if int (length content) \<noteq> ar_size a then Inl (artifact_error ''artifact size mismatch'')
                  else if H content \<noteq> ar_sha a then Inl (artifact_error ''artifact sha256 mismatch'')
                  else Inr (public_artifact a, content))))"

end
