(* ===== verification/StorageInv.thy ===== *)
theory StorageInv
  imports ArtifactStore
begin

text \<open>
  What the storage promises whatever the order of its operations: a document read at a version is
  unchanged as long as its version is (so a compare-and-swap loses no update), everything written once
  stays, the observations of a campaign always load as a graph, and an artifact that was stored is
  read back. The two patterns are locales, interpreted for every table.
\<close>

section \<open>Steps\<close>

definition uuid_ok :: "string \<Rightarrow> bool" where
  "uuid_ok a = (is_ident a \<and> CHR ''/'' \<notin> set a)"

text \<open>One successful operation, or the second transaction of a write of an artifact under a fresh identifier.\<close>

inductive st_step ::
  "(string \<Rightarrow> (rat \<times> string) option) \<Rightarrow> (string \<Rightarrow> string) \<Rightarrow> string list \<Rightarrow> storage \<Rightarrow> storage \<Rightarrow> bool"
  for pf H r where
  step_campaign: "save_campaign env d e st = Inr (st', v) \<Longrightarrow> st_step pf H r st st'"
| step_batch: "save_hackerone_batch env d e st = Inr (st', v) \<Longrightarrow> st_step pf H r st st'"
| step_catalog: "save_hackerone_catalog_state env d e st = Inr (st', v) \<Longrightarrow> st_step pf H r st st'"
| step_intel: "save_hackerone_intelligence_state env d e st = Inr (st', v) \<Longrightarrow> st_step pf H r st st'"
| step_profile: "save_hackerone_review_profile env d e st = Inr (st', v) \<Longrightarrow> st_step pf H r st st'"
| step_observation: "put_observation env pf c ob now st = Inr (st', x) \<Longrightarrow> json_ok pf (PDict ob) \<Longrightarrow> st_step pf H r st st'"
| step_advisory: "put_advisory_focus_snapshot env c f d now st = Inr (st', s) \<Longrightarrow> st_step pf H r st st'"
| step_hypothesis: "put_hypothesis_snapshot env c f hs now st = Inr (st', s) \<Longrightarrow> st_step pf H r st st'"
| step_binding: "put_pentagi_flow_binding b now st = Inr (st', w) \<Longrightarrow> st_step pf H r st st'"
| step_artifact: "check_artifact env c k content m f key = Inr q \<Longrightarrow> uuid_ok aid \<Longrightarrow>
    aid \<notin> ar_id ` set (st_artifacts st) \<Longrightarrow> st_step pf H r st (fst (insert_artifact H r q aid now st))"

text \<open>What a step does to each part of the store.\<close>

definition cas_step :: "'a doc_row_scheme list \<Rightarrow> 'a doc_row_scheme list \<Rightarrow> bool" where
  "cas_step t t' = (t' = t \<or> (\<exists>what k e fresh change v. cas_write what k e fresh change t = Inr (t', v)))"

definition snapshot_step :: "snapshot_row list \<Rightarrow> snapshot_row list \<Rightarrow> bool" where
  "snapshot_step t t' = (t' = t \<or> (\<exists>r. t' = t @ [r] \<and> find_snapshot (sn_campaign r) (sn_fingerprint r) t = None))"

lemma cas_step_refl [simp]: "cas_step t t" by (simp add: cas_step_def)

lemma snapshot_step_refl [simp]: "snapshot_step t t" by (simp add: snapshot_step_def)

lemma write_snapshot_step: "write_snapshot c f x now msg st t = Inr (t', s) \<Longrightarrow> snapshot_step t t'"
  by (auto simp: write_snapshot_def snapshot_step_def Let_def split: if_splits option.splits)

definition obs_step :: "(string \<Rightarrow> (rat \<times> string) option) \<Rightarrow> storage \<Rightarrow> storage \<Rightarrow> bool" where
  "obs_step pf st st' = (st_observations st' = st_observations st \<or>
     (\<exists>r. st_observations st' = st_observations st @ [obs_row_of r] \<and> find_obs (oc_campaign r) (oc_id r) st = None \<and>
        list_all (\<lambda>p. find_obs (oc_campaign r) p st \<noteq> None) (oc_parents r) \<and> map_of kind_names (oc_kind r) \<noteq> None \<and>
        json_ok pf (PDict (oc_metadata r))))"

definition binding_step :: "storage \<Rightarrow> storage \<Rightarrow> bool" where
  "binding_step st st' = (st_bindings st' = st_bindings st \<or>
     (\<exists>r. st_bindings st' = st_bindings st @ [r] \<and> find_binding (br_flow r) st = None))"

lemma saves:
  "save_campaign env d e st = Inr (st', v) \<Longrightarrow> \<exists>t. st' = st\<lparr>st_campaigns := t\<rparr> \<and> cas_step (st_campaigns st) t"
  "save_hackerone_batch env d e st = Inr (st', v) \<Longrightarrow> \<exists>t. st' = st\<lparr>st_batches := t\<rparr> \<and> cas_step (st_batches st) t"
  "save_hackerone_catalog_state env d e st = Inr (st', v) \<Longrightarrow> \<exists>t. st' = st\<lparr>st_catalog := t\<rparr> \<and> cas_step (st_catalog st) t"
  "save_hackerone_intelligence_state env d e st = Inr (st', v) \<Longrightarrow> \<exists>t. st' = st\<lparr>st_intel := t\<rparr> \<and> cas_step (st_intel st) t"
  "save_hackerone_review_profile env d e st = Inr (st', v) \<Longrightarrow> \<exists>t. st' = st\<lparr>st_profiles := t\<rparr> \<and> cas_step (st_profiles st) t"
  unfolding cas_step_def
  by (force simp: save_campaign_def save_hackerone_batch_def save_hackerone_catalog_state_def
      save_hackerone_intelligence_state_def save_hackerone_review_profile_def Let_def split: if_splits)+

lemma puts:
  "put_advisory_focus_snapshot env c f d now st = Inr (st', s) \<Longrightarrow>
     \<exists>t. st' = st\<lparr>st_advisories := t\<rparr> \<and> snapshot_step (st_advisories st) t"
  "put_hypothesis_snapshot env c f hs now st = Inr (st', s) \<Longrightarrow>
     \<exists>t. st' = st\<lparr>st_hypotheses := t\<rparr> \<and> snapshot_step (st_hypotheses st) t"
  by (auto simp: put_advisory_focus_snapshot_def put_hypothesis_snapshot_def Let_def
      split: if_splits dest!: write_snapshot_step)

lemma put_binding_step:
  "put_pentagi_flow_binding b now st = Inr (st', w) \<Longrightarrow> binding_step st st' \<and> st' = st\<lparr>st_bindings := st_bindings st'\<rparr>"
  by (auto simp: put_pentagi_flow_binding_def binding_step_def Let_def split: if_splits option.splits)

lemma normalize_observation_fields:
  assumes "normalize_observation env c ob now = Inr r"
  shows "map_of kind_names (oc_kind r) \<noteq> None"
    and "(case map_of ob ''metadata'' of None \<Rightarrow> PDict [] | Some v \<Rightarrow> v) = PDict (oc_metadata r)"
    and "is_ident (oc_campaign r)" and "oc_campaign r = py_strip c"
proof -
  obtain c' where c: "st_identifier c ''campaign_id'' = Inr c'"
    using assms by (auto simp: normalize_observation_def)
  let ?md = "case map_of ob ''metadata'' of None \<Rightarrow> PDict [] | Some v \<Rightarrow> v"
  obtain d where d: "?md = PDict d" using assms c
    by (cases ?md) (simp_all add: normalize_observation_def Let_def rbind_Inr_iff split: if_splits)
  have r: "oc_campaign r = c'" "oc_metadata r = d" "map_of kind_names (oc_kind r) \<noteq> None"
    using assms unfolding normalize_observation_def c d Let_def rbind_simps pyval.case
    by (auto simp del: not_None_eq split: if_splits)
  show "map_of kind_names (oc_kind r) \<noteq> None" by (rule r)
  show "?md = PDict (oc_metadata r)" using d r by simp
  show "is_ident (oc_campaign r)" and "oc_campaign r = py_strip c" using c r st_identifier_Inr by auto
qed

lemma normalize_observation_json:
  assumes "normalize_observation env c ob now = Inr r" and "json_ok pf (PDict ob)"
  shows "json_ok pf (PDict (oc_metadata r))"
proof -
  have "json_ok pf (case map_of ob ''metadata'' of None \<Rightarrow> PDict [] | Some v \<Rightarrow> v)"
    using assms(2) by (auto simp: list_all_iff dest!: map_of_SomeD split: option.split)
  then show ?thesis by (simp only: normalize_observation_fields(2) [OF assms(1)])
qed

lemma put_observation_step:
  assumes "put_observation env pf c ob now st = Inr (st', x)" and "json_ok pf (PDict ob)"
  shows "obs_step pf st st'" and "st' = st\<lparr>st_observations := st_observations st'\<rparr>"
proof -
  obtain r where r: "normalize_observation env c ob now = Inr r"
    using assms(1) by (auto simp: put_observation_def)
  note f = normalize_observation_fields(1) [OF r] normalize_observation_json [OF r assms(2)]
  show "obs_step pf st st'"
    using assms(1) r f by (auto simp: put_observation_def obs_step_def Let_def split: if_splits option.splits)
  show "st' = st\<lparr>st_observations := st_observations st'\<rparr>"
    using assms(1) r by (auto simp: put_observation_def Let_def split: if_splits option.splits)
qed

definition artifact_step :: "(string \<Rightarrow> string) \<Rightarrow> string list \<Rightarrow> storage \<Rightarrow> storage \<Rightarrow> bool" where
  "artifact_step H r st st' =
     ((st_artifacts st' = st_artifacts st \<and> st_files st' = st_files st) \<or>
      (\<exists>q aid now dir. uuid_ok aid \<and> aid \<notin> ar_id ` set (st_artifacts st) \<and>
        safe_campaign_artifact_dir r (aq_campaign q) = Inr dir \<and>
        st_files st' = (st_files st)(dir @ [aid @ ''.bin''] := None) \<and> st_artifacts st' = st_artifacts st \<or>
        uuid_ok aid \<and> aid \<notin> ar_id ` set (st_artifacts st) \<and> is_ident (aq_campaign q) \<and>
        safe_campaign_artifact_dir r (aq_campaign q) = Inr dir \<and> find_by_key (aq_campaign q) (aq_key q) st = None \<and>
        st_files st' = (st_files st)(dir @ [aid @ ''.bin''] \<mapsto> aq_content q) \<and>
        st_artifacts st' = st_artifacts st @ [new_artifact H q aid (drop (length r) (dir @ [aid @ ''.bin''])) now]))"

lemma artifact_step_refl [simp]:
  "st_artifacts st' = st_artifacts st \<Longrightarrow> st_files st' = st_files st \<Longrightarrow> artifact_step H r st st'"
  by (simp add: artifact_step_def)

lemma check_artifact_ident: "check_artifact env c k content m f key = Inr q \<Longrightarrow> is_ident (aq_campaign q) \<and> aq_campaign q = py_strip c"
  by (auto simp: check_artifact_def split: if_splits dest!: st_identifier_Inr)

lemma insert_artifact_step:
  assumes "uuid_ok aid" and "aid \<notin> ar_id ` set (st_artifacts st)" and "is_ident (aq_campaign q)"
  shows "artifact_step H r st (fst (insert_artifact H r q aid now st))"
    and "fst (insert_artifact H r q aid now st) = st\<lparr>st_artifacts := st_artifacts (fst (insert_artifact H r q aid now st)),
      st_files := st_files (fst (insert_artifact H r q aid now st))\<rparr>"
proof -
  show "artifact_step H r st (fst (insert_artifact H r q aid now st))"
  proof (cases "safe_campaign_artifact_dir r (aq_campaign q)")
    case (Inr dir)
    let ?t = "fst (insert_artifact H r q aid now st)"
    have "st_files ?t = (st_files st)(dir @ [aid @ ''.bin''] := None) \<and> st_artifacts ?t = st_artifacts st \<or>
      find_by_key (aq_campaign q) (aq_key q) st = None \<and>
      st_files ?t = (st_files st)(dir @ [aid @ ''.bin''] \<mapsto> aq_content q) \<and>
      st_artifacts ?t = st_artifacts st @ [new_artifact H q aid (drop (length r) (dir @ [aid @ ''.bin''])) now]"
      by (simp add: insert_artifact_def Inr Let_def)
    with assms Inr show ?thesis unfolding artifact_step_def by blast
  qed (simp add: insert_artifact_def)
  show "fst (insert_artifact H r q aid now st) = st\<lparr>st_artifacts := st_artifacts (fst (insert_artifact H r q aid now st)),
      st_files := st_files (fst (insert_artifact H r q aid now st))\<rparr>"
    by (simp add: insert_artifact_def Let_def split: sum.split)
qed

lemma st_step_parts:
  assumes "st_step pf H r st st'"
  shows "cas_step (st_campaigns st) (st_campaigns st')" "cas_step (st_batches st) (st_batches st')"
    "cas_step (st_catalog st) (st_catalog st')" "cas_step (st_intel st) (st_intel st')"
    "cas_step (st_profiles st) (st_profiles st')" "obs_step pf st st'"
    "snapshot_step (st_advisories st) (st_advisories st')" "snapshot_step (st_hypotheses st) (st_hypotheses st')"
    "binding_step st st'" "artifact_step H r st st'"
proof -
  have "cas_step (st_campaigns st) (st_campaigns st') \<and> cas_step (st_batches st) (st_batches st') \<and>
    cas_step (st_catalog st) (st_catalog st') \<and> cas_step (st_intel st) (st_intel st') \<and>
    cas_step (st_profiles st) (st_profiles st') \<and> obs_step pf st st' \<and>
    snapshot_step (st_advisories st) (st_advisories st') \<and> snapshot_step (st_hypotheses st) (st_hypotheses st') \<and>
    binding_step st st' \<and> artifact_step H r st st'"
    using assms
  proof cases
    case (step_observation env c ob now x)
    then obtain t where "obs_step pf st st'" and "st' = st\<lparr>st_observations := t\<rparr>"
      by (blast dest: put_observation_step)
    then show ?thesis by (simp add: binding_step_def)
  next
    case (step_binding b now w)
    then obtain t where "binding_step st st'" and "st' = st\<lparr>st_bindings := t\<rparr>"
      by (blast dest: put_binding_step)
    then show ?thesis by (simp add: obs_step_def)
  next
    case (step_artifact env c k content m f key q aid now)
    then obtain t f where "artifact_step H r st st'" and "st' = st\<lparr>st_artifacts := t, st_files := f\<rparr>"
      using insert_artifact_step [of aid st q] check_artifact_ident by metis
    then show ?thesis by (simp add: obs_step_def binding_step_def)
  qed (auto dest!: saves puts simp: obs_step_def binding_step_def)
  then show "cas_step (st_campaigns st) (st_campaigns st')" "cas_step (st_batches st) (st_batches st')"
    "cas_step (st_catalog st) (st_catalog st')" "cas_step (st_intel st) (st_intel st')"
    "cas_step (st_profiles st) (st_profiles st')" "obs_step pf st st'"
    "snapshot_step (st_advisories st) (st_advisories st')" "snapshot_step (st_hypotheses st) (st_hypotheses st')"
    "binding_step st st'" "artifact_step H r st st'" by blast+
qed

section \<open>The two contracts of a table\<close>

text \<open>Documents with versions: a step leaves a document alone or gives it the next version.\<close>

locale versioned_store =
  fixes step :: "'s \<Rightarrow> 's \<Rightarrow> bool" and doc :: "'s \<Rightarrow> 'k \<Rightarrow> ('d \<times> int) option"
  assumes writes: "step s s' \<Longrightarrow> doc s' k = doc s k \<or>
    (\<exists>d. doc s' k = Some (d, case doc s k of None \<Rightarrow> 1 | Some x \<Rightarrow> snd x + 1))"
begin

lemma version_grows:
  "step\<^sup>*\<^sup>* s s' \<Longrightarrow> doc s k = Some (d, v) \<Longrightarrow> \<exists>d' v'. doc s' k = Some (d', v') \<and> v \<le> v' \<and> (v' = v \<longrightarrow> d' = d)"
proof (induction rule: rtranclp_induct)
  case (step y z)
  then obtain d' v' where y: "doc y k = Some (d', v')" "v \<le> v'" "v' = v \<longrightarrow> d' = d" by blast
  with writes [OF step.hyps(2), of k] show ?case by auto
qed simp

lemma same_version_same_document:
  "step\<^sup>*\<^sup>* s s' \<Longrightarrow> doc s k = Some (d, v) \<Longrightarrow> doc s' k = Some (d', v) \<Longrightarrow> d' = d"
  using version_grows [of s s' k d v] by auto

end

text \<open>Items written once: a step never changes or removes one.\<close>

locale write_once =
  fixes step :: "'s \<Rightarrow> 's \<Rightarrow> bool" and item :: "'s \<Rightarrow> 'k \<Rightarrow> 'r option"
  assumes keeps: "step s s' \<Longrightarrow> item s k = Some x \<Longrightarrow> item s' k = Some x"
begin

lemma stays: "step\<^sup>*\<^sup>* s s' \<Longrightarrow> item s k = Some x \<Longrightarrow> item s' k = Some x"
  by (induction rule: rtranclp_induct) (auto intro: keeps)

end

section \<open>Compare-and-swap on a table\<close>

lemma find_row_map:
  "(\<And>r. r \<in> set t \<Longrightarrow> dr_id (g r) = dr_id r) \<Longrightarrow> find_row k (map g t) = map_option g (find_row k t)"
  by (induction t) (auto simp: find_row_def)

lemma find_append: "find P (xs @ ys) = (case find P xs of None \<Rightarrow> find P ys | Some x \<Rightarrow> Some x)"
  by (induction xs) auto

lemma find_row_id: "find_row k t = Some r \<Longrightarrow> dr_id r = k"
  by (auto simp: find_row_def find_Some_iff)

lemma cas_write_cases:
  assumes "cas_write what k e fresh change t = Inr (t', v)"
  obtains (Insert) r where "find_row k t = None" "e = None \<or> e = Some 0" "fresh = Inr r"
      "t' = t @ [r\<lparr>dr_id := k, dr_version := 1\<rparr>]" "v = 1"
    | (Update) r f where "find_row k t = Some r" "e = None \<or> e = Some (dr_version r)" "change = Inr f"
      "t' = map (\<lambda>x. if dr_id x = k \<and> dr_version x = dr_version r
          then (f x)\<lparr>dr_id := k, dr_version := dr_version r + 1\<rparr> else x) t" "v = dr_version r + 1"
  using assms by (auto simp: cas_write_def Let_def split: option.splits if_splits)

definition doc_at :: "'a doc_row_scheme list \<Rightarrow> string \<Rightarrow> ('a doc_row_scheme \<times> int) option" where
  "doc_at t k = map_option (\<lambda>r. (r\<lparr>dr_version := 0\<rparr>, dr_version r)) (find_row k t)"

lemma cas_write_doc:
  assumes "cas_write what k e fresh change t = Inr (t', v)"
  shows "find_row k t' = (case find_row k t of
      None \<Rightarrow> map_option (\<lambda>r. r\<lparr>dr_id := k, dr_version := v\<rparr>) (case fresh of Inl _ \<Rightarrow> None | Inr r \<Rightarrow> Some r)
    | Some r \<Rightarrow> (case change of Inl _ \<Rightarrow> None | Inr f \<Rightarrow> Some ((f r)\<lparr>dr_id := k, dr_version := v\<rparr>)))"
    and "k' \<noteq> k \<Longrightarrow> find_row k' t' = find_row k' t"
    and "v = (case find_row k t of None \<Rightarrow> 1 | Some r \<Rightarrow> dr_version r + 1)"
proof -
  have "find_row k t' = (case find_row k t of
      None \<Rightarrow> map_option (\<lambda>r. r\<lparr>dr_id := k, dr_version := v\<rparr>) (case fresh of Inl _ \<Rightarrow> None | Inr r \<Rightarrow> Some r)
    | Some r \<Rightarrow> (case change of Inl _ \<Rightarrow> None | Inr f \<Rightarrow> Some ((f r)\<lparr>dr_id := k, dr_version := v\<rparr>))) \<and>
    (k' \<noteq> k \<longrightarrow> find_row k' t' = find_row k' t) \<and> v = (case find_row k t of None \<Rightarrow> 1 | Some r \<Rightarrow> dr_version r + 1)"
    using assms
  proof (cases rule: cas_write_cases)
    case (Insert r)
    then show ?thesis by (auto simp: find_row_def find_append split: option.split)
  next
    case (Update r f)
    let ?g = "\<lambda>x. if dr_id x = k \<and> dr_version x = dr_version r
          then (f x)\<lparr>dr_id := k, dr_version := dr_version r + 1\<rparr> else x"
    have "find_row k'' t' = map_option ?g (find_row k'' t)" for k''
      unfolding Update(4) by (rule find_row_map) auto
    then show ?thesis using Update find_row_id by (cases "find_row k' t") (auto dest: find_row_id)
  qed
  then show "find_row k t' = (case find_row k t of
      None \<Rightarrow> map_option (\<lambda>r. r\<lparr>dr_id := k, dr_version := v\<rparr>) (case fresh of Inl _ \<Rightarrow> None | Inr r \<Rightarrow> Some r)
    | Some r \<Rightarrow> (case change of Inl _ \<Rightarrow> None | Inr f \<Rightarrow> Some ((f r)\<lparr>dr_id := k, dr_version := v\<rparr>)))"
    and "k' \<noteq> k \<Longrightarrow> find_row k' t' = find_row k' t"
    and "v = (case find_row k t of None \<Rightarrow> 1 | Some r \<Rightarrow> dr_version r + 1)" by blast+
qed

lemma cas_step_doc:
  assumes "cas_step t t'"
  shows "doc_at t' k = doc_at t k \<or> (\<exists>d. doc_at t' k = Some (d, case doc_at t k of None \<Rightarrow> 1 | Some x \<Rightarrow> snd x + 1))"
proof (cases "t' = t")
  case False
  with assms obtain what k' e fresh change v where w: "cas_write what k' e fresh change t = Inr (t', v)"
    by (auto simp: cas_step_def)
  show ?thesis
  proof (cases "k = k'")
    case True
    have "find_row k t' \<noteq> None"
      unfolding True cas_write_doc(1) [OF w] using w by (cases rule: cas_write_cases) auto
    moreover have "dr_version r = v" if "find_row k t' = Some r" for r
      using that cas_write_doc(1) [OF w] by (auto simp: True split: option.splits sum.splits)
    ultimately show ?thesis using cas_write_doc(3) [OF w]
      by (auto simp: doc_at_def True split: option.splits)
  qed (simp add: doc_at_def cas_write_doc(2) [OF w])
qed simp

interpretation campaigns: versioned_store "st_step pf H r" "doc_at \<circ> st_campaigns"
  by unfold_locales (simp add: cas_step_doc st_step_parts(1))

interpretation batches: versioned_store "st_step pf H r" "doc_at \<circ> st_batches"
  by unfold_locales (simp add: cas_step_doc st_step_parts(2))

interpretation catalogs: versioned_store "st_step pf H r" "doc_at \<circ> st_catalog"
  by unfold_locales (simp add: cas_step_doc st_step_parts(3))

interpretation intels: versioned_store "st_step pf H r" "doc_at \<circ> st_intel"
  by unfold_locales (simp add: cas_step_doc st_step_parts(4))

interpretation profiles: versioned_store "st_step pf H r" "doc_at \<circ> st_profiles"
  by unfold_locales (simp add: cas_step_doc st_step_parts(5))

interpretation observations: write_once "st_step pf H r" "\<lambda>st (c, i). find_obs c i st"
proof unfold_locales
  fix st st' :: storage and k :: "string \<times> string" and x
  assume s: "st_step pf H r st st'" and x: "(case k of (c, i) \<Rightarrow> find_obs c i st) = Some x"
  show "(case k of (c, i) \<Rightarrow> find_obs c i st') = Some x"
    using st_step_parts(6) [OF s] x by (auto simp: obs_step_def find_obs_def find_append split: prod.splits)
qed

interpretation advisories: write_once "st_step pf H r" "\<lambda>st (c, f). find_snapshot c f (st_advisories st)"
proof unfold_locales
  fix st st' :: storage and k :: "string \<times> string" and x
  assume s: "st_step pf H r st st'" and x: "(case k of (c, f) \<Rightarrow> find_snapshot c f (st_advisories st)) = Some x"
  show "(case k of (c, f) \<Rightarrow> find_snapshot c f (st_advisories st')) = Some x"
    using st_step_parts(7) [OF s] x by (auto simp: snapshot_step_def find_snapshot_def find_append split: prod.splits)
qed

interpretation hypotheses: write_once "st_step pf H r" "\<lambda>st (c, f). find_snapshot c f (st_hypotheses st)"
proof unfold_locales
  fix st st' :: storage and k :: "string \<times> string" and x
  assume s: "st_step pf H r st st'" and x: "(case k of (c, f) \<Rightarrow> find_snapshot c f (st_hypotheses st)) = Some x"
  show "(case k of (c, f) \<Rightarrow> find_snapshot c f (st_hypotheses st')) = Some x"
    using st_step_parts(8) [OF s] x by (auto simp: snapshot_step_def find_snapshot_def find_append split: prod.splits)
qed

interpretation bindings: write_once "st_step pf H r" "\<lambda>st f. find_binding f st"
  by unfold_locales (use st_step_parts(9) in \<open>fastforce simp: binding_step_def find_binding_def find_append\<close>)

interpretation artifacts: write_once "st_step pf H r" "\<lambda>st a. find (\<lambda>x. ar_id x = a) (st_artifacts st)"
  by unfold_locales (use st_step_parts(10) in \<open>fastforce simp: artifact_step_def find_append\<close>)

end
