(* ===== verification/StorageProps.thy ===== *)
theory StorageProps
  imports StorageInv
begin

text \<open>
  The properties of the storage: no update of a campaign is lost, observations are immutable and
  always load as a graph, and stored artifacts are read back from below the artifact root.
\<close>

section \<open>Campaign documents\<close>

lemma json_ok_dict_set:
  "json_ok pf (PDict d) \<Longrightarrow> json_ok pf v \<Longrightarrow> json_ok pf (PDict (dict_set k v d))"
proof -
  have "set (dict_set k v d) \<subseteq> insert (k, v) (set d)" by (induction k v d rule: dict_set.induct) auto
  then show "json_ok pf (PDict d) \<Longrightarrow> json_ok pf v \<Longrightarrow> json_ok pf (PDict (dict_set k v d))"
    by (auto simp: list_all_iff)
qed

definition campaign_doc :: "pydict \<Rightarrow> pydict" where
  "campaign_doc d = dict_set ''id'' (PStr (py_strip (py_str (pget d ''id'')))) d"

lemma prepare_campaign_Inr:
  assumes "prepare_campaign env d = Inr (i, d', encoded)"
  shows "is_ident i" "i = py_strip (py_str (pget d ''id''))" "d' = campaign_doc d" "encoded = json_dumps False (PDict (campaign_doc d))"
  using assms
  by (auto simp: prepare_campaign_def with_id_def encode_document_def campaign_doc_def Let_def
      split: if_splits dest!: st_identifier_Inr)

lemma campaign_columns:
  "campaign_insert i d encoded = Inr r \<Longrightarrow> dr_document r = encoded"
  "campaign_update d encoded = Inr f \<Longrightarrow> dr_document (f r) = encoded"
  by (auto simp: campaign_insert_def campaign_update_def)

lemma save_campaign_row:
  assumes "save_campaign env d e st = Inr (st', v)" and "i = py_strip (py_str (pget d ''id''))"
  shows "is_ident i"
    and "\<exists>r. find_row i (st_campaigns st') = Some r \<and> dr_document r = json_dumps False (PDict (campaign_doc d)) \<and> dr_version r = v"
    and "k \<noteq> i \<Longrightarrow> find_row k (st_campaigns st') = find_row k (st_campaigns st)"
    and "v = (case find_row i (st_campaigns st) of None \<Rightarrow> 1 | Some r \<Rightarrow> dr_version r + 1)"
proof -
  obtain i' d' encoded where p': "prepare_campaign env d = Inr (i', d', encoded)"
    and w': "cas_write ''campaign'' i' e (campaign_insert i' d' encoded)
      (campaign_update d' encoded) (st_campaigns st) = Inr (st_campaigns st', v)"
    using assms(1) by (auto simp: save_campaign_def rbind_Inr_iff)
  have "i' = i" "d' = campaign_doc d" using prepare_campaign_Inr [OF p'] assms(2) by simp_all
  with p' w' have p: "prepare_campaign env d = Inr (i, campaign_doc d, encoded)"
    and w: "cas_write ''campaign'' i e (campaign_insert i (campaign_doc d) encoded)
      (campaign_update (campaign_doc d) encoded) (st_campaigns st) = Inr (st_campaigns st', v)" by simp_all
  note pf = prepare_campaign_Inr [OF p]
  show "is_ident i" by (rule pf)
  show "\<exists>r. find_row i (st_campaigns st') = Some r \<and> dr_document r = json_dumps False (PDict (campaign_doc d)) \<and> dr_version r = v"
    unfolding cas_write_doc(1) [OF w] using w
    by (cases rule: cas_write_cases) (auto simp: pf(4) dest: campaign_columns)
  show "k \<noteq> i \<Longrightarrow> find_row k (st_campaigns st') = find_row k (st_campaigns st)" by (rule cas_write_doc(2) [OF w])
  show "v = (case find_row i (st_campaigns st) of None \<Rightarrow> 1 | Some r \<Rightarrow> dr_version r + 1)" by (rule cas_write_doc(3) [OF w])
qed

lemma cas_write_expected:
  assumes "cas_write what k None fresh change t = Inr x"
  shows "cas_write what k (Some n) fresh change t =
    (if n = (case find_row k t of None \<Rightarrow> 0 | Some r \<Rightarrow> dr_version r) then Inr x
     else Inl (ConflictError (what @ '' version conflict'')))"
  using assms by (auto simp: cas_write_def Let_def split: option.splits if_splits)

lemma save_campaign_expected:
  assumes "save_campaign env d None st = Inr x" and "i = py_strip (py_str (pget d ''id''))"
  shows "save_campaign env d (Some n) st =
    (if n = (case find_row i (st_campaigns st) of None \<Rightarrow> 0 | Some r \<Rightarrow> dr_version r) then Inr x
     else Inl (ConflictError ''campaign version conflict''))"
proof -
  obtain i' d' encoded y where p': "prepare_campaign env d = Inr (i', d', encoded)"
    and w': "cas_write ''campaign'' i' None (campaign_insert i' d' encoded)
      (campaign_update d' encoded) (st_campaigns st) = Inr y"
    using assms(1) by (auto simp: save_campaign_def rbind_Inr_iff)
  have "i' = i" "d' = campaign_doc d" using prepare_campaign_Inr [OF p'] assms(2) by simp_all
  with p' w' have p: "prepare_campaign env d = Inr (i, campaign_doc d, encoded)"
    and w: "cas_write ''campaign'' i None (campaign_insert i (campaign_doc d) encoded)
      (campaign_update (campaign_doc d) encoded) (st_campaigns st) = Inr y" by simp_all
  show ?thesis
    using assms(1) cas_write_expected [OF w, of n] by (auto simp: save_campaign_def p w)
qed

lemma get_campaign_record_row:
  "get_campaign_record pf st c = Inr (Some (d, v)) \<longleftrightarrow>
    is_ident (py_strip c) \<and> (\<exists>r. find_row (py_strip c) (st_campaigns st) = Some r \<and> json_loads pf (dr_document r) = Inr d \<and> dr_version r = v)"
  by (auto simp: get_campaign_record_def decode_row_def rbind_Inr_iff st_identifier_def st_identifier_max_def is_ident_def
      Let_def split: option.splits if_splits)

text \<open>C10: Read, modify, write of a campaign loses no update. After a campaign was read at version \<open>v\<close>, whatever
  operations other processes run in between, writing a valid document with \<open>expected_version = v\<close>
  succeeds exactly when the campaign is still the one that was read; it then is version \<open>v + 1\<close> and reads
  back as the document written. Otherwise the write is refused with a conflict.\<close>

theorem campaign_no_lost_update:
  assumes "get_campaign_record pf st c = Inr (Some (d, v))" and "(st_step pf H r)\<^sup>*\<^sup>* st st'"
    and "save_campaign env doc None st' = Inr (st'', w)" and "py_strip (py_str (pget doc ''id'')) = py_strip c"
    and "json_ok pf (PDict doc)"
  shows "(get_campaign_record pf st' c = Inr (Some (d, v)) \<and> save_campaign env doc (Some v) st' = Inr (st'', v + 1) \<and>
      get_campaign_record pf st'' c = Inr (Some (PDict (campaign_doc doc), v + 1))) \<or>
    (get_campaign_record pf st' c \<noteq> Inr (Some (d, v)) \<and>
      save_campaign env doc (Some v) st' = Inl (ConflictError ''campaign version conflict''))"
proof -
  let ?i = "py_strip c"
  obtain row where row: "is_ident ?i" "find_row ?i (st_campaigns st) = Some row" "json_loads pf (dr_document row) = Inr d" "dr_version row = v"
    using assms(1) by (auto simp: get_campaign_record_row)
  have "(doc_at \<circ> st_campaigns) st ?i = Some (row\<lparr>dr_version := 0\<rparr>, v)" using row by (simp add: doc_at_def)
  from campaigns.version_grows [OF assms(2) this] obtain row' where row':
    "find_row ?i (st_campaigns st') = Some row'" "dr_version row' = v \<Longrightarrow> row'\<lparr>dr_version := 0\<rparr> = row\<lparr>dr_version := 0\<rparr>"
    by (auto simp: doc_at_def)
  have unchanged: "get_campaign_record pf st' c = Inr (Some (d, v)) \<longleftrightarrow> dr_version row' = v"
    using row row' by (auto simp: get_campaign_record_row dest!: arg_cong [where f = dr_document])
  note cas = save_campaign_expected [OF assms(3) assms(4) [symmetric], of v]
  have w: "w = dr_version row' + 1" using save_campaign_row(4) [OF assms(3) assms(4) [symmetric]] row' by simp
  have "json_ok pf (PDict (campaign_doc doc))"
    using assms(5) unfolding campaign_doc_def by (rule json_ok_dict_set) simp
  from json_loads_dumps [OF this, of False]
  have "get_campaign_record pf st'' c = Inr (Some (PDict (campaign_doc doc), w))"
    using save_campaign_row(1,2) [OF assms(3) assms(4) [symmetric]] by (auto simp: get_campaign_record_row)
  with unchanged cas w row' show ?thesis by auto
qed

section \<open>Observations\<close>

text \<open>The rows of the table are the texts of records; those of one campaign stand parents first.\<close>

definition recs_ok :: "(string \<Rightarrow> (rat \<times> string) option) \<Rightarrow> obs_record list \<Rightarrow> bool" where
  "recs_ok pf recs = (list_all (\<lambda>r. map_of kind_names (oc_kind r) \<noteq> None \<and> json_ok pf (PDict (oc_metadata r))) recs \<and>
     distinct (map (\<lambda>r. (oc_campaign r, oc_id r)) recs) \<and>
     (\<forall>c. topo {} (map observation_of (filter (\<lambda>r. oc_campaign r = c) recs))))"

definition obs_inv :: "(string \<Rightarrow> (rat \<times> string) option) \<Rightarrow> storage \<Rightarrow> obs_record list \<Rightarrow> bool" where
  "obs_inv pf st recs = (st_observations st = map obs_row_of recs \<and> recs_ok pf recs)"

lemma observation_of_simps [simp]:
  "ob_id (observation_of r) = oc_id r" "ob_parents (observation_of r) = oc_parents r"
  by (simp_all add: observation_of_def)

lemma obs_row_of_simps [simp]:
  "or_campaign (obs_row_of r) = oc_campaign r" "or_id (obs_row_of r) = oc_id r" "or_created (obs_row_of r) = oc_created r"
  "or_kind (obs_row_of r) = oc_kind r" "or_value (obs_row_of r) = oc_value r" "or_source (obs_row_of r) = oc_source r"
  by (simp_all add: obs_row_of_def)

lemma obs_inv_find:
  assumes "obs_inv pf st recs"
  shows "find_obs c i st = map_option obs_row_of (find (\<lambda>r. oc_campaign r = c \<and> oc_id r = i) recs)"
proof -
  have "find (\<lambda>r. or_campaign r = c \<and> or_id r = i) (map obs_row_of rs) =
    map_option obs_row_of (find (\<lambda>r. oc_campaign r = c \<and> oc_id r = i) rs)" for rs
    by (induction rs) auto
  with assms show ?thesis by (simp add: find_obs_def obs_inv_def)
qed

lemma obs_inv_step:
  assumes "obs_inv pf st recs" and "obs_step pf st st'"
  shows "\<exists>more. obs_inv pf st' (recs @ more)"
proof (cases "st_observations st' = st_observations st")
  case True
  then show ?thesis using assms(1) by (intro exI [of _ "[]"]) (simp add: obs_inv_def)
next
  case False
  with assms(2) obtain r where r: "st_observations st' = st_observations st @ [obs_row_of r]"
    "find_obs (oc_campaign r) (oc_id r) st = None"
    "list_all (\<lambda>p. find_obs (oc_campaign r) p st \<noteq> None) (oc_parents r)" "map_of kind_names (oc_kind r) \<noteq> None"
    "json_ok pf (PDict (oc_metadata r))" by (auto simp: obs_step_def)
  let ?mine = "filter (\<lambda>x. oc_campaign x = oc_campaign r) recs"
  have ids: "find_obs (oc_campaign r) p st \<noteq> None \<longleftrightarrow> p \<in> oc_id ` set ?mine" for p
    by (auto simp: obs_inv_find [OF assms(1)] find_None_iff)
  have "\<forall>p \<in> set (oc_parents r). find_obs (oc_campaign r) p st \<noteq> None" using r(3) by (simp only: list_all_iff)
  then have "set (oc_parents r) \<subseteq> oc_id ` set ?mine" using ids by blast
  moreover have "oc_id r \<notin> oc_id ` set ?mine" using r(2) ids by blast
  ultimately have "topo {} (map observation_of (?mine @ [r]))"
    using assms(1) by (auto simp: obs_inv_def recs_ok_def topo_snoc image_image)
  moreover have "(oc_campaign r, oc_id r) \<notin> set (map (\<lambda>r. (oc_campaign r, oc_id r)) recs)"
    using \<open>oc_id r \<notin> oc_id ` set ?mine\<close> by (auto simp: image_iff)
  ultimately have "obs_inv pf st' (recs @ [r])"
    using assms(1) r by (auto simp: obs_inv_def recs_ok_def)
  then show ?thesis by blast
qed

lemma obs_inv_steps:
  "(st_step pf H r)\<^sup>*\<^sup>* st st' \<Longrightarrow> obs_inv pf st recs \<Longrightarrow> \<exists>more. obs_inv pf st' (recs @ more)"
proof (induction rule: rtranclp_induct)
  case base
  then show ?case by (intro exI [of _ "[]"]) simp
next
  case (step y z)
  then obtain more where "obs_inv pf y (recs @ more)" by blast
  from obs_inv_step [OF this st_step_parts(6) [OF step.hyps(2)]] show ?case by (metis append.assoc)
qed

lemma obs_inv_reachable: "(st_step pf H r)\<^sup>*\<^sup>* st_empty st \<Longrightarrow> \<exists>recs. obs_inv pf st recs"
  using obs_inv_steps [of pf H r st_empty st "[]"] by (auto simp: obs_inv_def recs_ok_def st_empty_def)

lemma rmap_text: "rmap (\<lambda>x. case x of PStr s \<Rightarrow> Inr s | _ \<Rightarrow> Inl e) (map PStr ps) = Inr ps"
  by (induction ps) auto

lemma obs_columns:
  assumes "json_ok pf (PDict (oc_metadata r))"
  shows "load_parents pf (or_parents (obs_row_of r)) = Inr (oc_parents r)"
    and "load_metadata pf (or_metadata (obs_row_of r)) = Inr (oc_metadata r)"
proof -
  have "json_ok pf (text_list (oc_parents r))" by (simp add: text_list_def list_all_iff)
  from json_loads_dumps [OF this, of False] json_loads_dumps [OF assms, of False]
  show "load_parents pf (or_parents (obs_row_of r)) = Inr (oc_parents r)"
    and "load_metadata pf (or_metadata (obs_row_of r)) = Inr (oc_metadata r)"
    by (simp_all add: load_parents_def load_metadata_def obs_row_of_def text_list_def comp_def rmap_text)
qed

lemma obs_of_row_of: "json_ok pf (PDict (oc_metadata r)) \<Longrightarrow> obs_of_row pf (obs_row_of r) = Inr r"
  by (simp add: obs_of_row_def obs_columns)

lemma rmap_map_Inr: "(\<And>x. x \<in> set xs \<Longrightarrow> f (g x) = Inr x) \<Longrightarrow> rmap f (map g xs) = Inr xs"
  by (induction xs) auto

lemma distinct_ids:
  "distinct (map (\<lambda>r. (oc_campaign r, oc_id r)) recs) \<Longrightarrow> distinct (map oc_id (filter (\<lambda>r. oc_campaign r = c) recs))"
  by (induction recs) (auto simp: image_iff)

lemma list_observations_inv:
  assumes "obs_inv pf st recs" and "is_ident (py_strip c)"
  obtains rs where "list_observations pf st c = Inr rs" "distinct (map oc_id rs)"
    "set rs = set (filter (\<lambda>r. oc_campaign r = py_strip c) recs)"
proof -
  let ?mine = "filter (\<lambda>r. oc_campaign r = py_strip c) recs"
  let ?key = "\<lambda>r. (or_created r, or_id r)"
  have sk: "sort_key ?key (map obs_row_of xs) = map obs_row_of (sort_key (?key \<circ> obs_row_of) xs)" for xs
  proof -
    have "insort_key ?key (obs_row_of x) (map obs_row_of ys) = map obs_row_of (insort_key (?key \<circ> obs_row_of) x ys)" for x ys
      by (induction ys) auto
    then show ?thesis by (induction xs) auto
  qed
  let ?rs = "sort_key (?key \<circ> obs_row_of) ?mine"
  have "filter (\<lambda>r. or_campaign r = py_strip c) (st_observations st) = map obs_row_of ?mine"
    using assms(1) by (simp add: obs_inv_def filter_map comp_def)
  moreover have "rmap (obs_of_row pf) (map obs_row_of ?rs) = Inr ?rs"
    using assms(1) by (intro rmap_map_Inr obs_of_row_of) (auto simp: obs_inv_def recs_ok_def list_all_iff)
  moreover have "st_identifier c ''campaign_id'' = Inr (py_strip c)"
    using assms(2) by (simp add: st_identifier_def st_identifier_max_def is_ident_def Let_def)
  ultimately have "list_observations pf st c = Inr ?rs" by (simp add: list_observations_def sk)
  moreover have "distinct (map oc_id ?rs)"
    using assms(1) distinct_ids [of recs "py_strip c"] by (simp add: obs_inv_def recs_ok_def distinct_map)
  ultimately show thesis using that [of ?rs] by simp
qed

lemma topo_cong:
  "map ob_id xs = map ob_id ys \<Longrightarrow> map ob_parents xs = map ob_parents ys \<Longrightarrow> topo seen xs = topo seen ys"
proof (induction xs arbitrary: ys seen)
  case (Cons x xs)
  then obtain y ys' where ys: "ys = y # ys'" "ob_id x = ob_id y" "ob_parents x = ob_parents y"
    "map ob_id xs = map ob_id ys'" "map ob_parents xs = map ob_parents ys'" by auto
  then show ?case using Cons.IH [OF ys(4,5), of "insert (ob_id y) seen"] by simp
qed simp

lemma with_discovery_time_simps [simp]:
  "oc_id (with_discovery_time r) = oc_id r" "oc_parents (with_discovery_time r) = oc_parents r"
  by (simp_all add: with_discovery_time_def)

text \<open>C11: In every state the storage can reach, the observations of every campaign load as a graph, with or
  without their times of first insertion; its nodes are the identifiers of the campaign's rows. The
  loader's error about missing or cyclic parents cannot occur.\<close>

theorem observations_always_load:
  assumes "(st_step pf H r)\<^sup>*\<^sup>* st_empty st" and "is_ident c"
  shows "\<exists>g. load_observation_graph pf st c first_seen = Inr g \<and> graph_ok g \<and>
    graph_ids g = or_id ` set (filter (\<lambda>x. or_campaign x = c) (st_observations st))"
proof -
  obtain recs where inv: "obs_inv pf st recs" using obs_inv_reachable [OF assms(1)] by blast
  have c: "py_strip c = c" using assms(2) by (simp add: is_ident_def)
  obtain rs where rs: "list_observations pf st c = Inr rs" "distinct (map oc_id rs)"
    "set rs = set (filter (\<lambda>r. oc_campaign r = c) recs)"
    using list_observations_inv [OF inv, of c] assms(2) c by metis
  define view where "view = (if first_seen then with_discovery_time else (\<lambda>r. r))"
  let ?f = "\<lambda>r. observation_of (view r)"
  have keep: "ob_id (?f r) = oc_id r" "ob_parents (?f r) = oc_parents r" for r by (simp_all add: view_def)
  have view_id: "oc_id (view r) = oc_id r" for r by (simp add: view_def)
  let ?mine = "filter (\<lambda>r. oc_campaign r = c) recs"
  have "topo {} (map observation_of ?mine)" using inv by (simp add: obs_inv_def recs_ok_def)
  then have "topo {} (map ?f ?mine)"
    by (subst topo_cong [of _ "map observation_of ?mine"]) (simp_all add: comp_def view_def)
  moreover have "set (map ?f rs) = set (map ?f ?mine)" using rs(3) by simp
  moreover have "distinct (map ob_id (map ?f rs))" using rs(2) by (simp add: comp_def view_def)
  ultimately obtain g where g: "from_records (map ?f rs) = Inr g" by (rule from_records_total)
  have "map ?f rs = map observation_of (if first_seen then map with_discovery_time rs else rs)"
    by (simp add: view_def comp_def)
  with g rs(1) have "load_observation_graph pf st c first_seen = Inr g" by (simp add: load_observation_graph_def)
  moreover have "graph_ids g = or_id ` set (filter (\<lambda>x. or_campaign x = c) (st_observations st))"
    using from_records_ids [OF g] inv rs(3) by (simp add: obs_inv_def image_image view_id filter_map comp_def)
  ultimately show ?thesis using from_records_graph_ok [OF g] by blast
qed

lemma json_ok_wf: "json_ok pf v \<Longrightarrow> wf_pyval v"
proof (induction pf v rule: json_ok.induct)
  case (4 pf d)
  then show ?case by (fastforce simp: list_all_iff)
qed (auto simp: list_all_iff)

lemma put_observation_entry:
  assumes "put_observation env pf c ob now st = Inr (st1, x)" and "json_ok pf (PDict ob)"
  shows "\<exists>e md. find_obs (oc_campaign x) (oc_id x) st1 = Some e \<and> or_kind e = oc_kind x \<and> or_value e = oc_value x \<and>
    or_source e = oc_source x \<and> load_parents pf (or_parents e) = Inr (oc_parents x) \<and>
    load_metadata pf (or_metadata e) = Inr md \<and> py_eq (PDict md) (PDict (oc_metadata x)) \<and> or_created e = oc_created x \<and>
    oc_campaign x = py_strip c \<and> is_ident (py_strip c)"
proof -
  obtain r where r: "normalize_observation env c ob now = Inr r" using assms(1) by (auto simp: put_observation_def)
  note f = normalize_observation_json [OF r assms(2)] normalize_observation_fields(3,4) [OF r]
  show ?thesis
  proof (cases "find_obs (oc_campaign r) (oc_id r) st")
    case None
    then have st1: "st1 = st\<lparr>st_observations := st_observations st @ [obs_row_of r]\<rparr>" "x = r"
      using assms(1) r by (auto simp: put_observation_def Let_def split: if_splits)
    have "find_obs (oc_campaign r) (oc_id r) st1 = Some (obs_row_of r)"
      using None by (simp add: st1 find_obs_def find_append)
    moreover have "load_parents pf (or_parents (obs_row_of r)) = Inr (oc_parents r) \<and>
      load_metadata pf (or_metadata (obs_row_of r)) = Inr (oc_metadata r)"
      using obs_columns [OF f(1)] by simp
    moreover have "py_eq (PDict (oc_metadata r)) (PDict (oc_metadata r))" using f(1) by (intro py_eq_refl json_ok_wf)
    ultimately show ?thesis using f(2,3) by (intro exI [of _ "obs_row_of r"] exI [of _ "oc_metadata r"]) (simp add: st1(2))
  next
    case (Some e)
    then show ?thesis using assms(1) r f(2,3) by (auto simp: put_observation_def Let_def split: if_splits)
  qed
qed

text \<open>C12: An observation that was stored is listed unchanged ever after; storing the same identifier again
  changes nothing and is accepted only with equal content.\<close>

theorem observation_immutable:
  assumes "(st_step pf H r)\<^sup>*\<^sup>* st_empty st" and "put_observation env pf c ob now st = Inr (st1, x)"
    and "json_ok pf (PDict ob)" and "(st_step pf H r)\<^sup>*\<^sup>* st1 st2"
  shows "(\<exists>rs y. list_observations pf st2 c = Inr rs \<and> y \<in> set rs \<and> oc_id y = oc_id x \<and> oc_created y = oc_created x \<and>
      oc_kind y = oc_kind x \<and> oc_value y = oc_value x \<and> oc_source y = oc_source x \<and> oc_parents y = oc_parents x \<and>
      py_eq (PDict (oc_metadata y)) (PDict (oc_metadata x))) \<and>
    (\<forall>env' ob' now' st3 z. put_observation env' pf c ob' now' st2 = Inr (st3, z) \<longrightarrow> oc_id z = oc_id x \<longrightarrow>
      st3 = st2 \<and> oc_value z = oc_value x \<and> oc_kind z = oc_kind x \<and> oc_source z = oc_source x \<and>
      oc_parents z = oc_parents x \<and> oc_created z = oc_created x)"
proof -
  obtain e md where e: "find_obs (oc_campaign x) (oc_id x) st1 = Some e" "or_kind e = oc_kind x" "or_value e = oc_value x"
    "or_source e = oc_source x" "load_parents pf (or_parents e) = Inr (oc_parents x)"
    "load_metadata pf (or_metadata e) = Inr md" "py_eq (PDict md) (PDict (oc_metadata x))" "or_created e = oc_created x"
    "oc_campaign x = py_strip c" "is_ident (py_strip c)"
    using put_observation_entry [OF assms(2,3)] by blast
  have e2: "find_obs (oc_campaign x) (oc_id x) st2 = Some e"
    using observations.stays [OF assms(4), of "(oc_campaign x, oc_id x)" e] e(1) by simp
  have "st_step pf H r st st1" using assms(2,3) by (rule step_observation)
  with assms(1,4) have "(st_step pf H r)\<^sup>*\<^sup>* st_empty st2" by simp
  then obtain recs where inv: "obs_inv pf st2 recs" using obs_inv_reachable by blast
  obtain rs where rs: "list_observations pf st2 c = Inr rs" "set rs = set (filter (\<lambda>r. oc_campaign r = py_strip c) recs)"
    using list_observations_inv [OF inv e(10)] by blast
  obtain y where y: "find (\<lambda>r. oc_campaign r = oc_campaign x \<and> oc_id r = oc_id x) recs = Some y" "e = obs_row_of y"
    using e2 by (auto simp: obs_inv_find [OF inv])
  then have mem: "y \<in> set recs" "oc_campaign y = oc_campaign x" "oc_id y = oc_id x" by (auto simp: find_Some_iff)
  then have "json_ok pf (PDict (oc_metadata y))" using inv by (auto simp: obs_inv_def recs_ok_def list_all_iff)
  from obs_columns [OF this] y(2) e(5,6) have cols: "oc_parents y = oc_parents x" "oc_metadata y = md" by simp_all
  have listed: "y \<in> set rs" using mem rs(2) e(9) by simp
  have again: "st3 = st2 \<and> oc_value z = oc_value x \<and> oc_kind z = oc_kind x \<and> oc_source z = oc_source x \<and>
      oc_parents z = oc_parents x \<and> oc_created z = oc_created x"
    if put: "put_observation env' pf c ob' now' st2 = Inr (st3, z)" and "oc_id z = oc_id x" for env' ob' now' st3 z
  proof -
    obtain q where q: "normalize_observation env' c ob' now' = Inr q" using put by (auto simp: put_observation_def)
    have qc: "oc_campaign q = py_strip c" using normalize_observation_fields(4) [OF q] by simp
    have "oc_id z = oc_id q" using put q by (auto simp: put_observation_def Let_def split: if_splits option.splits)
    then have "find_obs (oc_campaign q) (oc_id q) st2 = Some e" using that(2) e2 e(9) qc by simp
    with put q e(2-8) show ?thesis by (auto simp: put_observation_def Let_def split: if_splits)
  qed
  show ?thesis
    using rs(1) listed mem cols e(2-8) y(2) again by (intro conjI exI [of _ rs] exI [of _ y]) auto
qed

section \<open>Artifacts\<close>

text \<open>A path without empty, dot or separator components.\<close>

definition clean :: "string list \<Rightarrow> bool" where
  "clean ps = list_all (\<lambda>p. p \<noteq> [] \<and> p \<noteq> ''.'' \<and> p \<noteq> ''..'' \<and> CHR ''/'' \<notin> set p) ps"

lemma resolve_snoc: "resolve_path (ps @ [p]) = (if p = ''..'' then butlast (resolve_path ps) else resolve_path ps @ [p])"
  by (simp add: resolve_path_def)

lemma clean_append [simp]: "clean (ps @ qs) \<longleftrightarrow> clean ps \<and> clean qs"
  by (simp add: clean_def)

lemma resolve_clean: "clean ps \<Longrightarrow> resolve_path ps = ps"
  by (induction ps rule: rev_induct) (auto simp: resolve_snoc clean_def, simp add: resolve_path_def)

lemma clean_butlast: "clean ps \<Longrightarrow> clean (butlast ps)"
  by (auto simp: clean_def list_all_iff dest: in_set_butlastD)

lemma clean_resolve:
  "list_all (\<lambda>p. p \<noteq> [] \<and> p \<noteq> ''.'' \<and> CHR ''/'' \<notin> set p) ps \<Longrightarrow> clean (resolve_path ps)"
proof (induction ps rule: rev_induct)
  case (snoc p ps)
  then show ?case by (simp add: resolve_snoc clean_butlast) (simp add: clean_def)
qed (simp add: resolve_path_def clean_def)

lemma clean_dir:
  assumes "clean r" and "safe_campaign_artifact_dir r c = Inr dir"
  shows "clean dir" and "below r dir"
proof -
  have "list_all (\<lambda>p. p \<noteq> [] \<and> p \<noteq> ''.'' \<and> CHR ''/'' \<notin> set p) (join_path r c)"
    using assms(1) py_split_no_sep [of _ "CHR ''/''" c]
    by (auto simp: join_path_def path_parts_def clean_def list_all_iff)
  then show "clean dir" and "below r dir"
    using assms(2) clean_resolve by (auto simp: safe_campaign_artifact_dir_def Let_def split: if_splits)
qed

lemma parts_join:
  assumes "clean ps" and "ps \<noteq> []" shows "path_parts (py_join ''/'' ps) = ps" and "\<not> py_startswith (py_join ''/'' ps) ''/''"
proof -
  have "py_split (CHR ''/'') (py_join ''/'' ps) = ps"
    using assms by (intro py_split_join) (auto simp: clean_def list_all_iff)
  then show "path_parts (py_join ''/'' ps) = ps"
    using assms(1) by (simp add: path_parts_def clean_def list_all_iff filter_id_conv)
  obtain p qs where ps: "ps = p # qs" using assms(2) by (cases ps) auto
  then obtain c cs where "p = c # cs" "c \<noteq> CHR ''/''" using assms(1) by (cases p) (auto simp: clean_def)
  then have "\<exists>rest. py_join ''/'' ps = c # rest" by (cases qs) (auto simp: ps)
  with \<open>c \<noteq> CHR ''/''\<close> show "\<not> py_startswith (py_join ''/'' ps) ''/''" by (auto simp: py_startswith_def)
qed

definition path_of :: "string list \<Rightarrow> artifact_row \<Rightarrow> string list" where
  "path_of r a = resolve_path (join_path r (ar_path a))"

lemma uuid_file: "uuid_ok aid \<Longrightarrow> clean [aid @ ''.bin'']"
  by (auto simp: uuid_ok_def clean_def)

lemma path_of_new:
  assumes "clean r" and "safe_campaign_artifact_dir r (aq_campaign q) = Inr dir" and "uuid_ok aid"
  shows "path_of r (new_artifact H q aid (drop (length r) (dir @ [aid @ ''.bin''])) now) = dir @ [aid @ ''.bin'']"
proof -
  let ?path = "dir @ [aid @ ''.bin'']"
  note d = clean_dir [OF assms(1,2)]
  have len: "length r \<le> length dir" using d(2) by (simp add: below_def) (metis length_take min.absorb_iff2)
  then have below: "take (length r) ?path = r" using d(2) by (simp add: below_def)
  have "clean ?path" using d(1) uuid_file [OF assms(3)] by simp
  then have rel: "clean (drop (length r) ?path)" by (metis append_take_drop_id clean_append)
  have ne: "drop (length r) ?path \<noteq> []" using len by simp
  have "join_path r (py_join ''/'' (drop (length r) ?path)) = r @ drop (length r) ?path"
    by (simp only: join_path_def parts_join [OF rel ne] if_False)
  also have "\<dots> = ?path" using below append_take_drop_id [of "length r" ?path] by simp
  finally show ?thesis using resolve_clean [OF \<open>clean ?path\<close>] by (simp add: path_of_def new_artifact_def)
qed

definition stored_ok :: "(string \<Rightarrow> string) \<Rightarrow> string list \<Rightarrow> storage \<Rightarrow> artifact_row \<Rightarrow> bool" where
  "stored_ok H r st a = (is_ident (ar_id a) \<and> below r (path_of r a) \<and> last (path_of r a) = ar_id a @ ''.bin'' \<and>
     (\<exists>content. st_files st (path_of r a) = Some content \<and> int (length content) = ar_size a \<and> H content = ar_sha a))"

definition artifact_inv :: "(string \<Rightarrow> string) \<Rightarrow> string list \<Rightarrow> storage \<Rightarrow> bool" where
  "artifact_inv H r st = (list_all (stored_ok H r st) (st_artifacts st) \<and> distinct (map ar_id (st_artifacts st)) \<and>
     (\<forall>p. st_files st p \<noteq> None \<longrightarrow> below r p))"

lemma below_append: "below r dir \<Longrightarrow> below r (dir @ ps)"
  by (simp add: below_def) (metis append_take_drop_id length_take min.absorb_iff2 nat_le_linear take_all)

lemma stored_ok_other:
  assumes "stored_ok H r st a" and "ar_id a \<noteq> aid" and "st_files st' = (st_files st)(dir @ [aid @ ''.bin''] := x)"
  shows "stored_ok H r st' a"
proof -
  have "path_of r a \<noteq> dir @ [aid @ ''.bin'']" using assms(1,2) by (auto simp: stored_ok_def)
  then show ?thesis using assms(1,3) by (simp add: stored_ok_def)
qed

lemma artifact_inv_step:
  assumes "artifact_inv H r st" and "artifact_step H r st st'" and "clean r"
  shows "artifact_inv H r st'"
proof -
  consider "st_artifacts st' = st_artifacts st" "st_files st' = st_files st"
    | q :: artifact_request and aid dir where "uuid_ok aid" "aid \<notin> ar_id ` set (st_artifacts st)"
      "safe_campaign_artifact_dir r (aq_campaign q) = Inr dir"
      "st_files st' = (st_files st)(dir @ [aid @ ''.bin''] := None)" "st_artifacts st' = st_artifacts st"
    | q aid now dir where "uuid_ok aid" "aid \<notin> ar_id ` set (st_artifacts st)" "safe_campaign_artifact_dir r (aq_campaign q) = Inr dir"
      "st_files st' = (st_files st)(dir @ [aid @ ''.bin''] \<mapsto> aq_content q)"
      "st_artifacts st' = st_artifacts st @ [new_artifact H q aid (drop (length r) (dir @ [aid @ ''.bin''])) now]"
    using assms(2) unfolding artifact_step_def by blast
  then show ?thesis
  proof cases
    case 1
    moreover from this have "stored_ok H r st' = stored_ok H r st" by (simp add: stored_ok_def fun_eq_iff)
    ultimately show ?thesis using assms(1) by (simp add: artifact_inv_def)
  next
    case 2
    have "stored_ok H r st' a" if "a \<in> set (st_artifacts st)" for a
      by (rule stored_ok_other [OF _ _ 2(4)]) (use that assms(1) 2(2) in \<open>auto simp: artifact_inv_def list_all_iff\<close>)
    then show ?thesis using assms(1) 2 by (auto simp: artifact_inv_def list_all_iff)
  next
    case 3
    have old: "stored_ok H r st' a" if "a \<in> set (st_artifacts st)" for a
      by (rule stored_ok_other [OF _ _ 3(4)]) (use that assms(1) 3(2) in \<open>auto simp: artifact_inv_def list_all_iff\<close>)
    let ?a = "new_artifact H q aid (drop (length r) (dir @ [aid @ ''.bin''])) now"
    note path = path_of_new [OF assms(3) 3(3,1), of H now]
    have below: "below r (dir @ [aid @ ''.bin''])" by (rule below_append [OF clean_dir(2) [OF assms(3) 3(3)]])
    then have "stored_ok H r st' ?a"
      using 3(1,4) unfolding stored_ok_def path by (simp add: new_artifact_def uuid_ok_def)
    with old below show ?thesis using assms(1) 3 by (auto simp: artifact_inv_def list_all_iff new_artifact_def)
  qed
qed

lemma artifact_inv_steps:
  "(st_step pf H r)\<^sup>*\<^sup>* st st' \<Longrightarrow> artifact_inv H r st \<Longrightarrow> clean r \<Longrightarrow> artifact_inv H r st'"
  by (induction rule: rtranclp_induct) (auto intro: artifact_inv_step st_step_parts(10))

lemma artifact_inv_empty: "artifact_inv H r st_empty"
  by (simp add: artifact_inv_def st_empty_def)

lemma find_by_id: "distinct (map f xs) \<Longrightarrow> x \<in> set xs \<Longrightarrow> find (\<lambda>y. f y = f x) xs = Some x"
  by (induction xs) (auto simp: image_iff)

lemma find_by_id2: "distinct (map f xs) \<Longrightarrow> x \<in> set xs \<Longrightarrow> P x \<Longrightarrow> find (\<lambda>y. f y = f x \<and> P y) xs = Some x"
  by (induction xs) (auto simp: image_iff)

lemma find_by_key_mem:
  "find_by_key c k st = Some e \<Longrightarrow> e \<in> set (st_artifacts st) \<and> ar_campaign e = c"
  by (auto simp: find_by_key_def find_Some_iff split: option.splits)

lemma insert_artifact_result:
  assumes "insert_artifact H r q aid now st = (st', Inr a)"
  shows "\<exists>e \<in> set (st_artifacts st'). a = public_artifact e \<and> ar_campaign e = aq_campaign q \<and> ar_sha e = H (aq_content q)"
proof -
  obtain dir where dir: "safe_campaign_artifact_dir r (aq_campaign q) = Inr dir"
    using assms by (cases "safe_campaign_artifact_dir r (aq_campaign q)") (auto simp: insert_artifact_def)
  let ?refused = "list_ex (\<lambda>x. ar_id x = aid) (st_artifacts st) \<or> find_by_key (aq_campaign q) (aq_key q) st \<noteq> None \<or>
    \<not> has_campaign (aq_campaign q) st"
  show ?thesis
  proof (cases ?refused)
    case True
    then have "st_artifacts st' = st_artifacts st \<and> (\<exists>e. find_by_key (aq_campaign q) (aq_key q) st = Some e \<and>
        same_artifact H q e \<and> a = public_artifact e)"
      using assms dir by (cases "find_by_key (aq_campaign q) (aq_key q) st")
        (auto simp: insert_artifact_def Let_def split: if_splits)
    then show ?thesis by (auto simp: same_artifact_def dest: find_by_key_mem)
  next
    case False
    then show ?thesis using assms dir by (auto simp: insert_artifact_def Let_def new_artifact_def)
  qed
qed

text \<open>C13: An artifact that was stored (or found under its idempotency key) is read back after any further
  operations, with the same metadata and with bytes of the same SHA-256 digest and length, even when
  other writers ran between the two transactions of the write. No file is ever written outside the
  artifact root.\<close>

theorem artifact_read_back:
  assumes "(st_step pf H r)\<^sup>*\<^sup>* st_empty st1" and "(st_step pf H r)\<^sup>*\<^sup>* st1 st2"
    and "put_artifact_racing env H r aid now c kind content media f key st1 st2 = (st3, Inr a)"
    and "uuid_ok aid" and "aid \<notin> ar_id ` set (st_artifacts st2)" and "clean r" and "(st_step pf H r)\<^sup>*\<^sup>* st3 st4"
  shows "(\<exists>content'. read_artifact H r st4 c (ar_id a) = Inr (a, content') \<and> H content' = H content \<and>
      int (length content') = ar_size a) \<and>
    (\<forall>p. st_files st4 p \<noteq> None \<longrightarrow> below r p)"
proof -
  obtain q where q: "check_artifact env c kind content media f key = Inr q"
    using assms(3) by (auto simp: put_artifact_racing_def split: sum.splits)
  have qc: "aq_content q = content" "is_ident (aq_campaign q)" "aq_campaign q = py_strip c"
    using q check_artifact_ident [OF q] by (auto simp: check_artifact_def split: if_splits)
  have reach2: "(st_step pf H r)\<^sup>*\<^sup>* st_empty st2" using assms(1,2) by simp
  have ins: "st_step pf H r st2 (fst (insert_artifact H r q aid now st2))"
    by (rule step_artifact [OF q assms(4,5)])
  have "\<exists>e \<in> set (st_artifacts st3). a = public_artifact e \<and> ar_campaign e = py_strip c \<and> ar_sha e = H content"
    and reach3: "(st_step pf H r)\<^sup>*\<^sup>* st_empty st3"
  proof -
    consider (found) e where "find_by_key (aq_campaign q) (aq_key q) st1 = Some e" "st3 = st1" "same_artifact H q e" "a = public_artifact e"
      | (inserted) "insert_artifact H r q aid now st2 = (st3, Inr a)"
    proof (cases "find_by_key (aq_campaign q) (aq_key q) st1")
      case None
      then have "insert_artifact H r q aid now st2 = (st3, Inr a)"
        using assms(3) q by (simp add: put_artifact_racing_def split: if_splits)
      then show thesis by (rule inserted)
    next
      case (Some e)
      then have "st3 = st1 \<and> same_artifact H q e \<and> a = public_artifact e"
        using assms(3) q by (simp add: put_artifact_racing_def split: if_splits)
      with Some show thesis by (intro found) simp_all
    qed
    then have "(\<exists>e \<in> set (st_artifacts st3). a = public_artifact e \<and> ar_campaign e = py_strip c \<and> ar_sha e = H content) \<and>
      (st_step pf H r)\<^sup>*\<^sup>* st_empty st3"
    proof cases
      case found
      then show ?thesis using find_by_key_mem [OF found(1)] assms(1) qc by (auto simp: same_artifact_def)
    next
      case inserted
      then have "(st_step pf H r)\<^sup>*\<^sup>* st_empty st3" using reach2 ins by (metis fst_conv rtranclp.rtrancl_into_rtrancl)
      moreover note insert_artifact_result [OF inserted]
      ultimately show ?thesis using qc by simp
    qed
    then show "\<exists>e \<in> set (st_artifacts st3). a = public_artifact e \<and> ar_campaign e = py_strip c \<and> ar_sha e = H content"
      and "(st_step pf H r)\<^sup>*\<^sup>* st_empty st3" by blast+
  qed
  then obtain e where e: "e \<in> set (st_artifacts st3)" "a = public_artifact e" "ar_campaign e = py_strip c" "ar_sha e = H content"
    by blast
  have inv3: "artifact_inv H r st3" and inv4: "artifact_inv H r st4"
    using artifact_inv_steps [OF reach3 artifact_inv_empty assms(6)] artifact_inv_steps [OF assms(7) _ assms(6)] by blast+
  have "find (\<lambda>x. ar_id x = ar_id e) (st_artifacts st3) = Some e"
    using inv3 e(1) by (intro find_by_id) (simp_all add: artifact_inv_def)
  from artifacts.stays [OF assms(7) this] have e4: "e \<in> set (st_artifacts st4)" by (auto simp: find_Some_iff)
  then have ok: "stored_ok H r st4 e" using inv4 by (auto simp: artifact_inv_def list_all_iff)
  have "find (\<lambda>x. ar_id x = ar_id e \<and> ar_campaign x = py_strip c) (st_artifacts st4) = Some e"
    using inv4 e4 e(3) by (intro find_by_id2) (simp_all add: artifact_inv_def)
  moreover have "st_identifier c ''campaign_id'' = Inr (py_strip c)"
    using qc(2,3) by (simp add: st_identifier_def st_identifier_max_def is_ident_def Let_def)
  ultimately have "get_artifact st4 c (ar_id e) = Inr (Some e)" using ok by (simp add: get_artifact_def stored_ok_def)
  then have "\<exists>content'. read_artifact H r st4 c (ar_id e) = Inr (public_artifact e, content') \<and> H content' = ar_sha e \<and>
      int (length content') = ar_size e"
    using ok by (auto simp: read_artifact_def Let_def stored_ok_def path_of_def)
  then show ?thesis using e inv4 by (simp add: artifact_inv_def public_artifact_def)
qed

section \<open>Witnesses\<close>

definition ex_doc :: "string \<Rightarrow> pydict" where
  "ex_doc state = [(''id'', PStr ''c1''), (''state'', PStr state), (''created_at'', PStr ''t0''), (''updated_at'', PStr ''t1'')]"

definition ex_row :: "string \<Rightarrow> int \<Rightarrow> stated_row" where
  "ex_row state v = \<lparr>dr_id = ''c1'', dr_document = json_dumps False (PDict (ex_doc state)), dr_updated = ''t1'',
     dr_version = v, sr_state = state, sr_created = ''t0''\<rparr>"

definition ex_store :: "stated_row list \<Rightarrow> storage" where
  "ex_store rows = st_empty\<lparr>st_campaigns := rows\<rparr>"

definition no_env :: environ where "no_env = (\<lambda>_. None)"

definition no_float :: "string \<Rightarrow> (rat \<times> string) option" where "no_float = (\<lambda>_. None)"

lemma ex_saves:
  "save_campaign no_env (ex_doc ''draft'') None st_empty = Inr (ex_store [ex_row ''draft'' 1], 1)"
  "save_campaign no_env (ex_doc ''live'') None (ex_store [ex_row ''draft'' 1]) = Inr (ex_store [ex_row ''live'' 2], 2)"
  "save_campaign no_env (ex_doc ''done'') None (ex_store [ex_row ''live'' 2]) = Inr (ex_store [ex_row ''done'' 3], 3)"
proof -
  have 1: "case prepare_campaign no_env (ex_doc ''draft'') of Inl e \<Rightarrow> False | Inr (i, d, x) \<Rightarrow>
      cas_write ''campaign'' i None (campaign_insert i d x) (campaign_update d x) [] = Inr ([ex_row ''draft'' 1], 1)" by code_simp
  have 2: "case prepare_campaign no_env (ex_doc ''live'') of Inl e \<Rightarrow> False | Inr (i, d, x) \<Rightarrow>
      cas_write ''campaign'' i None (campaign_insert i d x) (campaign_update d x) [ex_row ''draft'' 1] = Inr ([ex_row ''live'' 2], 2)" by code_simp
  have 3: "case prepare_campaign no_env (ex_doc ''done'') of Inl e \<Rightarrow> False | Inr (i, d, x) \<Rightarrow>
      cas_write ''campaign'' i None (campaign_insert i d x) (campaign_update d x) [ex_row ''live'' 2] = Inr ([ex_row ''done'' 3], 3)" by code_simp
  have c: "st_campaigns st_empty = []" "st_campaigns (ex_store t) = t" "st_empty\<lparr>st_campaigns := t\<rparr> = ex_store t"
    "(ex_store u)\<lparr>st_campaigns := t\<rparr> = ex_store t" for t u
    by (simp_all add: st_empty_def ex_store_def)
  show "save_campaign no_env (ex_doc ''draft'') None st_empty = Inr (ex_store [ex_row ''draft'' 1], 1)"
    using 1 by (auto simp: save_campaign_def c split: sum.splits)
  show "save_campaign no_env (ex_doc ''live'') None (ex_store [ex_row ''draft'' 1]) = Inr (ex_store [ex_row ''live'' 2], 2)"
    using 2 by (auto simp: save_campaign_def c split: sum.splits)
  show "save_campaign no_env (ex_doc ''done'') None (ex_store [ex_row ''live'' 2]) = Inr (ex_store [ex_row ''done'' 3], 3)"
    using 3 by (auto simp: save_campaign_def c split: sum.splits)
qed

lemma ex_reads:
  "get_campaign_record no_float (ex_store [ex_row ''draft'' 1]) ''c1'' = Inr (Some (PDict (ex_doc ''draft''), 1))"
  "get_campaign_record no_float (ex_store [ex_row ''live'' 2]) ''c1'' = Inr (Some (PDict (ex_doc ''live''), 2))"
  by code_simp+

text \<open>A writer that read version 1 conflicts with the write of version 2; one that read version 2 does not.\<close>

lemma campaign_no_lost_update_witness:
  "save_campaign no_env (ex_doc ''done'') (Some 1) (ex_store [ex_row ''live'' 2]) =
     Inl (ConflictError ''campaign version conflict'')"
proof -
  have "(st_step no_float (\<lambda>s. s) [])\<^sup>*\<^sup>* (ex_store [ex_row ''draft'' 1]) (ex_store [ex_row ''live'' 2])"
    using step_campaign [OF ex_saves(2)] by blast
  moreover have "py_strip (py_str (pget (ex_doc ''done'') ''id'')) = py_strip ''c1''" by code_simp
  moreover have "json_ok no_float (PDict (ex_doc ''done''))" by code_simp
  ultimately show ?thesis using campaign_no_lost_update [OF ex_reads(1) _ ex_saves(3)] ex_reads(2) by simp
qed

definition ex_ob :: pydict where
  "ex_ob = [(''id'', PStr ''o1''), (''kind'', PStr ''asset''), (''value'', PStr ''h''), (''source'', PStr ''s'')]"

definition ex_rec :: obs_record where
  "ex_rec = \<lparr>oc_campaign = ''c1'', oc_id = ''o1'', oc_kind = ''asset'', oc_value = ''h'', oc_source = ''s'',
     oc_parents = [], oc_metadata = [], oc_created = ''t2''\<rparr>"

definition ex_store_obs :: storage where
  "ex_store_obs = (ex_store [ex_row ''draft'' 1])\<lparr>st_observations := [obs_row_of ex_rec]\<rparr>"

lemma ex_put_observation:
  "put_observation no_env no_float ''c1'' ex_ob ''t2'' (ex_store [ex_row ''draft'' 1]) = Inr (ex_store_obs, ex_rec)"
proof -
  have "normalize_observation no_env ''c1'' ex_ob ''t2'' = Inr ex_rec" by code_simp
  moreover have "oc_campaign ex_rec = ''c1''" "oc_parents ex_rec = []" by (simp_all add: ex_rec_def)
  moreover have "has_campaign ''c1'' (ex_store [ex_row ''draft'' 1])" by code_simp
  moreover have "find_obs ''c1'' i (ex_store [ex_row ''draft'' 1]) = None" "st_observations (ex_store [ex_row ''draft'' 1]) = []" for i
    by (simp_all add: find_obs_def ex_store_def st_empty_def)
  ultimately show ?thesis by (simp add: put_observation_def ex_store_obs_def)
qed

lemma ex_reach:
  "(st_step no_float H r)\<^sup>*\<^sup>* st_empty (ex_store [ex_row ''draft'' 1])" "(st_step no_float H r)\<^sup>*\<^sup>* st_empty ex_store_obs"
proof -
  show 1: "(st_step no_float H r)\<^sup>*\<^sup>* st_empty (ex_store [ex_row ''draft'' 1])"
    using step_campaign [OF ex_saves(1)] by blast
  have "json_ok no_float (PDict ex_ob)" by code_simp
  with 1 step_observation [OF ex_put_observation] show "(st_step no_float H r)\<^sup>*\<^sup>* st_empty ex_store_obs"
    by (meson rtranclp.rtrancl_into_rtrancl)
qed

lemma observations_always_load_witness:
  "\<exists>g. load_observation_graph no_float ex_store_obs ''c1'' False = Inr g \<and> graph_ids g = {''o1''}"
proof -
  have c: "is_ident ''c1''" by code_simp
  have "or_id ` set (filter (\<lambda>x. or_campaign x = ''c1'') (st_observations ex_store_obs)) = {''o1''}"
    by (simp add: ex_store_obs_def ex_rec_def)
  with observations_always_load [OF ex_reach(2) c, of False] show ?thesis by (metis (no_types, lifting))
qed

lemma observation_immutable_witness:
  "\<exists>rs y. list_observations no_float ex_store_obs ''c1'' = Inr rs \<and> y \<in> set rs \<and> oc_id y = ''o1''"
proof -
  have ok: "json_ok no_float (PDict ex_ob)" by code_simp
  have "oc_id ex_rec = ''o1''" by (simp add: ex_rec_def)
  with observation_immutable [OF ex_reach(1) ex_put_observation ok rtranclp.rtrancl_refl] show ?thesis by metis
qed

lemma artifact_read_back_witness:
  "\<exists>st a. put_artifact_racing no_env (\<lambda>s. s) [''data''] ''u1'' ''t3'' ''c1'' ''report'' ''hello'' ''text/plain'' None None
      (ex_store [ex_row ''draft'' 1]) (ex_store [ex_row ''draft'' 1]) = (st, Inr a) \<and>
    (\<exists>x. read_artifact (\<lambda>s. s) [''data''] st ''c1'' (ar_id a) = Inr (a, x) \<and> x = ''hello'')"
proof -
  let ?s = "ex_store [ex_row ''draft'' 1]"
  let ?p = "put_artifact_racing no_env (\<lambda>s. s) [''data''] ''u1'' ''t3'' ''c1'' ''report'' ''hello'' ''text/plain'' None None ?s ?s"
  have "case ?p of (st, Inr a) \<Rightarrow> True | _ \<Rightarrow> False" by code_simp
  then obtain st a where p: "?p = (st, Inr a)" by (auto split: prod.splits sum.splits)
  have u: "uuid_ok ''u1''" and cl: "clean [''data'']" by code_simp+
  have fresh: "''u1'' \<notin> ar_id ` set (st_artifacts ?s)" by (simp add: ex_store_def st_empty_def)
  from artifact_read_back [OF ex_reach(1) rtranclp.rtrancl_refl p u fresh cl rtranclp.rtrancl_refl] p
  show ?thesis by auto
qed

end
