(* ===== verification/QueueSpec.thy ===== *)
theory QueueSpec
  imports QueueProps
begin

text \<open>
  What a job queue promises whatever stores it: one row for each identifier and one identifier for
  each deduplication slot. Both queues of the repository refine this store: \<open>jobqueue.py\<close> keeps it
  in one table, \<open>redis_jobqueue.py\<close> in a hash for each job with the indexes of
  \<open>RedisQueue\<close>. So, for the operations whose outcome does not depend on the order of the
  queue (claims and the recovery of expired leases are left out), a caller cannot tell which one
  \<open>XBOW_JOB_BACKEND\<close> selected.
\<close>

section \<open>The abstract store\<close>

record job_store =
  js_row :: "string \<Rightarrow> job option"
  js_slot :: "string \<times> string \<times> string \<Rightarrow> string option"

datatype command =
    Enqueue environ string string pyval int "string option" string int int
  | Lookup string
  | Heartbeat string string int int
  | Finish string string bool "string option" int int
  | CancelOwned string string string int
  | CancelQueued string int
  | StatusCounts string

datatype answer =
    AJob "job option"
  | ABool bool
  | ACount nat
  | ACounts "job_status \<Rightarrow> nat"
  | AError py_error

definition put_store :: "job \<Rightarrow> job_store \<Rightarrow> job_store" where
  "put_store j m = m\<lparr>js_row := (js_row m)(j_id j \<mapsto> j)\<rparr>"

definition take_slot :: "job \<Rightarrow> job_store \<Rightarrow> job_store" where
  "take_slot j m = (case j_dedupe j of None \<Rightarrow> m
     | Some d \<Rightarrow> m\<lparr>js_slot := (js_slot m)((j_campaign j, j_kind j, d) \<mapsto> j_id j)\<rparr>)"

definition holder :: "job_store \<Rightarrow> enqueue_request \<Rightarrow> job option" where
  "holder m r = Option.bind (rq_dedupe r) (\<lambda>d.
     Option.bind (js_slot m (rq_campaign r, rq_kind r, d)) (js_row m))"

definition matching :: "job_store \<Rightarrow> (job \<Rightarrow> bool) \<Rightarrow> string set" where
  "matching m p = {i. case js_row m i of None \<Rightarrow> False | Some j \<Rightarrow> p j}"

definition owned_row :: "job_store \<Rightarrow> string \<Rightarrow> string \<Rightarrow> job option" where
  "owned_row m i w = (case js_row m i of None \<Rightarrow> None | Some j \<Rightarrow> if owned_by j w then Some j else None)"

definition answer_of :: "(answer \<times> 's) result \<Rightarrow> 's \<Rightarrow> answer \<times> 's" where
  "answer_of r s = (case r of Inl e \<Rightarrow> (AError e, s) | Inr x \<Rightarrow> x)"

definition spec_owner :: "job_store \<Rightarrow> string \<Rightarrow> string \<Rightarrow> (job \<Rightarrow> job) \<Rightarrow> answer \<times> job_store" where
  "spec_owner m i w f = (case owned_row m i w of None \<Rightarrow> (AJob None, m)
     | Some j \<Rightarrow> (AJob (Some (f j)), put_store (f j) m))"

fun spec_result :: "command \<Rightarrow> job_store \<Rightarrow> (answer \<times> job_store) result" where
  "spec_result (Enqueue env c k p mx d jid now ts) m =
     rbind (check_enqueue env c k p mx d) (\<lambda>r.
       case holder m r of
         Some j \<Rightarrow> if j_payload j \<noteq> rq_payload r
           then Inl (ValueError ''dedupe_key reused with different job payload'') else Inr (AJob (Some j), m)
       | None \<Rightarrow> (let j = new_job r jid now in Inr (AJob (Some j), take_slot j (put_store j m))))"
| "spec_result (Lookup jid) m =
     rbind (bounded_identifier jid ''job_id'') (\<lambda>i. Inr (AJob (js_row m i), m))"
| "spec_result (Heartbeat jid w now ts) m =
     rbind (bounded_identifier jid ''job_id'') (\<lambda>i.
     rbind (bounded_identifier w ''worker_id'') (\<lambda>w'.
       Inr (case owned_row m i w' of None \<Rightarrow> (ABool False, m)
            | Some j \<Rightarrow> (ABool True, put_store (renew_row j now) m))))"
| "spec_result (Finish jid w success err now ts) m =
     rbind (bounded_identifier jid ''job_id'') (\<lambda>i.
     rbind (bounded_identifier w ''worker_id'') (\<lambda>w'.
       Inr (spec_owner m i w' (\<lambda>j. release j (finish_status j success) (finish_error err) now))))"
| "spec_result (CancelOwned jid w reason now) m =
     rbind (bounded_identifier jid ''job_id'') (\<lambda>i.
     rbind (bounded_identifier w ''worker_id'') (\<lambda>w'.
     rbind (cancel_reason reason) (\<lambda>err.
       Inr (spec_owner m i w' (\<lambda>j. release j Cancelled err now)))))"
| "spec_result (CancelQueued c now) m =
     rbind (bounded_identifier c ''campaign_id'') (\<lambda>c'.
       let p = (\<lambda>j. j_campaign j = c' \<and> j_status j = Queued) in
       Inr (ACount (card (matching m p)),
            m\<lparr>js_row := (\<lambda>i. map_option (\<lambda>j. if p j then release j Cancelled (Some cancelled_text) now else j)
                 (js_row m i))\<rparr>))"
| "spec_result (StatusCounts c) m =
     rbind (bounded_identifier c ''campaign_id'') (\<lambda>c'.
       Inr (ACounts (\<lambda>st. card (matching m (\<lambda>j. j_campaign j = c' \<and> j_status j = st))), m))"

definition spec_exec :: "command \<Rightarrow> job_store \<Rightarrow> answer \<times> job_store" where
  "spec_exec cmd m = answer_of (spec_result cmd m) m"

text \<open>A new job gets an identifier of its own (\<open>uuid4\<close>).\<close>

fun command_fresh :: "command \<Rightarrow> job_store \<Rightarrow> bool" where
  "command_fresh (Enqueue env c k p mx d jid now ts) m = (is_ident jid \<and> js_row m jid = None)"
| "command_fresh _ m = True"

fun run_commands :: "(command \<Rightarrow> 's \<Rightarrow> answer \<times> 's) \<Rightarrow> command list \<Rightarrow> 's \<Rightarrow> answer list \<times> 's" where
  "run_commands ex [] s = ([], s)"
| "run_commands ex (c # cs) s =
     (let (a, s1) = ex c s; (as, s2) = run_commands ex cs s1 in (a # as, s2))"

fun all_fresh :: "command list \<Rightarrow> job_store \<Rightarrow> bool" where
  "all_fresh [] m = True"
| "all_fresh (c # cs) m = (command_fresh c m \<and> all_fresh cs (snd (spec_exec c m)))"

section \<open>A store that refines it\<close>

locale queue_backend =
  fixes inv :: "'s \<Rightarrow> bool"
    and view :: "'s \<Rightarrow> job_store"
    and ex :: "command \<Rightarrow> 's \<Rightarrow> answer \<times> 's"
  assumes ex_inv: "inv s \<Longrightarrow> command_fresh c (view s) \<Longrightarrow> inv (snd (ex c s))"
    and ex_refines: "inv s \<Longrightarrow> command_fresh c (view s) \<Longrightarrow>
      spec_exec c (view s) = (fst (ex c s), view (snd (ex c s)))"
begin

lemma run_refines:
  "inv s \<Longrightarrow> all_fresh cs (view s) \<Longrightarrow>
   run_commands spec_exec cs (view s) =
     (fst (run_commands ex cs s), view (snd (run_commands ex cs s))) \<and>
   inv (snd (run_commands ex cs s))"
proof (induction cs arbitrary: s)
  case (Cons c cs)
  let ?t = "snd (ex c s)"
  have c: "command_fresh c (view s)" using Cons.prems(2) by simp
  note r = ex_refines [OF Cons.prems(1) c]
  have "all_fresh cs (view ?t)" using Cons.prems(2) r by simp
  note h = Cons.IH [OF ex_inv [OF Cons.prems(1) c] this]
  show ?case using h by (simp add: r case_prod_beta Let_def)
qed simp

end

section \<open>The SQLite table\<close>

definition sq_view :: "job_queue \<Rightarrow> job_store" where
  "sq_view q = \<lparr>js_row = find_job q, js_slot = (\<lambda>(c, k, d). map_option j_id (find_dedupe q c k d))\<rparr>"

definition job_answer :: "('s \<times> job option) result \<Rightarrow> (answer \<times> 's) result" where
  "job_answer r = rbind r (\<lambda>(s, j). Inr (AJob j, s))"

fun sq_result :: "command \<Rightarrow> job_queue \<Rightarrow> (answer \<times> job_queue) result" where
  "sq_result (Enqueue env c k p mx d jid now ts) q =
     rbind (sq_enqueue env q c k p mx d jid now) (\<lambda>(q', j). Inr (AJob (Some j), q'))"
| "sq_result (Lookup jid) q = rbind (sq_get q jid) (\<lambda>r. Inr (AJob r, q))"
| "sq_result (Heartbeat jid w now ts) q = rbind (sq_heartbeat q jid w now) (\<lambda>(q', b). Inr (ABool b, q'))"
| "sq_result (Finish jid w success err now ts) q = job_answer (sq_finish q jid w success err now)"
| "sq_result (CancelOwned jid w reason now) q = job_answer (sq_cancel_owned q jid w reason now)"
| "sq_result (CancelQueued c now) q = rbind (sq_cancel_queued q c now) (\<lambda>(q', n). Inr (ACount n, q'))"
| "sq_result (StatusCounts c) q = rbind (sq_campaign_job_status_counts q c) (\<lambda>f. Inr (ACounts f, q))"

definition sq_exec :: "command \<Rightarrow> job_queue \<Rightarrow> answer \<times> job_queue" where
  "sq_exec cmd q = answer_of (sq_result cmd q) q"

definition same_key :: "(job \<Rightarrow> job) \<Rightarrow> bool" where
  "same_key f \<longleftrightarrow> (\<forall>j. j_id (f j) = j_id j \<and> slot (f j) = slot j)"

lemma same_key_rows [simp]:
  "same_key (\<lambda>j. release j (g j) e n)" "same_key (\<lambda>j. renew_row j n)"
  by (simp_all add: same_key_def slot_def)

lemma same_keyD: "same_key f \<Longrightarrow> j_id (f j) = j_id j"
  by (simp add: same_key_def)

lemma sq_view_rows [simp]: "js_row (sq_view q) = find_job q"
  by (simp add: sq_view_def)

lemma find_dedupe_update:
  assumes "same_key f"
  shows "find_dedupe (update_where p f q) c k d = map_option (\<lambda>j. if p j then f j else j) (find_dedupe q c k d)"
proof -
  have "j_campaign (f j) = j_campaign j" "j_kind (f j) = j_kind j" "j_dedupe (f j) = j_dedupe j" for j
    using assms by (auto simp: same_key_def slot_def)
  then show ?thesis by (induction q) (auto simp: find_dedupe_def update_where_def)
qed

lemma sq_view_update:
  assumes "same_key f"
  shows "sq_view (update_where p f q) =
    (sq_view q)\<lparr>js_row := (\<lambda>i. map_option (\<lambda>j. if p j then f j else j) (find_job q i))\<rparr>"
proof -
  have id: "j_id (f j) = j_id j" for j using assms by (rule same_keyD)
  have "map_option j_id (find_dedupe (update_where p f q) c k d) = map_option j_id (find_dedupe q c k d)" for c k d
    by (cases "find_dedupe q c k d") (simp_all add: find_dedupe_update [OF assms] id)
  then show ?thesis by (simp add: sq_view_def find_job_update id fun_eq_iff)
qed

lemma update_where_none: "(\<And>j. j \<in> set q \<Longrightarrow> \<not> p j) \<Longrightarrow> update_where p f q = q"
  by (auto simp: update_where_def intro: map_idI)

text \<open>An update of the row a worker owns.\<close>

lemma sq_owner_none:
  assumes "sq_inv q" and "owned_row (sq_view q) i w = None"
  shows "filter (\<lambda>j. j_id j = i \<and> owned_by j w) q = []"
    and "update_where (\<lambda>j. j_id j = i \<and> owned_by j w) f q = q"
    and "find (\<lambda>j. j_id j = i \<and> owned_by j w) q = None"
proof -
  have n: "\<not> (j_id j = i \<and> owned_by j w)" if "j \<in> set q" for j
    using assms find_job_mem [OF _ that] by (auto simp: sq_inv_def owned_row_def split: if_splits)
  then show "filter (\<lambda>j. j_id j = i \<and> owned_by j w) q = []" by (simp add: filter_empty_conv)
  show "update_where (\<lambda>j. j_id j = i \<and> owned_by j w) f q = q" using n by (rule update_where_none)
  show "find (\<lambda>j. j_id j = i \<and> owned_by j w) q = None" using n by (simp add: find_None_iff)
qed

lemma sq_owner_some:
  assumes "sq_inv q" and "owned_row (sq_view q) i w = Some r" and "same_key f"
  shows "filter (\<lambda>j. j_id j = i \<and> owned_by j w) q = [r]"
    and "sq_view (update_where (\<lambda>j. j_id j = i \<and> owned_by j w) f q) = put_store (f r) (sq_view q)"
    and "find_job (update_where (\<lambda>j. j_id j = i \<and> owned_by j w) f q) i = Some (f r)"
    and "find (\<lambda>j. j_id j = i \<and> owned_by j w) q = Some r"
    and "j_id r = i" and "owned_by r w" and "find_job q i = Some r"
proof -
  show r: "find_job q i = Some r" and o: "owned_by r w"
    using assms(2) by (auto simp: owned_row_def split: option.splits if_splits)
  have mem: "r \<in> set q" and id: "j_id r = i" using find_job_Some [OF r] by auto
  then show "j_id r = i" by simp
  have d: "distinct (map j_id q)" using assms(1) by (simp add: sq_inv_def)
  show one: "filter (\<lambda>j. j_id j = i \<and> owned_by j w) q = [r]"
    using d mem by (rule filter_id_one) (simp_all add: id o)
  have fid: "j_id (f j) = j_id j" for j using assms(3) by (rule same_keyD)
  have others: "j_id j \<noteq> i" if "find_job q x = Some j" "x \<noteq> i" for x j
    using find_job_Some [OF that(1)] that(2) by auto
  show "find_job (update_where (\<lambda>j. j_id j = i \<and> owned_by j w) f q) i = Some (f r)"
    by (simp add: find_job_update fid r id o)
  have "(\<lambda>x. map_option (\<lambda>j. if j_id j = i \<and> owned_by j w then f j else j) (find_job q x)) =
      (find_job q)(i \<mapsto> f r)"
  proof
    fix x
    show "map_option (\<lambda>j. if j_id j = i \<and> owned_by j w then f j else j) (find_job q x) =
        ((find_job q)(i \<mapsto> f r)) x"
      using others [of x] by (cases "x = i"; cases "find_job q x") (auto simp: r id o)
  qed
  then show "sq_view (update_where (\<lambda>j. j_id j = i \<and> owned_by j w) f q) = put_store (f r) (sq_view q)"
    by (simp add: sq_view_update [OF assms(3)] put_store_def fid id)
  have "find (\<lambda>j. j_id j = i \<and> owned_by j w) q \<noteq> None" using mem id o by (auto simp: find_None_iff)
  then obtain r' where r': "find (\<lambda>j. j_id j = i \<and> owned_by j w) q = Some r'" by blast
  with find_unique [OF d r' mem id] show "find (\<lambda>j. j_id j = i \<and> owned_by j w) q = Some r" by simp
qed

lemma sq_matching: "distinct (map j_id q) \<Longrightarrow> card (matching (sq_view q) p) = length (filter p q)"
proof -
  assume d: "distinct (map j_id q)"
  have "matching (sq_view q) p = j_id ` set (filter p q)"
  proof (intro set_eqI iffI)
    fix i assume "i \<in> matching (sq_view q) p"
    then obtain j where "find_job q i = Some j" "p j" by (auto simp: matching_def split: option.splits)
    then show "i \<in> j_id ` set (filter p q)" using find_job_Some by force
  next
    fix i assume "i \<in> j_id ` set (filter p q)"
    then obtain j where "j \<in> set q" "p j" "i = j_id j" by auto
    then show "i \<in> matching (sq_view q) p" using find_job_mem [OF d] by (simp add: matching_def)
  qed
  moreover have "card (set (map j_id (filter p q))) = length (map j_id (filter p q))"
    using d by (intro distinct_card) (simp add: distinct_map inj_on_def)
  ultimately show ?thesis by simp
qed

lemma sq_holder:
  assumes "sq_inv q"
  shows "holder (sq_view q) r =
    (case rq_dedupe r of None \<Rightarrow> None | Some d \<Rightarrow> find_dedupe q (rq_campaign r) (rq_kind r) d)"
proof -
  have "find_job q (j_id j) = Some j" if "find_dedupe q c k d = Some j" for c k d j
    using that assms find_job_mem [of q j] by (auto simp: find_dedupe_def find_Some_iff sq_inv_def)
  then show ?thesis
    by (cases "rq_dedupe r"; cases "find_dedupe q (rq_campaign r) (rq_kind r) (the (rq_dedupe r))")
      (auto simp: holder_def sq_view_def)
qed

lemma sq_view_append:
  assumes "find_job q (j_id j) = None"
    and "\<And>d. j_dedupe j = Some d \<Longrightarrow> find_dedupe q (j_campaign j) (j_kind j) d = None"
  shows "sq_view (q @ [j]) = take_slot j (put_store j (sq_view q))"
proof -
  have "find_job (q @ [j]) = (find_job q)(j_id j \<mapsto> j)"
    using assms(1) by (auto simp: find_job_snoc fun_eq_iff split: option.split)
  moreover have snoc: "find_dedupe (q @ [j]) c k d = (case find_dedupe q c k d of Some x \<Rightarrow> Some x
      | None \<Rightarrow> if j_campaign j = c \<and> j_kind j = k \<and> j_dedupe j = Some d then Some j else None)" for c k d
    by (induction q) (auto simp: find_dedupe_def)
  ultimately show ?thesis
    using assms(2)
    by (cases "j_dedupe j")
      (auto simp: sq_view_def put_store_def take_slot_def fun_eq_iff split: option.splits)
qed

text \<open>The operations, one by one.\<close>

definition refines_at :: "('s \<Rightarrow> bool) \<Rightarrow> ('s \<Rightarrow> job_store) \<Rightarrow> (command \<Rightarrow> 's \<Rightarrow> (answer \<times> 's) result) \<Rightarrow>
    command \<Rightarrow> 's \<Rightarrow> bool" where
  "refines_at ok view res c s \<longleftrightarrow>
     (case res c s of
        Inl e \<Rightarrow> spec_result c (view s) = Inl e
      | Inr (a, s') \<Rightarrow> spec_result c (view s) = Inr (a, view s') \<and> ok s')"

lemma refines_atI:
  "res c s = Inr (a, s') \<Longrightarrow> spec_result c (view s) = Inr (a, view s') \<Longrightarrow> ok s' \<Longrightarrow>
   refines_at ok view res c s"
  "res c s = Inl e \<Longrightarrow> spec_result c (view s) = Inl e \<Longrightarrow> refines_at ok view res c s"
  by (simp_all add: refines_at_def)

lemma refines_at_exec:
  assumes "refines_at ok view res c s" and "ok s"
  shows "ok (snd (answer_of (res c s) s))"
    and "spec_exec c (view s) = (fst (answer_of (res c s) s), view (snd (answer_of (res c s) s)))"
  using assms by (auto simp: refines_at_def spec_exec_def answer_of_def split: sum.splits prod.splits)

abbreviation sq_refines :: "command \<Rightarrow> job_queue \<Rightarrow> bool" where
  "sq_refines \<equiv> refines_at sq_inv sq_view sq_result"

lemma sq_refines_enqueue:
  assumes inv: "sq_inv q" and new: "is_ident jid" "find_job q jid = None"
  shows "sq_refines (Enqueue env c k p mx d jid now ts) q"
proof (cases "check_enqueue env c k p mx d")
  case (Inl e)
  then show ?thesis by (intro refines_atI(2) [where e = e]) (simp_all add: sq_enqueue_def sq_enqueue_racing_def)
next
  case (Inr r)
  show ?thesis
  proof (cases "holder (sq_view q) r")
    case None
    then have free: "rq_dedupe r = Some dk \<Longrightarrow> find_dedupe q (rq_campaign r) (rq_kind r) dk = None" for dk
      by (simp add: sq_holder [OF inv])
    then have nc: "\<not> insert_conflict q r jid"
      using new(2) by (auto simp: insert_conflict_def split: option.split)
    let ?j = "new_job r jid now"
    have "sq_enqueue env q c k p mx d jid now = Inr (q @ [?j], ?j)"
      using Inr free nc new
      by (auto simp: sq_enqueue_def sq_enqueue_racing_def sq_insert_def sq_get_def find_job_snoc split: option.split)
    moreover have "sq_view (q @ [?j]) = take_slot ?j (put_store ?j (sq_view q))"
      using new(2) free by (intro sq_view_append) simp_all
    moreover have "sq_inv (q @ [?j])" using inv nc job_ok_new [OF Inr] by (rule append_new_inv)
    ultimately show ?thesis using Inr None by (intro refines_atI(1)) (auto simp: Let_def)
  next
    case (Some j)
    then obtain dk where dk: "rq_dedupe r = Some dk" "find_dedupe q (rq_campaign r) (rq_kind r) dk = Some j"
      by (auto simp: sq_holder [OF inv] split: option.splits)
    then have e: "sq_enqueue env q c k p mx d jid now = same_payload r q j"
      using Inr by (simp add: sq_enqueue_def sq_enqueue_racing_def)
    show ?thesis
    proof (cases "j_payload j = rq_payload r")
      case True
      with Inr Some e inv show ?thesis by (intro refines_atI(1)) (auto simp: same_payload_def)
    next
      case False
      with Inr Some e show ?thesis by (intro refines_atI(2)) (auto simp: same_payload_def)
    qed
  qed
qed

lemma sq_finish_as_update:
  "sq_inv q \<Longrightarrow> owned_row (sq_view q) i w = Some r \<Longrightarrow>
   update_where (\<lambda>j. j_id j = i \<and> owned_by j w) (\<lambda>j. release j (finish_status r s) e n) q =
   update_where (\<lambda>j. j_id j = i \<and> owned_by j w) (\<lambda>j. release j (finish_status j s) e n) q"
  using find_unique [of q i "\<lambda>j. owned_by j w" r] sq_owner_some(4) [of q i w r id]
  by (auto simp: update_where_def sq_inv_def same_key_def)

lemma sq_keep: "sq_inv q \<Longrightarrow> sq_step q q' \<Longrightarrow> sq_inv q'"
  by (rule sq.step_inv)

lemma sq_refines_heartbeat:
  assumes inv: "sq_inv q"
  shows "sq_refines (Heartbeat jid w now ts) q"
proof (cases "bounded_identifier jid ''job_id''")
  case (Inr i)
  note i = Inr
  show ?thesis
  proof (cases "bounded_identifier w ''worker_id''")
    case (Inr w')
    show ?thesis
    proof (cases "owned_row (sq_view q) i w'")
      case None
      with i Inr inv sq_owner_none(1) [OF inv None] sq_owner_none(2) [OF inv None, of "\<lambda>j. renew_row j now"] show ?thesis
        by (intro refines_atI(1)) (simp_all add: sq_heartbeat_def)
    next
      case (Some r)
      note o = sq_owner_some [OF inv Some same_key_rows(2) [of now]]
      have h: "sq_heartbeat q jid w now =
          Inr (update_where (\<lambda>j. j_id j = i \<and> owned_by j w') (\<lambda>j. renew_row j now) q, True)"
        using i Inr o(1) by (simp add: sq_heartbeat_def)
      moreover from h have "sq_inv (update_where (\<lambda>j. j_id j = i \<and> owned_by j w') (\<lambda>j. renew_row j now) q)"
        using inv by (blast intro: sq_keep sq_step.heartbeat)
      ultimately show ?thesis
        using i Inr Some o(2) by (intro refines_atI(1)) auto
    qed
  qed (use i in \<open>auto intro!: refines_atI(2) simp: sq_heartbeat_def\<close>)
qed (auto intro!: refines_atI(2) simp: sq_heartbeat_def)

lemma sq_refines_finish:
  assumes inv: "sq_inv q"
  shows "sq_refines (Finish jid w success err now ts) q"
proof (cases "bounded_identifier jid ''job_id''")
  case (Inr i)
  note i = Inr
  have ident: "is_ident i" using bounded_identifier_Inr [OF i] by blast
  show ?thesis
  proof (cases "bounded_identifier w ''worker_id''")
    case (Inr w')
    show ?thesis
    proof (cases "owned_row (sq_view q) i w'")
      case None
      with i Inr inv sq_owner_none [OF inv None] show ?thesis
        by (intro refines_atI(1)) (simp_all add: sq_finish_def job_answer_def spec_owner_def Let_def)
    next
      case (Some r)
      let ?p = "\<lambda>j. j_id j = i \<and> owned_by j w'"
      let ?f = "\<lambda>j. release j (finish_status j success) (finish_error err) now"
      note o = sq_owner_some [OF inv Some same_key_rows(1) [of "\<lambda>j. finish_status j success" "finish_error err" now]]
      have h: "sq_finish q jid w success err now = Inr (update_where ?p ?f q, Some (?f r))"
        using i Inr o(1,3,4) sq_finish_as_update [OF inv Some, of success] ident
        by (simp add: sq_finish_def Let_def sq_get_def)
      moreover from h have "sq_inv (update_where ?p ?f q)" using inv by (blast intro: sq_keep sq_step.finish)
      ultimately show ?thesis
        using i Inr Some o(2) by (intro refines_atI(1)) (auto simp: job_answer_def spec_owner_def)
    qed
  qed (use i in \<open>auto intro!: refines_atI(2) simp: sq_finish_def job_answer_def\<close>)
qed (auto intro!: refines_atI(2) simp: sq_finish_def job_answer_def)

lemma sq_refines_cancel_owned:
  assumes inv: "sq_inv q"
  shows "sq_refines (CancelOwned jid w reason now) q"
proof (cases "bounded_identifier jid ''job_id''")
  case (Inr i)
  note i = Inr
  have ident: "is_ident i" using bounded_identifier_Inr [OF i] by blast
  show ?thesis
  proof (cases "bounded_identifier w ''worker_id''")
    case (Inr w')
    note w = Inr
    show ?thesis
    proof (cases "cancel_reason reason")
      case (Inr err)
      let ?p = "\<lambda>j. j_id j = i \<and> owned_by j w'"
      let ?f = "\<lambda>j. release j Cancelled err now"
      show ?thesis
      proof (cases "owned_row (sq_view q) i w'")
        case None
        with i w Inr inv sq_owner_none(1) [OF inv None] sq_owner_none(2) [OF inv None, of ?f] show ?thesis
          by (intro refines_atI(1)) (simp_all add: sq_cancel_owned_def job_answer_def spec_owner_def Let_def)
      next
        case (Some r)
        note o = sq_owner_some [OF inv Some same_key_rows(1) [of "\<lambda>j. Cancelled" err now]]
        have h: "sq_cancel_owned q jid w reason now = Inr (update_where ?p ?f q, Some (?f r))"
          using i w Inr o(1,3) ident by (simp add: sq_cancel_owned_def Let_def sq_get_def)
        moreover from h have "sq_inv (update_where ?p ?f q)" using inv by (blast intro: sq_keep sq_step.cancel_owned)
        ultimately show ?thesis
          using i w Inr Some o(2) by (intro refines_atI(1)) (auto simp: job_answer_def spec_owner_def)
      qed
    qed (use i w in \<open>auto intro!: refines_atI(2) simp: sq_cancel_owned_def job_answer_def\<close>)
  qed (use i in \<open>auto intro!: refines_atI(2) simp: sq_cancel_owned_def job_answer_def\<close>)
qed (auto intro!: refines_atI(2) simp: sq_cancel_owned_def job_answer_def)

lemma sq_refines_campaign:
  assumes inv: "sq_inv q"
  shows "sq_refines (CancelQueued c now) q" and "sq_refines (StatusCounts c) q"
proof -
  have d: "distinct (map j_id q)" using inv by (simp add: sq_inv_def)
  show "sq_refines (CancelQueued c now) q"
  proof (cases "bounded_identifier c ''campaign_id''")
    case (Inr c')
    let ?p = "\<lambda>j. j_campaign j = c' \<and> j_status j = Queued"
    let ?q = "update_where ?p (\<lambda>j. release j Cancelled (Some cancelled_text) now) q"
    have h: "sq_cancel_queued q c now = Inr (?q, length (filter ?p q))"
      using Inr by (simp add: sq_cancel_queued_def Let_def)
    then have "sq_inv ?q" using inv by (blast intro: sq_keep sq_step.cancel_queued)
    with h Inr show ?thesis
      by (intro refines_atI(1))
        (auto simp: Let_def sq_matching [OF d] sq_view_update [OF same_key_rows(1)])
  qed (auto intro!: refines_atI(2) simp: sq_cancel_queued_def)
  show "sq_refines (StatusCounts c) q"
  proof (cases "bounded_identifier c ''campaign_id''")
    case (Inr c')
    with inv show ?thesis
      by (intro refines_atI(1))
        (auto simp: sq_campaign_job_status_counts_def sq_matching [OF d] status_count_def in_campaign_def
          conj_commute)
  qed (auto intro!: refines_atI(2) simp: sq_campaign_job_status_counts_def)
qed

lemma sq_refines_command:
  assumes "sq_inv q" and "command_fresh c (sq_view q)"
  shows "sq_refines c q"
proof (cases c)
  case (Lookup jid)
  then show ?thesis
    using assms(1) by (cases "bounded_identifier jid ''job_id''") (simp_all add: refines_at_def sq_get_def)
qed (use assms sq_refines_enqueue sq_refines_heartbeat sq_refines_finish sq_refines_cancel_owned
    sq_refines_campaign in auto)

interpretation sq_store: queue_backend sq_inv sq_view sq_exec
  by unfold_locales
    (unfold sq_exec_def, (rule refines_at_exec [OF sq_refines_command]; assumption)+)

section \<open>The Redis keys\<close>

definition rd_view :: "redis_queue \<Rightarrow> job_store" where
  "rd_view s = \<lparr>js_row = r_jobs s, js_slot = r_dedupe s\<rparr>"

fun rd_result :: "command \<Rightarrow> redis_queue \<Rightarrow> (answer \<times> redis_queue) result" where
  "rd_result (Enqueue env c k p mx d jid now ts) s =
     rbind (rd_enqueue env s c k p mx d jid now ts) (\<lambda>(s', j). Inr (AJob (Some j), s'))"
| "rd_result (Lookup jid) s = rbind (rd_get s jid) (\<lambda>r. Inr (AJob r, s))"
| "rd_result (Heartbeat jid w now ts) s = rbind (rd_heartbeat s jid w now ts) (\<lambda>(s', b). Inr (ABool b, s'))"
| "rd_result (Finish jid w success err now ts) s = job_answer (rd_finish s jid w success err now ts)"
| "rd_result (CancelOwned jid w reason now) s = job_answer (rd_cancel_owned s jid w reason now)"
| "rd_result (CancelQueued c now) s = rbind (rd_cancel_queued s c now) (\<lambda>(s', n). Inr (ACount n, s'))"
| "rd_result (StatusCounts c) s = rbind (rd_campaign_job_status_counts s c) (\<lambda>f. Inr (ACounts f, s))"

definition rd_exec :: "command \<Rightarrow> redis_queue \<Rightarrow> answer \<times> redis_queue" where
  "rd_exec cmd s = answer_of (rd_result cmd s) s"

abbreviation rd_refines :: "command \<Rightarrow> redis_queue \<Rightarrow> bool" where
  "rd_refines \<equiv> refines_at rd_inv rd_view rd_result"

lemma rd_view_rows [simp]: "js_row (rd_view s) = r_jobs s" "js_slot (rd_view s) = r_dedupe s"
  by (simp_all add: rd_view_def)

lemma rd_view_put:
  "r_jobs s' = (r_jobs s)(j_id j \<mapsto> j) \<Longrightarrow> r_dedupe s' = r_dedupe s \<Longrightarrow> rd_view s' = put_store j (rd_view s)"
  by (simp add: rd_view_def put_store_def)

lemma rd_owned:
  assumes "rd_inv s" and "owned_row (rd_view s) i w = Some r"
  shows "r_jobs s i = Some r" and "j_status r = Running" and "j_id r = i" and "owned_by r w" and "is_ident i"
  using assms rd_inv_row(1,9) [OF assms(1), of i r]
  by (auto simp: owned_row_def owned_by_def split: option.splits if_splits)

lemma rd_holder_slot:
  assumes "rd_inv s" and "rq_dedupe r = Some d" and "r_dedupe s (rq_campaign r, rq_kind r, d) = Some i"
  shows "\<exists>j. rd_get s i = Inr (Some j) \<and> holder (rd_view s) r = Some j"
proof -
  obtain j where j: "rd_get s i = Inr (Some j)" using dedupe_lookup [OF assms(1,3)] by blast
  have "r_jobs s i \<noteq> None"
    using rd_invD [OF assms(1), of i] assms(3)
    by (intro notI) (simp add: row_indexed_def del: split_paired_All)
  then obtain x where x: "r_jobs s i = Some x" by blast
  then have "is_ident i" by (rule rd_inv_row(9) [OF assms(1)])
  with j x have "x = j" by (simp add: rd_get_def)
  with j x assms(2,3) show ?thesis by (simp add: holder_def)
qed

lemma rd_refines_enqueue:
  assumes inv: "rd_inv s" and new: "is_ident jid" "r_jobs s jid = None"
  shows "rd_refines (Enqueue env c k p mx d jid now ts) s"
proof (cases "check_enqueue env c k p mx d")
  case (Inl e)
  then show ?thesis by (simp add: refines_at_def rd_enqueue_def)
next
  case (Inr r)
  show ?thesis
  proof (cases "\<exists>dk i. rq_dedupe r = Some dk \<and> r_dedupe s (rq_campaign r, rq_kind r, dk) = Some i")
    case True
    then obtain dk i where dk: "rq_dedupe r = Some dk" "r_dedupe s (rq_campaign r, rq_kind r, dk) = Some i" by blast
    obtain j where "rd_get s i = Inr (Some j)" "holder (rd_view s) r = Some j"
      using rd_holder_slot [OF inv dk] by blast
    with Inr dk inv show ?thesis by (simp add: refines_at_def rd_enqueue_def)
  next
    case False
    then have free: "rq_dedupe r = Some dk \<Longrightarrow> r_dedupe s (rq_campaign r, rq_kind r, dk) = None" for dk
      by (cases "r_dedupe s (rq_campaign r, rq_kind r, dk)") auto
    have none: "holder (rd_view s) r = None"
      using free by (cases "rq_dedupe r") (auto simp: holder_def)
    let ?j = "new_job r jid now"
    have "rd_enqueue env s c k p mx d jid now ts = Inr (link ?j (add_job ?j ts s), ?j)"
      using Inr free new(1)
      by (cases "rq_dedupe r")
        (auto simp: rd_enqueue_def rd_created_def rd_get_def link_def add_job_def transaction_defs)
    moreover have "rd_inv (link ?j (add_job ?j ts s))"
      using inv new free job_ok_new [OF Inr] by (intro add_job_inv(1)) auto
    moreover have "rd_view (link ?j (add_job ?j ts s)) = take_slot ?j (put_store ?j (rd_view s))"
      by (cases "rq_dedupe r")
        (auto simp: rd_view_def take_slot_def put_store_def link_def add_job_def transaction_defs)
    ultimately show ?thesis using Inr none by (simp add: refines_at_def Let_def)
  qed
qed

lemma rd_owner_none:
  "owned_row (rd_view s) i w = None \<Longrightarrow>
   r_jobs s i = None \<or> (\<exists>j. r_jobs s i = Some j \<and> \<not> owned_by j w)"
  by (auto simp: owned_row_def split: option.splits if_splits)

lemma leave_running_slots [simp]: "r_dedupe (leave_running j st e n ts s) = r_dedupe s"
  by (simp add: transaction_defs)

lemma drop_queued_slots [simp]: "r_dedupe (drop_queued j s) = r_dedupe s"
  by (simp add: transaction_defs)

lemma rd_refines_heartbeat:
  assumes inv: "rd_inv s"
  shows "rd_refines (Heartbeat jid w now ts) s"
proof -
  consider (bad) e where "bounded_identifier jid ''job_id'' = Inl e"
    | (badw) i e where "bounded_identifier jid ''job_id'' = Inr i" "bounded_identifier w ''worker_id'' = Inl e"
    | (ok) i w' where "bounded_identifier jid ''job_id'' = Inr i" "bounded_identifier w ''worker_id'' = Inr w'"
    by (cases "bounded_identifier jid ''job_id''"; cases "bounded_identifier w ''worker_id''") auto
  then show ?thesis
  proof cases
    case (ok i w')
    show ?thesis
    proof (cases "owned_row (rd_view s) i w'")
      case None
      with ok inv rd_owner_none [OF None] show ?thesis
        by (auto simp: refines_at_def rd_heartbeat_def)
    next
      case (Some r)
      note o = rd_owned [OF inv Some]
      note v = renew_inv [OF inv o(1,2), of ts now]
      have "rd_view (mark_running i ts (put_row (renew_row r now) s)) = put_store (renew_row r now) (rd_view s)"
        by (rule rd_view_put) (simp_all add: transaction_defs o(3))
      with ok Some o v show ?thesis by (simp add: refines_at_def rd_heartbeat_def)
    qed
  qed (simp_all add: refines_at_def rd_heartbeat_def)
qed

lemma rd_refines_finish:
  assumes inv: "rd_inv s"
  shows "rd_refines (Finish jid w success err now ts) s"
proof -
  consider (bad) e where "bounded_identifier jid ''job_id'' = Inl e"
    | (badw) i e where "bounded_identifier jid ''job_id'' = Inr i" "bounded_identifier w ''worker_id'' = Inl e"
    | (ok) i w' where "bounded_identifier jid ''job_id'' = Inr i" "bounded_identifier w ''worker_id'' = Inr w'"
    by (cases "bounded_identifier jid ''job_id''"; cases "bounded_identifier w ''worker_id''") auto
  then show ?thesis
  proof cases
    case (ok i w')
    show ?thesis
    proof (cases "owned_row (rd_view s) i w'")
      case None
      with ok inv rd_owner_none [OF None] show ?thesis
        by (auto simp: refines_at_def rd_finish_def job_answer_def spec_owner_def)
    next
      case (Some r)
      note o = rd_owned [OF inv Some]
      let ?st = "finish_status r success" and ?e = "finish_error err"
      have st: "?st \<noteq> Running" "?st = Queued \<Longrightarrow> j_attempts r < j_max r"
        by (auto simp: finish_status_def split: if_splits)
      note v = leave_running_inv [OF inv o(1,2) st, of ?e now ts]
      have "rd_view (leave_running r ?st ?e now ts s) = put_store (release r ?st ?e now) (rd_view s)"
        by (rule rd_view_put) (simp_all add: v(2) o(3))
      with ok Some o v show ?thesis
        by (simp add: refines_at_def rd_finish_def job_answer_def spec_owner_def rd_get_def Let_def)
    qed
  qed (simp_all add: refines_at_def rd_finish_def job_answer_def)
qed

lemma rd_refines_cancel_owned:
  assumes inv: "rd_inv s"
  shows "rd_refines (CancelOwned jid w reason now) s"
proof -
  consider (bad) e where "bounded_identifier jid ''job_id'' = Inl e"
    | (badw) i e where "bounded_identifier jid ''job_id'' = Inr i" "bounded_identifier w ''worker_id'' = Inl e"
    | (badr) i w' e where "bounded_identifier jid ''job_id'' = Inr i" "bounded_identifier w ''worker_id'' = Inr w'"
        "cancel_reason reason = Inl e"
    | (ok) i w' err where "bounded_identifier jid ''job_id'' = Inr i" "bounded_identifier w ''worker_id'' = Inr w'"
        "cancel_reason reason = Inr err"
    by (cases "bounded_identifier jid ''job_id''"; cases "bounded_identifier w ''worker_id''";
        cases "cancel_reason reason") auto
  then show ?thesis
  proof cases
    case (ok i w' err)
    show ?thesis
    proof (cases "owned_row (rd_view s) i w'")
      case None
      with ok inv rd_owner_none [OF None] show ?thesis
        by (auto simp: refines_at_def rd_cancel_owned_def job_answer_def spec_owner_def)
    next
      case (Some r)
      note o = rd_owned [OF inv Some]
      have l: "stop_running i (put_row (release r Cancelled err now) s) = leave_running r Cancelled err now 0 s"
        by (simp add: leave_running_def o(3))
      have st: "Cancelled \<noteq> Running" "Cancelled = Queued \<Longrightarrow> j_attempts r < j_max r" by simp_all
      note v = leave_running_inv [OF inv o(1,2) st, of err now 0]
      have "rd_view (leave_running r Cancelled err now 0 s) = put_store (release r Cancelled err now) (rd_view s)"
        by (rule rd_view_put) (simp_all add: v(2) o(3))
      with ok Some o v show ?thesis
        by (simp add: refines_at_def rd_cancel_owned_def job_answer_def spec_owner_def rd_get_def Let_def l)
    qed
  qed (simp_all add: refines_at_def rd_cancel_owned_def job_answer_def)
qed

lemma rd_cancel_each_spec:
  assumes "rd_inv s" and "distinct ids" and "rd_cancel_each c now ids (s, n) = (s', n')"
  shows "r_jobs s' = (\<lambda>i. if i \<in> set ids then map_option (\<lambda>j. if j_campaign j = c \<and> j_status j = Queued
            then release j Cancelled (Some cancelled_text) now else j) (r_jobs s i) else r_jobs s i) \<and>
    r_dedupe s' = r_dedupe s \<and>
    n' = n + card {i \<in> set ids. i \<in> matching (rd_view s) (\<lambda>j. j_campaign j = c \<and> j_status j = Queued)}"
  using assms
proof (induction ids arbitrary: s n)
  case (Cons i ids)
  let ?p = "\<lambda>j. j_campaign j = c \<and> j_status j = Queued"
  show ?case
  proof (cases "\<exists>j. r_jobs s i = Some j \<and> ?p j")
    case True
    then obtain j where j: "r_jobs s i = Some j" "?p j" by blast
    let ?s = "drop_queued (release j Cancelled (Some cancelled_text) now) s"
    have q: "j_status j = Queued" using j by simp
    note d = drop_queued_inv [OF Cons.prems(1) j(1) q, of "Some cancelled_text" now]
    have step: "rd_cancel_each c now ids (?s, Suc n) = (s', n')" using Cons.prems(3) j by simp
    note h = Cons.IH [OF d(1) _ step]
    have i: "i \<notin> set ids" using Cons.prems(2) by simp
    have "{x \<in> set ids. x \<in> matching (rd_view ?s) ?p} = {x \<in> set ids. x \<in> matching (rd_view s) ?p}"
      using i by (auto simp: matching_def d(2))
    moreover have "{x \<in> set (i # ids). x \<in> matching (rd_view s) ?p} =
        insert i {x \<in> set ids. x \<in> matching (rd_view s) ?p}"
      using j by (auto simp: matching_def)
    ultimately show ?thesis
      using h Cons.prems(2) i j by (auto simp: d(2) fun_eq_iff)
  next
    case False
    then have step: "rd_cancel_each c now ids (s, n) = (s', n')"
      using Cons.prems(3) by (auto split: option.splits if_splits)
    have "{x \<in> set (i # ids). x \<in> matching (rd_view s) ?p} = {x \<in> set ids. x \<in> matching (rd_view s) ?p}"
      using False by (auto simp: matching_def split: option.splits)
    with Cons.IH [OF Cons.prems(1) _ step] Cons.prems(2) False show ?thesis
      by (cases "r_jobs s i") (auto simp: fun_eq_iff)
  qed
qed auto

lemma rd_count_matching:
  assumes "rd_inv s"
  shows "count_rows s p (r_campaigns s c) = card (matching (rd_view s) (\<lambda>j. j_campaign j = c \<and> p j))"
proof -
  let ?ids = "filter (\<lambda>i. case r_jobs s i of None \<Rightarrow> False | Some j \<Rightarrow> p j) (r_campaigns s c)"
  have "set ?ids = matching (rd_view s) (\<lambda>j. j_campaign j = c \<and> p j)"
    using rd_inv_row(7) [OF assms, of _ _ c] by (auto simp: matching_def split: option.splits)
  moreover have "distinct ?ids" using assms by (simp add: rd_inv_def)
  then have "card (set ?ids) = length ?ids" by (rule distinct_card)
  ultimately show ?thesis by (simp add: count_rows_def)
qed

lemma rd_refines_campaign:
  assumes inv: "rd_inv s"
  shows "rd_refines (CancelQueued c now) s" and "rd_refines (StatusCounts c) s"
proof -
  show "rd_refines (StatusCounts c) s"
    by (cases "bounded_identifier c ''campaign_id''")
      (simp_all add: refines_at_def rd_campaign_job_status_counts_def rd_count_matching [OF inv] inv)
  show "rd_refines (CancelQueued c now) s"
  proof (cases "bounded_identifier c ''campaign_id''")
    case (Inr c')
    let ?p = "\<lambda>j. j_campaign j = c' \<and> j_status j = Queued"
    obtain s' n' where e: "rd_cancel_each c' now (r_campaigns s c') (s, 0) = (s', n')" by fastforce
    have mem: "i \<in> set (r_campaigns s c') \<longleftrightarrow> j_campaign j = c'" if "r_jobs s i = Some j" for i j
      using rd_inv_row(7) [OF inv that] by auto
    have d: "distinct (r_campaigns s c')" using inv by (simp add: rd_inv_def)
    note r = rd_cancel_each_spec [OF inv d e]
    have "r_jobs s' = (\<lambda>i. map_option (\<lambda>j. if ?p j then release j Cancelled (Some cancelled_text) now else j) (r_jobs s i))"
    proof
      fix i
      show "r_jobs s' i = map_option (\<lambda>j. if ?p j then release j Cancelled (Some cancelled_text) now else j) (r_jobs s i)"
        using mem [of i] r by (cases "r_jobs s i") auto
    qed
    moreover have "{i \<in> set (r_campaigns s c'). i \<in> matching (rd_view s) ?p} = matching (rd_view s) ?p"
      using mem by (auto simp: matching_def split: option.splits)
    moreover have "rd_inv s'" using rd_cancel_each_evolves [OF inv e] by (simp add: rd_evolves_def)
    ultimately show ?thesis
      using Inr e r by (simp add: refines_at_def rd_cancel_queued_def Let_def rd_view_def)
  qed (simp add: refines_at_def rd_cancel_queued_def)
qed

lemma rd_refines_command:
  assumes "rd_inv s" and "command_fresh c (rd_view s)"
  shows "rd_refines c s"
proof (cases c)
  case (Lookup jid)
  then show ?thesis
    using assms(1) by (cases "bounded_identifier jid ''job_id''") (simp_all add: refines_at_def rd_get_def)
qed (use assms rd_refines_enqueue rd_refines_heartbeat rd_refines_finish rd_refines_cancel_owned
    rd_refines_campaign in auto)

interpretation rd_store: queue_backend rd_inv rd_view rd_exec
  by unfold_locales
    (unfold rd_exec_def, (rule refines_at_exec [OF rd_refines_command]; assumption)+)

section \<open>The two backends agree\<close>

text \<open>C4: from two queues in their invariants that hold the same jobs in the same slots, every
  sequence of commands (new jobs getting new identifiers) is answered alike by the SQLite queue and
  by the Redis queue, errors included, and leaves them holding the same jobs again; both answer as
  the abstract store does.\<close>

theorem backends_agree:
  assumes "sq_inv q" and "rd_inv s" and "sq_view q = rd_view s" and "all_fresh cs (rd_view s)"
  shows "fst (run_commands sq_exec cs q) = fst (run_commands rd_exec cs s) \<and>
    sq_view (snd (run_commands sq_exec cs q)) = rd_view (snd (run_commands rd_exec cs s)) \<and>
    run_commands spec_exec cs (rd_view s) =
      (fst (run_commands rd_exec cs s), rd_view (snd (run_commands rd_exec cs s)))"
  using sq_store.run_refines [of q cs] rd_store.run_refines [OF assms(2,4)] assms(1,3,4) by simp

definition ex_commands :: "command list" where
  "ex_commands = [Enqueue ex_env ''c1'' ''recon_task'' (PDict []) 3 (Some ''k'') ''j2'' 5 5,
     Heartbeat ''j1'' ''w1'' 6 6, Finish ''j1'' ''w2'' True None 7 7, Finish ''j1'' ''w1'' True None 8 8,
     CancelQueued ''c1'' 9, Lookup ''j2'']"

text \<open>The statuses can be enumerated, so that count functions can be compared.\<close>

instantiation job_status :: enum
begin

definition enum_job_status :: "job_status list" where
  "enum_job_status = [Queued, Running, Completed, Failed, Cancelled]"
definition enum_all_job_status :: "(job_status \<Rightarrow> bool) \<Rightarrow> bool" where
  "enum_all_job_status p = (\<forall>st \<in> set [Queued, Running, Completed, Failed, Cancelled]. p st)"
definition enum_ex_job_status :: "(job_status \<Rightarrow> bool) \<Rightarrow> bool" where
  "enum_ex_job_status p = (\<exists>st \<in> set [Queued, Running, Completed, Failed, Cancelled]. p st)"

instance
proof
  have all: "st \<in> set [Queued, Running, Completed, Failed, Cancelled]" for st
    by (cases st) simp_all
  show "(UNIV :: job_status set) = set enum_class.enum"
    unfolding enum_job_status_def using all by blast
  show "distinct (enum_class.enum :: job_status list)" by (simp add: enum_job_status_def)
  show "enum_class.enum_all p = Ball UNIV p" "enum_class.enum_ex p = Bex UNIV p" for p :: "job_status \<Rightarrow> bool"
    unfolding enum_all_job_status_def enum_ex_job_status_def using all by blast+
qed

end

definition ex_second :: job where
  "ex_second = new_job \<lparr>rq_campaign = ''c1'', rq_kind = ''recon_task'', rq_payload = ''{}'', rq_max = 3,
     rq_dedupe = Some ''k''\<rparr> ''j2'' 5"

lemma ex_views: "sq_view [ex_running] = rd_view ex_redis_running"
  by (auto simp: sq_view_def rd_view_def find_job_def find_dedupe_def ex_running_def ex_queued_def
      ex_request_def ex_redis_running_def ex_redis_def link_def add_job_def rd_empty_def transaction_defs
      fun_eq_iff)

lemma ex_answers:
  "fst (run_commands sq_exec ex_commands [ex_running]) =
    [AJob (Some ex_second), ABool True, AJob None, AJob (Some (release ex_running Completed None 8)),
     ACount 1, AJob (Some (release ex_second Cancelled (Some cancelled_text) 9))]"
  by code_simp

lemma backends_agree_witness:
  "fst (run_commands rd_exec ex_commands ex_redis_running) =
    [AJob (Some ex_second), ABool True, AJob None, AJob (Some (release ex_running Completed None 8)),
     ACount 1, AJob (Some (release ex_second Cancelled (Some cancelled_text) 9))]"
proof -
  have "rd_step\<^sup>*\<^sup>* rd_empty ex_redis_running" using ex_rd_steps rd_step.claim [OF ex_rd_claim] by simp
  then have rd: "rd_inv ex_redis_running" by (rule rd.reachable_inv)
  have sq: "sq_inv [ex_running]" using sq.reachable_inv ex_steps(3) .
  have "is_ident ''j2''" by code_simp
  moreover have "r_jobs ex_redis_running ''j2'' = None"
    by (simp add: ex_views [symmetric, THEN arg_cong [of _ _ js_row], simplified] find_job_def ex_running_def ex_queued_def)
  ultimately have "all_fresh ex_commands (rd_view ex_redis_running)" by (simp add: ex_commands_def)
  from backends_agree [OF sq rd ex_views this] ex_answers show ?thesis by simp
qed

end
