(* ===== verification/PyDouble.thy ===== *)
theory PyDouble
  imports PyFloat
begin

text \<open>
  IEEE 754 double arithmetic as Python does it: a finite float is the rational number it stands for,
  and the result of an operation is the exact result rounded to the nearest double, ties to the
  even significand (\<open>double\<close>). Magnitudes between \<open>2 ^ -1022\<close> and \<open>2 ^ 1024\<close> are covered, and zero:
  the scores, rates and confidences computed here lie well inside. \<open>py_round k\<close> is the built-in
  \<open>round(x, k)\<close>: the decimal with \<open>k\<close> places nearest to the exact value, as a double.
\<close>

definition round_even :: "rat \<Rightarrow> int" where
  "round_even q = (let f = \<lfloor>q\<rfloor>; d = q - of_int f in
     if d < 1 / 2 then f else if 1 / 2 < d then f + 1 else if even f then f else f + 1)"

function bits :: "int \<Rightarrow> nat" where
  "bits n = (if n \<le> 0 then 0 else Suc (bits (n div 2)))"
  by pat_completeness auto
termination
  by (relation "measure nat") auto

declare bits.simps [simp del]

definition pow2 :: "int \<Rightarrow> rat" where
  "pow2 e = (if 0 \<le> e then of_int (2 ^ nat e) else 1 / of_int (2 ^ nat (- e)))"

text \<open>The exponent: \<open>pow2 (exponent q) \<le> q < pow2 (exponent q + 1)\<close> for positive \<open>q\<close>.\<close>

definition exponent :: "rat \<Rightarrow> int" where
  "exponent q = (case quotient_of q of (n, d) \<Rightarrow>
     let e = int (bits n) - int (bits d) in if pow2 e \<le> q then e else e - 1)"

definition double :: "rat \<Rightarrow> rat" where
  "double q =
     (if q = 0 then 0
      else let u = pow2 (exponent \<bar>q\<bar> - 52) in sgn q * of_int (round_even (\<bar>q\<bar> / u)) * u)"

definition py_round :: "nat \<Rightarrow> rat \<Rightarrow> rat" where
  "py_round k q = double (of_int (round_even (q * 10 ^ k)) / 10 ^ k)"

lemma pow2_pos [simp]: "0 < pow2 e"
  by (simp add: pow2_def)

lemma pow2_Suc: "pow2 (e + 1) = 2 * pow2 e"
proof (cases "0 \<le> e")
  case True
  then have "nat (e + 1) = Suc (nat e)" by simp
  with True show ?thesis by (simp add: pow2_def)
next
  case False
  then have n: "nat (- e) = Suc (nat (- (e + 1)))" by simp
  show ?thesis
  proof (cases "e = -1")
    case True
    then show ?thesis by (simp add: pow2_def)
  next
    case ne: False
    with False have "\<not> 0 \<le> e + 1" "\<not> 0 \<le> e" by simp_all
    then show ?thesis by (simp add: pow2_def n)
  qed
qed

lemma pow2_add: "pow2 (e + int n) = pow2 e * 2 ^ n"
proof (induction n)
  case (Suc n)
  have "pow2 (e + int (Suc n)) = pow2 ((e + int n) + 1)" by (simp add: algebra_simps)
  also have "\<dots> = 2 * (pow2 e * 2 ^ n)" unfolding pow2_Suc Suc ..
  finally show ?case by simp
qed simp

lemma round_even_error: "\<bar>of_int (round_even q) - q\<bar> \<le> 1 / 2"
proof -
  define f where "f = \<lfloor>q\<rfloor>"
  have f: "of_int f \<le> q" "q < of_int f + 1" unfolding f_def by linarith+
  show ?thesis unfolding round_even_def f_def [symmetric] Let_def abs_le_iff
    by (use f in \<open>auto simp: field_simps\<close>)
qed

lemma round_even_mono: "p \<le> q \<Longrightarrow> round_even p \<le> round_even q"
proof -
  assume le: "p \<le> q"
  show ?thesis
  proof (cases "\<lfloor>p\<rfloor> = \<lfloor>q\<rfloor>")
    case True
    with le show ?thesis unfolding round_even_def Let_def by auto
  next
    case False
    with le have "\<lfloor>p\<rfloor> + 1 \<le> \<lfloor>q\<rfloor>" using floor_mono [OF le] by simp
    moreover have "round_even p \<le> \<lfloor>p\<rfloor> + 1" "\<lfloor>q\<rfloor> \<le> round_even q"
      unfolding round_even_def Let_def by auto
    ultimately show ?thesis by linarith
  qed
qed

lemma round_even_int [simp]: "round_even (of_int n) = n"
  by (simp add: round_even_def)

lemma bits_bounds: "0 < n \<Longrightarrow> 2 ^ (bits n - 1) \<le> n \<and> n < 2 ^ bits n \<and> 0 < bits n"
proof (induction n rule: bits.induct)
  case (1 n)
  show ?case
  proof (cases "n div 2 = 0")
    case True
    with 1(2) have n: "n = 1" by linarith
    have "bits 1 = Suc 0" by (simp add: bits.simps [of 1] bits.simps [of 0])
    with n show ?thesis by simp
  next
    case False
    then have "0 < n div 2" using 1(2) by linarith
    with 1 have ih: "2 ^ (bits (n div 2) - 1) \<le> n div 2" "n div 2 < 2 ^ bits (n div 2)" "0 < bits (n div 2)"
      by simp_all
    obtain k where k: "bits (n div 2) = Suc k" using ih(3) by (cases "bits (n div 2)") auto
    have n: "bits n = Suc (Suc k)" using 1(2) k by (simp add: bits.simps [of n])
    have p: "2 ^ k \<le> n div 2" "n div 2 < 2 * 2 ^ k" using ih k by simp_all
    have "n = 2 * (n div 2) + n mod 2" "n mod 2 < 2" by simp_all
    with p have "2 * 2 ^ k \<le> n" "n < 2 * (2 * 2 ^ k)" by linarith+
    then show ?thesis by (simp add: n)
  qed
qed

lemma exponent_bounds:
  assumes "0 < q"
  shows "pow2 (exponent q) \<le> q" and "q < pow2 (exponent q + 1)"
proof -
  obtain n d where nd: "quotient_of q = (n, d)" by (cases "quotient_of q")
  have d: "0 < d" and q: "q = of_int n / of_int d"
    using quotient_of_denom_pos [OF nd] quotient_of_div [OF nd] by simp_all
  have n: "0 < n" using assms d q by (simp add: zero_less_divide_iff)
  let ?a = "bits n" and ?b = "bits d"
  have a: "2 ^ (?a - 1) \<le> n" "n < 2 ^ ?a" "0 < ?a" using bits_bounds [of n] n by auto
  have b: "2 ^ (?b - 1) \<le> d" "d < 2 ^ ?b" "0 < ?b" using bits_bounds [of d] d by auto
  have ra: "(2 :: rat) ^ (?a - 1) \<le> of_int n" "of_int n < (2 :: rat) ^ ?a"
    using a by (metis of_int_le_iff of_int_less_iff of_int_numeral of_int_power)+
  have rb: "(2 :: rat) ^ (?b - 1) \<le> of_int d" "of_int d < (2 :: rat) ^ ?b"
    using b by (metis of_int_le_iff of_int_less_iff of_int_numeral of_int_power)+
  have pa: "pow2 (int k) = 2 ^ k" for k by (simp add: pow2_def)
  define e where "e = int ?a - int ?b"
  have e: "pow2 e * 2 ^ ?b = 2 ^ ?a"
    using pow2_add [of e ?b] pa [of ?a] by (simp add: e_def)
  have dpos: "0 < (of_int d :: rat)" using d by simp
  have a2: "(2 :: rat) ^ ?a = 2 * 2 ^ (?a - 1)" using a(3) by (cases ?a) auto
  have b2: "(2 :: rat) ^ ?b = 2 * 2 ^ (?b - 1)" using b(3) by (cases ?b) auto
  have up: "q < pow2 (e + 1)"
  proof -
    have "of_int n < pow2 e * 2 ^ ?b" using ra(2) e by simp
    also have "\<dots> \<le> pow2 e * (2 * of_int d)"
      using rb(1) b2 by (intro mult_left_mono) (auto simp: less_imp_le)
    finally show ?thesis using dpos by (simp add: q pow2_Suc divide_less_eq)
  qed
  have low: "pow2 (e - 1) \<le> q"
  proof -
    have p: "2 * pow2 (e - 1) = pow2 e" using pow2_Suc [of "e - 1"] by simp
    have "pow2 e * of_int d \<le> pow2 e * 2 ^ ?b" using rb(2) by (intro mult_left_mono) (auto simp: less_imp_le)
    also have "\<dots> \<le> 2 * of_int n" using e ra(1) a2 by simp
    finally have "2 * pow2 (e - 1) * of_int d \<le> 2 * of_int n" by (simp add: p)
    then show ?thesis using dpos by (simp add: q le_divide_eq)
  qed
  have x: "exponent q = (if pow2 e \<le> q then e else e - 1)" by (simp add: exponent_def nd e_def)
  show "pow2 (exponent q) \<le> q" "q < pow2 (exponent q + 1)" using x up low by auto
qed

lemma double_zero [simp]: "double 0 = 0"
  by (simp add: double_def)

text \<open>Rounding changes a positive value by at most one part in \<open>2 ^ 53\<close>.\<close>

lemma double_near:
  assumes "0 < q"
  shows "\<bar>double q - q\<bar> \<le> q / 2 ^ 53"
proof -
  define u where "u = pow2 (exponent q - 52)"
  have u: "0 < u" by (simp add: u_def)
  have pu: "pow2 (exponent q) = u * 2 ^ 52" using pow2_add [of "exponent q - 52" 52] by (simp add: u_def)
  have dq: "double q = of_int (round_even (q / u)) * u"
    using assms by (simp add: double_def u_def Let_def)
  have "\<bar>of_int (round_even (q / u)) * u - q\<bar> = \<bar>of_int (round_even (q / u)) - q / u\<bar> * u"
    using u by (simp add: abs_mult [symmetric] left_diff_distrib abs_mult_pos)
  also have "\<dots> \<le> 1 / 2 * u" using round_even_error u by (intro mult_right_mono) simp_all
  also have "\<dots> \<le> q / 2 ^ 53" using exponent_bounds(1) [OF assms] pu by simp
  finally show ?thesis by (simp add: dq)
qed

text \<open>How a concrete value is rounded: give its exponent, read off the significand.\<close>

lemma pow2_inj_range:
  assumes "pow2 a \<le> q" "q < pow2 (a + 1)" "pow2 b \<le> q" "q < pow2 (b + 1)"
  shows "a = b"
proof -
  have mono: "pow2 x \<le> pow2 y" if "x \<le> y" for x y
  proof -
    obtain n where y: "y = x + int n" using \<open>x \<le> y\<close> zle_iff_zadd by blast
    have one: "(1 :: rat) \<le> 2 ^ n" by (rule one_le_power) simp
    have "pow2 x * 1 \<le> pow2 x * 2 ^ n" by (rule mult_left_mono [OF one less_imp_le [OF pow2_pos]])
    then show ?thesis by (simp only: y pow2_add mult_1_right)
  qed
  show ?thesis
  proof (rule ccontr)
    assume "a \<noteq> b"
    then consider "a + 1 \<le> b" | "b + 1 \<le> a" by linarith
    then show False using mono assms by cases fastforce+
  qed
qed

lemma double_eval:
  assumes "pow2 e \<le> q" and "q < pow2 (e + 1)"
  shows "double q = of_int (round_even (q / pow2 (e - 52))) * pow2 (e - 52)"
proof -
  have q: "0 < q" using assms(1) pow2_pos [of e] by (rule order.strict_trans2 [rotated])
  have "exponent q = e" using exponent_bounds [OF q] assms pow2_inj_range by blast
  with q show ?thesis by (simp add: double_def Let_def)
qed

end
