(* ===== verification/Knowledge.thy ===== *)
theory Knowledge
  imports StorageCore CampaignModel ValidationState PyDouble
begin

text \<open>
  \<open>backend/app/hypothesis_memory.py\<close> (fingerprint and hypotheses) and \<open>backend/app/knowledge_memory.py\<close>
  (confidence in the findings and their ranking). Scores are doubles; \<open>fr\<close> is \<open>repr\<close> on them.
\<close>

definition remove_prefix :: "string \<Rightarrow> string \<Rightarrow> string" where
  "remove_prefix p s = (if py_startswith s p then drop (length p) s else s)"

section \<open>Hypotheses\<close>

record hypothesis =
  hy_id :: string
  hy_finding :: string
  hy_statement :: string
  hy_confidence :: rat
  hy_status :: string
  hy_fingerprint :: string
  hy_evidence :: "string list"

text \<open>\<open>set.update\<close> with a generator that reads the set it fills: an item is added when one of its
  parents is in the set by then, items of the same kind that came earlier included.\<close>

definition grow_relevant :: "string list \<Rightarrow> observation list \<Rightarrow> string list" where
  "grow_relevant rel items =
     foldl (\<lambda>r item. if list_ex (\<lambda>p. p \<in> set r) (ob_parents item) then ob_id item # r else r) rel items"

definition relevant_ids :: "obs_graph \<Rightarrow> string list" where
  "relevant_ids g = grow_relevant (grow_relevant (map ob_id (by_kind Finding g)) (by_kind Validation g)) (by_kind Evidence g)"

definition fingerprint_item :: "observation \<Rightarrow> pyval" where
  "fingerprint_item ob = PDict [(''id'', PStr (ob_id ob)), (''kind'', PStr (kind_text (ob_kind ob))),
     (''value'', PStr (ob_value ob)), (''source'', PStr (ob_source ob)),
     (''parent_ids'', PList (map PStr (ob_parents ob))), (''metadata'', PDict (ob_meta ob))]"

definition hypothesis_graph_fingerprint :: "(string \<Rightarrow> string) \<Rightarrow> obs_graph \<Rightarrow> string" where
  "hypothesis_graph_fingerprint H g =
     take 20 (H (json_dumps True (PList (map fingerprint_item
       (filter (\<lambda>ob. ob_id ob \<in> set (relevant_ids g)) (sort_key ob_id (graph_values g)))))))"

definition hypothesis_snapshot_is_current :: "(string \<Rightarrow> string) \<Rightarrow> hypothesis \<Rightarrow> obs_graph \<Rightarrow> bool" where
  "hypothesis_snapshot_is_current H h g = (hy_fingerprint h = hypothesis_graph_fingerprint H g)"

definition hypothesis_confidence :: "bool \<Rightarrow> bool \<Rightarrow> rat" where
  "hypothesis_confidence observed linked =
     min (double (95 / 100)) (py_round 2 (double (double (double (35 / 100) + (if observed then double (40 / 100) else 0)) +
       (if linked then double (20 / 100) else 0))))"

definition independent_validations :: "obs_graph \<Rightarrow> observation \<Rightarrow> observation list" where
  "independent_validations g f =
     filter (\<lambda>v. ob_id f \<in> set (ob_parents v) \<and> ob_source v \<noteq> ob_source f) (by_kind Validation g)"

definition evidence_of :: "obs_graph \<Rightarrow> string list \<Rightarrow> observation list" where
  "evidence_of g vids = filter (\<lambda>e. list_ex (\<lambda>p. p \<in> set vids) (ob_parents e)) (by_kind Evidence g)"

definition hypothesis_of :: "obs_graph \<Rightarrow> string \<Rightarrow> observation \<Rightarrow> hypothesis" where
  "hypothesis_of g fp f =
     (let linked = independent_validations g f; evidence = evidence_of g (map ob_id linked);
          observed = list_ex (\<lambda>v. ob_value v = ''observed'') linked in
      \<lparr>hy_id = ''hypothesis:'' @ ob_id f, hy_finding = remove_prefix ''finding:'' (ob_id f),
       hy_statement = ''Recorded finding '' @ ob_value f @ '' requires independent evidence correlation.'',
       hy_confidence = hypothesis_confidence observed (evidence \<noteq> []),
       hy_status = (if observed \<and> evidence \<noteq> [] then ''supported''
         else if linked \<noteq> [] then ''partially_supported'' else ''unvalidated''),
       hy_fingerprint = fp, hy_evidence = sort (map ob_id evidence)\<rparr>)"

definition build_hypotheses :: "(string \<Rightarrow> string) \<Rightarrow> obs_graph \<Rightarrow> hypothesis list" where
  "build_hypotheses H g = sort_key (\<lambda>h. (- hy_confidence h, hy_id h))
     (map (hypothesis_of g (hypothesis_graph_fingerprint H g)) (by_kind Finding g))"

definition hypothesis_dict :: "(rat \<Rightarrow> string) \<Rightarrow> hypothesis \<Rightarrow> pyval" where
  "hypothesis_dict fr h = PDict [(''id'', PStr (hy_id h)), (''finding_id'', PStr (hy_finding h)),
     (''statement'', PStr (hy_statement h)), (''confidence'', PFloat (hy_confidence h) (fr (hy_confidence h))),
     (''status'', PStr (hy_status h)), (''graph_fingerprint'', PStr (hy_fingerprint h)),
     (''evidence_ids'', PList (map PStr (hy_evidence h)))]"

section \<open>Confidence and ranking\<close>

definition severity_weight :: "severity \<Rightarrow> rat" where
  "severity_weight s = (case s of SInfo \<Rightarrow> double (10 / 100) | SLow \<Rightarrow> double (25 / 100)
     | SMedium \<Rightarrow> double (50 / 100) | SHigh \<Rightarrow> double (75 / 100) | SCritical \<Rightarrow> 1)"

record finding_confidence =
  fn_id :: string
  fn_score :: rat
  fn_validations :: nat
  fn_evidence :: nat

record knowledge_snapshot =
  ks_observations :: nat
  ks_assets :: nat
  ks_endpoints :: nat
  ks_findings :: nat
  ks_validations :: nat
  ks_evidence :: nat
  ks_confidence :: "finding_confidence list"

record finding_priority =
  fp_id :: string
  fp_score :: rat
  fp_weight :: rat
  fp_confidence :: rat

definition validation_quality :: "string \<Rightarrow> rat" where
  "validation_quality v = (if v = ''observed'' then double (40 / 100) else if v = ''dry_run'' then double (5 / 100) else 0)"

definition confidence_score :: "rat \<Rightarrow> bool \<Rightarrow> bool \<Rightarrow> rat" where
  "confidence_score credit backed attested =
     (let s1 = double (double (35 / 100) + credit);
          s2 = (if backed then double (s1 + double (20 / 100)) else s1);
          s3 = (if attested then double (s2 + double (5 / 100)) else s2) in
      min 1 (py_round 2 s3))"

definition confidence_of :: "obs_graph \<Rightarrow> observation \<Rightarrow> finding_confidence" where
  "confidence_of g f =
     (let indep = independent_validations g f;
          credited = filter (\<lambda>v. validation_quality (ob_value v) > 0) indep;
          observed = map ob_id (filter (\<lambda>v. validation_quality (ob_value v) \<ge> double (40 / 100)) indep);
          evidence = evidence_of g observed;
          credit = foldl (\<lambda>b v. max b (validation_quality (ob_value v))) 0 indep in
      \<lparr>fn_id = ob_id f,
       fn_score = confidence_score credit (evidence \<noteq> [])
         (list_ex (\<lambda>e. py_eq (pget (ob_meta e) ''artifact_kind'') (PStr ''validation'')) evidence),
       fn_validations = length credited, fn_evidence = length evidence\<rparr>)"

definition build_knowledge_snapshot :: "obs_graph \<Rightarrow> knowledge_snapshot" where
  "build_knowledge_snapshot g =
     \<lparr>ks_observations = length (graph_values g), ks_assets = length (by_kind Asset g),
      ks_endpoints = length (by_kind Endpoint g), ks_findings = length (by_kind Finding g),
      ks_validations = length (by_kind Validation g), ks_evidence = length (by_kind Evidence g),
      ks_confidence = map (confidence_of g) (by_kind Finding g)\<rparr>"

definition priority_score :: "rat \<Rightarrow> rat \<Rightarrow> rat" where
  "priority_score weight confidence =
     py_round 4 (double (double (weight * double (70 / 100)) + double (double (1 - confidence) * double (30 / 100))))"

definition priority_of :: "(string \<times> rat) list \<Rightarrow> finding \<Rightarrow> finding_priority" where
  "priority_of confidence f =
     (let c = (case map_of confidence (''finding:'' @ f_id f) of Some c \<Rightarrow> c | None \<Rightarrow> 0);
          w = severity_weight (f_severity f) in
      \<lparr>fp_id = f_id f, fp_score = priority_score w c, fp_weight = w, fp_confidence = c\<rparr>)"

definition rank_findings :: "finding list \<Rightarrow> obs_graph \<Rightarrow> finding_priority list" where
  "rank_findings fs g =
     (let confidence = foldl (\<lambda>d c. dict_set (fn_id c) (fn_score c) d) [] (ks_confidence (build_knowledge_snapshot g)) in
      sort_key (\<lambda>p. (- fp_score p, fp_id p)) (map (priority_of confidence) fs))"

section \<open>What support means\<close>

text \<open>A hypothesis counts as supported when some independent validation observed the finding and some
  independent validation, possibly another one, has evidence.\<close>

lemma supported_iff:
  "hy_status (hypothesis_of g fp f) = ''supported'' \<longleftrightarrow>
     (\<exists>v \<in> set (independent_validations g f). ob_value v = ''observed'') \<and>
     (\<exists>v \<in> set (independent_validations g f). \<exists>e \<in> set (by_kind Evidence g). ob_id v \<in> set (ob_parents e))"
  by (auto simp: hypothesis_of_def evidence_of_def list_ex_iff filter_empty_conv Let_def)

lemma evidenced_supported:
  assumes "v \<in> set (by_kind Validation g)" and "ob_id f \<in> set (ob_parents v)" and "ob_source v \<noteq> ob_source f"
    and "ob_value v = ''observed''" and "e \<in> set (by_kind Evidence g)" and "ob_id v \<in> set (ob_parents e)"
  shows "hy_status (hypothesis_of g fp f) = ''supported''"
  using assms by (auto simp: supported_iff independent_validations_def)

end
