(* ===== verification/FindingClusters.thy ===== *)
theory FindingClusters
  imports FindingReview Knowledge "HOL-Library.Multiset"
begin

text \<open>
  \<open>backend/app/finding_correlation.py\<close>, second part: the similarity of two findings and the clusters
  of likely duplicates, which are the connected components of the pairs at or above the threshold.
\<close>

section \<open>Similarity\<close>

text \<open>\<open>sum\<close> of a list of floats since Python 3.12: Neumaier's compensated summation.\<close>

definition py_sum :: "rat list \<Rightarrow> rat" where
  "py_sum xs = (case foldl (\<lambda>(s, c) x.
       let t = double (s + x) in
       if \<bar>s\<bar> \<ge> \<bar>x\<bar> then (t, double (c + double (double (s - t) + x)))
       else (t, double (c + double (double (x - t) + s)))) (0, 0) xs of (s, c) \<Rightarrow> double (s + c))"

text \<open>\<open>re.findall(r"[a-z0-9]+", value)\<close>.\<close>

definition word_char :: "char \<Rightarrow> bool" where
  "word_char c = (let n = (of_char c :: nat) in (97 \<le> n \<and> n \<le> 122) \<or> (48 \<le> n \<and> n \<le> 57))"

fun words_from :: "string \<Rightarrow> string \<Rightarrow> string list" where
  "words_from w [] = (if w = [] then [] else [w])"
| "words_from w (c # cs) =
     (if word_char c then words_from (w @ [c]) cs
      else (if w = [] then [] else [w]) @ words_from [] cs)"

definition stop_words :: "string list" where
  "stop_words = [''the'', ''and'', ''for'', ''with'', ''from'', ''this'', ''that'']"

definition title_tokens :: "string \<Rightarrow> string list" where
  "title_tokens value = remdups (filter (\<lambda>t. length t \<ge> 3 \<and> t \<notin> set stop_words) (words_from [] (py_lower value)))"

definition jaccard :: "string list \<Rightarrow> string list \<Rightarrow> rat" where
  "jaccard l r = (if l = [] \<or> r = [] then 0
     else double (of_nat (card (set l \<inter> set r)) / of_nat (card (set l \<union> set r))))"

record finding_similarity =
  fs_left :: string
  fs_right :: string
  fs_score :: rat
  fs_same_asset :: bool
  fs_same_endpoint :: bool
  fs_same_cwe :: bool
  fs_title :: rat
  fs_reasons :: "string list"

definition same_text :: "string option \<Rightarrow> string option \<Rightarrow> bool" where
  "same_text a b = (truthy a \<and> truthy b \<and> a = b)"

definition cluster_asset :: "finding \<Rightarrow> string result" where
  "cluster_asset f = rbind (canonical_url (Some (f_asset f))) (\<lambda>c.
     Inr (case c of Some (x # xs) \<Rightarrow> x # xs | _ \<Rightarrow> py_lower (py_strip (f_asset f))))"

definition cluster_cwe :: "finding \<Rightarrow> string option" where
  "cluster_cwe f = (if truthy (f_cwe f) then map_option (\<lambda>s. py_upper (py_strip s)) (f_cwe f) else None)"

definition similarity_components :: "bool \<Rightarrow> bool \<Rightarrow> bool \<Rightarrow> rat \<Rightarrow> (string \<times> rat) list" where
  "similarity_components a e c title =
     [(''asset'', if a then double (25 / 100) else 0), (''endpoint'', if e then double (35 / 100) else 0),
      (''cwe'', if c then double (25 / 100) else 0), (''title'', py_round 4 (double (title * double (15 / 100))))]"

definition similarity_score :: "bool \<Rightarrow> (string \<times> rat) list \<Rightarrow> rat" where
  "similarity_score same_asset components =
     (let score = py_round 4 (py_sum (map snd components)) in
      if \<not> same_asset then min score (double (40 / 100)) else score)"

definition score_finding_similarity :: "finding \<Rightarrow> finding \<Rightarrow> finding_similarity result" where
  "score_finding_similarity l r =
     rbind (cluster_asset l) (\<lambda>la. rbind (cluster_asset r) (\<lambda>ra.
     rbind (canonical_url (f_endpoint l)) (\<lambda>le. rbind (canonical_url (f_endpoint r)) (\<lambda>re.
     let a = (la = ra); e = same_text le re; c = same_text (cluster_cwe l) (cluster_cwe r);
         title = jaccard (title_tokens (f_title l)) (title_tokens (f_title r));
         components = similarity_components a e c title in
     Inr \<lparr>fs_left = f_id l, fs_right = f_id r, fs_score = similarity_score a components,
       fs_same_asset = a, fs_same_endpoint = e, fs_same_cwe = c, fs_title = py_round 4 title,
       fs_reasons = map fst (filter (\<lambda>(k, v). v > 0) components)\<rparr>))))"

text \<open>The nested loop over \<open>ordered[index + 1:]\<close>.\<close>

fun pairs_of :: "'a list \<Rightarrow> ('a \<times> 'a) list" where
  "pairs_of [] = []"
| "pairs_of (x # xs) = map (Pair x) xs @ pairs_of xs"

section \<open>Components\<close>

definition neighbours :: "(string \<times> string) list \<Rightarrow> string \<Rightarrow> string list" where
  "neighbours links x = sorted_set (map snd (filter (\<lambda>l. fst l = x) links))"

text \<open>The \<open>while stack\<close> loop; the head of the list is the top of the stack.\<close>

function collect :: "(string \<times> string) list \<Rightarrow> string list \<Rightarrow> string list \<Rightarrow> string list \<Rightarrow> string list \<times> string list" where
  "collect links [] visited component = (visited, component)"
| "collect links (cur # stack) visited component =
     (if cur \<in> set visited then collect links stack visited component
      else collect links (filter (\<lambda>n. n \<notin> set (cur # visited)) (neighbours links cur) @ stack)
             (cur # visited) (cur # component))"
  by pat_completeness auto

lemma collect_measure:
  assumes "cur \<notin> set visited"
  shows "card ((set (filter (\<lambda>n. n \<notin> set (cur # visited)) (neighbours links cur) @ stack) \<union> snd ` set links) -
      set (cur # visited)) < card ((set (cur # stack) \<union> snd ` set links) - set visited)"
proof (rule psubset_card_mono)
  have "set (neighbours links cur) \<subseteq> snd ` set links" by (auto simp: neighbours_def)
  then show "(set (filter (\<lambda>n. n \<notin> set (cur # visited)) (neighbours links cur) @ stack) \<union> snd ` set links) -
      set (cur # visited) \<subset> (set (cur # stack) \<union> snd ` set links) - set visited"
    using assms by auto
qed simp

termination collect
proof (relation "measures [\<lambda>(links, stack, visited, c). card ((set stack \<union> snd ` set links) - set visited),
    \<lambda>(links, stack, v, c). length stack]")
  fix links :: "(string \<times> string) list" and cur :: string and stack visited component
  assume "cur \<in> set visited"
  then have "(set (cur # stack) \<union> snd ` set links) - set visited = (set stack \<union> snd ` set links) - set visited" by auto
  then show "((links, stack, visited, component), links, cur # stack, visited, component) \<in>
      measures [\<lambda>(links, stack, visited, c). card ((set stack \<union> snd ` set links) - set visited),
        \<lambda>(links, stack, v, c). length stack]" by simp
qed (use collect_measure in simp_all)

fun components_of :: "(string \<times> string) list \<Rightarrow> string list \<Rightarrow> string list \<Rightarrow> string list list" where
  "components_of links visited [] = []"
| "components_of links visited (start # ids) =
     (if start \<in> set visited then components_of links visited ids
      else (case collect links [start] visited [] of (visited', component) \<Rightarrow>
        component # components_of links visited' ids))"

record finding_cluster =
  cl_id :: string
  cl_ids :: "string list"
  cl_confidence :: rat
  cl_scores :: "rat list"

definition links_of :: "rat \<Rightarrow> finding_similarity list \<Rightarrow> (string \<times> string) list" where
  "links_of threshold sims = concat (map (\<lambda>s. if fs_score s \<ge> threshold
     then [(fs_left s, fs_right s), (fs_right s, fs_left s)] else []) sims)"

definition cluster_of :: "rat \<Rightarrow> finding_similarity list \<Rightarrow> string list \<Rightarrow> finding_cluster" where
  "cluster_of threshold sims component =
     (let ids = sort component;
          scores = map fs_score (filter (\<lambda>s. fs_left s \<in> set component \<and> fs_right s \<in> set component \<and>
            fs_score s \<ge> threshold) sims) in
      \<lparr>cl_id = ''cluster:'' @ py_join ''|'' ids, cl_ids = ids,
       cl_confidence = (if scores = [] then 0 else py_round 4 (double (py_sum scores / of_nat (length scores)))),
       cl_scores = scores\<rparr>)"

definition cluster_findings :: "finding list \<Rightarrow> rat \<Rightarrow> (finding_cluster list \<times> finding_similarity list) result" where
  "cluster_findings findings threshold =
     (if \<not> (double (50 / 100) \<le> threshold \<and> threshold \<le> 1)
      then Inl (ValueError ''cluster threshold must be between 0.50 and 1.0'')
      else (let ordered = sort_key f_id findings in
        rbind (rmap (\<lambda>(l, r). score_finding_similarity l r) (pairs_of ordered)) (\<lambda>sims.
        let components = components_of (links_of threshold sims) [] (map f_id ordered);
            clusters = map (cluster_of threshold sims) (filter (\<lambda>c. length c \<ge> 2) components) in
        Inr (sort_key (\<lambda>c. (- cl_confidence c, cl_id c)) clusters,
             sort_key (\<lambda>s. (- fs_score s, fs_left s, fs_right s)) sims))))"

section \<open>Clusters are connected components\<close>

definition linked_to :: "(string \<times> string) list \<Rightarrow> string \<Rightarrow> string set" where
  "linked_to links x = {y. (x, y) \<in> (set links)\<^sup>*}"

lemma neighbours_set: "set (neighbours links x) = {y. (x, y) \<in> set links}"
  by (force simp: neighbours_def)

definition collect_inv :: "(string \<times> string) list \<Rightarrow> string \<Rightarrow> string set \<Rightarrow> string list \<Rightarrow> string list \<Rightarrow> string list \<Rightarrow> bool" where
  "collect_inv links start done stack visited component \<longleftrightarrow>
     start \<notin> done \<and> set visited = done \<union> set component \<and> set component \<inter> done = {} \<and> distinct component \<and>
     set component \<union> set stack \<subseteq> linked_to links start \<and> start \<in> set component \<union> set stack \<and>
     (\<forall>x \<in> set component. \<forall>y. (x, y) \<in> set links \<longrightarrow> y \<in> set visited \<union> set stack)"

lemma collect_keeps:
  "collect_inv links start done stack visited component \<Longrightarrow>
   (case collect links stack visited component of (visited', component') \<Rightarrow>
      collect_inv links start done [] visited' component')"
proof (induction links stack visited component rule: collect.induct)
  case (2 links cur stack visited component)
  show ?case
  proof (cases "cur \<in> set visited")
    case True
    then have same: "set visited \<union> set (cur # stack) = set visited \<union> set stack" by auto
    note inv = 2(3) [unfolded collect_inv_def]
    have "start \<in> set component \<union> set stack" using inv True by (cases "start = cur") auto
    moreover have "\<forall>x \<in> set component. \<forall>y. (x, y) \<in> set links \<longrightarrow> y \<in> set visited \<union> set stack"
      using inv unfolding same by blast
    ultimately have "collect_inv links start done stack visited component"
      using inv unfolding collect_inv_def list.set by blast
    with 2(1) [OF True] True show ?thesis by simp
  next
    case False
    let ?new = "filter (\<lambda>n. n \<notin> set (cur # visited)) (neighbours links cur)"
    have cur: "(start, cur) \<in> (set links)\<^sup>*" using 2(3) by (auto simp: collect_inv_def linked_to_def)
    have "set ?new \<subseteq> linked_to links start"
      using cur by (auto simp: neighbours_set linked_to_def intro: rtrancl_into_rtrancl)
    moreover have "\<forall>x \<in> set (cur # component). \<forall>y. (x, y) \<in> set links \<longrightarrow> y \<in> set (cur # visited) \<union> set (?new @ stack)"
    proof (intro ballI allI impI)
      fix x y assume x: "x \<in> set (cur # component)" and l: "(x, y) \<in> set links"
      show "y \<in> set (cur # visited) \<union> set (?new @ stack)"
      proof (cases "x = cur")
        case True
        with l have "y \<in> set (neighbours links cur)" by (simp add: neighbours_set)
        then show ?thesis by auto
      next
        case ne: False
        with x have "x \<in> set component" by simp
        with 2(3) l have "y \<in> set visited \<union> set (cur # stack)" unfolding collect_inv_def by blast
        then show ?thesis by auto
      qed
    qed
    ultimately have "collect_inv links start done (?new @ stack) (cur # visited) (cur # component)"
      using 2(3) False cur unfolding collect_inv_def linked_to_def by auto
    with 2(2) [OF False] False show ?thesis by simp
  qed
qed simp

lemma collect_component:
  assumes "sym (set links)" and "start \<notin> set visited"
    and "\<forall>x \<in> set visited. \<forall>y. (x, y) \<in> set links \<longrightarrow> y \<in> set visited"
    and "collect links [start] visited [] = (visited', component)"
  shows "set component = linked_to links start" and "set visited' = set visited \<union> set component"
    and "distinct component" and "set component \<inter> set visited = {}"
    and "\<forall>x \<in> set visited'. \<forall>y. (x, y) \<in> set links \<longrightarrow> y \<in> set visited'"
proof -
  have "collect_inv links start (set visited) [start] visited []"
    using assms(2) by (simp add: collect_inv_def linked_to_def)
  from collect_keeps [OF this] have inv: "collect_inv links start (set visited) [] visited' component"
    by (simp only: assms(4) prod.case)
  show v: "set visited' = set visited \<union> set component" and "distinct component"
    and disj: "set component \<inter> set visited = {}"
    using inv by (simp_all add: collect_inv_def)
  have step: "y \<in> set component" if x: "x \<in> set component" and l: "(x, y) \<in> set links" for x y
  proof (rule ccontr)
    assume "y \<notin> set component"
    then have "y \<in> set visited" using inv x l by (auto simp: collect_inv_def)
    with l assms(1,3) have "x \<in> set visited" by (meson symD)
    with disj x show False by auto
  qed
  have "y \<in> set component" if "(start, y) \<in> (set links)\<^sup>*" for y
    using that by (induction rule: rtrancl_induct) (use inv step in \<open>auto simp: collect_inv_def\<close>)
  then show "set component = linked_to links start" using inv by (auto simp: collect_inv_def linked_to_def)
  show "\<forall>x \<in> set visited'. \<forall>y. (x, y) \<in> set links \<longrightarrow> y \<in> set visited'"
    using v assms(3) step by blast
qed

lemma linked_to_eq:
  assumes "sym (set links)" and "y \<in> linked_to links x"
  shows "linked_to links y = linked_to links x"
proof -
  have "sym ((set links)\<^sup>*)" using assms(1) by (rule sym_rtrancl)
  then have "(y, x) \<in> (set links)\<^sup>*" using assms(2) by (auto simp: linked_to_def dest: symD)
  with assms(2) show ?thesis by (auto simp: linked_to_def intro: rtrancl_trans)
qed

lemma components_correct:
  assumes "sym (set links)" and "\<forall>x \<in> set visited. \<forall>y. (x, y) \<in> set links \<longrightarrow> y \<in> set visited"
  shows "set ` set (components_of links visited ids) = linked_to links ` (set ids - set visited) \<and>
    list_all distinct (components_of links visited ids) \<and> distinct (map set (components_of links visited ids)) \<and>
    (\<forall>c \<in> set (components_of links visited ids). set c \<inter> set visited = {})"
  using assms(2)
proof (induction ids arbitrary: visited)
  case (Cons start ids)
  show ?case
  proof (cases "start \<in> set visited")
    case True
    with Cons show ?thesis by (simp add: insert_Diff_if)
  next
    case False
    obtain visited' component where col: "collect links [start] visited [] = (visited', component)" by fastforce
    note c = collect_component [OF assms(1) False Cons.prems col]
    let ?rest = "components_of links visited' ids"
    note IH = Cons.IH [OF c(5)]
    have start: "start \<in> linked_to links start" by (simp add: linked_to_def)
    have same: "linked_to links x = linked_to links start" if "x \<in> set component" for x
      using that c(1) linked_to_eq [OF assms(1)] by blast
    have "linked_to links ` (set (start # ids) - set visited) =
        insert (linked_to links start) (linked_to links ` (set ids - set visited'))"
      using False c(2) same start by (auto simp: image_iff)
    moreover have fresh: "set component \<notin> set ` set ?rest"
    proof
      assume "set component \<in> set ` set ?rest"
      then obtain d where d: "d \<in> set ?rest" "set d = set component" by auto
      have "start \<in> set component" using start c(1) by simp
      then have "start \<in> set d \<inter> set visited'" using d(2) c(2) by simp
      moreover have "set d \<inter> set visited' = {}" using IH d(1) by blast
      ultimately show False by simp
    qed
    moreover have "set ` set (component # ?rest) =
        insert (linked_to links start) (linked_to links ` (set ids - set visited'))" using IH c(1) by simp
    moreover have "list_all distinct (component # ?rest)" using IH c(3) by simp
    moreover have "distinct (map set (component # ?rest))" using IH fresh by simp
    moreover have "\<forall>d \<in> set (component # ?rest). set d \<inter> set visited = {}"
      using IH c(2,4) by (metis Un_iff disjoint_iff set_ConsD)
    moreover have "components_of links visited (start # ids) = component # ?rest"
      using False by (simp add: col del: collect.simps)
    ultimately show ?thesis by (simp only: simp_thms)
  qed
qed simp

definition similar_ids :: "finding list \<Rightarrow> rat \<Rightarrow> (string \<times> string) set" where
  "similar_ids findings t = {(a, b). \<exists>l r s. (l, r) \<in> set (pairs_of (sort_key f_id findings)) \<and>
     score_finding_similarity l r = Inr s \<and> t \<le> fs_score s \<and> (a, b) \<in> {(f_id l, f_id r), (f_id r, f_id l)}}"

lemma score_ids: "score_finding_similarity l r = Inr s \<Longrightarrow> fs_left s = f_id l \<and> fs_right s = f_id r"
  by (auto simp: score_finding_similarity_def Let_def)

lemma links_of_similar:
  assumes "rmap (\<lambda>(l, r). score_finding_similarity l r) (pairs_of (sort_key f_id findings)) = Inr sims"
  shows "set (links_of t sims) = similar_ids findings t"
proof -
  have all: "list_all2 (\<lambda>(l, r) s. score_finding_similarity l r = Inr s) (pairs_of (sort_key f_id findings)) sims"
    using assms by (auto simp: rmap_Inr_iff case_prod_unfold)
  have "s \<in> set sims \<longleftrightarrow> (\<exists>l r. (l, r) \<in> set (pairs_of (sort_key f_id findings)) \<and> score_finding_similarity l r = Inr s)" for s
    using all
  proof (induction rule: list_all2_induct)
    case (Cons p ps s' ss)
    then show ?case by (cases p) auto
  qed simp
  note mem = this
  have "set (links_of t sims) = {(a, b). \<exists>s. s \<in> set sims \<and> t \<le> fs_score s \<and>
      (a, b) \<in> {(fs_left s, fs_right s), (fs_right s, fs_left s)}}"
    by (auto simp: links_of_def split: if_splits)
  then show ?thesis unfolding mem similar_ids_def using score_ids by fastforce
qed

text \<open>C39: the clusters of likely duplicates are exactly the connected components, of two findings or
  more, of the pairs whose similarity reaches the threshold; no component is reported twice, and a
  finding belongs to at most one cluster. The search terminates on every set of findings.\<close>

theorem clusters_are_components:
  assumes "cluster_findings findings t = Inr (clusters, sims)"
  shows "set (map (\<lambda>c. set (cl_ids c)) clusters) =
      {s. 2 \<le> card s \<and> (\<exists>x \<in> f_id ` set findings. s = {y. (x, y) \<in> (similar_ids findings t)\<^sup>*})} \<and>
    distinct (map (\<lambda>c. set (cl_ids c)) clusters) \<and> (\<forall>c \<in> set clusters. sorted (cl_ids c) \<and> distinct (cl_ids c)) \<and>
    (\<forall>c \<in> set clusters. \<forall>d \<in> set clusters. set (cl_ids c) \<inter> set (cl_ids d) \<noteq> {} \<longrightarrow> set (cl_ids c) = set (cl_ids d))"
proof -
  let ?ordered = "sort_key f_id findings"
  obtain raw where raw: "rmap (\<lambda>(l, r). score_finding_similarity l r) (pairs_of ?ordered) = Inr raw"
    and cl: "clusters = sort_key (\<lambda>c. (- cl_confidence c, cl_id c)) (map (cluster_of t raw)
      (filter (\<lambda>c. length c \<ge> 2) (components_of (links_of t raw) [] (map f_id ?ordered))))"
    using assms by (auto simp: cluster_findings_def Let_def split: if_splits)
  let ?links = "links_of t raw"
  let ?comps = "components_of ?links [] (map f_id ?ordered)"
  note links = links_of_similar [OF raw, of t]
  have sym: "sym (set ?links)" unfolding links by (auto simp: similar_ids_def sym_def)
  have lt: "linked_to ?links x = {y. (x, y) \<in> (similar_ids findings t)\<^sup>*}" for x by (simp add: linked_to_def links)
  have comps: "set ` set ?comps = linked_to ?links ` f_id ` set findings" "list_all distinct ?comps" "distinct (map set ?comps)"
    using components_correct [OF sym, of "[]" "map f_id ?ordered"] by (simp_all add: image_image)
  have ids: "cl_ids (cluster_of t raw c) = sort c" for c by (simp add: cluster_of_def Let_def)
  let ?big = "filter (\<lambda>c. length c \<ge> 2) ?comps"
  have card: "card (set c) = length c" if "c \<in> set ?comps" for c
    using comps(2) that by (simp add: list_all_iff distinct_card)
  have sets: "mset (map (\<lambda>c. set (cl_ids c)) clusters) = mset (map set ?big)"
    by (simp add: cl ids image_mset.compositionality comp_def)
  have "set (map (\<lambda>c. set (cl_ids c)) clusters) = set ` set ?big"
    using mset_eq_setD [OF sets] by simp
  also have "\<dots> = {s \<in> set ` set ?comps. 2 \<le> card s}" using card by auto
  also have "\<dots> = {s. 2 \<le> card s \<and> (\<exists>x \<in> f_id ` set findings. s = {y. (x, y) \<in> (similar_ids findings t)\<^sup>*})}"
    unfolding comps(1) lt by auto
  finally have 1: "set (map (\<lambda>c. set (cl_ids c)) clusters) =
      {s. 2 \<le> card s \<and> (\<exists>x \<in> f_id ` set findings. s = {y. (x, y) \<in> (similar_ids findings t)\<^sup>*})}" .
  have "distinct (map set ?big)" using comps(3) by (rule distinct_map_filter)
  then have 2: "distinct (map (\<lambda>c. set (cl_ids c)) clusters)"
    using sets mset_eq_imp_distinct_iff by blast
  have 3: "\<forall>c \<in> set clusters. sorted (cl_ids c) \<and> distinct (cl_ids c)"
    using comps(2) by (auto simp: cl ids list_all_iff)
  have "set (cl_ids c) = set (cl_ids d)" if c: "c \<in> set clusters" and d: "d \<in> set clusters"
    and ne: "set (cl_ids c) \<inter> set (cl_ids d) \<noteq> {}" for c d
  proof -
    obtain z where z: "z \<in> set (cl_ids c)" "z \<in> set (cl_ids d)" using ne by blast
    have "linked_to ?links z = set (cl_ids e)" if "e \<in> set clusters" "z \<in> set (cl_ids e)" for e
    proof -
      have "set (cl_ids e) \<in> set (map (\<lambda>c. set (cl_ids c)) clusters)" using that(1) by simp
      then obtain x where x: "set (cl_ids e) = linked_to ?links x" unfolding 1 lt by blast
      with that(2) linked_to_eq [OF sym, of z x] show ?thesis by simp
    qed
    from this [OF c z(1)] this [OF d z(2)] show ?thesis by simp
  qed
  then have 4: "\<forall>c \<in> set clusters. \<forall>d \<in> set clusters.
      set (cl_ids c) \<inter> set (cl_ids d) \<noteq> {} \<longrightarrow> set (cl_ids c) = set (cl_ids d)" by blast
  show ?thesis by (intro conjI 1 2 3 4)
qed


definition ex_finding :: "string \<Rightarrow> string \<Rightarrow> finding" where
  "ex_finding i title = \<lparr>f_id = i, f_title = title, f_severity = SHigh, f_asset = ''a.example.com'',
     f_endpoint = None, f_summary = [], f_evidence = [], f_steps = [], f_impact = [],
     f_remediation = [], f_cwe = Some ''CWE-601'', f_cvss = None, f_status = ValidationRequired,
     f_discovered_by = ''strix'', f_validated_by = None\<rparr>"

definition ex_similarity :: finding_similarity where
  "ex_similarity = \<lparr>fs_left = ''f1'', fs_right = ''f2'', fs_score = 1 / 2, fs_same_asset = True, fs_same_endpoint = False,
     fs_same_cwe = True, fs_title = 0, fs_reasons = [''asset'', ''cwe'']\<rparr>"

lemma ex_values:
  "double (25 / 100) = 1 / 4" "py_sum [1 / 4, 0, 1 / 4, 0] = 1 / 2" "py_round 4 (1 / 2) = 1 / 2" "py_round 4 0 = 0"
  "jaccard (title_tokens ''redirect'') (title_tokens ''login'') = 0"
  "cluster_asset (ex_finding i t) = Inr ''a.example.com''" "cluster_cwe (ex_finding i t) = Some ''CWE-601''"
  "double (50 / 100) = 1 / 2" "double (1 / 2) = 1 / 2"
  by code_simp+

lemma ex_score: "score_finding_similarity (ex_finding ''f1'' ''redirect'') (ex_finding ''f2'' ''login'') = Inr ex_similarity"
proof -
  have f: "f_endpoint (ex_finding i t) = None" "f_title (ex_finding i t) = t" "f_id (ex_finding i t) = i" for i t
    by (simp_all add: ex_finding_def)
  have s: "py_sum [1 / 4, 0, 1 / 4, 0] = 1 / 2" by (rule ex_values)
  have c: "similarity_components True False True 0 = [(''asset'', 1 / 4), (''endpoint'', 0), (''cwe'', 1 / 4), (''title'', 0)]"
    unfolding similarity_components_def ex_values by (simp add: ex_values(4))
  have sc: "similarity_score True [(''asset'', 1 / 4), (''endpoint'', 0), (''cwe'', 1 / 4), (''title'', 0)] = 1 / 2"
    by (simp add: similarity_score_def s ex_values(3) del: Let_def)
  show ?thesis
    by (simp add: score_finding_similarity_def f ex_values(4-7) canonical_url_def same_text_def truthy_def c sc ex_similarity_def)
qed

lemma clusters_are_components_witness:
  "\<exists>c sims. cluster_findings [ex_finding ''f2'' ''login'', ex_finding ''f1'' ''redirect''] (1 / 2) = Inr ([c], sims) \<and>
     cl_ids c = [''f1'', ''f2''] \<and> (\<exists>x \<in> {''f1'', ''f2''}. {''f1'', ''f2''} =
       {y. (x, y) \<in> (similar_ids [ex_finding ''f2'' ''login'', ex_finding ''f1'' ''redirect''] (1 / 2))\<^sup>*})"
proof -
  let ?fs = "[ex_finding ''f2'' ''login'', ex_finding ''f1'' ''redirect'']"
  have id: "f_id (ex_finding i t) = i" for i t by (simp add: ex_finding_def)
  have ord: "sort_key f_id ?fs = [ex_finding ''f1'' ''redirect'', ex_finding ''f2'' ''login'']"
    by (simp add: id)
  let ?links = "[(''f1'', ''f2''), (''f2'', ''f1'')]"
  have links: "links_of (1 / 2) [ex_similarity] = ?links" by (simp add: links_of_def ex_similarity_def)
  have comps: "components_of ?links [] [''f1'', ''f2''] = [[''f2'', ''f1'']]" by code_simp
  let ?c = "cluster_of (1 / 2) [ex_similarity] [''f2'', ''f1'']"
  have clusters: "cluster_findings ?fs (1 / 2) = Inr ([?c], [ex_similarity])"
    by (simp add: cluster_findings_def ord ex_score links comps id ex_values(9) del: components_of.simps)
  have ids: "cl_ids ?c = [''f1'', ''f2'']" unfolding cluster_of_def Let_def by simp
  have "{''f1'', ''f2''} \<in> set (map (\<lambda>c. set (cl_ids c)) [?c])" by (simp add: ids)
  then have "{''f1'', ''f2''} \<in> {s. 2 \<le> card s \<and> (\<exists>x \<in> f_id ` set ?fs. s = {y. (x, y) \<in> (similar_ids ?fs (1 / 2))\<^sup>*})}"
    using clusters_are_components [OF clusters] by (simp only:)
  then obtain x where x: "x \<in> f_id ` set ?fs" "{''f1'', ''f2''} = {y. (x, y) \<in> (similar_ids ?fs (1 / 2))\<^sup>*}"
    unfolding mem_Collect_eq by (elim conjE bexE)
  have "f_id ` set ?fs = {''f1'', ''f2''}" by (auto simp: id)
  with x have "\<exists>x \<in> {''f1'', ''f2''}. {''f1'', ''f2''} = {y. (x, y) \<in> (similar_ids ?fs (1 / 2))\<^sup>*}" by (intro bexI [of _ x]) simp_all
  with clusters ids show ?thesis by (intro exI conjI)
qed

end
