(* ===== verification/PendingValidation.thy ===== *)
theory PendingValidation
  imports FindingClusters
begin

text \<open>
  \<open>backend/app/finding_consensus.py\<close>, \<open>backend/app/evidence_quality.py\<close>, and the selection of the findings
  to validate in \<open>orchestrator.py\<close> (\<open>_validation_saturated_cluster_ids\<close>, \<open>_pending_findings\<close>): one
  finding per cluster of likely duplicates, none from a cluster with a strongly validated member.
\<close>

section \<open>Consensus\<close>

record finding_consensus =
  co_finding :: string
  co_sources_count :: nat
  co_validators :: nat
  co_backed :: nat
  co_evidence_sources :: nat
  co_corroborated :: bool
  co_level :: string
  co_score :: rat
  co_sources :: "string list"

text \<open>\<open>children.get(id, [])\<close>: an item is listed once per mention among its parents.\<close>

definition children_of :: "obs_graph \<Rightarrow> string \<Rightarrow> observation list" where
  "children_of g pid = concat (map (\<lambda>it. replicate (count_list (ob_parents it) pid) it) (graph_values g))"

definition add_if :: "bool \<Rightarrow> rat \<Rightarrow> rat \<Rightarrow> rat" where
  "add_if c d score = (if c then double (score + double d) else score)"

definition consensus_score :: "bool \<Rightarrow> bool \<Rightarrow> bool \<Rightarrow> bool \<Rightarrow> bool \<Rightarrow> rat" where
  "consensus_score indep backed evidence validators sources =
     min 1 (py_round 4 (add_if sources (5 / 100) (add_if validators (10 / 100) (add_if evidence (10 / 100)
       (add_if backed (20 / 100) (add_if indep (25 / 100) (double (30 / 100))))))))"

definition consensus_of :: "obs_graph \<Rightarrow> observation \<Rightarrow> finding_consensus" where
  "consensus_of g f =
     (let indep = filter (\<lambda>v. ob_kind v = Validation \<and> ob_value v = ''observed'' \<and> ob_source v \<noteq> ob_source f)
            (children_of g (ob_id f));
          evidence_for = (\<lambda>vid. filter (\<lambda>e. ob_kind e = Evidence) (children_of g vid));
          evidence = concat (map evidence_for (remdups (map ob_id indep)));
          validators = sorted_set (map ob_source indep);
          backed = sorted_set (map ob_source (filter (\<lambda>v. evidence_for (ob_id v) \<noteq> []) indep));
          sources = sorted_set (map ob_source evidence);
          all_sources = sorted_set (ob_source f # validators @ sources) in
      \<lparr>co_finding = remove_prefix ''finding:'' (ob_id f), co_sources_count = length all_sources,
       co_validators = length validators, co_backed = length backed, co_evidence_sources = length sources,
       co_corroborated = (backed \<noteq> []),
       co_level = (if 2 \<le> length backed then ''quorum''
         else if backed \<noteq> [] then ''single_evidence_backed_validator'' else ''none''),
       co_score = consensus_score (indep \<noteq> []) (backed \<noteq> []) (evidence \<noteq> []) (2 \<le> length validators) (2 \<le> length sources),
       co_sources = all_sources\<rparr>)"

definition build_finding_consensus :: "obs_graph \<Rightarrow> finding_consensus list" where
  "build_finding_consensus g = sort_key (\<lambda>c. (- co_score c, co_finding c)) (map (consensus_of g) (by_kind Finding g))"

section \<open>Evidence quality\<close>

record evidence_quality =
  eq_finding :: string
  eq_score :: rat
  eq_grade :: string
  eq_independent :: bool
  eq_artifact :: bool
  eq_attested :: bool
  eq_sources :: nat
  eq_chain :: bool
  eq_corroborated :: bool
  eq_components :: "(string \<times> rat) list"
  eq_issues :: "string list"

definition quality_grade :: "rat \<Rightarrow> bool \<Rightarrow> string" where
  "quality_grade score attested =
     (if score \<ge> double (80 / 100) \<and> attested then ''high'' else if score \<ge> double (55 / 100) then ''medium'' else ''low'')"

definition hex_char :: "char \<Rightarrow> bool" where
  "hex_char c = (c \<in> set ''0123456789abcdefABCDEF'')"

definition attests :: "observation \<Rightarrow> bool" where
  "attests item = (pv_truthy (pget (ob_meta item) ''artifact_id'') \<and>
     (case pget (ob_meta item) ''artifact_sha256'' of PStr s \<Rightarrow> length s = 64 \<and> list_all hex_char s | _ \<Rightarrow> False))"

definition quality_components :: "bool \<Rightarrow> bool \<Rightarrow> bool \<Rightarrow> bool \<Rightarrow> nat \<Rightarrow> bool \<Rightarrow> bool \<Rightarrow> (string \<times> rat) list" where
  "quality_components indep artifact evidence attested sources chain corroborated =
     [(''independent_validation'', if indep then double (35 / 100) else 0),
      (''artifact_backing'', if artifact then double (10 / 100) else if evidence then double (5 / 100) else 0),
      (''artifact_integrity'', if attested then double (15 / 100) else 0),
      (''source_diversity'', if sources \<ge> 3 then double (20 / 100) else if sources \<ge> 2 then double (10 / 100) else 0),
      (''chain_integrity'', if chain then double (15 / 100) else 0),
      (''corroboration'', if corroborated then double (5 / 100) else 0)]"

definition quality_of ::
  "obs_graph \<Rightarrow> evidence_chain list \<Rightarrow> finding_consensus list \<Rightarrow> observation \<Rightarrow> evidence_quality" where
  "quality_of g ecs consensus f =
     (let chain = map_of (rev (map (\<lambda>c. (ec_finding_id c, c)) ecs)) (ob_id f);
          agreed = map_of (rev (map (\<lambda>c. (''finding:'' @ co_finding c, c)) consensus)) (ob_id f);
          items = List.map_filter (map_of g) (case chain of None \<Rightarrow> [] | Some c \<Rightarrow> ec_evidence_ids c);
          artifact = list_ex (\<lambda>e. pv_truthy (pget (ob_meta e) ''artifact_id'')) items;
          attested = list_ex attests items;
          indep = (case chain of None \<Rightarrow> False | Some c \<Rightarrow> ec_independent c);
          sources = (case agreed of None \<Rightarrow> 0 | Some c \<Rightarrow> co_sources_count c);
          chain_ok = (case chain of None \<Rightarrow> False
            | Some c \<Rightarrow> ec_ancestor_ids c \<noteq> [] \<and> ec_dangling c = [] \<and> \<not> ec_cycle c);
          corroborated = (case agreed of None \<Rightarrow> False | Some c \<Rightarrow> co_corroborated c);
          components = quality_components indep artifact (items \<noteq> []) attested sources chain_ok corroborated;
          score = py_round 4 (min 1 (py_sum (map snd components))) in
      \<lparr>eq_finding = remove_prefix ''finding:'' (ob_id f), eq_score = score, eq_grade = quality_grade score attested,
       eq_independent = indep, eq_artifact = artifact, eq_attested = attested, eq_sources = sources,
       eq_chain = chain_ok, eq_corroborated = corroborated, eq_components = components,
       eq_issues = issue (\<not> indep) ''missing_independent_observed_validation''
         @ (if items = [] then [''missing_linked_evidence'']
            else if \<not> artifact then [''evidence_not_artifact_backed'']
            else if \<not> attested then [''artifact_integrity_not_attested''] else [])
         @ issue (sources < 2) ''low_source_diversity''
         @ issue (\<not> chain_ok) ''incomplete_or_corrupt_chain''
         @ issue (\<not> corroborated) ''not_corroborated''\<rparr>)"

definition build_evidence_quality :: "obs_graph \<Rightarrow> evidence_quality list" where
  "build_evidence_quality g =
     sort_key (\<lambda>q. (eq_score q, eq_finding q))
       (map (quality_of g (build_evidence_chains g) (build_finding_consensus g)) (by_kind Finding g))"

section \<open>Which findings to validate\<close>

text \<open>The ids of the findings observed by an independent validation, without their prefix.\<close>

definition strong_quality :: "evidence_quality \<Rightarrow> bool" where
  "strong_quality q = (eq_grade q = ''high'' \<and> eq_attested q \<and> eq_corroborated q)"

definition saturated_cluster_ids :: "finding list \<Rightarrow> obs_graph \<Rightarrow> string list result" where
  "saturated_cluster_ids findings g =
     rbind (cluster_findings findings (3 / 4)) (\<lambda>(clusters, sims).
       if clusters = [] then Inr []
       else (let quality = map_of (rev (map (\<lambda>q. (eq_finding q, q)) (build_evidence_quality g)));
                 observed = remove_prefix ''finding:'' ` vs_observed (analyze_validation_state g) in
         Inr (map cl_id (filter (\<lambda>c. cl_confidence c \<ge> double (90 / 100) \<and>
           list_ex (\<lambda>i. i \<in> observed \<and> (case quality i of None \<Rightarrow> False | Some q \<Rightarrow> strong_quality q)) (cl_ids c))
           clusters))))"

definition cluster_by_member :: "finding_cluster list \<Rightarrow> string \<Rightarrow> string option" where
  "cluster_by_member clusters =
     map_of (rev (concat (map (\<lambda>c. map (\<lambda>i. (i, cl_id c)) (cl_ids c)) clusters)))"

text \<open>The loop over the ordered findings.\<close>

fun select_representatives ::
  "(string \<Rightarrow> string option) \<Rightarrow> string list \<Rightarrow> string list \<Rightarrow> finding list \<Rightarrow> finding list" where
  "select_representatives member saturated taken [] = []"
| "select_representatives member saturated taken (f # fs) =
     (case member (f_id f) of
        None \<Rightarrow> f # select_representatives member saturated taken fs
      | Some k \<Rightarrow>
          if k \<in> set saturated \<or> k \<in> set taken then select_representatives member saturated taken fs
          else f # select_representatives member saturated (k # taken) fs)"

definition validation_order :: "(string \<Rightarrow> string) \<Rightarrow> finding list \<Rightarrow> obs_graph \<Rightarrow> finding list" where
  "validation_order H waiting g =
     (let priority = map_of (rev (map (\<lambda>p. (fp_id p, fp_score p)) (rank_findings waiting g)));
          hypotheses = map_of (rev (map (\<lambda>h. (hy_finding h, hy_confidence h)) (build_hypotheses H g))) in
      sort_key (\<lambda>f. (- (case priority (f_id f) of Some s \<Rightarrow> s | None \<Rightarrow> 0),
        case hypotheses (f_id f) of Some c \<Rightarrow> c | None \<Rightarrow> 0, f_id f)) waiting)"

definition unobserved :: "finding list \<Rightarrow> obs_graph \<Rightarrow> finding list" where
  "unobserved findings g = filter (\<lambda>f. ''finding:'' @ f_id f \<notin> vs_observed (analyze_validation_state g)) findings"

definition pending_findings :: "(string \<Rightarrow> string) \<Rightarrow> finding list \<Rightarrow> obs_graph \<Rightarrow> finding list result" where
  "pending_findings H findings g =
     rbind (cluster_findings findings (3 / 4)) (\<lambda>(clusters, sims).
     rbind (saturated_cluster_ids findings g) (\<lambda>saturated.
       Inr (select_representatives (cluster_by_member clusters) saturated []
         (validation_order H (unobserved findings g) g))))"

section \<open>One representative per cluster\<close>

lemma select_representatives_spec:
  "set (select_representatives member saturated taken fs) \<subseteq> set fs \<and>
   (\<forall>f \<in> set (select_representatives member saturated taken fs). \<forall>k. member (f_id f) = Some k \<longrightarrow>
      k \<notin> set saturated \<and> k \<notin> set taken) \<and>
   distinct (List.map_filter (\<lambda>f. member (f_id f)) (select_representatives member saturated taken fs)) \<and>
   (\<forall>f \<in> set fs. f \<in> set (select_representatives member saturated taken fs) \<or>
      (\<exists>k. member (f_id f) = Some k \<and> (k \<in> set saturated \<or> k \<in> set taken \<or>
        (\<exists>r \<in> set (select_representatives member saturated taken fs). member (f_id r) = Some k))))"
proof (induction fs arbitrary: taken)
  case (Cons f fs)
  show ?case
  proof (cases "member (f_id f)")
    case None
    with Cons [of taken] show ?thesis by (auto simp: map_filter_simps)
  next
    case (Some k)
    show ?thesis
    proof (cases "k \<in> set saturated \<or> k \<in> set taken")
      case True
      with Some Cons [of taken] show ?thesis by (auto simp: map_filter_simps)
    next
      case False
      let ?rest = "select_representatives member saturated (k # taken) fs"
      note IH = Cons [of "k # taken"]
      have "k \<notin> set (List.map_filter (\<lambda>f. member (f_id f)) ?rest)"
        using IH by (auto simp: map_filter_def)
      moreover have "select_representatives member saturated taken (f # fs) = f # ?rest" using Some False by simp
      ultimately show ?thesis using IH Some False by (auto simp: map_filter_simps)
    qed
  qed
qed (simp add: map_filter_simps)


definition ex_two :: "finding list" where
  "ex_two = [ex_finding ''f2'' ''login'', ex_finding ''f1'' ''redirect'']"

lemma ex_two_facts:
  shows "cluster_findings ex_two (3 / 4) = Inr ([], [ex_similarity])" and "saturated_cluster_ids ex_two [] = Inr []"
    and "unobserved ex_two [] = ex_two"
proof -
  have id: "f_id (ex_finding i t) = i" for i t by (simp add: ex_finding_def)
  have order: "sort_key f_id ex_two = [ex_finding ''f1'' ''redirect'', ex_finding ''f2'' ''login'']"
    by (simp add: ex_two_def id)
  have links: "links_of (3 / 4) [ex_similarity] = []" by (simp add: links_of_def ex_similarity_def)
  have comps: "components_of [] [] [''f1'', ''f2''] = [[''f1''], [''f2'']]" by code_simp
  show c: "cluster_findings ex_two (3 / 4) = Inr ([], [ex_similarity])"
    by (simp add: cluster_findings_def order ex_score links comps id ex_values(9) del: components_of.simps)
  show "saturated_cluster_ids ex_two [] = Inr []" by (simp add: saturated_cluster_ids_def c)
  have "vs_observed (analyze_validation_state []) = {}" by code_simp
  then show "unobserved ex_two [] = ex_two" by (simp add: unobserved_def)
qed


end
