(* ===== verification/WebOrigin.thy ===== *)
theory WebOrigin
  imports ScopePolicy PyData
begin

text \<open>
  Web origins as several modules compare them: \<open>_origin\<close> and \<open>_asset_matches_origin\<close> of
  \<open>backend/app/no_finding_recovery.py\<close> and the canonical form of an endpoint in
  \<open>attack_surface.py\<close>. Paths are rebuilt by \<open>urlunsplit\<close> without query and fragment.
\<close>

type_synonym web_origin = "string \<times> string \<times> int"

text \<open>\<open>_origin\<close> and \<open>_asset_matches_origin\<close> of \<open>no_finding_recovery.py\<close>.\<close>

definition web_host :: "split_result \<Rightarrow> string" where
  "web_host p = rstrip_dot (py_lower (case sp_hostname p of None \<Rightarrow> [] | Some h \<Rightarrow> h))"

text \<open>\<open>.username\<close> or \<open>.password\<close> is present when the authority has an \<open>@\<close>.\<close>

definition embeds_credentials :: "split_result \<Rightarrow> bool" where
  "embeds_credentials p = (CHR ''@'' \<in> set (sp_netloc p))"

definition web_origin_of :: "string \<Rightarrow> web_origin option" where
  "web_origin_of value =
     (case urlsplit (py_strip value) of
        Inl _ \<Rightarrow> None
      | Inr p \<Rightarrow>
          (let scheme = py_lower (sp_scheme p); host = web_host p in
           if scheme \<notin> {''http'', ''https''} \<or> host = [] \<or> embeds_credentials p then None
           else (case sp_port p of
               Inl _ \<Rightarrow> None
             | Inr (Some n) \<Rightarrow> Some (scheme, host, n)
             | Inr None \<Rightarrow> Some (scheme, host, if scheme = ''https'' then 443 else 80))))"

definition asset_matches_origin :: "string \<Rightarrow> web_origin \<Rightarrow> bool" where
  "asset_matches_origin value target =
     (let raw = py_strip value in
      if has_substr ''://'' raw then web_origin_of raw = Some target
      else (case urlsplit (''//'' @ raw) of
          Inl _ \<Rightarrow> False
        | Inr p \<Rightarrow>
            (case sp_port p of
               Inl _ \<Rightarrow> False
             | Inr port \<Rightarrow>
                 if embeds_credentials p \<or> sp_path p \<noteq> [] \<or> sp_query p \<noteq> [] \<or> sp_fragment p \<noteq> [] then False
                 else web_host p = fst (snd target) \<and> (port = None \<or> port = Some (snd (snd target))))))"

text \<open>\<open>urlunsplit\<close> with a scheme and an authority, no query and no fragment.\<close>

definition unsplit_path :: "string \<Rightarrow> string \<Rightarrow> string \<Rightarrow> string" where
  "unsplit_path scheme netloc path =
     scheme @ ''://'' @ netloc @ (if path \<noteq> [] \<and> hd path \<noteq> CHR ''/'' then ''/'' @ path else path)"

text \<open>\<open>canonical_endpoint\<close> of \<open>attack_surface.py\<close>: its \<open>url\<close> where \<open>valid\<close> holds, \<open>None\<close> where it does
  not. (The names of the query parameters, which it returns as well, have no part in either.)\<close>

definition canonical_endpoint_url :: "string \<Rightarrow> string option" where
  "canonical_endpoint_url value =
     (if list_ex (\<lambda>c. (of_char c :: nat) < 32 \<or> (of_char c :: nat) = 127) value then None
      else (case urlsplit value of
          Inl _ \<Rightarrow> None
        | Inr p \<Rightarrow>
            (let scheme = py_lower (sp_scheme p); host = web_host p in
             case sp_port p of
               Inl _ \<Rightarrow> None
             | Inr port \<Rightarrow>
                 if scheme \<notin> {''http'', ''https''} \<or> host = [] \<or> embeds_credentials p \<or> port = Some 0 then None
                 else (let bracketed = (if CHR '':'' \<in> set host then ''['' @ host @ '']'' else host);
                           netloc = (case port of None \<Rightarrow> bracketed
                             | Some n \<Rightarrow> if (scheme = ''http'' \<and> n = 80) \<or> (scheme = ''https'' \<and> n = 443)
                                 then bracketed else bracketed @ '':'' @ int_str n) in
                       Some (unsplit_path scheme netloc (if sp_path p = [] then ''/'' else sp_path p))))))"

end
