(* ===== verification/Ancestry.thy ===== *)
theory Ancestry
  imports ObservationGraph
begin

text \<open>
  The loop with which several modules decide whether an observation may be attributed to a target:
  it follows \<open>parent_ids\<close> upwards, last in first out, stops at assets, and gives up at an ancestor
  that is missing or not acceptable. It ends on every graph, cyclic ones included, and its answer
  is the one the ancestry relation gives.
\<close>

section \<open>The walk\<close>

definition observations_by_id :: "obs_graph \<Rightarrow> (string \<times> observation) list" where
  "observations_by_id g = foldl (\<lambda>d ob. dict_set (ob_id ob) ob d) [] (graph_values g)"

lemma walk_less:
  assumes "map_of obs pid = Some x" and "pid \<notin> set seen"
  shows "card (fst ` set obs - insert pid (set seen)) < card (fst ` set obs - set seen)"
proof (rule psubset_card_mono)
  have "pid \<in> fst ` set obs" using assms(1) by (metis map_of_eq_None_iff option.distinct(1))
  then show "fst ` set obs - insert pid (set seen) \<subset> fst ` set obs - set seen" using assms(2) by auto
qed simp

text \<open>The loop: \<open>ok\<close> decides whether an ancestor is acceptable; \<open>None\<close> when one is missing or not,
  otherwise the assets met.\<close>

function ancestor_walk ::
  "(observation \<Rightarrow> bool) \<Rightarrow> (string \<times> observation) list \<Rightarrow> string list \<Rightarrow> string list \<Rightarrow> observation list \<Rightarrow>
   observation list option" where
  "ancestor_walk ok obs pending seen linked =
     (if pending = [] then Some linked
      else (let pid = last pending; rest = butlast pending in
        if pid \<in> set seen then ancestor_walk ok obs rest seen linked
        else (case map_of obs pid of
            None \<Rightarrow> None
          | Some parent \<Rightarrow>
              if \<not> ok parent then None
              else if ob_kind parent = Asset then ancestor_walk ok obs rest (pid # seen) (linked @ [parent])
              else ancestor_walk ok obs (rest @ ob_parents parent) (pid # seen) linked)))"
  by pat_completeness auto
termination
  by (relation "measures [\<lambda>(ok, obs, p, seen, l). card (fst ` set obs - set seen),
      \<lambda>(ok, obs, p, seen, l). length p]") (auto simp: walk_less)

declare ancestor_walk.simps [simp del]

section \<open>The ancestors of an observation\<close>

text \<open>Reachable through parents, not beyond an asset.\<close>

inductive_set ancestry :: "(string \<times> observation) list \<Rightarrow> string set \<Rightarrow> string set"
  for obs and start where
  here: "p \<in> start \<Longrightarrow> p \<in> ancestry obs start"
| up: "p \<in> ancestry obs start \<Longrightarrow> map_of obs p = Some ob \<Longrightarrow> ob_kind ob \<noteq> Asset \<Longrightarrow>
    q \<in> set (ob_parents ob) \<Longrightarrow> q \<in> ancestry obs start"

definition ancestor_ok :: "(observation \<Rightarrow> bool) \<Rightarrow> (string \<times> observation) list \<Rightarrow> string \<Rightarrow> bool" where
  "ancestor_ok ok obs p = (case map_of obs p of None \<Rightarrow> False
     | Some ob \<Rightarrow> ok ob)"

definition linked_assets :: "(string \<times> observation) list \<Rightarrow> string set \<Rightarrow> observation set" where
  "linked_assets obs ps = {ob. \<exists>p \<in> ps. map_of obs p = Some ob \<and> ob_kind ob = Asset}"

lemma ancestry_mono: "start \<subseteq> ancestry obs start' \<Longrightarrow> ancestry obs start \<subseteq> ancestry obs start'"
proof
  fix p assume s: "start \<subseteq> ancestry obs start'"
  show "p \<in> ancestry obs start \<Longrightarrow> p \<in> ancestry obs start'"
    by (induction rule: ancestry.induct) (use s in \<open>auto intro: ancestry.up\<close>)
qed

lemma ancestry_eqI:
  "start \<subseteq> ancestry obs start' \<Longrightarrow> start' \<subseteq> ancestry obs start \<Longrightarrow> ancestry obs start = ancestry obs start'"
  using ancestry_mono by (metis subset_antisym)

lemma ancestry_closed:
  assumes "\<And>p ob. p \<in> s \<Longrightarrow> map_of obs p = Some ob \<Longrightarrow> ob_kind ob \<noteq> Asset \<Longrightarrow> set (ob_parents ob) \<subseteq> s"
  shows "ancestry obs s = s"
proof
  show "ancestry obs s \<subseteq> s"
  proof
    fix p show "p \<in> ancestry obs s \<Longrightarrow> p \<in> s"
      by (induction rule: ancestry.induct) (use assms in auto)
  qed
qed (auto intro: ancestry.here)

text \<open>What the walk has established when it has seen \<open>seen\<close> and still has \<open>pending\<close> to do.\<close>

definition walk_inv ::
  "(observation \<Rightarrow> bool) \<Rightarrow> (string \<times> observation) list \<Rightarrow> string list \<Rightarrow> string list \<Rightarrow> observation list \<Rightarrow> bool" where
  "walk_inv ok obs pending seen linked \<longleftrightarrow>
     (\<forall>p \<in> set seen. ancestor_ok ok obs p) \<and> set linked = linked_assets obs (set seen) \<and>
     (\<forall>p \<in> set seen. \<forall>ob. map_of obs p = Some ob \<longrightarrow> ob_kind ob \<noteq> Asset \<longrightarrow>
        set (ob_parents ob) \<subseteq> set seen \<union> set pending)"

lemma last_split: "p \<noteq> [] \<Longrightarrow> set p = insert (last p) (set (butlast p))"
  by (metis append_butlast_last_id list.simps(15) rotate1.simps(2) set_rotate1)

lemma walk_correct:
  assumes "walk_inv ok obs pending seen linked"
  shows "case ancestor_walk ok obs pending seen linked of
      None \<Rightarrow> \<exists>p \<in> ancestry obs (set seen \<union> set pending). \<not> ancestor_ok ok obs p
    | Some res \<Rightarrow> (\<forall>p \<in> ancestry obs (set seen \<union> set pending). ancestor_ok ok obs p) \<and>
        set res = linked_assets obs (ancestry obs (set seen \<union> set pending))"
  using assms
proof (induction ok obs pending seen linked rule: ancestor_walk.induct)
  case (1 ok obs pending seen linked)
  show ?case
  proof (cases "pending = []")
    case True
    have "ancestry obs (set seen) = set seen"
      by (rule ancestry_closed) (use 1(4) True in \<open>auto simp: walk_inv_def\<close>)
    with True 1(4) show ?thesis by (simp add: ancestor_walk.simps [of _ _ "[]"] walk_inv_def)
  next
    case False
    let ?pid = "last pending" and ?rest = "butlast pending"
    have split: "set pending = insert ?pid (set ?rest)" using False by (rule last_split)
    have pid: "?pid \<in> ancestry obs (set seen \<union> set pending)" using False by (intro ancestry.here) simp
    show ?thesis
    proof (cases "?pid \<in> set seen")
      case True
      have same: "set seen \<union> set pending = set seen \<union> set ?rest" using True split by auto
      then have "walk_inv ok obs ?rest seen linked" using 1(4) by (simp add: walk_inv_def)
      note ih = 1(1) [OF False refl refl True this]
      have step: "ancestor_walk ok obs pending seen linked = ancestor_walk ok obs ?rest seen linked"
        using False True by (simp add: ancestor_walk.simps [of _ _ pending] Let_def)
      from ih show ?thesis unfolding same step .
    next
      case nseen: False
      show ?thesis
      proof (cases "map_of obs ?pid")
        case None
        then have "\<not> ancestor_ok ok obs ?pid" by (simp add: ancestor_ok_def)
        with pid False nseen None show ?thesis by (auto simp: ancestor_walk.simps [of _ _ pending] Let_def)
      next
        case (Some ob)
        show ?thesis
        proof (cases "ok ob")
          case False
          then have "\<not> ancestor_ok ok obs ?pid" using Some by (simp add: ancestor_ok_def)
          with pid \<open>pending \<noteq> []\<close> nseen Some False show ?thesis
            by (auto simp: ancestor_walk.simps [of _ _ pending] Let_def)
        next
          case ok: True
          have pok: "ancestor_ok ok obs ?pid" using ok Some by (simp add: ancestor_ok_def)
          show ?thesis
          proof (cases "ob_kind ob = Asset")
            case True
            have "set (linked @ [ob]) = linked_assets obs (set (?pid # seen))"
              using 1(4) True Some by (auto simp: walk_inv_def linked_assets_def)
            with pok have "walk_inv ok obs ?rest (?pid # seen) (linked @ [ob])"
              using 1(4) True Some unfolding walk_inv_def split by auto
            note ih = 1(2) [OF False refl refl nseen Some _ True this, simplified ok, simplified]
            have same: "set seen \<union> set pending = set (?pid # seen) \<union> set ?rest" using split by auto
            have step: "ancestor_walk ok obs pending seen linked = ancestor_walk ok obs ?rest (?pid # seen) (linked @ [ob])"
              using False nseen Some True ok by (simp add: ancestor_walk.simps [of _ _ pending] Let_def)
            from ih show ?thesis unfolding same step by simp
          next
            case na: False
            have "set linked = linked_assets obs (set (?pid # seen))"
              using 1(4) na Some by (auto simp: walk_inv_def linked_assets_def)
            with pok have "walk_inv ok obs (?rest @ ob_parents ob) (?pid # seen) linked"
              using 1(4) na Some unfolding walk_inv_def split by (simp, blast)
            note ih = 1(3) [OF False refl refl nseen Some _ na this, simplified ok, simplified]
            have same: "ancestry obs (set seen \<union> set pending) =
                ancestry obs (set (?pid # seen) \<union> set (?rest @ ob_parents ob))"
            proof (rule ancestry_eqI)
              show "set seen \<union> set pending \<subseteq> ancestry obs (set (?pid # seen) \<union> set (?rest @ ob_parents ob))"
                using split by (auto intro: ancestry.here)
              show "set (?pid # seen) \<union> set (?rest @ ob_parents ob) \<subseteq> ancestry obs (set seen \<union> set pending)"
                using ancestry.up [OF pid Some na] split by (auto intro: ancestry.here)
            qed
            have step: "ancestor_walk ok obs pending seen linked =
                ancestor_walk ok obs (?rest @ ob_parents ob) (?pid # seen) linked"
              using False nseen Some na ok by (auto simp: ancestor_walk.simps [of _ _ pending] Let_def)
            from ih show ?thesis unfolding same step by simp
          qed
        qed
      qed
    qed
  qed
qed

end
