(* ===== verification/ReconSwarm.thy ===== *)
theory ReconSwarm
  imports WebOrigin Ancestry
begin

text \<open>
  \<open>backend/app/agent_registry.py\<close>, \<open>recon_swarm.py\<close> and \<open>swarm_coordinator.py\<close>: the agents, the
  reconnaissance tasks planned for the target of a campaign from its graph, and the coordinator
  that checks each task against the registered capabilities and keeps the batch within its
  budget. The scope checker is an argument, as in the code.
\<close>

section \<open>Agents\<close>

datatype agent_role = RoleRecon | RoleAnalysis | RoleValidation | RoleReporting | RoleControl

record agent_profile =
  ag_name :: string
  ag_role :: agent_role
  ag_actions :: "string list"
  ag_description :: string
  ag_network :: bool

definition agents :: "agent_profile list" where
  "agents =
    [\<lparr>ag_name = ''scope-coordinator'', ag_role = RoleControl, ag_actions = [''inventory'', ''stop''],
      ag_description = ''Enforces authorization, scope and campaign stop conditions.'', ag_network = False\<rparr>,
     \<lparr>ag_name = ''recon-agent'', ag_role = RoleRecon, ag_actions = [''crawl''],
      ag_description = ''Coordinates authorized reconnaissance.'', ag_network = True\<rparr>,
     \<lparr>ag_name = ''crawler-agent'', ag_role = RoleRecon, ag_actions = [''recon:crawl''],
      ag_description = ''Performs bounded same-origin multi-page crawling.'', ag_network = True\<rparr>,
     \<lparr>ag_name = ''endpoint-agent'', ag_role = RoleRecon, ag_actions = [''recon:map_endpoints''],
      ag_description = ''Refreshes bounded endpoint inventory.'', ag_network = True\<rparr>,
     \<lparr>ag_name = ''tech-agent'', ag_role = RoleRecon, ag_actions = [''recon:detect_technology''],
      ag_description = ''Collects bounded technology and edge-protection observations.'', ag_network = True\<rparr>,
     \<lparr>ag_name = ''form-agent'', ag_role = RoleRecon, ag_actions = [''recon:map_forms''],
      ag_description = ''Maps read-only form metadata within the declared origin.'', ag_network = True\<rparr>,
     \<lparr>ag_name = ''browser-agent'', ag_role = RoleRecon, ag_actions = [''recon:browser_observe''],
      ag_description = ''Collects bounded browser-rendered observations.'', ag_network = True\<rparr>,
     \<lparr>ag_name = ''analysis-agent'', ag_role = RoleAnalysis, ag_actions = [''scan''],
      ag_description = ''Runs bounded, policy-checked analysis through approved scanners.'', ag_network = True\<rparr>,
     \<lparr>ag_name = ''validation-agent'', ag_role = RoleValidation, ag_actions = [''validate''],
      ag_description = ''Collects independent, non-destructive validation evidence.'', ag_network = True\<rparr>,
     \<lparr>ag_name = ''report-agent'', ag_role = RoleReporting, ag_actions = [''report''],
      ag_description = ''Correlates validated evidence and generates submission-ready reports.'', ag_network = False\<rparr>]"

definition agent_for_action :: "string \<Rightarrow> agent_profile result" where
  "agent_for_action action =
     (case filter (\<lambda>a. action \<in> set (ag_actions a)) agents of
        [a] \<Rightarrow> Inr a
      | _ \<Rightarrow> Inl (ValueError (''no unique agent registered for action: '' @ action)))"

definition agent_by_name :: "string \<Rightarrow> agent_profile result" where
  "agent_by_name name =
     (case filter (\<lambda>a. ag_name a = name) agents of
        [a] \<Rightarrow> Inr a
      | _ \<Rightarrow> Inl (ValueError (''no unique agent registered by name: '' @ name)))"

section \<open>Capabilities and tasks\<close>

record recon_capability =
  rc_agent :: string
  rc_task_kind :: string
  rc_observation_kinds :: "string list"
  rc_network :: bool
  rc_same_origin :: bool
  rc_read_only :: bool
  rc_methods :: "string list"
  rc_max_targets :: int
  rc_max_requests :: int

record recon_task =
  rt_kind :: string
  rt_agent :: string
  rt_target :: string
  rt_priority :: int
  rt_reason :: string
  rt_requests :: int
  rt_methods :: "string list"
  rt_same_origin :: bool
  rt_read_only :: bool

definition capability :: "string \<Rightarrow> string \<Rightarrow> string list \<Rightarrow> int \<Rightarrow> int \<Rightarrow> recon_capability" where
  "capability agent kind kinds targets requests =
     \<lparr>rc_agent = agent, rc_task_kind = kind, rc_observation_kinds = kinds, rc_network = True,
      rc_same_origin = True, rc_read_only = True, rc_methods = [''GET'', ''HEAD''],
      rc_max_targets = targets, rc_max_requests = requests\<rparr>"

definition recon_capabilities :: "recon_capability list" where
  "recon_capabilities =
    [capability ''crawler-agent'' ''crawl'' [''endpoint'', ''form''] 5 40,
     capability ''endpoint-agent'' ''map_endpoints'' [''endpoint''] 10 20,
     capability ''tech-agent'' ''detect_technology'' [''technology'', ''waf''] 10 8,
     capability ''form-agent'' ''map_forms'' [''form''] 10 12,
     capability ''browser-agent'' ''browser_observe'' [''endpoint'', ''form'', ''technology''] 3 25]"

text \<open>The dataclass defaults of a task: \<open>GET\<close> and \<open>HEAD\<close>, same origin, read only.\<close>

definition new_task :: "string \<Rightarrow> string \<Rightarrow> string \<Rightarrow> int \<Rightarrow> string \<Rightarrow> int \<Rightarrow> recon_task" where
  "new_task kind agent target priority reason requests =
     \<lparr>rt_kind = kind, rt_agent = agent, rt_target = target, rt_priority = priority, rt_reason = reason,
      rt_requests = requests, rt_methods = [''GET'', ''HEAD''], rt_same_origin = True, rt_read_only = True\<rparr>"

section \<open>Origins\<close>

type_synonym origin = "string \<times> string option \<times> int option"

definition origin_identity :: "bool \<Rightarrow> string \<Rightarrow> origin option" where
  "origin_identity allow_hostname value =
     (let raw = py_strip value in
      if raw = [] then None
      else (case urlsplit (if has_substr ''://'' raw \<or> \<not> allow_hostname then raw else ''//'' @ raw) of
          Inl _ \<Rightarrow> None
        | Inr p \<Rightarrow>
            (let scheme = or_none (py_lower (sp_scheme p));
                 host = web_host p in
             case sp_port p of
               Inl _ \<Rightarrow> None
             | Inr port \<Rightarrow>
                 if host = [] \<or> scheme \<notin> {None, Some ''http'', Some ''https''} \<or>
                    (scheme = None \<and> \<not> allow_hostname) \<or> embeds_credentials p then None
                 else Some (host, scheme,
                   (case port of Some n \<Rightarrow> Some n
                    | None \<Rightarrow> if scheme = Some ''https'' then Some 443
                             else if scheme = Some ''http'' then Some 80 else None)))))"

text \<open>The normalised target and its host, both empty for what is not a plain HTTP target.\<close>

definition safe_target :: "string \<Rightarrow> (string \<times> string) result" where
  "safe_target value =
     (case origin_identity False value of
        None \<Rightarrow> Inr ([], [])
      | Some (host, scheme, port) \<Rightarrow>
          (case scheme of
             None \<Rightarrow> Inr ([], [])
           | Some sch \<Rightarrow>
               if sch \<notin> {''http'', ''https''} then Inr ([], [])
               else (let raw_host = (if CHR '':'' \<in> set host then ''['' @ host @ '']'' else host);
                         default_port = (if sch = ''https'' then 443 else 80);
                         netloc = (case port of
                             Some n \<Rightarrow> if n \<noteq> default_port then raw_host @ '':'' @ int_str n else raw_host
                           | None \<Rightarrow> raw_host) in
                     rbind (urlsplit value) (\<lambda>p.
                       Inr (unsplit_path sch netloc (if sp_path p = [] then ''/'' else sp_path p), host)))))"

definition same_origin :: "string \<Rightarrow> origin \<Rightarrow> bool" where
  "same_origin value target = (origin_identity False value = Some target)"

definition compatible_asset :: "string \<Rightarrow> origin \<Rightarrow> bool" where
  "compatible_asset value target =
     (case origin_identity True value of
        None \<Rightarrow> False
      | Some (host, scheme, port) \<Rightarrow>
          (case target of (target_host, target_scheme, target_port) \<Rightarrow>
             host = target_host \<and> (scheme = None \<or> scheme = target_scheme) \<and>
             (port = None \<or> port = target_port)))"

section \<open>Which observations belong to the target\<close>

definition surface_kind :: "obs_kind \<Rightarrow> bool" where
  "surface_kind k = (k \<in> {Endpoint, Form})"

definition on_target :: "origin \<Rightarrow> observation \<Rightarrow> bool" where
  "on_target t ob = (\<not> (surface_kind (ob_kind ob) \<and> \<not> same_origin (ob_value ob) t))"

definition observation_for_target ::
  "origin \<Rightarrow> (string \<times> observation) list \<Rightarrow> observation list \<Rightarrow> observation \<Rightarrow> bool" where
  "observation_for_target t obs assets item =
     (if surface_kind (ob_kind item) \<and> \<not> same_origin (ob_value item) t then False
      else (case ancestor_walk (on_target t) obs (ob_parents item) [] [] of
          None \<Rightarrow> False
        | Some linked \<Rightarrow>
            if linked \<noteq> [] then list_all (\<lambda>a. compatible_asset (ob_value a) t) linked
            else (case assets of [a] \<Rightarrow> compatible_asset (ob_value a) t | _ \<Rightarrow> False)))"

section \<open>The plan\<close>

definition recon_tasks :: "string \<Rightarrow> bool \<Rightarrow> bool \<Rightarrow> bool \<Rightarrow> bool \<Rightarrow> recon_task list" where
  "recon_tasks target has_endpoints has_forms has_technologies has_wafs =
     (if \<not> has_endpoints
      then [new_task ''crawl'' ''crawler-agent'' target 100 ''endpoint inventory is missing'' 40]
      else [new_task ''map_endpoints'' ''endpoint-agent'' target 80 ''refresh bounded endpoint inventory'' 20]) @
     (if \<not> has_technologies \<or> \<not> has_wafs
      then [new_task ''detect_technology'' ''tech-agent'' target 75
              ''technology or edge-protection context is incomplete'' 8] else []) @
     (if has_endpoints \<and> \<not> has_forms
      then [new_task ''map_forms'' ''form-agent'' target 70 ''form surface is not yet mapped'' 12] else []) @
     (if has_endpoints
      then [new_task ''browser_observe'' ''browser-agent'' target 60
              ''browser-rendered surface may add read-only observations'' 25] else [])"

definition build_recon_plan ::
  "(string \<Rightarrow> bool result) \<Rightarrow> string \<Rightarrow> obs_graph \<Rightarrow> int \<Rightarrow> recon_task list result" where
  "build_recon_plan scope_checker target g limit =
     (if \<not> (1 \<le> limit \<and> limit \<le> 25)
      then Inl (ValueError ''recon plan limit must be between 1 and 25'')
      else rbind (safe_target target) (\<lambda>(safe, host).
        if safe = [] then Inr []
        else rbind (scope_checker host) (\<lambda>ok.
          if \<not> ok then Inr []
          else (let assets = by_kind Asset g in
            case origin_identity False safe of
              None \<Rightarrow> Inr []
            | Some t \<Rightarrow>
                if assets \<noteq> [] \<and> \<not> list_ex (\<lambda>a. compatible_asset (ob_value a) t) assets then Inr []
                else (let obs = observations_by_id g;
                          has = (\<lambda>k. list_ex (observation_for_target t obs assets) (by_kind k g)) in
                      Inr (take (nat limit) (sort_key (\<lambda>x. (- rt_priority x, rt_kind x))
                        (recon_tasks safe (has Endpoint) (has Form) (has Technology) (has Waf)))))))))"

section \<open>The coordinator\<close>

record swarm_budget =
  sb_tasks :: int
  sb_requests :: int
  sb_agents :: int

definition check_swarm_budget :: "swarm_budget \<Rightarrow> swarm_budget result" where
  "check_swarm_budget b =
     (if \<not> (1 \<le> sb_tasks b \<and> sb_tasks b \<le> 10) then Inl (ValueError ''max_tasks must be between 1 and 10'')
      else if \<not> (1 \<le> sb_requests b \<and> sb_requests b \<le> 200)
        then Inl (ValueError ''max_total_requests must be between 1 and 200'')
      else if \<not> (1 \<le> sb_agents b \<and> sb_agents b \<le> 10)
        then Inl (ValueError ''max_network_agents must be between 1 and 10'')
      else Inr b)"

definition default_swarm_budget :: swarm_budget where
  "default_swarm_budget = \<lparr>sb_tasks = 5, sb_requests = 80, sb_agents = 5\<rparr>"

record swarm_coordination =
  sc_tasks :: "recon_task list"
  sc_used :: int
  sc_remaining :: int
  sc_agents :: "string list"
  sc_suppressed :: "string list"

definition capability_by_task :: "(string \<times> recon_capability) list result" where
  "capability_by_task =
     (let mapping = foldl (\<lambda>d c. dict_set (rc_task_kind c) c d) [] recon_capabilities in
      if length mapping \<noteq> length recon_capabilities
      then Inl (ValueError ''recon capabilities must map uniquely by task kind'') else Inr mapping)"

text \<open>The checks on one task, in the order of the code.\<close>

definition check_task :: "(string \<times> recon_capability) list \<Rightarrow> recon_task \<Rightarrow> recon_capability result" where
  "check_task caps t =
     (case map_of caps (rt_kind t) of
        None \<Rightarrow> Inl (ValueError (''no registered capability for recon task: '' @ rt_kind t))
      | Some c \<Rightarrow>
          if rt_agent t \<noteq> rc_agent c then Inl (ValueError (''recon task agent mismatch for '' @ rt_kind t))
          else rbind (agent_by_name (rt_agent t)) (\<lambda>profile.
            if ag_role profile \<noteq> RoleRecon then Inl (ValueError ''recon task agent must have recon role'')
            else if ag_network profile \<noteq> rc_network c
              then Inl (ValueError ''recon agent network capability mismatch'')
            else if ''recon:'' @ rt_kind t \<notin> set (ag_actions profile)
              then Inl (ValueError ''recon agent action registration mismatch'')
            else if \<not> rt_read_only t \<or> \<not> rt_same_origin t
              then Inl (ValueError ''recon swarm only accepts read-only same-origin tasks'')
            else if \<not> set (rt_methods t) \<subseteq> set (rc_methods c)
              then Inl (ValueError ''recon task methods exceed agent capability'')
            else if rt_requests t < 1 \<or> rt_requests t > rc_max_requests c
              then Inl (ValueError ''recon task request budget exceeds agent capability'')
            else Inr c))"

fun swarm_loop ::
  "(string \<times> recon_capability) list \<Rightarrow> swarm_budget \<Rightarrow> recon_task list \<Rightarrow>
   recon_task list \<times> string list \<times> string list \<times> int \<Rightarrow>
   (recon_task list \<times> string list \<times> string list \<times> int) result" where
  "swarm_loop caps b [] st = Inr st"
| "swarm_loop caps b (t # ts) (selected, suppressed, active, used) =
     rbind (check_task caps t) (\<lambda>c.
       if int (length selected) \<ge> sb_tasks b
         then swarm_loop caps b ts (selected, suppressed @ [rt_kind t], active, used)
       else if rc_network c \<and> rt_agent t \<notin> set active \<and> int (length active) \<ge> sb_agents b
         then swarm_loop caps b ts (selected, suppressed @ [rt_kind t], active, used)
       else (let remaining = sb_requests b - used in
         if remaining \<le> 0
           then swarm_loop caps b ts (selected, suppressed @ [rt_kind t], active, used)
         else (let allocated = min (rt_requests t) remaining in
           if allocated < 1
             then swarm_loop caps b ts (selected, suppressed @ [rt_kind t], active, used)
           else swarm_loop caps b ts
             (selected @ [t\<lparr>rt_requests := allocated\<rparr>], suppressed,
              (if rc_network c then List.insert (rt_agent t) active else active), used + allocated))))"

definition coordinate_recon_swarm :: "recon_task list \<Rightarrow> swarm_budget option \<Rightarrow> swarm_coordination result" where
  "coordinate_recon_swarm tasks budget =
     (let limits = (case budget of None \<Rightarrow> default_swarm_budget | Some b \<Rightarrow> b) in
      rbind capability_by_task (\<lambda>caps.
      rbind (swarm_loop caps limits (sort_key (\<lambda>t. (- rt_priority t, rt_kind t, rt_agent t)) tasks) ([], [], [], 0))
        (\<lambda>(selected, suppressed, active, used).
          Inr \<lparr>sc_tasks = selected, sc_used = used, sc_remaining = max 0 (sb_requests limits - used),
               sc_agents = sort active, sc_suppressed = suppressed\<rparr>)))"

section \<open>The batch\<close>

definition request_total :: "recon_task list \<Rightarrow> int" where
  "request_total ts = sum_list (map rt_requests ts)"

text \<open>A task of the batch: an input task that passed the checks, with at most its requests.\<close>

definition batch_task :: "recon_task list \<Rightarrow> recon_task \<Rightarrow> bool" where
  "batch_task tasks x \<longleftrightarrow>
     (\<exists>t \<in> set tasks. \<exists>c \<in> set recon_capabilities. x = t\<lparr>rt_requests := rt_requests x\<rparr> \<and>
        1 \<le> rt_requests x \<and> rt_requests x \<le> rt_requests t \<and> rt_requests t \<le> rc_max_requests c \<and>
        rt_kind t = rc_task_kind c \<and> rt_agent t = rc_agent c \<and> set (rt_methods t) \<subseteq> set (rc_methods c) \<and>
        rt_read_only t \<and> rt_same_origin t)"

lemma capabilities_mapping:
  "capability_by_task = Inr (map (\<lambda>c. (rc_task_kind c, c)) recon_capabilities)"
  by code_simp

lemma check_task_Inr:
  assumes "check_task (map (\<lambda>c. (rc_task_kind c, c)) recon_capabilities) t = Inr c"
  shows "c \<in> set recon_capabilities" and "rt_kind t = rc_task_kind c" and "rt_agent t = rc_agent c"
    and "set (rt_methods t) \<subseteq> set (rc_methods c)" and "rt_read_only t" and "rt_same_origin t"
    and "1 \<le> rt_requests t" and "rt_requests t \<le> rc_max_requests c"
  using assms
  by (auto simp: check_task_def split: option.splits if_splits dest!: map_of_SomeD)

lemma batch_taskI:
  assumes "check_task (map (\<lambda>c. (rc_task_kind c, c)) recon_capabilities) t = Inr c" and "t \<in> set tasks"
    and "1 \<le> n" and "n \<le> rt_requests t"
  shows "batch_task tasks (t\<lparr>rt_requests := n\<rparr>)"
  unfolding batch_task_def
  using assms(2-4) check_task_Inr [OF assms(1)]
  by (intro bexI [of _ t] bexI [of _ c]) simp_all

lemma all_network: "c \<in> set recon_capabilities \<Longrightarrow> rc_network c"
  by (auto simp: recon_capabilities_def capability_def)

definition batch_inv :: "swarm_budget \<Rightarrow> recon_task list \<Rightarrow> nat \<Rightarrow>
    recon_task list \<times> string list \<times> string list \<times> int \<Rightarrow> bool" where
  "batch_inv b tasks n st \<longleftrightarrow> (case st of (selected, suppressed, active, used) \<Rightarrow>
     (\<forall>x \<in> set selected. batch_task tasks x) \<and> length selected + length suppressed = n \<and>
     int (length selected) \<le> sb_tasks b \<and> used = request_total selected \<and> used \<le> sb_requests b \<and>
     distinct active \<and> set active = rt_agent ` set selected \<and> int (length active) \<le> sb_agents b)"

lemma swarm_loop_inv:
  assumes "swarm_loop (map (\<lambda>c. (rc_task_kind c, c)) recon_capabilities) b ts st = Inr st'"
    and "batch_inv b tasks n st" and "set ts \<subseteq> set tasks"
  shows "batch_inv b tasks (n + length ts) st'"
  using assms
proof (induction ts arbitrary: st n)
  case (Cons t ts)
  obtain selected suppressed active used where st: "st = (selected, suppressed, active, used)"
    by (cases st) auto
  let ?caps = "map (\<lambda>c. (rc_task_kind c, c)) recon_capabilities"
  obtain c where c: "check_task ?caps t = Inr c" using Cons.prems(1) st by auto
  have net: "rc_network c" using check_task_Inr(1) [OF c] by (rule all_network)
  let ?skip = "(selected, suppressed @ [rt_kind t], active, used)"
  let ?n = "min (rt_requests t) (sb_requests b - used)"
  let ?take = "(selected @ [t\<lparr>rt_requests := ?n\<rparr>], suppressed, List.insert (rt_agent t) active, used + ?n)"
  consider (skip) "swarm_loop ?caps b ts ?skip = Inr st'"
    | (kept) "swarm_loop ?caps b ts ?take = Inr st'" "int (length selected) < sb_tasks b"
        "rt_agent t \<in> set active \<or> int (length active) < sb_agents b" "1 \<le> ?n"
    using Cons.prems(1) net unfolding st by (auto simp: c Let_def split: if_splits)
  then have "batch_inv b tasks (Suc n + length ts) st'"
  proof cases
    case skip
    have "batch_inv b tasks (Suc n) ?skip" using Cons.prems(2) by (simp add: st batch_inv_def)
    with skip show ?thesis using Cons.prems(3) by (intro Cons.IH) auto
  next
    case kept
    have "batch_task tasks (t\<lparr>rt_requests := ?n\<rparr>)"
      using c kept(4) Cons.prems(3) by (intro batch_taskI) auto
    moreover have "int (length (List.insert (rt_agent t) active)) \<le> sb_agents b"
      using kept(3) Cons.prems(2) by (auto simp: st batch_inv_def List.insert_def)
    ultimately have "batch_inv b tasks (Suc n) ?take"
      using Cons.prems(2) kept(2) by (simp add: st batch_inv_def request_total_def)
    with kept(1) show ?thesis using Cons.prems(3) by (intro Cons.IH) auto
  qed
  then show ?case by simp
qed simp

section \<open>The properties\<close>


definition ex_target :: string where
  "ex_target = ''https://app.example.com/''"

definition ex_tasks :: "recon_task list" where
  "ex_tasks = recon_tasks ex_target True False False False"

lemma ex_swarm:
  "coordinate_recon_swarm ex_tasks (Some \<lparr>sb_tasks = 3, sb_requests = 35, sb_agents = 5\<rparr>) =
    Inr \<lparr>sc_tasks = [ex_tasks ! 0, ex_tasks ! 1, (ex_tasks ! 2)\<lparr>rt_requests := 7\<rparr>], sc_used = 35,
      sc_remaining = 0, sc_agents = [''endpoint-agent'', ''form-agent'', ''tech-agent''],
      sc_suppressed = [''browser_observe'']\<rparr>"
  by code_simp


text \<open>An observation counts for the target exactly when it is itself of the target's origin (if
  an endpoint or form), all its ancestors up to the assets are recorded and of that origin (if
  endpoints or forms), and every asset so reached is compatible with the target; an observation
  that reaches no asset counts only if the graph has a single asset, a compatible one. The walk
  over the parents terminates on every graph, cyclic ones included.\<close>

theorem recon_attribution_exact:
  "observation_for_target t obs assets item \<longleftrightarrow>
     on_target t item \<and>
     (\<forall>p \<in> ancestry obs (set (ob_parents item)). ancestor_ok (on_target t) obs p) \<and>
     (let linked = linked_assets obs (ancestry obs (set (ob_parents item))) in
      if linked = {} then \<exists>a. assets = [a] \<and> compatible_asset (ob_value a) t
      else \<forall>a \<in> linked. compatible_asset (ob_value a) t)"
proof -
  have "walk_inv (on_target t) obs (ob_parents item) [] []" by (simp add: walk_inv_def linked_assets_def)
  note w = walk_correct [OF this]
  show ?thesis
  proof (cases "ancestor_walk (on_target t) obs (ob_parents item) [] []")
    case None
    with w show ?thesis by (auto simp: observation_for_target_def on_target_def)
  next
    case (Some linked)
    then have l: "set linked = linked_assets obs (ancestry obs (set (ob_parents item)))"
        "\<forall>p \<in> ancestry obs (set (ob_parents item)). ancestor_ok (on_target t) obs p"
      using w by simp_all
    have one: "(case assets of [a] \<Rightarrow> compatible_asset (ob_value a) t | _ \<Rightarrow> False) \<longleftrightarrow>
        (\<exists>a. assets = [a] \<and> compatible_asset (ob_value a) t)"
      by (auto split: list.split)
    show ?thesis
      unfolding observation_for_target_def Some option.case one l(1) [symmetric] Let_def
      using l(2) by (auto simp: list_all_iff on_target_def)
  qed
qed

definition ex_obs :: "(string \<times> observation) list" where
  "ex_obs =
    [(''a1'', \<lparr>ob_id = ''a1'', ob_kind = Asset, ob_value = ''app.example.com'', ob_source = ''s'', ob_parents = [], ob_meta = []\<rparr>),
     (''e1'', \<lparr>ob_id = ''e1'', ob_kind = Endpoint, ob_value = ''https://app.example.com:443/x'', ob_source = ''s'',
        ob_parents = [''a1''], ob_meta = []\<rparr>),
     (''t1'', \<lparr>ob_id = ''t1'', ob_kind = Technology, ob_value = ''php'', ob_source = ''s'', ob_parents = [''e1''], ob_meta = []\<rparr>)]"

definition ex_origin :: origin where
  "ex_origin = (''app.example.com'', Some ''https'', Some 443)"

lemma recon_attribution_exact_witness:
  "observation_for_target ex_origin ex_obs [] (snd (ex_obs ! 2)) \<and> ancestor_ok (on_target ex_origin) ex_obs ''e1''"
proof -
  have r: "observation_for_target ex_origin ex_obs [] (snd (ex_obs ! 2))" by code_simp
  have "''e1'' \<in> ancestry ex_obs (set (ob_parents (snd (ex_obs ! 2))))"
    by (rule ancestry.here) (simp add: ex_obs_def)
  with r show ?thesis
    using recon_attribution_exact [of ex_origin ex_obs "[]" "snd (ex_obs ! 2)"] by blast
qed

lemmas task_batch_defs = new_task_def recon_tasks_def

lemma plan_tasks_checked:
  "check_task (map (\<lambda>c. (rc_task_kind c, c)) recon_capabilities)
     (new_task ''crawl'' ''crawler-agent'' tg 100 r1 40) = Inr (recon_capabilities ! 0)"
  "check_task (map (\<lambda>c. (rc_task_kind c, c)) recon_capabilities)
     (new_task ''map_endpoints'' ''endpoint-agent'' tg 80 r2 20) = Inr (recon_capabilities ! 1)"
  "check_task (map (\<lambda>c. (rc_task_kind c, c)) recon_capabilities)
     (new_task ''detect_technology'' ''tech-agent'' tg 75 r3 8) = Inr (recon_capabilities ! 2)"
  "check_task (map (\<lambda>c. (rc_task_kind c, c)) recon_capabilities)
     (new_task ''map_forms'' ''form-agent'' tg 70 r4 12) = Inr (recon_capabilities ! 3)"
  "check_task (map (\<lambda>c. (rc_task_kind c, c)) recon_capabilities)
     (new_task ''browser_observe'' ''browser-agent'' tg 60 r5 25) = Inr (recon_capabilities ! 4)"
  by (simp_all add: check_task_def recon_capabilities_def capability_def new_task_def agent_by_name_def agents_def)

lemma recon_tasks_sorted:
  "sorted (map (\<lambda>t. (- rt_priority t, rt_kind t)) (recon_tasks tg e f te w))"
  "sorted (map (\<lambda>t. (- rt_priority t, rt_kind t, rt_agent t)) (recon_tasks tg e f te w))"
  by (simp_all add: task_batch_defs)

lemma swarm_loop_keeps:
  "(\<And>t. t \<in> set ts \<Longrightarrow> \<exists>c. check_task caps t = Inr c \<and> 1 \<le> rt_requests t) \<Longrightarrow>
   int (length sel + length ts) \<le> sb_tasks b \<Longrightarrow> int (length act + length ts) \<le> sb_agents b \<Longrightarrow>
   used + request_total ts \<le> sb_requests b \<Longrightarrow>
   \<exists>act' used'. swarm_loop caps b ts (sel, supp, act, used) = Inr (sel @ ts, supp, act', used')"
proof (induction ts arbitrary: sel act used)
  case (Cons t ts)
  obtain c where c: "check_task caps t = Inr c" "1 \<le> rt_requests t" using Cons.prems(1) [of t] by auto
  have pos: "0 \<le> request_total ts"
    unfolding request_total_def using Cons.prems(1) by (intro sum_list_nonneg) fastforce
  let ?act = "if rc_network c then List.insert (rt_agent t) act else act"
  have "length ?act \<le> Suc (length act)" by (simp add: List.insert_def)
  then have "\<exists>act' used'. swarm_loop caps b ts (sel @ [t], supp, ?act, used + rt_requests t) =
      Inr ((sel @ [t]) @ ts, supp, act', used')"
    using Cons.prems by (intro Cons.IH) (auto simp: request_total_def)
  moreover have "min (rt_requests t) (sb_requests b - used) = rt_requests t"
    using Cons.prems(4) pos by (simp add: request_total_def)
  moreover have "swarm_loop caps b (t # ts) (sel, supp, act, used) =
      swarm_loop caps b ts (sel @ [t], supp, ?act, used + rt_requests t)"
    if "min (rt_requests t) (sb_requests b - used) = rt_requests t"
    using Cons.prems(2-4) c pos that by (simp add: Let_def request_total_def)
  ultimately show ?case by auto
qed simp

lemma plan_task_bounds:
  "t \<in> set (recon_tasks tg e f te w) \<Longrightarrow>
   (\<exists>c. check_task (map (\<lambda>c. (rc_task_kind c, c)) recon_capabilities) t = Inr c) \<and> 1 \<le> rt_requests t \<and>
   rt_target t = tg \<and> rt_methods t = [''GET'', ''HEAD''] \<and> rt_read_only t \<and> rt_same_origin t"
  by (auto simp: recon_tasks_def plan_tasks_checked split: if_splits) (simp_all add: new_task_def)

lemma request_total_take: "(\<And>t. t \<in> set ts \<Longrightarrow> 0 \<le> rt_requests t) \<Longrightarrow> request_total (take n ts) \<le> request_total ts"
proof (induction ts arbitrary: n)
  case (Cons t ts)
  then show ?case
    by (cases n) (auto simp: request_total_def intro!: add_nonneg_nonneg sum_list_nonneg)
qed simp

lemma recon_tasks_small: "length (recon_tasks tg e f te w) \<le> 4" "request_total (recon_tasks tg e f te w) \<le> 65"
  by (simp_all add: task_batch_defs request_total_def)

lemma plan_cases:
  assumes "build_recon_plan sc target g limit = Inr plan"
  obtains (None) "plan = []"
    | (Some) tg host e f te w where "safe_target target = Inr (tg, host)" "sc host = Inr True"
        "plan = take (nat limit) (recon_tasks tg e f te w)" "tg \<noteq> []"
  using assms
  by (auto simp: build_recon_plan_def Let_def sort_key_id_if_sorted [OF recon_tasks_sorted(1)]
      split: if_splits option.splits)

text \<open>The plan built for a target is always accepted by the swarm, whole and unchanged: nothing
  of it is suppressed. It is at most four tasks and 65 requests, and every task goes to the
  normalised primary target itself, whose host the scope checker allowed, by \<open>GET\<close> or \<open>HEAD\<close>,
  read-only and on the same origin.\<close>

theorem recon_batch_safe:
  assumes "build_recon_plan sc target g limit = Inr plan"
  shows "\<exists>c. coordinate_recon_swarm plan None = Inr c \<and> sc_tasks c = plan \<and> sc_suppressed c = [] \<and>
    length plan \<le> 4 \<and> request_total plan \<le> 65 \<and>
    (\<forall>t \<in> set plan. \<exists>host. safe_target target = Inr (rt_target t, host) \<and> sc host = Inr True \<and>
       rt_methods t = [''GET'', ''HEAD''] \<and> rt_read_only t \<and> rt_same_origin t)"
  using assms
proof (cases rule: plan_cases)
  case None
  then show ?thesis
    by (simp add: coordinate_recon_swarm_def capabilities_mapping request_total_def)
next
  case (Some tg host e f te w)
  let ?all = "recon_tasks tg e f te w" and ?caps = "map (\<lambda>c. (rc_task_kind c, c)) recon_capabilities"
  have sub: "t \<in> set plan \<Longrightarrow> t \<in> set ?all" for t using Some(3) in_set_takeD by fastforce
  have len: "length plan \<le> 4" using Some(3) recon_tasks_small(1) [of tg e f te w] by simp
  have pos: "0 \<le> rt_requests t" if "t \<in> set ?all" for t using plan_task_bounds [OF that] by simp
  have total: "request_total plan \<le> 65"
    unfolding Some(3) using request_total_take [OF pos] recon_tasks_small(2) order_trans by blast
  have sorted: "sort_key (\<lambda>t. (- rt_priority t, rt_kind t, rt_agent t)) plan = plan"
    using recon_tasks_sorted(2) [of tg e f te w]
    by (intro sort_key_id_if_sorted) (simp add: Some(3) take_map [symmetric] sorted_wrt_take)
  have "\<exists>act used. swarm_loop ?caps default_swarm_budget plan ([], [], [], 0) = Inr ([] @ plan, [], act, used)"
    using plan_task_bounds [OF sub] len total
    by (intro swarm_loop_keeps) (auto simp: default_swarm_budget_def)
  then obtain act used where loop: "swarm_loop ?caps default_swarm_budget plan ([], [], [], 0) = Inr (plan, [], act, used)"
    by auto
  show ?thesis
    using Some(1,2) plan_task_bounds [OF sub] len total
    by (auto simp: coordinate_recon_swarm_def capabilities_mapping sorted loop)
qed

definition ex_graph :: obs_graph where
  "ex_graph = [(''a1'', snd (ex_obs ! 0)), (''e1'', snd (ex_obs ! 1))]"

lemma ex_recon_plan:
  "build_recon_plan (\<lambda>h. is_host_allowed h [''*.example.com''] []) ''https://App.Example.com?q=1'' ex_graph 10 =
    Inr ex_tasks"
  by code_simp

lemma recon_batch_safe_witness:
  "\<exists>c. coordinate_recon_swarm ex_tasks None = Inr c \<and> sc_tasks c = ex_tasks \<and> request_total ex_tasks = 65"
proof -
  have "request_total ex_tasks = 65" by code_simp
  with recon_batch_safe [OF ex_recon_plan] show ?thesis by auto
qed

end
