(* ===== verification/LearningMemory.thy ===== *)
theory LearningMemory
  imports WebOrigin Ancestry PyDouble
begin

text \<open>
  \<open>backend/app/learning_memory.py\<close>: what the workers' outcomes and the recorded evidence say about
  the scanners and techniques of a campaign. \<open>summarize_worker_outcomes\<close> counts each job once by the
  last valid state its events give, a completed job staying completed; \<open>build_learning_memory\<close>
  counts each technique once per job, and only evidence tied to the target's origin.
\<close>

section \<open>Identities\<close>

definition py_isprintable :: "char \<Rightarrow> bool" where
  "py_isprintable c = (let n = (of_char c :: nat) in
     32 \<le> n \<and> n \<noteq> 173 \<and> \<not> (127 \<le> n \<and> n \<le> 160))"

definition canonical_scan_job_id :: "pyval \<Rightarrow> string option" where
  "canonical_scan_job_id raw = (case raw of
     PStr s \<Rightarrow> (let normalized = py_strip s in
       if normalized = [] \<or> length normalized > 128 \<or> \<not> list_all py_isprintable s then None
       else Some normalized)
   | _ \<Rightarrow> None)"

section \<open>Worker outcomes\<close>

definition outcome_kinds :: "string list" where
  "outcome_kinds = [''strix_scan'', ''nuclei_scan'', ''independent_validation'', ''browser_flow'',
     ''recon_task'', ''report'']"

definition outcome_statuses :: "string list" where
  "outcome_statuses = [''queued'', ''completed'', ''failed'', ''cancelled'']"

text \<open>\<open>type(v) is int and 0 <= v <= hi\<close>.\<close>

definition int_within :: "int \<Rightarrow> pyval \<Rightarrow> int option" where
  "int_within hi v = (case v of PInt n \<Rightarrow> if 0 \<le> n \<and> n \<le> hi then Some n else None | _ \<Rightarrow> None)"

definition pget_default :: "pydict \<Rightarrow> string \<Rightarrow> pyval \<Rightarrow> pyval" where
  "pget_default d k v = (case map_of d k of None \<Rightarrow> v | Some x \<Rightarrow> x)"

definition worker_outcome_event :: "pydict \<Rightarrow> bool \<Rightarrow> string \<Rightarrow> pydict result" where
  "worker_outcome_event job success status =
     (let kind = str_or_empty (pget job ''kind'') in
      if kind \<notin> set outcome_kinds then Inl (ValueError ''unsupported job kind'')
      else if status \<notin> set outcome_statuses then Inl (ValueError ''unsupported job status'')
      else (case int_within 5 (pget_default job ''attempts'' (PInt 0)) of
          None \<Rightarrow> Inl (ValueError ''invalid job attempts'')
        | Some attempts \<Rightarrow>
            (case canonical_scan_job_id (pget job ''id'') of
               None \<Rightarrow> Inl (ValueError ''invalid job identity'')
             | Some job_id \<Rightarrow> Inr [(''type'', PStr ''worker_outcome''), (''job_id'', PStr job_id),
                 (''job_kind'', PStr kind), (''success'', PBool success), (''status'', PStr status),
                 (''attempts'', PInt attempts)])))"

text \<open>What an event contributes: its key, its status and its entry among the recent outcomes.\<close>

type_synonym job_key = "string \<times> string"

definition read_outcome :: "pyval \<Rightarrow> (job_key \<times> string \<times> pydict) option" where
  "read_outcome event = (case event of
     PDict d \<Rightarrow>
       if \<not> py_eq (pget d ''type'') (PStr ''worker_outcome'') then None
       else (let kind = str_or_empty (pget d ''job_kind''); status = str_or_empty (pget d ''status'') in
         case canonical_scan_job_id (pget d ''job_id'') of
           None \<Rightarrow> None
         | Some job_id \<Rightarrow>
             if kind \<notin> set outcome_kinds \<or> status \<notin> set outcome_statuses then None
             else (case int_within 5 (pget_default d ''attempts'' (PInt 0)) of
                 None \<Rightarrow> None
               | Some attempts \<Rightarrow> Some ((kind, job_id), status,
                   [(''job_id'', PStr job_id), (''job_kind'', PStr kind),
                    (''success'', PBool (pv_truthy (pget d ''success''))), (''status'', PStr status),
                    (''attempts'', PInt attempts), (''at'', pget d ''at'')])))
   | _ \<Rightarrow> None)"

definition note_status :: "(job_key \<times> string) list \<Rightarrow> job_key \<times> string \<Rightarrow> (job_key \<times> string) list" where
  "note_status final ks = (if map_of final (fst ks) \<noteq> Some ''completed''
     then dict_set (fst ks) (snd ks) final else final)"

type_synonym counters = "(string \<times> int) list"

definition zero_counts :: counters where
  "zero_counts = [(''completed'', 0), (''failed'', 0), (''cancelled'', 0), (''requeued'', 0)]"

definition bump :: "string \<Rightarrow> counters \<Rightarrow> counters" where
  "bump k d = dict_set k ((case map_of d k of None \<Rightarrow> 0 | Some n \<Rightarrow> n) + 1) d"

definition status_bucket :: "string \<Rightarrow> string" where
  "status_bucket status = (if status = ''queued'' then ''requeued'' else status)"

definition count_final ::
  "counters \<times> (string \<times> counters) list \<Rightarrow> job_key \<times> string \<Rightarrow> counters \<times> (string \<times> counters) list" where
  "count_final st ks = (case (st, ks) of ((totals, kinds), ((kind, job_id), status)) \<Rightarrow>
     (bump (status_bucket status) totals,
      dict_set kind (bump (status_bucket status)
        (case map_of kinds kind of None \<Rightarrow> zero_counts | Some c \<Rightarrow> c)) kinds))"

definition counters_dict :: "counters \<Rightarrow> pyval" where
  "counters_dict c = PDict (map (\<lambda>(k, n). (k, PInt n)) c)"

definition final_states :: "pyval list \<Rightarrow> (job_key \<times> string) list" where
  "final_states events =
     foldl note_status [] (map (\<lambda>(k, s, r). (k, s)) (List.map_filter read_outcome events))"

definition summarize_worker_outcomes :: "pyval list \<Rightarrow> int \<Rightarrow> pydict result" where
  "summarize_worker_outcomes events recent_limit =
     (if \<not> (1 \<le> recent_limit \<and> recent_limit \<le> 200)
      then Inl (ValueError ''recent_limit must be between 1 and 200'')
      else (let valid = List.map_filter read_outcome events;
                final_by_job = final_states events;
                (totals, kinds) = foldl count_final (zero_counts, []) final_by_job in
        Inr [(''totals'', counters_dict totals),
             (''by_job_kind'', PDict (map (\<lambda>(k, c). (k, counters_dict c)) (sort_items kinds))),
             (''recent_outcomes'', PList (map (\<lambda>(k, s, r). PDict r) (py_last (nat recent_limit) valid))),
             (''distinct_jobs'', PInt (int (length final_by_job))),
             (''duplicate_events'', PInt (int (length valid) - int (length final_by_job))),
             (''contains_job_payloads'', PBool False)]))"

section \<open>Evidence tied to the target\<close>

text \<open>The test on each ancestor of a piece of evidence.\<close>

definition provenance_ok :: "web_origin \<Rightarrow> string set \<Rightarrow> observation \<Rightarrow> bool" where
  "provenance_ok target approved ob =
     (if ob_kind ob = Asset then ob_id ob \<in> approved
      else if ob_kind ob \<in> {Endpoint, Form}
        then (case canonical_endpoint_url (ob_value ob) of
            None \<Rightarrow> False | Some u \<Rightarrow> web_origin_of u = Some target)
      else True)"

definition target_scoped_evidence :: "obs_graph \<Rightarrow> string \<Rightarrow> observation list result" where
  "target_scoped_evidence g target_url =
     (case web_origin_of target_url of
        None \<Rightarrow> Inl (ValueError ''target_url must identify an HTTP(S) origin'')
      | Some target \<Rightarrow>
          (let items = observations_by_id g; assets = by_kind Asset g;
               approved = set (map ob_id (filter (\<lambda>a. asset_matches_origin (ob_value a) target) assets));
               legacy_single_asset = (case assets of [a] \<Rightarrow> ob_id a \<in> approved | _ \<Rightarrow> False) in
           Inr (filter (\<lambda>e. if ob_parents e = [] then legacy_single_asset
                  else (case ancestor_walk (provenance_ok target approved) items (ob_parents e) [] [] of
                      None \<Rightarrow> False | Some ancestors \<Rightarrow> ancestors \<noteq> []))
                (by_kind Evidence g))))"

section \<open>Technique memory\<close>

record technique_memory =
  tm_technique :: string
  tm_attempts :: int
  tm_successes :: int
  tm_failures :: int
  tm_inconclusive :: int
  tm_success_rate :: rat
  tm_confidence :: rat
  tm_sources :: int

definition evidence_text :: "observation \<Rightarrow> string \<Rightarrow> string" where
  "evidence_text e k = py_lower (py_strip (py_str (pget_default (ob_meta e) k (PStr []))))"

text \<open>\<open>str(metadata.get("technique") or "")\<close> of the evidence outside the target.\<close>

definition foreign_jobs :: "observation list \<Rightarrow> (string \<times> string) list" where
  "foreign_jobs es = concat (map (\<lambda>e.
     let technique = py_lower (py_strip (str_or_empty (pget (ob_meta e) ''technique''))) in
     case canonical_scan_job_id (pget (ob_meta e) ''job_id'') of
       None \<Rightarrow> []
     | Some j \<Rightarrow> if technique = [] then [] else [(technique, ''job:'' @ j)]) es)"

definition attempt_identity :: "observation \<Rightarrow> string option" where
  "attempt_identity e = (let raw = pget (ob_meta e) ''job_id'' in
     if raw = PNone then Some (''observation:'' @ ob_id e)
     else (case canonical_scan_job_id raw of None \<Rightarrow> None | Some j \<Rightarrow> Some (''job:'' @ j)))"

text \<open>The attempts: for each technique and identity, the outcomes and the sources, as sets.\<close>

type_synonym attempt_map = "((string \<times> string) \<times> string list \<times> string list) list"

definition add_attempt :: "(string \<times> string) list \<Rightarrow> attempt_map \<Rightarrow> observation \<Rightarrow> attempt_map" where
  "add_attempt foreign m e =
     (let technique = evidence_text e ''technique''; outcome = evidence_text e ''outcome'' in
      if technique = [] \<or> outcome \<notin> {''success'', ''failure'', ''inconclusive''} then m
      else (case attempt_identity e of
          None \<Rightarrow> m
        | Some identity \<Rightarrow>
            if (technique, identity) \<in> set foreign then m
            else (let (outcomes, sources) = (case map_of m (technique, identity) of None \<Rightarrow> ([], []) | Some a \<Rightarrow> a);
                      source = py_strip (ob_source e) in
                  dict_set (technique, identity)
                    (List.insert outcome outcomes, if source = [] then sources else List.insert source sources) m)))"

definition attempt_outcome :: "string list \<Rightarrow> string" where
  "attempt_outcome outcomes = (case outcomes of [x] \<Rightarrow> x | _ \<Rightarrow> ''inconclusive'')"

definition technique_bucket :: "string \<Rightarrow> attempt_map \<Rightarrow> technique_memory" where
  "technique_bucket technique m =
     (let mine = map snd (filter (\<lambda>((t, i), a). t = technique) m);
          outcomes = map (\<lambda>(o', s). attempt_outcome o') mine;
          count = (\<lambda>x. int (length (filter (\<lambda>y. y = x) outcomes)));
          sources = remdups (map (\<lambda>(o', s). Min (set s)) (filter (\<lambda>(o', s). s \<noteq> []) mine));
          successes = count ''success''; failures = count ''failure''; conclusive = successes + failures in
      \<lparr>tm_technique = technique, tm_attempts = int (length mine), tm_successes = successes,
       tm_failures = failures, tm_inconclusive = int (length mine) - conclusive,
       tm_success_rate = (if conclusive = 0 then 0
         else py_round 4 (double (of_int successes / of_int conclusive))),
       tm_confidence = py_round 4 (double (min 1 (double (of_int conclusive / 5)) *
         min 1 (double (of_nat (length sources) / 2)))),
       tm_sources = int (length sources)\<rparr>)"

definition build_learning_memory ::
  "obs_graph \<Rightarrow> int \<Rightarrow> string option \<Rightarrow> technique_memory list result" where
  "build_learning_memory g limit target_url =
     (if \<not> (1 \<le> limit \<and> limit \<le> 100)
      then Inl (ValueError ''learning memory limit must be between 1 and 100'')
      else rbind (case target_url of None \<Rightarrow> Inr (by_kind Evidence g) | Some u \<Rightarrow> target_scoped_evidence g u)
        (\<lambda>scoped.
          let foreign = (if target_url = None then []
                else foreign_jobs (filter (\<lambda>e. ob_id e \<notin> ob_id ` set scoped) (by_kind Evidence g)));
              attempts = foldl (add_attempt foreign) []
                (filter (\<lambda>e. ob_id e \<in> ob_id ` set scoped) (by_kind Evidence g));
              techniques = sorted_set (map (\<lambda>((t, i), a). t) attempts) in
          Inr (take (nat limit)
            (sort_key (\<lambda>m. (- tm_confidence m, - tm_success_rate m, - tm_attempts m, tm_technique m))
              (map (\<lambda>t. technique_bucket t attempts) techniques)))))"

section \<open>Each job counts once\<close>

definition outcome_log :: "pyval list \<Rightarrow> (job_key \<times> string) list" where
  "outcome_log events = map (\<lambda>(k, s, r). (k, s)) (List.map_filter read_outcome events)"

text \<open>The statuses reported for one job, in order, and the one that stands.\<close>

definition job_statuses :: "(job_key \<times> string) list \<Rightarrow> job_key \<Rightarrow> string list" where
  "job_statuses entries k = map snd (filter (\<lambda>e. fst e = k) entries)"

definition standing :: "string list \<Rightarrow> string option" where
  "standing ss = (if ss = [] then None else if ''completed'' \<in> set ss then Some ''completed'' else Some (last ss))"

lemma standing_snoc: "standing (ss @ [s]) = (if standing ss = Some ''completed'' then Some ''completed'' else Some s)"
proof (cases "''completed'' \<in> set ss")
  case False
  then have "standing ss \<noteq> Some ''completed''"
    using last_in_set [of ss] by (metis option.distinct(1) option.inject standing_def)
  with False show ?thesis by (simp add: standing_def)
qed (auto simp: standing_def)

lemma note_status_distinct: "distinct (map fst d) \<Longrightarrow> distinct (map fst (note_status d e))"
  by (simp add: note_status_def)

lemma job_statuses_mem: "s \<in> set (job_statuses entries k) \<Longrightarrow> (k, s) \<in> set entries"
  by (auto simp: job_statuses_def)

lemma note_status_fold:
  "map_of (foldl note_status [] entries) k = standing (job_statuses entries k) \<and>
   distinct (map fst (foldl note_status [] entries))"
proof (induction entries rule: rev_induct)
  case (snoc e entries)
  obtain j s where e: "e = (j, s)" by (cases e)
  have st: "job_statuses (entries @ [e]) k = job_statuses entries k @ (if j = k then [s] else [])"
    by (simp add: job_statuses_def e)
  let ?d = "foldl note_status [] entries"
  have ih: "map_of ?d k = standing (job_statuses entries k)" using snoc by simp
  have "map_of (note_status ?d e) k =
      (if k = j \<and> standing (job_statuses entries k) \<noteq> Some ''completed'' then Some s
       else standing (job_statuses entries k))"
    unfolding ih [symmetric] by (cases "k = j") (simp_all add: note_status_def e)
  then have "map_of (note_status ?d e) k = standing (job_statuses (entries @ [e]) k)"
    by (simp add: st standing_snoc)
  moreover have "distinct (map fst (note_status ?d e))" using snoc by (intro note_status_distinct) simp
  ultimately show ?case by simp
qed (simp add: job_statuses_def standing_def)

lemma final_states_standing:
  "map_of (final_states events) k = standing (job_statuses (outcome_log events) k)"
  "distinct (map fst (final_states events))"
  using note_status_fold [of "outcome_log events" k] by (simp_all add: final_states_def outcome_log_def)

lemma final_states_keys: "fst ` set (final_states events) = fst ` set (outcome_log events)"
proof -
  have "k \<in> fst ` set (final_states events) \<longleftrightarrow> job_statuses (outcome_log events) k \<noteq> []" for k
    using final_states_standing(1) [of events k] map_of_eq_None_iff [of "final_states events" k]
    by (auto simp: standing_def split: if_splits)
  moreover have "job_statuses (outcome_log events) k \<noteq> [] \<longleftrightarrow> k \<in> fst ` set (outcome_log events)" for k
    by (force simp: job_statuses_def filter_empty_conv)
  ultimately show ?thesis by blast
qed

definition tally :: "(string \<Rightarrow> bool) \<Rightarrow> string \<Rightarrow> (job_key \<times> string) list \<Rightarrow> int" where
  "tally p b final = int (length (filter (\<lambda>(k, s). p (fst k) \<and> status_bucket s = b) final))"

lemma map_of_bump: "map_of (bump k d) b =
    (if b = k then Some ((case map_of d k of None \<Rightarrow> 0 | Some n \<Rightarrow> n) + 1) else map_of d b)"
  by (simp add: bump_def)

lemma count_final_totals:
  "(\<And>e. e \<in> set final \<Longrightarrow> status_bucket (snd e) \<in> fst ` set totals) \<Longrightarrow>
   map_of (fst (foldl count_final (totals, kinds) final)) b =
     (case map_of totals b of None \<Rightarrow> None | Some n \<Rightarrow> Some (n + tally (\<lambda>_. True) b final))"
proof (induction final arbitrary: totals kinds)
  case (Cons e final)
  obtain kind i s where e: "e = ((kind, i), s)" by (metis prod.exhaust)
  have mem: "status_bucket s \<in> fst ` set totals" using Cons.prems [of e] by (simp add: e)
  then obtain n where n: "map_of totals (status_bucket s) = Some n" by (metis map_of_eq_None_iff not_None_eq)
  have set: "fst ` set (bump (status_bucket s) totals) = fst ` set totals"
    using mem by (auto simp: bump_def)
  have step: "foldl count_final (totals, kinds) (e # final) =
      foldl count_final (bump (status_bucket s) totals,
        snd (count_final (totals, kinds) e)) final"
    by (simp add: count_final_def e)
  show ?case
    unfolding step
    by (subst Cons.IH) (use Cons.prems n in \<open>auto simp: set map_of_bump tally_def e split: option.split\<close>)
qed (simp add: tally_def split: option.split)

lemma standing_mem: "standing ss = Some s \<Longrightarrow> s \<in> set ss"
  by (auto simp: standing_def split: if_splits)

lemma read_outcome_status: "read_outcome ev = Some (k, s, r) \<Longrightarrow> s \<in> set outcome_statuses"
  by (auto simp: read_outcome_def Let_def split: pyval.splits option.splits if_splits)

lemma outcome_log_status: "(k, s) \<in> set (outcome_log events) \<Longrightarrow> s \<in> set outcome_statuses"
  by (auto simp: outcome_log_def List.map_filter_def) (metis read_outcome_status prod_cases3 option.collapse case_prod_conv prod.inject)

lemma final_bucket: "e \<in> set (final_states events) \<Longrightarrow> status_bucket (snd e) \<in> fst ` set zero_counts"
proof -
  assume e: "e \<in> set (final_states events)"
  have "map_of (final_states events) (fst e) = Some (snd e)"
    using final_states_standing(2) e by (metis map_of_is_SomeI prod.collapse)
  then have "snd e \<in> set (job_statuses (outcome_log events) (fst e))"
    unfolding final_states_standing(1) by (rule standing_mem)
  then have "snd e \<in> set outcome_statuses" by (blast dest: job_statuses_mem outcome_log_status)
  then show ?thesis by (auto simp: outcome_statuses_def status_bucket_def zero_counts_def)
qed

lemma standing_count:
  "tally (\<lambda>_. True) b (final_states events) =
     int (card {k \<in> fst ` set (outcome_log events).
       map_option status_bucket (standing (job_statuses (outcome_log events) k)) = Some b})"
proof -
  let ?f = "filter (\<lambda>(k, s). status_bucket s = b) (final_states events)"
  have d: "distinct (map fst (final_states events))" by (rule final_states_standing(2))
  then have "distinct (map fst ?f)" by (simp add: distinct_map_filter)
  then have "int (length ?f) = int (card (fst ` set ?f))"
    using distinct_card [of "map fst ?f"] by simp
  moreover have "fst ` set ?f = {k \<in> fst ` set (outcome_log events).
       map_option status_bucket (standing (job_statuses (outcome_log events) k)) = Some b}"
    (is "_ = ?R")
  proof (intro set_eqI iffI)
    fix k assume "k \<in> fst ` set ?f"
    then obtain s where s: "(k, s) \<in> set (final_states events)" "status_bucket s = b" by auto
    then have "map_of (final_states events) k = Some s" using d by simp
    with s show "k \<in> ?R"
      using final_states_keys [of events] final_states_standing(1) [of events k] by force
  next
    fix k assume k: "k \<in> ?R"
    then obtain s where s: "standing (job_statuses (outcome_log events) k) = Some s" "status_bucket s = b" by auto
    then have "(k, s) \<in> set (final_states events)"
      using final_states_standing(1) [of events k] by (auto dest: map_of_SomeD)
    with s show "k \<in> fst ` set ?f" by force
  qed
  ultimately show ?thesis by (simp add: tally_def)
qed

text \<open>The summary of the workers' outcomes counts every job once, however many events report it
  and in whatever order they come: under \<open>completed\<close> when any valid event of the job says so,
  otherwise under its last valid status, a queued one as requeued. The number of distinct jobs is
  that of the keys, and every further valid event is counted as a duplicate.\<close>

theorem worker_outcomes_counted_once:
  assumes "summarize_worker_outcomes events limit = Inr summary"
    and "b \<in> {''completed'', ''failed'', ''cancelled'', ''requeued''}"
  shows "\<exists>totals. pget summary ''totals'' = PDict totals \<and>
      pget totals b = PInt (int (card {k \<in> fst ` set (outcome_log events).
        map_option status_bucket (standing (job_statuses (outcome_log events) k)) = Some b})) \<and>
      pget summary ''distinct_jobs'' = PInt (int (card (fst ` set (outcome_log events)))) \<and>
      pget summary ''duplicate_events'' =
        PInt (int (length (outcome_log events)) - int (card (fst ` set (outcome_log events))))"
proof -
  obtain totals kinds where f: "foldl count_final (zero_counts, []) (final_states events) = (totals, kinds)"
    by fastforce
  have "map_of zero_counts b = Some 0" using assms(2) by (auto simp: zero_counts_def)
  then have t: "map_of totals b = Some (tally (\<lambda>_. True) b (final_states events))"
    using count_final_totals [of "final_states events" zero_counts "[]" b] final_bucket by (simp add: f)
  have n: "length (final_states events) = card (fst ` set (outcome_log events))"
    using distinct_card [OF final_states_standing(2) [of events]] final_states_keys [of events]
    by (metis length_map list.set_map)
  have l: "length (List.map_filter read_outcome events) = length (outcome_log events)"
    by (simp add: outcome_log_def)
  have "pget (map (\<lambda>(k, n). (k, PInt n)) totals) b = PInt (tally (\<lambda>_. True) b (final_states events))"
    using t by (simp add: pget_def map_of_map [of PInt totals, unfolded case_prod_unfold] case_prod_unfold)
  then show ?thesis
    using assms(1) by (auto simp: summarize_worker_outcomes_def Let_def f n l counters_dict_def
        standing_count pget_def split: if_splits)
qed

definition ex_events :: "pyval list" where
  "ex_events =
    [PDict [(''type'', PStr ''worker_outcome''), (''job_id'', PStr ''j1''), (''job_kind'', PStr ''strix_scan''),
       (''success'', PBool True), (''status'', PStr ''completed''), (''attempts'', PInt 1)],
     PDict [(''type'', PStr ''worker_outcome''), (''job_id'', PStr '' j1 ''), (''job_kind'', PStr ''strix_scan''),
       (''success'', PBool False), (''status'', PStr ''failed''), (''attempts'', PInt 1)],
     PDict [(''type'', PStr ''worker_outcome''), (''job_id'', PStr ''j2''), (''job_kind'', PStr ''strix_scan''),
       (''success'', PBool False), (''status'', PStr ''failed''), (''attempts'', PBool True)]]"

lemma ex_summary:
  "case summarize_worker_outcomes ex_events 50 of Inl _ \<Rightarrow> False
   | Inr d \<Rightarrow> pget d ''totals'' = counters_dict [(''completed'', 1), (''failed'', 0), (''cancelled'', 0), (''requeued'', 0)]"
  by code_simp

lemma worker_outcomes_counted_once_witness:
  "card {k \<in> fst ` set (outcome_log ex_events).
     map_option status_bucket (standing (job_statuses (outcome_log ex_events) k)) = Some ''completed''} = 1"
proof -
  obtain d where d: "summarize_worker_outcomes ex_events 50 = Inr d"
      "pget d ''totals'' = counters_dict [(''completed'', 1), (''failed'', 0), (''cancelled'', 0), (''requeued'', 0)]"
    using ex_summary by (auto split: sum.splits)
  have "pget [(''completed'', PInt 1), (''failed'', PInt 0), (''cancelled'', PInt 0), (''requeued'', PInt 0)]
      ''completed'' = PInt 1" by code_simp
  with worker_outcomes_counted_once [OF d(1), of "''completed''"] d(2) show ?thesis
    by (auto simp: counters_dict_def)
qed

end
