(* ===== verification/AutonomyCycle.thy ===== *)
theory AutonomyCycle
  imports Planner LearningMemory
begin

text \<open>
  The decisions that stand between a plan and its execution: \<open>backend/app/decision_consensus.py\<close>,
  \<open>autonomy_gate.py\<close>, \<open>adaptive_cycle.py\<close>, \<open>campaign_runtime.py\<close>, and the planner's stability in
  \<open>decision_timeline.py\<close>. Scores are doubles (\<open>PyDouble\<close>); instants are microseconds.
\<close>

section \<open>Consensus of the advisory decisions\<close>

record red_team_decision =
  dc_kind :: string
  dc_priority :: rat
  dc_reason :: string
  dc_findings :: "string list"
  dc_evidence :: "string list"
  dc_blocked :: bool

record decision_consensus =
  cs_focus :: string
  cs_confidence :: rat
  cs_blocked :: bool
  cs_contradictory :: bool
  cs_reasons :: "string list"
  cs_kinds :: "string list"

definition blocking_kinds :: "string list" where
  "blocking_kinds = [''scope_integrity'', ''review_contradiction'']"

definition actionable_kinds :: "string list" where
  "actionable_kinds = [''validate_findings'', ''strengthen_evidence'', ''review_surface'', ''review_for_report'']"

definition decision_key :: "red_team_decision \<Rightarrow> rat \<times> string" where
  "decision_key d = (- dc_priority d, dc_kind d)"

definition build_decision_consensus :: "red_team_decision list \<Rightarrow> decision_consensus" where
  "build_decision_consensus decisions =
     (if decisions = []
      then \<lparr>cs_focus = ''idle'', cs_confidence = 1, cs_blocked = False, cs_contradictory = False,
             cs_reasons = [''no decision signals''], cs_kinds = []\<rparr>
      else
       (let kinds = sorted_set (map dc_kind decisions);
            blocking = filter (\<lambda>d. dc_kind d \<in> set blocking_kinds) decisions;
            actionable = filter (\<lambda>d. dc_kind d \<in> set actionable_kinds) decisions in
        case sort_key decision_key blocking of
          best # _ \<Rightarrow>
            \<lparr>cs_focus = dc_kind best, cs_confidence = 1, cs_blocked = True,
             cs_contradictory = (actionable \<noteq> [] \<or> dc_kind best = ''review_contradiction''),
             cs_reasons = [if dc_kind best = ''scope_integrity''
               then ''scope integrity signal blocks downstream review''
               else ''contradictory finding history requires explicit human review''],
             cs_kinds = kinds\<rparr>
        | [] \<Rightarrow>
            (let ranked = sort_key decision_key decisions; best = hd ranked;
                 close = filter (\<lambda>d. double (dc_priority best - dc_priority d) \<le> double (5 / 100) \<and>
                   dc_kind d \<noteq> dc_kind best) (tl ranked);
                 contradictory = (close \<noteq> []) in
             \<lparr>cs_focus = dc_kind best,
              cs_confidence = py_round 4 (max 0 (min 1 (double (dc_priority best -
                (if contradictory then double (15 / 100) else 0))))),
              cs_blocked = contradictory, cs_contradictory = contradictory,
              cs_reasons = dc_reason best #
                (if contradictory then [''multiple near-equal decision signals require conservative review''] else []),
              cs_kinds = kinds\<rparr>)))"

section \<open>The autonomy gate\<close>

record campaign_risk =
  cr_level :: string
  cr_score :: rat
  cr_confidence :: rat
  cr_blocked :: bool
  cr_factors :: "string list"
  cr_focus :: string

record autonomy_gate =
  gt_ready :: bool
  gt_human :: bool
  gt_focus :: string
  gt_blockers :: "string list"
  gt_safeguards :: "string list"

definition flag :: "bool \<Rightarrow> string \<Rightarrow> string list" where
  "flag b s = (if b then [s] else [])"

definition build_autonomy_gate ::
  "bool \<Rightarrow> bool \<Rightarrow> bool \<Rightarrow> bool \<Rightarrow> bool \<Rightarrow> bool \<Rightarrow> bool \<Rightarrow> nat \<Rightarrow> campaign_risk \<Rightarrow> decision_consensus \<Rightarrow>
   autonomy_gate" where
  "build_autonomy_gate scanning destructive dos social credentials exhausted over_budget failed_jobs risk consensus =
     (let blockers = sorted_set
            (flag (\<not> scanning) ''automated_scanning_disabled'' @
             flag destructive ''destructive_testing_enabled'' @
             flag dos ''denial_of_service_enabled'' @
             flag social ''social_engineering_enabled'' @
             flag credentials ''credential_attacks_enabled'' @
             flag exhausted ''runtime_exhausted'' @
             flag over_budget ''budget_blocked'' @
             flag (failed_jobs \<noteq> 0) ''failed_jobs'' @
             flag (cr_blocked risk) ''campaign_risk_blocked'' @
             flag (cs_blocked consensus) ''decision_consensus_blocked'');
          human = (cs_focus consensus = ''review_for_report'' \<or> cr_level risk \<in> {''high'', ''critical''}) in
      \<lparr>gt_ready = (blockers = [] \<and> \<not> human), gt_human = human, gt_focus = cs_focus consensus,
       gt_blockers = blockers,
       gt_safeguards = [''explicit_scope_required'', ''bounded_runtime'', ''bounded_budget'',
         ''non_destructive_only'', ''human_report_review'', ''fail_closed_on_conflict'']\<rparr>)"

section \<open>The adaptive cycle\<close>

datatype cycle_state = Halt | Recon | Review | Validation_cycle | HumanReview | Complete

record adaptive_cycle =
  ac_state :: cycle_state
  ac_next :: string
  ac_reason :: string
  ac_techniques :: "string list"
  ac_jobs :: "string list"
  ac_safe :: bool
  ac_human :: bool

definition suppressed_techniques :: "technique_memory list \<Rightarrow> string list" where
  "suppressed_techniques memories = sort (map tm_technique (filter (\<lambda>m.
     \<not> py_startswith (tm_technique m) ''scanner:'' \<and> tm_failures m \<ge> 2 \<and> tm_successes m = 0 \<and>
     tm_confidence m \<ge> double (2 / 10)) memories))"

text \<open>\<open>int(v)\<close>; \<open>None\<close> stands for its \<open>ValueError\<close>, \<open>TypeError\<close> and \<open>OverflowError\<close>.\<close>

definition int_of_value :: "pyval \<Rightarrow> int option" where
  "int_of_value v = (case v of
     PInt n \<Rightarrow> Some n
   | PBool b \<Rightarrow> Some (if b then 1 else 0)
   | PFloat q t \<Rightarrow> Some (if 0 \<le> q then \<lfloor>q\<rfloor> else \<lceil>q\<rceil>)
   | PStr s \<Rightarrow> py_int s
   | _ \<Rightarrow> None)"

definition outcome_counter :: "pydict \<Rightarrow> string \<Rightarrow> int option" where
  "outcome_counter values name = (case pget_default values name (PInt 0) of
     PBool _ \<Rightarrow> None
   | v \<Rightarrow> (case int_of_value v of None \<Rightarrow> None
       | Some n \<Rightarrow> if 0 \<le> n \<and> n \<le> 1000000 then Some n else None))"

definition job_kind_unstable :: "pyval \<Rightarrow> bool" where
  "job_kind_unstable values = (case values of
     PDict d \<Rightarrow>
       (case (outcome_counter d ''requeued'', outcome_counter d ''failed'', outcome_counter d ''completed'') of
          (Some r, Some f, Some c) \<Rightarrow> r + f \<ge> 2 \<and> c = 0
        | _ \<Rightarrow> True)
   | _ \<Rightarrow> True)"

definition unstable_job_kinds :: "pydict option \<Rightarrow> string list" where
  "unstable_job_kinds worker_outcomes = (case worker_outcomes of
     None \<Rightarrow> []
   | Some d \<Rightarrow>
       if d = [] then []
       else (case pget d ''by_job_kind'' of
           PDict kinds \<Rightarrow> sorted_set (concat (map (\<lambda>(kind, values).
               if py_strip kind = [] \<or> length kind > 80 then [''untrusted_worker_outcomes'']
               else flag (job_kind_unstable values) kind) kinds))
         | _ \<Rightarrow> [''untrusted_worker_outcomes'']))"

definition action_text :: "action_kind \<Rightarrow> string" where
  "action_text k = (case k of Inventory \<Rightarrow> ''inventory'' | Crawl \<Rightarrow> ''crawl'' | Scan \<Rightarrow> ''scan''
     | Validate \<Rightarrow> ''validate'' | Report \<Rightarrow> ''report'' | Stop \<Rightarrow> ''stop'')"

definition state_by_action :: "action_kind \<Rightarrow> cycle_state" where
  "state_by_action k = (case k of Inventory \<Rightarrow> Recon | Crawl \<Rightarrow> Recon | Scan \<Rightarrow> Review
     | Validate \<Rightarrow> Validation_cycle | Report \<Rightarrow> HumanReview | Stop \<Rightarrow> Halt)"

definition build_adaptive_cycle ::
  "autonomy_gate \<Rightarrow> planned_action list \<Rightarrow> technique_memory list \<Rightarrow> pydict option \<Rightarrow> adaptive_cycle" where
  "build_adaptive_cycle gate planned memories worker_outcomes =
     (let suppressed = suppressed_techniques memories; unstable = unstable_job_kinds worker_outcomes;
          cycle = (\<lambda>state next_action reason safe human.
            \<lparr>ac_state = state, ac_next = next_action, ac_reason = reason, ac_techniques = suppressed,
             ac_jobs = unstable, ac_safe = safe, ac_human = human\<rparr>) in
      if gt_blockers gate \<noteq> [] then cycle Halt ''stop'' ''autonomy gate is blocked'' False (gt_human gate)
      else if unstable \<noteq> []
        then cycle HumanReview ''stop'' ''worker outcome feedback indicates unstable execution'' False True
      else if gt_human gate
        then cycle HumanReview (gt_focus gate) ''campaign requires explicit human review'' False True
      else (let action = (case planned of [] \<Rightarrow> act Stop None ''no planner action'' 100 | a # _ \<Rightarrow> a) in
        if pa_kind action = Stop then
          (let terminal = (has_substr ''already exists'' (pa_reason action) \<or>
                 has_substr ''all findings rejected'' (pa_reason action)) in
           cycle (if terminal then Complete else Halt) ''stop'' (pa_reason action) False False)
        else (let human = (pa_kind action = Report) in
          cycle (state_by_action (pa_kind action)) (action_text (pa_kind action)) (pa_reason action)
            (\<not> human) human)))"

section \<open>Runtime\<close>

definition check_runtime_limit :: "int \<Rightarrow> int result" where
  "check_runtime_limit n =
     (if n < 60 then Inl (ValueError ''max_runtime_seconds must be at least 60'') else Inr n)"

definition campaign_runtime_limit_from_env :: "environ \<Rightarrow> int result" where
  "campaign_runtime_limit_from_env env = (case env ''XBOW_CAMPAIGN_MAX_RUNTIME_SECONDS'' of
     None \<Rightarrow> check_runtime_limit (6 * 60 * 60)
   | Some raw \<Rightarrow>
       (case py_int raw of
          None \<Rightarrow> Inl (ValueError ''XBOW_CAMPAIGN_MAX_RUNTIME_SECONDS must be an integer'')
        | Some v \<Rightarrow>
            if \<not> (60 \<le> v \<and> v \<le> 7 * 24 * 60 * 60)
            then Inl (ValueError ''XBOW_CAMPAIGN_MAX_RUNTIME_SECONDS must be between 60 and 604800'')
            else check_runtime_limit v))"

text \<open>\<open>from_iso\<close> is \<open>datetime.fromisoformat\<close>: whether the text names its zone, and the instant in UTC.\<close>

type_synonym iso_parser = "string \<Rightarrow> (bool \<times> int) option"

definition parse_timestamp :: "iso_parser \<Rightarrow> string \<Rightarrow> int result" where
  "parse_timestamp from_iso value =
     (let normalized = concat (map (\<lambda>c. if c = CHR ''Z'' then ''+00:00'' else [c]) (py_strip value)) in
      case from_iso normalized of
        None \<Rightarrow> Inl (ValueError ''Invalid isoformat string'')
      | Some (aware, t) \<Rightarrow>
          if \<not> aware then Inl (ValueError ''campaign timestamp must include timezone'') else Inr t)"

record runtime_status =
  rs_elapsed :: int
  rs_remaining :: int
  rs_exhausted :: bool
  rs_reason :: "string option"

definition runtime_text :: string where
  "runtime_text = ''campaign runtime budget exhausted''"

definition runtime_status_of :: "iso_parser \<Rightarrow> string \<Rightarrow> int \<Rightarrow> int \<Rightarrow> runtime_status result" where
  "runtime_status_of from_iso created_at limit now =
     rbind (parse_timestamp from_iso created_at) (\<lambda>started.
       let elapsed = max 0 ((now - started) div 1000000); exhausted = (elapsed \<ge> limit) in
       Inr \<lparr>rs_elapsed = elapsed, rs_remaining = max 0 (limit - elapsed), rs_exhausted = exhausted,
            rs_reason = (if exhausted then Some runtime_text else None)\<rparr>)"

section \<open>Stability of the planner\<close>

record planner_stability =
  ps_score :: rat
  ps_state :: string
  ps_decisions :: nat
  ps_transitions :: nat
  ps_oscillations :: nat
  ps_reopens :: nat
  ps_anomalies :: "pydict list"
  ps_alert :: bool

definition anomaly :: "string \<Rightarrow> nat \<Rightarrow> pyval \<Rightarrow> string list \<Rightarrow> string \<Rightarrow> pydict" where
  "anomaly kind index sequence pat severity =
     [(''kind'', PStr kind), (''index'', PInt (int index)), (''sequence'', sequence),
      (''pattern'', PList (map PStr pat)), (''severity'', PStr severity)]"

text \<open>The indices at which the planner returned to the action before the last, and those at which
  another action followed a stop.\<close>

definition reversal_at :: "string list \<Rightarrow> nat list" where
  "reversal_at actions = filter (\<lambda>i. actions ! i = actions ! (i - 2) \<and> actions ! i \<noteq> actions ! (i - 1))
     [2..<length actions]"

definition reopen_at :: "string list \<Rightarrow> nat list" where
  "reopen_at actions = filter (\<lambda>i. actions ! (i - 1) = ''stop'' \<and> actions ! i \<noteq> ''stop'') [1..<length actions]"

text \<open>The switches among the last four transitions, when there are four.\<close>

definition repeated_switches :: "string list \<Rightarrow> nat" where
  "repeated_switches actions =
     (let transitions = zip actions (tl actions) in
      if length transitions \<ge> 4 then length (filter (\<lambda>(b, a). b \<noteq> a) (py_last 4 transitions)) else 0)"

definition stability_score :: "nat \<Rightarrow> nat \<Rightarrow> nat \<Rightarrow> rat" where
  "stability_score reversals reopens switches =
     (let s1 = double (1 - min (double (45 / 100)) (double (of_nat reversals * double (15 / 100))));
          s2 = double (s1 - min (double (40 / 100)) (double (of_nat reopens * double (40 / 100))));
          s3 = (if switches \<ge> 4 then double (s2 - double (20 / 100)) else s2) in
      py_round 2 (max 0 s3))"

definition stability_state :: "rat \<Rightarrow> string" where
  "stability_state score = (if score \<ge> double (85 / 100) then ''stable''
     else if score \<ge> double (60 / 100) then ''watch'' else ''unstable'')"

text \<open>An entry: its sequence and its action.\<close>

definition planner_stability_of :: "(pyval \<times> pyval) list \<Rightarrow> planner_stability" where
  "planner_stability_of entries =
     (let actions = map (str_or_empty \<circ> snd) (filter (\<lambda>e. pv_truthy (snd e)) entries);
          transitions = length actions - 1;
          reversals = reversal_at actions; reopens = reopen_at actions;
          switches = repeated_switches actions;
          score = stability_score (length reversals) (length reopens) switches;
          state = stability_state score in
      \<lparr>ps_score = score, ps_state = state, ps_decisions = length actions, ps_transitions = transitions,
       ps_oscillations = length reversals, ps_reopens = length reopens,
       ps_anomalies =
         map (\<lambda>i. anomaly ''oscillation'' i (fst (entries ! i)) [actions ! (i - 2), actions ! (i - 1), actions ! i] ''warning'')
           reversals @
         map (\<lambda>i. anomaly ''stop_reopened'' i (fst (entries ! i)) [actions ! (i - 1), actions ! i] ''critical'') reopens @
         (if switches \<ge> 4 then [anomaly ''high_churn'' (length actions - 1) (fst (last entries)) (py_last 5 actions) ''warning'']
          else []),
       ps_alert = (state = ''unstable'' \<or> length reopens > 0)\<rparr>)"

text \<open>\<open>int(item["sequence"] or 0)\<close>, whose exception ends the evaluation.\<close>

definition sequence_number :: "pyval \<Rightarrow> int result" where
  "sequence_number v = (if \<not> pv_truthy v then Inr 0
     else (case int_of_value v of Some n \<Rightarrow> Inr n | None \<Rightarrow> Inl (ValueError ''invalid literal for int()'')))"

definition planner_decisions :: "obs_graph \<Rightarrow> observation list" where
  "planner_decisions g =
     filter (\<lambda>e. py_eq (pget (ob_meta e) ''memory_type'') (PStr ''planner_decision'')) (by_kind Evidence g)"

definition planner_stability_from_graph :: "obs_graph \<Rightarrow> planner_stability result" where
  "planner_stability_from_graph g =
     (let entries = map (\<lambda>e. (pget (ob_meta e) ''audit_seq'', pget (ob_meta e) ''action'')) (planner_decisions g) in
      rbind (rmap (\<lambda>e. sequence_number (fst e)) entries) (\<lambda>ns.
        Inr (planner_stability_of (map snd (sort_key (\<lambda>(k, e). k)
          (zip (zip (map (\<lambda>e. fst e = PNone) entries) ns) entries))))))"

definition planner_stability_breaker_reason :: "planner_stability \<Rightarrow> string option" where
  "planner_stability_breaker_reason s =
     (if ps_reopens s > 0 then Some ''planner stability violation: action recorded after stop''
      else if ps_state s = ''unstable'' \<and> ps_oscillations s \<ge> 3
        then Some ''planner stability violation: repeated decision oscillation''
      else None)"

section \<open>When a cycle may progress\<close>

lemma gate_clear:
  "gt_blockers (build_autonomy_gate scanning destructive dos social credentials exhausted over failed risk consensus) = [] \<longleftrightarrow>
     scanning \<and> \<not> destructive \<and> \<not> dos \<and> \<not> social \<and> \<not> credentials \<and> \<not> exhausted \<and> \<not> over \<and> failed = 0 \<and>
     \<not> cr_blocked risk \<and> \<not> cs_blocked consensus"
  by (auto simp: build_autonomy_gate_def Let_def flag_def)

lemma gate_human:
  "gt_human (build_autonomy_gate scanning destructive dos social credentials exhausted over failed risk consensus) \<longleftrightarrow>
     cs_focus consensus = ''review_for_report'' \<or> cr_level risk \<in> {''high'', ''critical''}"
  by (simp add: build_autonomy_gate_def Let_def)

lemma cycle_safe_iff:
  "ac_safe (build_adaptive_cycle gate planned memories wo) \<longleftrightarrow>
     gt_blockers gate = [] \<and> \<not> gt_human gate \<and> unstable_job_kinds wo = [] \<and>
     (\<exists>a rest. planned = a # rest \<and> pa_kind a \<in> {Inventory, Crawl, Scan, Validate})"
  by (cases planned; cases "pa_kind (hd planned)") (auto simp: build_adaptive_cycle_def Let_def)

lemma cycle_next:
  "ac_safe (build_adaptive_cycle gate (a # rest) memories wo) \<Longrightarrow>
   ac_next (build_adaptive_cycle gate (a # rest) memories wo) = action_text (pa_kind a)"
  by (cases "pa_kind a") (auto simp: build_adaptive_cycle_def Let_def split: if_splits)

text \<open>C27: a cycle lets the campaign progress exactly when the rules allow automated scanning and none
  of destructive testing, denial of service, social engineering and credential attacks, runtime
  and budget are left, no job failed, the risk is not blocked and neither high nor critical, the
  consensus is neither blocked nor waiting for a report review, no job kind is unstable, and the
  planned action is an inventory, a crawl, a scan or a validation: never a report.\<close>

theorem progress_exact:
  "ac_safe (build_adaptive_cycle
       (build_autonomy_gate scanning destructive dos social credentials exhausted over failed risk consensus)
       planned memories wo) \<longleftrightarrow>
     scanning \<and> \<not> destructive \<and> \<not> dos \<and> \<not> social \<and> \<not> credentials \<and> \<not> exhausted \<and> \<not> over \<and> failed = 0 \<and>
     \<not> cr_blocked risk \<and> cr_level risk \<notin> {''high'', ''critical''} \<and> \<not> cs_blocked consensus \<and>
     cs_focus consensus \<noteq> ''review_for_report'' \<and> unstable_job_kinds wo = [] \<and>
     (\<exists>a rest. planned = a # rest \<and> pa_kind a \<in> {Inventory, Crawl, Scan, Validate})"
  unfolding cycle_safe_iff gate_clear gate_human by blast

section \<open>When the planner counts as unstable\<close>

lemma many_reversals:
  assumes "4 \<le> n"
  shows "min (double (45 / 100)) (double (of_nat n * double (15 / 100))) = double (45 / 100)"
proof -
  have d: "double (15 / 100) = 5404319552844595 / 36028797018963968"
    "double (45 / 100) = 8106479329266893 / 18014398509481984"
    "double (3 / 20) = 5404319552844595 / 36028797018963968"
    "double (9 / 20) = 8106479329266893 / 18014398509481984" by code_simp+
  define x where "x = of_nat n * double (15 / 100)"
  have "(4 :: rat) \<le> of_nat n" using assms by simp
  then have "4 * double (15 / 100) \<le> x" unfolding x_def d by (intro mult_right_mono) simp_all
  then have big: "1 / 2 \<le> x" by (simp add: d)
  then have "\<bar>double x - x\<bar> \<le> x / 2 ^ 53" by (intro double_near) simp
  then have "x - x / 2 ^ 53 \<le> double x" by linarith
  moreover have "double (45 / 100) \<le> x - x / 2 ^ 53" using big by (simp add: d field_simps)
  ultimately show ?thesis by (simp add: x_def)
qed

lemma concrete_score_3_0: "stability_state (stability_score 3 0 0) = ''unstable''"
  by code_simp

lemma concrete_score_3_4: "stability_state (stability_score 3 0 4) = ''unstable''"
  by code_simp

lemma concrete_score_4_0: "stability_state (stability_score 4 0 0) = ''unstable''"
  by code_simp

lemma concrete_score_4_4: "stability_state (stability_score 4 0 4) = ''unstable''"
  by code_simp

lemmas concrete_scores = concrete_score_3_0 concrete_score_3_4 concrete_score_4_0 concrete_score_4_4

lemma three_reversals_unstable:
  assumes "3 \<le> n"
  shows "stability_state (stability_score n 0 k) = ''unstable''"
proof -
  have k: "stability_score n 0 k = stability_score n 0 (if 4 \<le> k then 4 else 0)" for n
    by (simp add: stability_score_def)
  show ?thesis
  proof (cases "n = 3")
    case True
    then show ?thesis using concrete_scores k by simp
  next
    case False
    then have "4 \<le> n" using assms by simp
    then have "stability_score n 0 k = stability_score 4 0 (if 4 \<le> k then 4 else 0)"
      using many_reversals [of n] many_reversals [of 4] by (simp add: k [of n] stability_score_def)
    then show ?thesis using concrete_scores by simp
  qed
qed

text \<open>The actions of a history, and its two anomalies by their definition.\<close>

definition history_actions :: "(pyval \<times> pyval) list \<Rightarrow> string list" where
  "history_actions entries = map (str_or_empty \<circ> snd) (filter (\<lambda>e. pv_truthy (snd e)) entries)"

text \<open>The planner's history opens the breaker exactly when an action was recorded directly after a
  stop, or when the planner went back to the action before the last at least three times: with
  double arithmetic, rounding and the score's thresholds, three reversals are always below 0.60.\<close>

theorem stability_breaker_exact:
  "planner_stability_breaker_reason (planner_stability_of entries) =
    (let as = history_actions entries in
     if reopen_at as \<noteq> [] then Some ''planner stability violation: action recorded after stop''
     else if 3 \<le> length (reversal_at as) then Some ''planner stability violation: repeated decision oscillation''
     else None)"
proof (cases "reopen_at (history_actions entries) = []")
  case True
  then show ?thesis
    using three_reversals_unstable [of "length (reversal_at (history_actions entries))"]
    by (simp add: planner_stability_breaker_reason_def planner_stability_of_def Let_def history_actions_def)
next
  case False
  then show ?thesis
    by (simp add: planner_stability_breaker_reason_def planner_stability_of_def Let_def history_actions_def)
qed

lemma reopen_append: "set (reopen_at as) \<subseteq> set (reopen_at (as @ bs))"
  by (auto simp: reopen_at_def nth_append)

text \<open>Once an action has followed a stop, the breaker condition holds for every longer history:
  whatever is decided and recorded later, an operator's reset included, the next advance opens the
  breaker again.\<close>

theorem stability_violation_permanent:
  assumes "reopen_at (history_actions entries) \<noteq> []"
  shows "planner_stability_breaker_reason (planner_stability_of (entries @ later)) =
    Some ''planner stability violation: action recorded after stop''"
proof -
  have "history_actions (entries @ later) = history_actions entries @ history_actions later"
    by (simp add: history_actions_def)
  then have "reopen_at (history_actions (entries @ later)) \<noteq> []"
    using assms reopen_append [of "history_actions entries" "history_actions later"] by auto
  then show ?thesis by (simp add: stability_breaker_exact Let_def)
qed

definition ex_decision :: "string \<Rightarrow> rat \<Rightarrow> red_team_decision" where
  "ex_decision kind p = \<lparr>dc_kind = kind, dc_priority = p, dc_reason = ''r'', dc_findings = [], dc_evidence = [],
     dc_blocked = True\<rparr>"

definition ex_risk :: campaign_risk where
  "ex_risk = \<lparr>cr_level = ''low'', cr_score = 0, cr_confidence = 1, cr_blocked = False, cr_factors = [], cr_focus = ''idle''\<rparr>"

lemma progress_exact_witness:
  "ac_safe (build_adaptive_cycle (build_autonomy_gate True False False False False False False 0 ex_risk
      (build_decision_consensus [])) [act Scan None ''scan'' 80] [] None) \<and>
   \<not> ac_safe (build_adaptive_cycle (build_autonomy_gate True False False False False False False 0 ex_risk
      (build_decision_consensus [])) [act Report None ''report'' 80] [] None)"
  using progress_exact [of True False False False False False False 0 ex_risk "build_decision_consensus []"
      "[act Scan None ''scan'' 80]" "[]" None]
    progress_exact [of True False False False False False False 0 ex_risk "build_decision_consensus []"
      "[act Report None ''report'' 80]" "[]" None]
  by (simp add: ex_risk_def build_decision_consensus_def unstable_job_kinds_def)

definition ex_history :: "string list \<Rightarrow> (pyval \<times> pyval) list" where
  "ex_history as = map (\<lambda>a. (PNone, PStr a)) as"

lemma stability_violation_permanent_witness:
  "planner_stability_breaker_reason (planner_stability_of (ex_history [''scan'', ''stop'', ''validate''] @ ex_history [''stop''])) =
    Some ''planner stability violation: action recorded after stop''"
proof -
  have "reopen_at (history_actions (ex_history [''scan'', ''stop'', ''validate''])) \<noteq> []" by code_simp
  then show ?thesis by (rule stability_violation_permanent)
qed

end
