(* ===== verification/ScannerSelect.thy ===== *)
theory ScannerSelect
  imports "HOL-Library.Multiset" ReconSwarm AutonomyCycle PlannerBudget
begin

text \<open>
  Which scanners a campaign runs and how many jobs an action may start: \<open>_scan_engines\<close> of
  \<open>backend/app/orchestrator.py\<close>, \<open>scanner_adaptation.py\<close> and \<open>pipeline_swarm.py\<close>.
\<close>

section \<open>Configured engines\<close>

definition allowed_engines :: "string list" where
  "allowed_engines = [''strix'', ''nuclei'']"

definition scan_engines :: "environ \<Rightarrow> string list result" where
  "scan_engines env =
     (let raw = (case env ''XBOW_SCAN_ENGINES'' of None \<Rightarrow> ''strix'' | Some r \<Rightarrow> r);
          values = dedup_first (map (\<lambda>p. py_lower (py_strip p))
            (filter (\<lambda>p. py_strip p \<noteq> []) (py_split (CHR '','') raw)));
          unsupported = filter (\<lambda>v. v \<notin> set allowed_engines) values in
      if values = [] then Inl (ValueError ''XBOW_SCAN_ENGINES must include at least one scanner engine'')
      else (case unsupported of
          u # _ \<Rightarrow> Inl (ValueError (''unsupported scanner engine: '' @ u))
        | [] \<Rightarrow> Inr values))"

section \<open>Adaptation\<close>

record scanner_adaptation =
  sa_configured :: "string list"
  sa_selected :: "string list"
  sa_suppressed :: "string list"
  sa_ranked :: "string list"
  sa_reasons :: "(string \<times> string) list"
  sa_rotation :: bool
  sa_no_completed :: "string list"

definition engine_memory :: "technique_memory list \<Rightarrow> (string \<times> technique_memory) list" where
  "engine_memory memories = foldl (\<lambda>d m.
     if \<not> py_startswith (tm_technique m) ''scanner:'' then d
     else (let engine = py_lower (py_strip (drop 8 (tm_technique m))) in
       if engine \<in> set allowed_engines then dict_set engine m d else d)) [] memories"

text \<open>\<open>_validated_worker_counters\<close>: completed, requeued and failed.\<close>

definition validated_counters :: "pyval \<Rightarrow> (int \<times> int \<times> int) option" where
  "validated_counters raw = (case raw of
     PDict d \<Rightarrow>
       (case (int_within 1000000 (pget_default d ''completed'' (PInt 0)),
              int_within 1000000 (pget_default d ''requeued'' (PInt 0)),
              int_within 1000000 (pget_default d ''failed'' (PInt 0))) of
          (Some c, Some r, Some f) \<Rightarrow> Some (c, r, f)
        | _ \<Rightarrow> None)
   | _ \<Rightarrow> None)"

text \<open>What the loop keeps for one engine: its reason, whether it is suppressed, its completed runs
  (-1 for corrupt feedback).\<close>

definition outcome_kinds_of :: "pyval \<Rightarrow> pydict \<times> bool" where
  "outcome_kinds_of worker_outcomes = (case worker_outcomes of
     PNone \<Rightarrow> ([], False)
   | PDict d \<Rightarrow>
       (case map_of d ''by_job_kind'' of
          None \<Rightarrow> ([], False)
        | Some (PDict kinds) \<Rightarrow> (kinds, False)
        | Some _ \<Rightarrow> ([], True))
   | _ \<Rightarrow> ([], True))"

definition is_dict :: "pyval \<Rightarrow> bool" where
  "is_dict v = (case v of PDict _ \<Rightarrow> True | _ \<Rightarrow> False)"

definition judge_engine ::
  "pydict \<Rightarrow> bool \<Rightarrow> (string \<times> technique_memory) list \<Rightarrow> string \<Rightarrow> string option \<times> bool \<times> int" where
  "judge_engine kinds invalid memory engine =
     (let job_kind = engine @ ''_scan''; outcome = map_of kinds job_kind in
      if invalid \<or> (case outcome of None \<Rightarrow> False | Some v \<Rightarrow> \<not> is_dict v)
      then (Some ''invalid worker outcome structure requires operator review'', False, -1)
      else (case (case outcome of None \<Rightarrow> Some (0, 0, 0) | Some v \<Rightarrow> validated_counters v) of
          None \<Rightarrow> (Some ''invalid worker outcome counters require operator review'', False, -1)
        | Some (completed, requeued, failed) \<Rightarrow>
            if failed \<ge> 2 \<and> completed = 0
            then (Some ''worker outcomes show repeated unstable execution (terminal failures)'', True, completed)
            else if requeued \<noteq> 0 \<and> completed = 0
            then (Some ''scanner jobs are pending retry; no terminal failure threshold established'', False, completed)
            else (case map_of memory engine of
                Some m \<Rightarrow> if tm_failures m \<ge> 2 \<and> tm_successes m = 0
                  then (Some ''negative technique outcomes do not prove scanner failure; engine remains configured'',
                        False, completed)
                  else (None, False, completed)
              | None \<Rightarrow> (None, False, completed))))"

definition explanation :: string where
  "explanation = ''no completed worker run recorded; prefer configured scanner diversity after repeated negative scans''"

fun index_of :: "'a \<Rightarrow> 'a list \<Rightarrow> nat" where
  "index_of x [] = 0"
| "index_of x (y # ys) = (if x = y then 0 else Suc (index_of x ys))"

type_synonym judgement = "(string \<times> string option \<times> bool \<times> int) list"

definition judge_engines ::
  "string list \<Rightarrow> (string \<times> technique_memory) list \<Rightarrow> pyval \<Rightarrow> judgement" where
  "judge_engines configured memory worker_outcomes =
     (case outcome_kinds_of worker_outcomes of (kinds, invalid) \<Rightarrow>
        map (\<lambda>e. (e, judge_engine kinds invalid memory e)) configured)"

definition suppressed_engines :: "string list \<Rightarrow> judgement \<Rightarrow> string list" where
  "suppressed_engines configured judged =
     (let suppressed = map fst (filter (\<lambda>(e, r, s, c). s) judged) in
      if set suppressed = set configured then [] else suppressed)"

definition engine_reasons :: "string list \<Rightarrow> judgement \<Rightarrow> string list \<Rightarrow> (string \<times> string) list" where
  "engine_reasons configured judged no_completed =
     (let noted = (if set (map fst (filter (\<lambda>(e, r, s, c). s) judged)) = set configured
            then map (\<lambda>e. (e, ''suppression withheld because at least one configured scanner must remain'')) configured
            else concat (map (\<lambda>(e, r, s, c). case r of None \<Rightarrow> [] | Some t \<Rightarrow> [(e, t)]) judged)) in
      foldl (\<lambda>d e. dict_set e (case map_of d e of
          Some t \<Rightarrow> t @ ''; '' @ explanation | None \<Rightarrow> explanation) d) noted no_completed)"

definition completed_runs :: "judgement \<Rightarrow> string \<Rightarrow> int" where
  "completed_runs judged e = (case map_of judged e of Some (r, s, c) \<Rightarrow> c | None \<Rightarrow> 0)"

definition valid_feedback :: "judgement \<Rightarrow> string list \<Rightarrow> bool" where
  "valid_feedback judged healthy = list_all (\<lambda>e. completed_runs judged e \<ge> 0) healthy"

definition rotation_due :: "judgement \<Rightarrow> (string \<times> technique_memory) list \<Rightarrow> string list \<Rightarrow> bool" where
  "rotation_due judged memory healthy =
     (length healthy > 1 \<and> valid_feedback judged healthy \<and>
      \<not> list_ex (\<lambda>e. case map_of memory e of None \<Rightarrow> False | Some m \<Rightarrow> tm_successes m > 0) healthy \<and>
      list_ex (\<lambda>e. completed_runs judged e \<ge> 2) healthy \<and> list_ex (\<lambda>e. completed_runs judged e = 0) healthy)"

text \<open>\<open>rank_key\<close>: with valid feedback, engines without a completed run first when the rotation is
  due, then by positive memory, then in the configured order.\<close>

definition rank_key ::
  "bool \<Rightarrow> bool \<Rightarrow> string list \<Rightarrow> (string \<times> technique_memory) list \<Rightarrow> string list \<Rightarrow> string \<Rightarrow>
   int \<times> rat \<times> rat \<times> int \<times> nat" where
  "rank_key valid rotation no_completed memory configured e =
     (if \<not> valid then (0, 0, 0, 0, index_of e configured)
      else (let rotation_rank = (if rotation then (if e \<in> set no_completed then 0 else 1) else 0) in
        case map_of memory e of
          None \<Rightarrow> (rotation_rank, 0, 0, 0, index_of e configured)
        | Some m \<Rightarrow> if tm_successes m \<le> 0 then (rotation_rank, 0, 0, 0, index_of e configured)
            else (rotation_rank, - tm_confidence m, - tm_success_rate m, - tm_successes m,
                  index_of e configured)))"

definition adapt_scanner_engines ::
  "string list \<Rightarrow> technique_memory list \<Rightarrow> pyval \<Rightarrow> scanner_adaptation result" where
  "adapt_scanner_engines configured memories worker_outcomes =
     (if configured = [] then Inl (ValueError ''at least one configured scanner engine is required'')
      else if \<not> distinct configured then Inl (ValueError ''configured scanner engines must be unique'')
      else (case filter (\<lambda>e. e \<notin> set allowed_engines) configured of
        u # _ \<Rightarrow> Inl (ValueError (''unsupported configured scanner engine: '' @ u))
      | [] \<Rightarrow>
        (let memory = engine_memory memories;
             judged = judge_engines configured memory worker_outcomes;
             suppressed = suppressed_engines configured judged;
             healthy = filter (\<lambda>e. e \<notin> set suppressed) configured;
             rotation = rotation_due judged memory healthy;
             no_completed = (if rotation then filter (\<lambda>e. completed_runs judged e = 0) healthy else []);
             ranked = sort_key (rank_key (valid_feedback judged healthy) rotation no_completed memory configured) configured in
         Inr \<lparr>sa_configured = configured, sa_selected = filter (\<lambda>e. e \<notin> set suppressed) ranked,
              sa_suppressed = sort suppressed, sa_ranked = ranked,
              sa_reasons = engine_reasons configured judged no_completed,
              sa_rotation = rotation, sa_no_completed = no_completed\<rparr>)))"

section \<open>Pipeline coordination\<close>

record pipeline_coordination =
  pc_action :: action_kind
  pc_agent :: string
  pc_role :: agent_role
  pc_requested :: int
  pc_allocated :: int
  pc_remaining :: int

definition expected_role :: "action_kind \<Rightarrow> agent_role" where
  "expected_role a = (case a of Scan \<Rightarrow> RoleAnalysis | Validate \<Rightarrow> RoleValidation | _ \<Rightarrow> RoleReporting)"

definition pipeline_capacity :: "action_kind \<Rightarrow> budget_usage \<Rightarrow> planner_budget \<Rightarrow> int \<times> int" where
  "pipeline_capacity a usage limits = (case a of
     Scan \<Rightarrow> (bu_remaining_scans usage, pb_scans limits)
   | Validate \<Rightarrow> (bu_remaining_validations usage, pb_batch limits)
   | _ \<Rightarrow> (bu_remaining_reports usage, 1))"

definition coordinate_pipeline_action ::
  "action_kind \<Rightarrow> int \<Rightarrow> budget_usage \<Rightarrow> planner_budget option \<Rightarrow> pipeline_coordination result" where
  "coordinate_pipeline_action action requested usage budget =
     (if action \<notin> {Scan, Validate, Report}
      then Inl (ValueError (''unsupported pipeline action: '' @ action_text action))
      else if requested < 0 then Inl (ValueError ''requested_items must be non-negative'')
      else (let limits = (case budget of None \<Rightarrow> default_budget | Some b \<Rightarrow> b) in
        rbind (agent_for_action (action_text action)) (\<lambda>agent.
          if ag_role agent \<noteq> expected_role action
          then Inl (ValueError (''pipeline agent role mismatch for '' @ action_text action))
          else (let (action_capacity, batch_capacity) = pipeline_capacity action usage limits;
               allocated = max 0 (min requested (min action_capacity
                 (min (bu_remaining_inflight usage) batch_capacity))) in
            Inr \<lparr>pc_action = action, pc_agent = ag_name agent, pc_role = ag_role agent,
                 pc_requested = requested, pc_allocated = allocated,
                 pc_remaining = max 0 (bu_remaining_inflight usage - allocated)\<rparr>))))"

section \<open>What is selected\<close>

lemma allowed_engine_cases: "set allowed_engines = {''strix'', ''nuclei''}"
  by (simp add: allowed_engines_def)

lemma scan_engines_Inr:
  assumes "scan_engines env = Inr es"
  shows "es \<noteq> []" and "distinct es" and "set es \<subseteq> set allowed_engines"
  using assms by (auto simp: scan_engines_def Let_def filter_empty_conv split: if_splits list.splits)

text \<open>The reason a job kind of the feedback justifies a suppression.\<close>

definition repeatedly_failed :: "pyval \<Rightarrow> string \<Rightarrow> bool" where
  "repeatedly_failed worker_outcomes engine \<longleftrightarrow>
     (\<exists>kinds v c r f. outcome_kinds_of worker_outcomes = (kinds, False) \<and>
        map_of kinds (engine @ ''_scan'') = Some v \<and> validated_counters v = Some (c, r, f) \<and> f \<ge> 2 \<and> c = 0)"

lemma judge_suppressed:
  assumes "outcome_kinds_of wo = (kinds, invalid)" and "judge_engine kinds invalid memory e = (r, True, c)"
  shows "repeatedly_failed wo e"
  using assms
  by (auto simp: judge_engine_def repeatedly_failed_def Let_def split: if_splits option.splits prod.splits)

lemma adapt_fields:
  assumes "adapt_scanner_engines configured memories wo = Inr sa"
  defines "judged \<equiv> judge_engines configured (engine_memory memories) wo"
  shows "configured \<noteq> []" and "distinct configured"
    and "\<exists>rank :: string \<Rightarrow> int \<times> rat \<times> rat \<times> int \<times> nat. sa_ranked sa = sort_key rank configured"
    and "sa_selected sa = filter (\<lambda>e. e \<notin> set (suppressed_engines configured judged)) (sa_ranked sa)"
    and "sa_suppressed sa = sort (suppressed_engines configured judged)"
proof -
  show c: "configured \<noteq> []" "distinct configured"
    using assms(1) by (auto simp only: adapt_scanner_engines_def split: if_splits)
  have f: "filter (\<lambda>e. e \<notin> set allowed_engines) configured = []"
    using assms(1) c by (cases "filter (\<lambda>e. e \<notin> set allowed_engines) configured")
      (simp_all add: adapt_scanner_engines_def)
  show "\<exists>rank :: string \<Rightarrow> int \<times> rat \<times> rat \<times> int \<times> nat. sa_ranked sa = sort_key rank configured"
    using assms(1) c f by (auto simp: adapt_scanner_engines_def Let_def)
  show "sa_selected sa = filter (\<lambda>e. e \<notin> set (suppressed_engines configured judged)) (sa_ranked sa)"
    "sa_suppressed sa = sort (suppressed_engines configured judged)"
    unfolding judged_def using assms(1) c f by (auto simp: adapt_scanner_engines_def Let_def)
qed

lemma adapt_total:
  assumes "configured \<noteq> []" and "distinct configured" and "set configured \<subseteq> set allowed_engines"
  shows "\<exists>sa. adapt_scanner_engines configured memories wo = Inr sa"
proof -
  have f: "filter (\<lambda>e. e \<notin> set allowed_engines) configured = []"
    using assms(3) by (auto simp: filter_empty_conv)
  show ?thesis
    unfolding adapt_scanner_engines_def f list.case Let_def if_not_P [OF assms(1)] using assms(2) by simp
qed

text \<open>The adaptation of the scanners only narrows and reorders what is configured: what it selects
  is what it ranks without what it suppresses, and the ranking is a permutation of the configured
  engines. It never selects nothing, and it suppresses an engine only when valid feedback reports
  at least two terminal failures of it and no completed run.\<close>

theorem scanner_selection_sound:
  assumes "adapt_scanner_engines configured memories wo = Inr sa"
  shows "sa_selected sa \<noteq> [] \<and> distinct (sa_selected sa) \<and>
    set (sa_selected sa) = set configured - set (sa_suppressed sa) \<and>
    mset (sa_ranked sa) = mset configured \<and>
    sa_selected sa = filter (\<lambda>e. e \<notin> set (sa_suppressed sa)) (sa_ranked sa) \<and>
    set (sa_suppressed sa) \<subseteq> {e \<in> set configured. repeatedly_failed wo e}"
proof -
  let ?judged = "judge_engines configured (engine_memory memories) wo"
  let ?raw = "map fst (filter (\<lambda>(e, r, s, c). s) ?judged)"
  let ?s = "suppressed_engines configured ?judged"
  obtain kinds invalid where k: "outcome_kinds_of wo = (kinds, invalid)" by fastforce
  note c = adapt_fields(1,2) [OF assms] and r = adapt_fields(4,5) [OF assms]
  obtain rank :: "string \<Rightarrow> int \<times> rat \<times> rat \<times> int \<times> nat" where ranked: "sa_ranked sa = sort_key rank configured"
    using adapt_fields(3) [OF assms] by blast
  have sub: "set ?raw \<subseteq> set configured" by (auto simp: judge_engines_def k)
  have supp: "set ?s = (if set ?raw = set configured then {} else set ?raw)"
    by (simp add: suppressed_engines_def Let_def)
  with sub have ne: "set configured - set ?s \<noteq> {}" using c(1) by auto
  have fail: "repeatedly_failed wo e" if "e \<in> set ?raw" for e
    using that judge_suppressed [OF k, OF sym] by (auto simp: judge_engines_def k)
  have sel: "set (sa_selected sa) = set configured - set ?s" by (simp add: r(1) ranked) blast
  have "sa_selected sa \<noteq> []" using sel ne by (metis set_empty)
  moreover have "distinct (sa_selected sa)" using c(2) by (simp add: r(1) ranked)
  moreover have "mset (sa_ranked sa) = mset configured" by (simp add: ranked)
  moreover have "set (sa_suppressed sa) = set ?s" by (simp add: r(2))
  moreover have "set ?s \<subseteq> {e \<in> set configured. repeatedly_failed wo e}" unfolding supp using fail sub by auto
  ultimately show ?thesis using sel r by simp
qed

definition ex_feedback :: pyval where
  "ex_feedback = PDict [(''by_job_kind'', PDict
     [(''strix_scan'', PDict [(''completed'', PInt 0), (''failed'', PInt 2)]),
      (''nuclei_scan'', PDict [(''completed'', PInt 3), (''failed'', PInt 9)])])]"

lemma ex_suppressed:
  "suppressed_engines [''strix'', ''nuclei''] (judge_engines [''strix'', ''nuclei''] (engine_memory []) ex_feedback) =
    [''strix'']"
  by code_simp

lemma scanner_selection_sound_witness:
  "\<exists>sa. adapt_scanner_engines [''strix'', ''nuclei''] [] ex_feedback = Inr sa \<and> set (sa_selected sa) = {''nuclei''}"
proof -
  have "\<exists>sa. adapt_scanner_engines [''strix'', ''nuclei''] [] ex_feedback = Inr sa"
    by (rule adapt_total) (simp_all add: allowed_engines_def)
  then obtain sa where sa: "adapt_scanner_engines [''strix'', ''nuclei''] [] ex_feedback = Inr sa" by blast
  have "sa_suppressed sa = [''strix'']" by (simp add: adapt_fields(5) [OF sa] ex_suppressed)
  moreover have "set (sa_selected sa) = set [''strix'', ''nuclei''] - set (sa_suppressed sa)"
    using scanner_selection_sound [OF sa] by (elim conjE)
  ultimately have "set (sa_selected sa) = {''nuclei''}" by (simp add: insert_Diff_if)
  with sa show ?thesis by blast
qed

text \<open>What the pipeline allocates is never more than requested nor than any of its limits.\<close>

lemma pipeline_allocation:
  assumes "coordinate_pipeline_action a n usage (Some limits) = Inr pc"
  shows "a \<in> {Scan, Validate, Report}" and "0 \<le> n"
    and "pc_allocated pc = max 0 (min n (min (fst (pipeline_capacity a usage limits))
      (min (bu_remaining_inflight usage) (snd (pipeline_capacity a usage limits)))))"
proof -
  show a: "a \<in> {Scan, Validate, Report}" and n: "0 \<le> n"
    using assms by (auto simp only: coordinate_pipeline_action_def split: if_splits)
  have n': "\<not> n < 0" and a': "\<not> a \<notin> {Scan, Validate, Report}" using n a by simp_all
  note c = assms [unfolded coordinate_pipeline_action_def if_not_P [OF a'] if_not_P [OF n'] Let_def option.case]
  obtain agent where agent: "agent_for_action (action_text a) = Inr agent"
    using c by (rule rbind_InrE)
  obtain x y where cap: "pipeline_capacity a usage limits = (x, y)" by fastforce
  from c show "pc_allocated pc = max 0 (min n (min (fst (pipeline_capacity a usage limits))
      (min (bu_remaining_inflight usage) (snd (pipeline_capacity a usage limits)))))"
    unfolding agent cap rbind_simps by (auto split: if_splits)
qed

end
