(* ===== verification/Dispatch.thy ===== *)
theory Dispatch
  imports JobProvenance PolicyIntegrity PendingValidation ScannerSelect StorageCore
begin

text \<open>
  The part of \<open>backend/app/orchestrator.py\<close> that turns an action into jobs, with
  \<open>sanitized_scan_payload\<close> of \<open>main.py\<close>. The program runs on a world: the store, the SQLite queue and a
  count of the clock readings and identifiers taken. An exception keeps what was written before it,
  so a run returns its result and the world it leaves in either case.
\<close>

section \<open>Runs\<close>

record world =
  w_store :: storage
  w_queue :: job_queue
  w_tick :: nat

type_synonym 'a run = "world \<Rightarrow> 'a result \<times> world"

definition returns :: "'a \<Rightarrow> 'a run" where
  "returns x w = (Inr x, w)"

text \<open>A computation that touches neither store nor queue.\<close>

definition pure_run :: "'a result \<Rightarrow> 'a run" where
  "pure_run r w = (r, w)"

definition after :: "'a run \<Rightarrow> ('a \<Rightarrow> 'b run) \<Rightarrow> 'b run" where
  "after m f w = (case m w of (Inl e, w') \<Rightarrow> (Inl e, w') | (Inr x, w') \<Rightarrow> f x w')"

fun each :: "('a \<Rightarrow> 'b run) \<Rightarrow> 'a list \<Rightarrow> 'b list run" where
  "each f [] = returns []"
| "each f (x # xs) = after (f x) (\<lambda>y. after (each f xs) (\<lambda>ys. returns (y # ys)))"

text \<open>What the process finds outside: the environment, the digest and the keyed digest, the texts of
  floats, the keys for decisions, campaign events and receipts, whether the browser runtime is ready,
  and for each reading its clock text, its instant, and a fresh identifier.\<close>

record services =
  sv_env :: environ
  sv_hash :: "string \<Rightarrow> string"
  sv_hmac :: "string \<Rightarrow> string \<Rightarrow> string"
  sv_float_text :: "rat \<Rightarrow> string"
  sv_float_parse :: "string \<Rightarrow> (rat \<times> string) option"
  sv_decision_key :: "string option result"
  sv_audit_key :: "string option result"
  sv_receipt_key :: "string option result"
  sv_browser :: bool
  sv_iso :: "nat \<Rightarrow> string"
  sv_clock :: "nat \<Rightarrow> int"
  sv_uuid :: "nat \<Rightarrow> string"

text \<open>\<open>utcnow()\<close>.\<close>

definition read_clock :: "services \<Rightarrow> string run" where
  "read_clock sv w = (Inr (sv_iso sv (w_tick w)), w\<lparr>w_tick := Suc (w_tick w)\<rparr>)"

definition enqueue_run :: "services \<Rightarrow> string \<Rightarrow> string \<Rightarrow> pydict \<Rightarrow> string \<Rightarrow> job run" where
  "enqueue_run sv campaign_id kind payload dedupe w =
     (let n = w_tick w; w' = w\<lparr>w_tick := Suc n\<rparr> in
      case sq_enqueue (sv_env sv) (w_queue w) campaign_id kind (PDict payload) 2 (Some dedupe) (sv_uuid sv n) (sv_clock sv n) of
        Inl e \<Rightarrow> (Inl e, w')
      | Inr (q, j) \<Rightarrow> (Inr j, w'\<lparr>w_queue := q\<rparr>))"

definition store_run :: "(storage \<Rightarrow> (storage \<times> 'a) result) \<Rightarrow> 'a run" where
  "store_run f w = (case f (w_store w) of Inl e \<Rightarrow> (Inl e, w) | Inr (st, x) \<Rightarrow> (Inr x, w\<lparr>w_store := st\<rparr>))"

section \<open>Identifiers and fingerprints\<close>

definition stable_id :: "(string \<Rightarrow> string) \<Rightarrow> string \<Rightarrow> string list \<Rightarrow> string" where
  "stable_id H prefix parts = prefix @ '':'' @ take 24 (H (py_join [CHR 0x1F] parts))"

definition graph_item :: "observation \<Rightarrow> pyval" where
  "graph_item item = PDict [(''id'', PStr (ob_id item)), (''kind'', PStr (kind_text (ob_kind item))),
     (''value'', PStr (ob_value item)), (''source'', PStr (ob_source item)),
     (''parent_ids'', text_list (ob_parents item)), (''metadata'', PDict (ob_meta item))]"

text \<open>Everything but the planner's own decisions.\<close>

definition graph_fingerprint :: "(string \<Rightarrow> string) \<Rightarrow> obs_graph \<Rightarrow> string" where
  "graph_fingerprint H g = take 20 (H (json_dumps True (PList (map graph_item
     (filter (\<lambda>i. \<not> py_eq (pget (ob_meta i) ''memory_type'') (PStr ''planner_decision''))
       (sort_key ob_id (graph_values g)))))))"

definition load_graph :: "services \<Rightarrow> string \<Rightarrow> obs_graph run" where
  "load_graph sv campaign_id w = (load_observation_graph (sv_float_parse sv) (w_store w) campaign_id False, w)"

definition put_run :: "services \<Rightarrow> string \<Rightarrow> observation \<Rightarrow> unit run" where
  "put_run sv campaign_id ob = after (read_clock sv) (\<lambda>now.
     store_run (\<lambda>st. rbind (put_observation (sv_env sv) (sv_float_parse sv) campaign_id (observation_dict ob) now st)
       (\<lambda>(st', x). Inr (st', ()))))"

definition seed_primary_target :: "services \<Rightarrow> campaign \<Rightarrow> unit run" where
  "seed_primary_target sv c = after (pure_run (url_host (c_url c))) (\<lambda>host.
     if host = [] then returns ()
     else put_run sv (c_id c)
       \<lparr>ob_id = stable_id (sv_hash sv) ''asset'' [host, ''planner-seed''], ob_kind = Asset, ob_value = host,
        ob_source = ''planner-seed'', ob_parents = [], ob_meta = []\<rparr>)"

section \<open>Jobs\<close>

definition governed_enqueue ::
  "services \<Rightarrow> campaign \<Rightarrow> string \<Rightarrow> string \<Rightarrow> pydict \<Rightarrow> string \<Rightarrow> job run" where
  "governed_enqueue sv c kind action payload dedupe =
     after (pure_run (attach_job_provenance (sv_hash sv) (sv_hmac sv) (sv_float_text sv) (sv_audit_key sv) payload c kind action))
       (\<lambda>p. enqueue_run sv (c_id c) kind p dedupe)"

definition browser_payload :: "campaign \<Rightarrow> recon_task \<Rightarrow> pydict" where
  "browser_payload c t = [(''campaign_id'', PStr (c_id c)), (''steps'', PList
     [PDict [(''operation'', PStr ''navigate''), (''url'', PStr (rt_target t)), (''timeout_ms'', PInt 10000)],
      PDict [(''operation'', PStr ''screenshot''), (''timeout_ms'', PInt 10000)]])]"

definition recon_payload :: "campaign \<Rightarrow> recon_task \<Rightarrow> pydict" where
  "recon_payload c t = [(''campaign_id'', PStr (c_id c)), (''kind'', PStr (rt_kind t)), (''target'', PStr (rt_target t)),
     (''max_requests'', PInt (rt_requests t)), (''allowed_methods'', text_list (rt_methods t)),
     (''same_origin_only'', PBool (rt_same_origin t)), (''read_only'', PBool (rt_read_only t))]"

text \<open>One task of the loop: a browser task is skipped while the browser runtime is not ready.\<close>

definition enqueue_recon_task :: "services \<Rightarrow> campaign \<Rightarrow> string \<Rightarrow> recon_task \<Rightarrow> job list run" where
  "enqueue_recon_task sv c fingerprint t =
     (if rt_kind t = ''browser_observe'' then
        (if \<not> sv_browser sv then returns []
         else after (governed_enqueue sv c ''browser_flow'' ''crawl'' (browser_payload c t)
             (''recon:browser:'' @ fingerprint @ '':'' @ rt_target t)) (\<lambda>j. returns [j]))
      else after (governed_enqueue sv c ''recon_task'' ''crawl'' (recon_payload c t)
          (''recon:'' @ rt_kind t @ '':'' @ fingerprint @ '':'' @ rt_target t)) (\<lambda>j. returns [j]))"

definition enqueue_recon_tasks :: "services \<Rightarrow> campaign \<Rightarrow> obs_graph \<Rightarrow> recon_task list \<Rightarrow> job list run" where
  "enqueue_recon_tasks sv c g tasks =
     after (each (enqueue_recon_task sv c (graph_fingerprint (sv_hash sv) g)) tasks) (\<lambda>js. returns (concat js))"

text \<open>\<open>sanitized_scan_payload\<close> without its last step, which attaches the provenance.\<close>

definition transient_fields :: "string list" where
  "transient_fields = [''timestamp'', ''receipt_hash'', ''signature'', ''signature_alg'', ''integrity_mode'']"

definition scan_payload :: "(rat \<Rightarrow> string) \<Rightarrow> campaign \<Rightarrow> pydict \<Rightarrow> pydict" where
  "scan_payload fr c receipt =
     [(''campaign_id'', PStr (c_id c)), (''target'', PStr (c_url c)),
      (''policy'', PDict (without_keys transient_fields receipt)),
      (''rules'', PDict [(''allowed_targets'', text_list (allowed_targets (c_rules c))),
         (''denied_targets'', text_list (denied_targets (c_rules c))),
         (''max_requests_per_second'',
           PFloat (max_requests_per_second (c_rules c)) (fr (max_requests_per_second (c_rules c)))),
         (''destructive_testing'', PBool False), (''denial_of_service'', PBool False),
         (''social_engineering'', PBool False), (''credential_attacks'', PBool False),
         (''automated_scanning'', PBool (automated_scanning (c_rules c)))])]"

definition scan_kind :: "string \<Rightarrow> string" where
  "scan_kind engine = (if engine = ''strix'' then ''strix_scan'' else ''nuclei_scan'')"

definition enqueue_scan :: "services \<Rightarrow> campaign \<Rightarrow> string \<Rightarrow> pydict \<Rightarrow> string \<Rightarrow> job run" where
  "enqueue_scan sv c fingerprint receipt engine =
     governed_enqueue sv c (scan_kind engine) ''automated_scan'' (scan_payload (sv_float_text sv) c receipt)
       ((if engine = ''strix'' then ''planner:scan:'' else ''planner:scan:nuclei:'') @ fingerprint)"

definition repeat_schema :: string where
  "repeat_schema = ''repeat-differential-validation-v1''"

definition validation_payload :: "campaign \<Rightarrow> (string \<times> int) list \<Rightarrow> finding \<Rightarrow> pydict" where
  "validation_payload c ordinals f =
     [(''campaign_id'', PStr (c_id c)), (''finding_id'', PStr (f_id f)), (''asset'', PStr (f_asset f))] @
     (case map_of ordinals (f_id f) of None \<Rightarrow> []
      | Some n \<Rightarrow> [(''repeat_validation'', PDict [(''schema'', PStr repeat_schema), (''ordinal'', PInt n),
          (''reason'', PStr ''single_strong_unknown_differential_requires_repeat'')])])"

definition validation_dedupe :: "(string \<times> int) list \<Rightarrow> finding \<Rightarrow> string" where
  "validation_dedupe ordinals f = ''validation:'' @ f_id f @
     (case map_of ordinals (f_id f) of None \<Rightarrow> [] | Some n \<Rightarrow> '':repeat:'' @ int_str n)"

definition findings_to_validate ::
  "services \<Rightarrow> campaign \<Rightarrow> obs_graph \<Rightarrow> (string \<times> int) list \<Rightarrow> finding list result" where
  "findings_to_validate sv c g ordinals =
     (if ordinals \<noteq> [] then Inr (filter (\<lambda>f. map_of ordinals (f_id f) \<noteq> None) (c_findings c))
      else pending_findings (sv_hash sv) (c_findings c) g)"

text \<open>\<open>xs[:n]\<close>, for a limit that may be absent.\<close>

definition take_limit :: "int option \<Rightarrow> 'a list \<Rightarrow> 'a list" where
  "take_limit limit xs = (case limit of None \<Rightarrow> xs
     | Some n \<Rightarrow> if n < 0 then take (length xs - nat (- n)) xs else take (nat n) xs)"

definition enqueue_action ::
  "services \<Rightarrow> planned_action \<Rightarrow> campaign \<Rightarrow> obs_graph \<Rightarrow> int option \<Rightarrow> string list option \<Rightarrow>
   (string \<times> int) list \<Rightarrow> job list run" where
  "enqueue_action sv a c g validation_limit engines ordinals =
     (let fingerprint = graph_fingerprint (sv_hash sv) g in
      case pa_kind a of
        Scan \<Rightarrow>
          after (pure_run (url_host (c_url c))) (\<lambda>host.
          after (read_clock sv) (\<lambda>now.
          after (pure_run (policy_receipt (sv_hash sv) (sv_hmac sv) (sv_receipt_key sv) c host ''automated_scan'' now)) (\<lambda>receipt.
            if \<not> receipt_allows receipt then returns []
            else after (pure_run (case engines of Some es \<Rightarrow> Inr es | None \<Rightarrow> scan_engines (sv_env sv))) (\<lambda>es.
              each (enqueue_scan sv c fingerprint (without_keys [''timestamp''] receipt)) es))))
      | Validate \<Rightarrow>
          after (pure_run (findings_to_validate sv c g ordinals)) (\<lambda>pending.
            each (\<lambda>f. governed_enqueue sv c ''independent_validation'' ''validate'' (validation_payload c ordinals f)
                (validation_dedupe ordinals f)) (take_limit validation_limit pending))
      | Report \<Rightarrow>
          after (governed_enqueue sv c ''report'' ''report''
              [(''campaign_id'', PStr (c_id c)), (''platform'', PStr ''generic'')]
              (''planner:report:'' @ fingerprint)) (\<lambda>j. returns [j])
      | _ \<Rightarrow> returns [])"

section \<open>What is enqueued\<close>

text \<open>A job as the orchestrator makes it: new, for this campaign, of one of the given kinds, with two
  attempts and a dedupe key, and with a provenance that verifies against the campaign.\<close>

definition governed_job :: "services \<Rightarrow> campaign \<Rightarrow> string set \<Rightarrow> job \<Rightarrow> bool" where
  "governed_job sv c kinds j \<longleftrightarrow>
     j_campaign j = py_strip (c_id c) \<and> j_kind j \<in> kinds \<and> j_status j = Queued \<and> j_attempts j = 0 \<and> j_max j = 2 \<and>
     j_claimed_by j = None \<and> j_dedupe j \<noteq> None \<and>
     (\<exists>p. j_payload j = json_dumps True (PDict p) \<and>
       (\<forall>pf. \<exists>v. verify_job_provenance (sv_hash sv) (sv_hmac sv) (sv_float_text sv) pf (sv_audit_key sv)
          [(''kind'', PStr (j_kind j)), (''payload'', PDict p)] c = Inr v \<and> pv_valid v))"

text \<open>The queue grows by at most \<open>n\<close> jobs with a property.\<close>

definition adds :: "nat \<Rightarrow> (job \<Rightarrow> bool) \<Rightarrow> job_queue \<Rightarrow> job_queue \<Rightarrow> bool" where
  "adds n J q q' = (\<exists>new. q' = q @ new \<and> length new \<le> n \<and> list_all J new)"

lemma adds_refl [simp]: "adds n J q q"
  by (simp add: adds_def)

lemma adds_trans:
  assumes "adds n J q q'" and "adds m J q' q''" shows "adds (n + m) J q q''"
proof -
  obtain a b where "q' = q @ a" "length a \<le> n" "list_all J a" "q'' = q' @ b" "length b \<le> m" "list_all J b"
    using assms by (auto simp: adds_def)
  then show ?thesis by (auto simp: adds_def intro!: exI [of _ "a @ b"])
qed

lemma adds_mono: "adds n J q q' \<Longrightarrow> n \<le> m \<Longrightarrow> (\<And>j. J j \<Longrightarrow> J' j) \<Longrightarrow> adds m J' q q'"
  unfolding adds_def by (metis list.pred_mono_strong order.trans)

text \<open>A run that adds to the queue, whatever world it starts in.\<close>

definition run_adds :: "nat \<Rightarrow> (job \<Rightarrow> bool) \<Rightarrow> 'a run \<Rightarrow> bool" where
  "run_adds n J m = (\<forall>w. adds n J (w_queue w) (w_queue (snd (m w))))"

named_theorems run_intro

lemma run_adds_simple [run_intro]:
  "run_adds n J (returns x)" "run_adds n J (pure_run r)" "run_adds n J (read_clock sv)" "run_adds n J (store_run f)"
  "run_adds n J (load_graph sv i)" "run_adds n J (\<lambda>w. (h w, w))"
  by (simp_all add: run_adds_def returns_def pure_run_def read_clock_def store_run_def load_graph_def split: sum.split)

lemma run_adds_after:
  assumes "run_adds n J m" and "\<And>x. run_adds k J (f x)" shows "run_adds (n + k) J (after m f)"
  unfolding run_adds_def
proof
  fix w
  obtain r w' where m: "m w = (r, w')" by (cases "m w")
  have first: "adds n J (w_queue w) (w_queue w')" using assms(1) m by (metis run_adds_def snd_conv)
  show "adds (n + k) J (w_queue w) (w_queue (snd (after m f w)))"
  proof (cases r)
    case (Inl e)
    with m adds_mono [OF first, of "n + k" J] show ?thesis by (simp add: after_def)
  next
    case (Inr x)
    have "adds k J (w_queue w') (w_queue (snd (f x w')))" using assms(2) by (simp add: run_adds_def)
    from adds_trans [OF first this] m Inr show ?thesis by (simp add: after_def)
  qed
qed

lemma run_adds_left: "run_adds n J m \<Longrightarrow> (\<And>x. run_adds 0 J (f x)) \<Longrightarrow> run_adds n J (after m f)"
  using run_adds_after [of n J m 0 f] by simp

lemma run_adds_right: "run_adds 0 J m \<Longrightarrow> (\<And>x. run_adds n J (f x)) \<Longrightarrow> run_adds n J (after m f)"
  using run_adds_after [of 0 J m n f] by simp

lemma run_adds_mono: "run_adds n J m \<Longrightarrow> n \<le> k \<Longrightarrow> (\<And>j. J j \<Longrightarrow> J' j) \<Longrightarrow> run_adds k J' m"
  unfolding run_adds_def using adds_mono by blast

lemma run_adds_each:
  assumes "\<And>x. x \<in> set xs \<Longrightarrow> run_adds 1 J (f x)" shows "run_adds (length xs) J (each f xs)"
  using assms
proof (induction xs)
  case (Cons x xs)
  have rest: "run_adds (length xs) J (after (each f xs) (\<lambda>ys. returns (y # ys)))" for y
    by (rule run_adds_left) (use Cons in \<open>auto intro: run_intro\<close>)
  have "run_adds (1 + length xs) J (each f (x # xs))"
    unfolding each.simps by (rule run_adds_after [OF _ rest]) (rule Cons.prems, simp)
  then show ?case by simp
qed (simp add: run_intro)

lemma sq_insert_adds:
  assumes "sq_insert q r jid now = Inr (q', j)" shows "q' = q \<or> q' = q @ [new_job r jid now]"
  using assms
  by (auto simp: sq_insert_def same_payload_def Let_def split: if_splits option.splits sum.splits)

lemma sq_enqueue_adds:
  assumes "sq_enqueue env q c k p m (Some d) jid now = Inr (q', j)"
  shows "q' = q \<or> (\<exists>dk. q' = q @ [new_job \<lparr>rq_campaign = py_strip c, rq_kind = k, rq_payload = json_dumps True p,
    rq_max = m, rq_dedupe = Some dk\<rparr> jid now])"
proof -
  obtain r where r: "check_enqueue env c k p m (Some d) = Inr r"
    using assms by (auto simp: sq_enqueue_def sq_enqueue_racing_def)
  obtain dk where req: "r = \<lparr>rq_campaign = py_strip c, rq_kind = k, rq_payload = json_dumps True p, rq_max = m, rq_dedupe = Some dk\<rparr>"
    using r by (auto simp: check_enqueue_def Let_def dest!: bounded_identifier_Inr split: if_splits)
  have "q' = q \<or> q' = q @ [new_job r jid now]"
    using assms r req
    by (auto simp: sq_enqueue_def sq_enqueue_racing_def same_payload_def dest: sq_insert_adds
        split: option.splits if_splits)
  then show ?thesis using req by blast
qed

lemma governed_enqueue_adds:
  assumes "kind \<in> kinds" shows "run_adds 1 (governed_job sv c kinds) (governed_enqueue sv c kind action payload dedupe)"
  unfolding run_adds_def
proof
  fix w
  let ?a = "attach_job_provenance (sv_hash sv) (sv_hmac sv) (sv_float_text sv) (sv_audit_key sv) payload c kind action"
  show "adds 1 (governed_job sv c kinds) (w_queue w) (w_queue (snd (governed_enqueue sv c kind action payload dedupe w)))"
  proof (cases ?a)
    case (Inl e)
    then show ?thesis by (simp add: governed_enqueue_def after_def pure_run_def)
  next
    case (Inr p)
    let ?n = "w_tick w"
    let ?r = "sq_enqueue (sv_env sv) (w_queue w) (c_id c) kind (PDict p) 2 (Some dedupe) (sv_uuid sv ?n) (sv_clock sv ?n)"
    have run: "w_queue (snd (governed_enqueue sv c kind action payload dedupe w)) =
        (case ?r of Inl e \<Rightarrow> w_queue w | Inr (q, j) \<Rightarrow> q)"
      using Inr by (simp add: governed_enqueue_def after_def pure_run_def enqueue_run_def Let_def split: sum.split prod.split)
    show ?thesis
    proof (cases ?r)
      case (Inr qj)
      obtain q j where qj: "qj = (q, j)" by (cases qj)
      from sq_enqueue_adds Inr qj
      have "q = w_queue w \<or> (\<exists>dk. q = w_queue w @ [new_job \<lparr>rq_campaign = py_strip (c_id c), rq_kind = kind,
          rq_payload = json_dumps True (PDict p), rq_max = 2, rq_dedupe = Some dk\<rparr> (sv_uuid sv ?n) (sv_clock sv ?n)])"
        by blast
      moreover have "\<forall>pf. \<exists>v. verify_job_provenance (sv_hash sv) (sv_hmac sv) (sv_float_text sv) pf (sv_audit_key sv)
          [(''kind'', PStr kind), (''payload'', PDict p)] c = Inr v \<and> pv_valid v"
        using attached_verifies [OF \<open>?a = Inr p\<close>] by blast
      ultimately show ?thesis
        using assms by (auto simp: run Inr qj adds_def governed_job_def new_job_def)
    qed (simp add: run)
  qed
qed

lemma governed_enqueue_one [run_intro]:
  "kind \<in> kinds \<Longrightarrow> run_adds 1 (governed_job sv c kinds)
    (after (governed_enqueue sv c kind action payload dedupe) (\<lambda>j. returns [j]))"
  by (rule run_adds_left [OF governed_enqueue_adds]) (simp_all add: run_intro)

lemma enqueue_recon_tasks_adds:
  "run_adds (length tasks) (governed_job sv c {''recon_task'', ''browser_flow''}) (enqueue_recon_tasks sv c g tasks)"
proof -
  have "run_adds 1 (governed_job sv c {''recon_task'', ''browser_flow''}) (enqueue_recon_task sv c fp t)" for fp t
    by (auto simp: enqueue_recon_task_def simp del: One_nat_def intro: run_intro)
  then show ?thesis
    unfolding enqueue_recon_tasks_def by (intro run_adds_left run_adds_each) (auto intro: run_intro)
qed

text \<open>What an action enqueues, by its kind; a scan, only when the policy receipt allows it.\<close>

definition job_kinds_of :: "action_kind \<Rightarrow> string set" where
  "job_kinds_of k = (case k of Scan \<Rightarrow> {''strix_scan'', ''nuclei_scan''} | Validate \<Rightarrow> {''independent_validation''}
     | Report \<Rightarrow> {''report''} | _ \<Rightarrow> {})"

lemma enqueue_action_scan:
  assumes "pa_kind a = Scan"
  shows "run_adds (length es) (governed_job sv c (job_kinds_of Scan)) (enqueue_action sv a c g limit (Some es) ordinals)"
proof -
  have one: "run_adds 1 (governed_job sv c (job_kinds_of Scan)) (enqueue_scan sv c fp receipt e)" for fp receipt e
    unfolding enqueue_scan_def by (rule governed_enqueue_adds) (simp add: scan_kind_def job_kinds_of_def)
  have all: "run_adds (length es) (governed_job sv c (job_kinds_of Scan))
      (after (pure_run (Inr es)) (each (enqueue_scan sv c fp receipt)))" for fp receipt
  proof -
    have "run_adds (length es) (governed_job sv c (job_kinds_of Scan)) (each (enqueue_scan sv c fp receipt) es)"
      by (rule run_adds_each) (rule one)
    then show ?thesis by (simp add: run_adds_def after_def pure_run_def)
  qed
  show ?thesis
    unfolding enqueue_action_def assms Let_def action_kind.case option.case
    by (intro run_adds_right) (auto intro: run_intro all)
qed

lemma length_take_limit: "0 \<le> n \<Longrightarrow> length (take_limit (Some n) xs) \<le> nat n"
  by (simp add: take_limit_def)

lemma enqueue_action_validate:
  assumes "pa_kind a = Validate" and "0 \<le> n"
  shows "run_adds (nat n) (governed_job sv c (job_kinds_of Validate)) (enqueue_action sv a c g (Some n) engines ordinals)"
proof -
  have "run_adds (length fs) (governed_job sv c (job_kinds_of Validate))
      (each (\<lambda>f. governed_enqueue sv c ''independent_validation'' ''validate'' (validation_payload c ordinals f)
        (validation_dedupe ordinals f)) fs)" for fs
    by (rule run_adds_each) (rule governed_enqueue_adds, simp add: job_kinds_of_def)
  from run_adds_mono [OF this length_take_limit [OF assms(2)]] show ?thesis
    unfolding enqueue_action_def assms(1) Let_def action_kind.case
    by (intro run_adds_right) (auto intro: run_intro)
qed

lemma enqueue_action_report:
  assumes "pa_kind a = Report"
  shows "run_adds 1 (governed_job sv c (job_kinds_of Report)) (enqueue_action sv a c g limit engines ordinals)"
  unfolding enqueue_action_def assms Let_def action_kind.case
  by (rule governed_enqueue_one) (simp add: job_kinds_of_def)

lemma enqueue_action_none:
  "pa_kind a \<in> {Inventory, Crawl, Stop} \<Longrightarrow> run_adds 0 J (enqueue_action sv a c g limit engines ordinals)"
  by (auto simp: enqueue_action_def Let_def intro: run_intro)

section \<open>A target the queue cannot name\<close>

text \<open>The dedupe key holds the whole target, and the queue takes keys of at most 200 characters: a campaign
  whose target is longer than 167 characters, which its validation accepts, can never be crawled.\<close>

lemma long_key_refused:
  assumes "200 < length (py_strip dedupe)"
  shows "\<exists>e. fst (governed_enqueue sv c kind action payload dedupe w) = Inl e"
proof -
  have key: "bounded_identifier dedupe name = Inl (ValueError (name @ '' too long''))" for name
    using assms by (auto simp: bounded_identifier_def bounded_identifier_max_def Let_def)
  have "\<exists>e. check_enqueue env i k p 2 (Some dedupe) = Inl e" for env i k p
    unfolding check_enqueue_def by (cases "bounded_identifier i ''campaign_id''") (auto simp: key)
  note checked = this
  have refused: "\<exists>e. sq_enqueue env q i k p 2 (Some dedupe) jid now = Inl e" for env q i k p jid now
  proof -
    obtain e where "check_enqueue env i k p 2 (Some dedupe) = Inl e" using checked by blast
    then show ?thesis by (simp add: sq_enqueue_def sq_enqueue_racing_def)
  qed
  have "\<exists>e. fst (enqueue_run sv i k p dedupe w) = Inl e" for i k p w
    using refused [of "sv_env sv" "w_queue w" i k "PDict p" "sv_uuid sv (w_tick w)" "sv_clock sv (w_tick w)"]
    by (auto simp: enqueue_run_def Let_def)
  then show ?thesis
    unfolding governed_enqueue_def after_def pure_run_def by (auto split: sum.split)
qed

lemma long_target_never_crawled:
  assumes "rt_kind t = ''crawl''" and "length fingerprint = 20" and "167 < length (rt_target t)"
    and "\<forall>x \<in> set (fingerprint @ rt_target t). \<not> py_isspace x"
  shows "\<exists>e. fst (enqueue_recon_task sv c fingerprint t w) = Inl e"
proof -
  let ?key = "''recon:'' @ rt_kind t @ '':'' @ fingerprint @ '':'' @ rt_target t"
  have "\<not> py_isspace x" if "x \<in> set (''recon:crawl:'')" for x
    using that by (auto simp: py_isspace_def Let_def)
  then have "py_strip ?key = ?key" using assms(1,4) by (intro py_strip_id) auto
  then have "200 < length (py_strip ?key)" using assms(1-3) by simp
  from long_key_refused [OF this] have "\<exists>e. fst (governed_enqueue sv c ''recon_task'' ''crawl'' (recon_payload c t) ?key w) = Inl e" .
  then show ?thesis
    using assms(1) unfolding enqueue_recon_task_def after_def by (auto split: sum.splits prod.splits)
qed

end
