(* ===== verification/GraphContent.thy ===== *)
theory GraphContent
  imports StorageProps "HOL-Library.Multiset"
begin

text \<open>
  What a loaded graph holds, as a multiset of observations: the campaign's stored records. The order
  of loading, which depends on times and parents, is left open.
\<close>

lemma load_pass_content:
  "load_pass g obs = Inr (g', rem) \<Longrightarrow> distinct (map ob_id obs) \<Longrightarrow> ob_id ` set obs \<inter> graph_ids g = {} \<Longrightarrow>
   mset (graph_values g') + mset rem = mset (graph_values g) + mset obs \<and>
   distinct (map ob_id rem) \<and> ob_id ` set rem \<inter> graph_ids g' = {} \<and> set rem \<subseteq> set obs"
proof (induction g obs arbitrary: g' rem rule: load_pass.induct)
  case (2 g ob obs)
  show ?case
  proof (cases "list_all (\<lambda>p. map_of g p \<noteq> None) (ob_parents ob)")
    case True
    then have "set (ob_parents ob) \<subseteq> graph_ids g" by (auto simp: list_all_iff map_of_graph_ids)
    moreover have "ob_id ob \<notin> graph_ids g" using 2(5) by simp
    ultimately have add: "graph_add g ob = Inr (g @ [(ob_id ob, ob)])" by (intro graph_add_new)
    have rest: "load_pass (g @ [(ob_id ob, ob)]) obs = Inr (g', rem)" using 2(3) True add by simp
    have "ob_id ` set obs \<inter> graph_ids (g @ [(ob_id ob, ob)]) = {}" using 2(4,5) by (auto simp: graph_ids_def)
    from 2(1) [OF True rest _ this] 2(4)
    have IH: "mset (graph_values g') + mset rem = mset (graph_values (g @ [(ob_id ob, ob)])) + mset obs"
        "distinct (map ob_id rem)" "ob_id ` set rem \<inter> graph_ids g' = {}" "set rem \<subseteq> set obs" by auto
    then show ?thesis by (auto simp: graph_values_def)
  next
    case False
    with 2(3) obtain b where b: "load_pass g obs = Inr (g', b)" "rem = ob # b" by auto
    from 2(2) [OF False b(1)] 2(4,5)
    have IH: "mset (graph_values g') + mset b = mset (graph_values g) + mset obs"
        "distinct (map ob_id b)" "ob_id ` set b \<inter> graph_ids g' = {}" "set b \<subseteq> set obs" by auto
    have new: "ob_id ob \<notin> ob_id ` set obs" "ob_id ob \<notin> graph_ids g" using 2(4,5) by auto
    have "ob_id ob \<notin> graph_ids g'" using load_pass_facts [OF b(1)] new by blast
    moreover have "ob_id ob \<notin> ob_id ` set b" using IH(4) new(1) by blast
    ultimately show ?thesis using IH b(2) by auto
  qed
qed simp

lemma load_loop_content:
  "load_loop g obs = Inr g' \<Longrightarrow> distinct (map ob_id obs) \<Longrightarrow> ob_id ` set obs \<inter> graph_ids g = {} \<Longrightarrow>
   mset (graph_values g') = mset (graph_values g) + mset obs"
proof (induction g obs rule: load_loop.induct)
  case (1 g pending)
  show ?case
  proof (cases "pending = []")
    case True
    with "1.prems" show ?thesis by (simp add: load_loop.simps)
  next
    case False
    with "1.prems"(1) obtain g1 rem where lp: "load_pass g pending = Inr (g1, rem)"
      and lt: "length rem < length pending" and rest: "load_loop g1 rem = Inr g'"
      by (subst (asm) load_loop.simps) (auto split: sum.splits if_splits)
    from load_pass_content [OF lp "1.prems"(2,3)] "1.IH" [OF False lp refl lt rest] show ?thesis by simp
  qed
qed

lemma from_records_content:
  assumes "from_records recs = Inr g" and "distinct (map ob_id recs)"
  shows "mset (graph_values g) = mset recs"
  using load_loop_content [of "[]" recs g] assms by (simp add: from_records_def graph_ids_def graph_values_def)

lemma load_graph_content:
  assumes "obs_inv pf st recs" and "is_ident c"
  obtains g where "load_observation_graph pf st c False = Inr g"
    and "mset (graph_values g) = mset (map observation_of (filter (\<lambda>r. oc_campaign r = c) recs))"
    and "distinct (map ob_id (graph_values g))"
proof -
  have c: "py_strip c = c" using assms(2) by (simp add: is_ident_def)
  let ?mine = "filter (\<lambda>r. oc_campaign r = c) recs"
  obtain rs where rs: "list_observations pf st c = Inr rs" "distinct (map oc_id rs)" "set rs = set ?mine"
    using list_observations_inv [OF assms(1), of c] assms(2) c by metis
  have "topo {} (map observation_of ?mine)" using assms(1) by (simp add: obs_inv_def recs_ok_def)
  moreover have "set (map observation_of rs) = set (map observation_of ?mine)" using rs(3) by simp
  moreover have d: "distinct (map ob_id (map observation_of rs))" using rs(2) by (simp add: comp_def)
  ultimately obtain g where g: "from_records (map observation_of rs) = Inr g" by (rule from_records_total)
  have m: "mset (graph_values g) = mset (map observation_of rs)" by (rule from_records_content [OF g d])
  have "distinct (map oc_id ?mine)" using distinct_ids [of recs c] assms(1) by (simp add: obs_inv_def recs_ok_def)
  then have "distinct rs" "distinct ?mine" using rs(2) by (simp_all only: distinct_map)
  then have "mset rs = mset ?mine" using rs(3) by (metis set_eq_iff_mset_eq_distinct)
  then have "mset (graph_values g) = mset (map observation_of ?mine)" using m by simp
  moreover have "distinct (map ob_id (graph_values g))"
    using d m by (metis mset_eq_imp_distinct_iff mset_map)
  moreover have "load_observation_graph pf st c False = Inr g" using rs(1) g by (simp add: load_observation_graph_def)
  ultimately show thesis using that by blast
qed

text \<open>Storing an observation of the program's own: the record that is added, unless the identifier is
  taken by an equal one.\<close>

lemma load_graph_grows:
  assumes "(st_step pf H r)\<^sup>*\<^sup>* st_empty st" and "(st_step pf H r)\<^sup>*\<^sup>* st st'" and "is_ident c"
  obtains g g' where "load_observation_graph pf st c False = Inr g" and "load_observation_graph pf st' c False = Inr g'"
    and "mset (graph_values g) \<subseteq># mset (graph_values g')" and "distinct (map ob_id (graph_values g'))"
proof -
  obtain recs where inv: "obs_inv pf st recs" using obs_inv_reachable [OF assms(1)] by blast
  obtain more where inv': "obs_inv pf st' (recs @ more)" using obs_inv_steps [OF assms(2) inv] by blast
  obtain g where g: "load_observation_graph pf st c False = Inr g"
      "mset (graph_values g) = mset (map observation_of (filter (\<lambda>r. oc_campaign r = c) recs))"
    by (rule load_graph_content [OF inv assms(3)]) blast
  obtain g' where g': "load_observation_graph pf st' c False = Inr g'"
      "mset (graph_values g') = mset (map observation_of (filter (\<lambda>r. oc_campaign r = c) (recs @ more)))"
      "distinct (map ob_id (graph_values g'))"
    by (rule load_graph_content [OF inv' assms(3)]) blast
  have "mset (graph_values g) \<subseteq># mset (graph_values g')" by (simp add: g(2) g'(2))
  with g(1) g'(1,3) show thesis using that by blast
qed

end
