(* ===== verification/RepeatValidation.thy ===== *)
theory RepeatValidation
  imports PendingValidation GraphContent JobProvenance
begin

text \<open>
  \<open>backend/app/differential_quality.py\<close> and \<open>backend/app/repeat_validation.py\<close>: the quality of the
  differential observations of a finding, and which findings get a second, last one. The CVE
  identifiers of a finding are read as \<open>finding_cve_ids\<close> of \<open>vulnerability_intelligence.py\<close> does; its
  field \<open>cve_ids\<close>, which the record of findings leaves out, is an argument.
\<close>

section \<open>CVE identifiers\<close>

text \<open>\<open>\w\<close> and \<open>\d\<close> of \<open>re\<close>, on code points below 256.\<close>

definition re_word :: "char \<Rightarrow> bool" where
  "re_word c = (let n = (of_char c :: nat) in (48 \<le> n \<and> n \<le> 57) \<or> (65 \<le> n \<and> n \<le> 90) \<or> n = 95 \<or>
     (97 \<le> n \<and> n \<le> 122) \<or> n \<in> {170, 178, 179, 181, 185, 186, 188, 189, 190} \<or>
     (192 \<le> n \<and> n \<noteq> 215 \<and> n \<noteq> 247))"

text \<open>A match of \<open>CVE-(\d{4})-(\d{4,10})\b\<close> at the start of the text: the digits must end at a word
  boundary, so their whole run is taken.\<close>

definition cve_at :: "string \<Rightarrow> string option" where
  "cve_at s =
     (let year = take 4 (drop 4 s); rest = drop 9 s;
          number = takeWhile is_digit rest; after = dropWhile is_digit rest in
      if py_upper (take 3 s) = ''CVE'' \<and> take 1 (drop 3 s) = ''-'' \<and> length year = 4 \<and> list_all is_digit year \<and>
         take 1 (drop 8 s) = ''-'' \<and> 4 \<le> length number \<and> length number \<le> 10 \<and> (after = [] \<or> \<not> re_word (hd after))
      then Some (''CVE-'' @ year @ ''-'' @ number) else None)"

text \<open>\<open>finditer\<close>; a match holds no second start, so looking at every position finds the same ones.\<close>

fun cve_matches :: "bool \<Rightarrow> string \<Rightarrow> string list" where
  "cve_matches after_word [] = []"
| "cve_matches after_word (c # s) =
     (case (if after_word then None else cve_at (c # s)) of None \<Rightarrow> [] | Some i \<Rightarrow> [i]) @ cve_matches (re_word c) s"

definition extract_cve_ids :: "string list \<Rightarrow> string list" where
  "extract_cve_ids values = sort (take 32 (dedup_first (concat (map (cve_matches False) values))))"

definition finding_cve_ids :: "(finding \<Rightarrow> string list) \<Rightarrow> finding \<Rightarrow> string list" where
  "finding_cve_ids structured f =
     extract_cve_ids (structured f @ take 100 (f_evidence f) @ [f_title f, f_summary f])"

section \<open>Quality of the differential observations\<close>

record differential_quality =
  dq_finding :: string
  dq_count :: nat
  dq_strong :: nat
  dq_weak :: nat
  dq_none :: nat
  dq_sources :: "string list"
  dq_parameters :: "string list"
  dq_strong_parameters :: "string list"
  dq_consistent :: bool
  dq_reflections :: nat
  dq_status_changes :: nat
  dq_body_changes :: nat
  dq_reproducible :: bool
  dq_contradictory :: bool
  dq_reproducibility :: string
  dq_specificity :: string
  dq_score :: rat
  dq_risk :: string

definition empty_differential_quality :: "string \<Rightarrow> differential_quality" where
  "empty_differential_quality i =
     \<lparr>dq_finding = i, dq_count = 0, dq_strong = 0, dq_weak = 0, dq_none = 0, dq_sources = [], dq_parameters = [],
      dq_strong_parameters = [], dq_consistent = False, dq_reflections = 0, dq_status_changes = 0,
      dq_body_changes = 0, dq_reproducible = False, dq_contradictory = False, dq_reproducibility = ''none'',
      dq_specificity = ''none'', dq_score = 0, dq_risk = ''high''\<rparr>"

definition differential_finding_id :: "observation \<Rightarrow> string option" where
  "differential_finding_id v =
     (case pget (ob_meta v) ''finding_id'' of
        PStr (c # cs) \<Rightarrow> Some (c # cs)
      | _ \<Rightarrow> map_option (drop (length ''finding:'')) (find (\<lambda>p. py_startswith p ''finding:'') (ob_parents v)))"

definition signal_of :: "observation \<Rightarrow> pyval" where
  "signal_of v = pget (ob_meta v) ''differential_signal''"

text \<open>The finding an observation is about, and whether it carries a signal; membership in the set of
  levels needs a hashable value.\<close>

definition differential_row :: "observation \<Rightarrow> (string \<times> bool) option result" where
  "differential_row v =
     (case differential_finding_id v of
        None \<Rightarrow> Inr None
      | Some i \<Rightarrow>
          if i = [] then Inr None
          else rbind (hashable (signal_of v)) (\<lambda>_.
            Inr (Some (i, signal_of v \<in> {PStr ''none'', PStr ''weak'', PStr ''strong''}))))"

definition has_signal :: "string \<Rightarrow> observation \<Rightarrow> bool" where
  "has_signal level v = (signal_of v = PStr level)"

definition marked :: "string \<Rightarrow> observation \<Rightarrow> bool" where
  "marked key v = (pget (ob_meta v) key = PBool True)"

definition parameter_of :: "observation \<Rightarrow> string option" where
  "parameter_of v = (case pget (ob_meta v) ''differential_parameter'' of
       PStr s \<Rightarrow> or_none (py_strip s) | _ \<Rightarrow> None)"

definition parameters_of :: "observation list \<Rightarrow> string list" where
  "parameters_of vs = sorted_set (map (take 120) (List.map_filter parameter_of vs))"

text \<open>Some parameter has a strong signal and a weaker one.\<close>

definition contradicts :: "observation list \<Rightarrow> bool" where
  "contradicts vs = list_ex (\<lambda>v. has_signal ''strong'' v \<and> (case parameter_of v of None \<Rightarrow> False
     | Some p \<Rightarrow> list_ex (\<lambda>w. parameter_of w = Some p \<and> (has_signal ''weak'' w \<or> has_signal ''none'' w)) vs)) vs"

definition specificity :: "nat \<Rightarrow> nat \<Rightarrow> nat \<Rightarrow> string" where
  "specificity reflections status_changes body_changes =
     (if reflections > 0 then ''high'' else if status_changes > 0 then ''medium''
      else if body_changes > 0 then ''low'' else ''none'')"

definition differential_score :: "string \<Rightarrow> bool \<Rightarrow> bool \<Rightarrow> nat \<Rightarrow> bool \<Rightarrow> rat" where
  "differential_score spec reproducible strong sources contradictory =
     (let s1 = (if spec = ''high'' then double (45 / 100) else if spec = ''medium'' then double (25 / 100)
            else if spec = ''low'' then double (15 / 100) else 0);
          s2 = (if reproducible then double (s1 + double (30 / 100))
            else if strong then double (s1 + double (10 / 100)) else s1);
          s3 = (if sources \<ge> 2 then double (s2 + double (15 / 100))
            else if sources > 0 then double (s2 + double (5 / 100)) else s2);
          s4 = (if contradictory then double (s3 - double (25 / 100)) else s3) in
      py_round 4 (max 0 (min 1 s4)))"

definition false_positive_risk :: "bool \<Rightarrow> rat \<Rightarrow> string" where
  "false_positive_risk contradictory score =
     (if contradictory \<or> score < double (35 / 100) then ''high''
      else if score < double (70 / 100) then ''medium'' else ''low'')"

definition quality_of_rows :: "string \<Rightarrow> observation list \<Rightarrow> differential_quality" where
  "quality_of_rows i vs =
     (if vs = [] then empty_differential_quality i
      else (let strong = filter (has_signal ''strong'') vs;
           sources = sorted_set (map (take 120) (filter (\<lambda>s. s \<noteq> []) (map (py_strip \<circ> ob_source) vs)));
           strong_parameters = parameters_of strong;
           consistent = (length strong_parameters = 1 \<and> strong \<noteq> []);
           reflections = length (filter (marked ''differential_marker_reflected'') vs);
           status_changes = length (filter (marked ''differential_status_changed'') vs);
           body_changes = length (filter (marked ''differential_body_changed'') vs);
           contradictory = contradicts vs;
           reproducible = (length strong \<ge> 2 \<and> consistent);
           spec = specificity reflections status_changes body_changes;
           score = differential_score spec reproducible (strong \<noteq> []) (length sources) contradictory in
        \<lparr>dq_finding = i, dq_count = length vs, dq_strong = length strong,
         dq_weak = length (filter (has_signal ''weak'') vs), dq_none = length (filter (has_signal ''none'') vs),
         dq_sources = sources, dq_parameters = parameters_of vs, dq_strong_parameters = strong_parameters,
         dq_consistent = consistent, dq_reflections = reflections, dq_status_changes = status_changes,
         dq_body_changes = body_changes, dq_reproducible = reproducible, dq_contradictory = contradictory,
         dq_reproducibility = (if reproducible \<and> length sources \<ge> 2 then ''multi_source_repeated''
           else if reproducible then ''repeated'' else if strong \<noteq> [] then ''single'' else ''none''),
         dq_specificity = spec, dq_score = score, dq_risk = false_positive_risk contradictory score\<rparr>))"

definition rows_of :: "string \<Rightarrow> (observation \<times> (string \<times> bool) option) list \<Rightarrow> observation list" where
  "rows_of i marks = map fst (filter (\<lambda>(v, m). m = Some (i, True)) marks)"

definition build_differential_quality :: "obs_graph \<Rightarrow> (string \<times> differential_quality) list result" where
  "build_differential_quality g =
     (let validations = by_kind Validation g in
      rbind (rmap differential_row validations) (\<lambda>ms.
        let ids = map (remove_prefix ''finding:'' \<circ> ob_id) (by_kind Finding g) @ map fst (List.map_filter id ms) in
        Inr (map (\<lambda>i. (i, quality_of_rows i (rows_of i (zip validations ms)))) (sorted_set ids))))"

section \<open>Candidates for one repeat\<close>

definition repeat_validation_enabled :: "environ \<Rightarrow> bool result" where
  "repeat_validation_enabled env =
     (case env ''XBOW_ENABLE_REPEAT_DIFFERENTIAL_VALIDATION'' of
        None \<Rightarrow> Inr False
      | Some raw \<Rightarrow> (let value = py_lower (py_strip raw) in
          if value \<in> {''1'', ''true'', ''yes'', ''on''} then Inr True
          else if value \<in> {''0'', ''false'', ''no'', ''off''} then Inr False
          else Inl (AppError ''RepeatValidationConfigError''
            ''XBOW_ENABLE_REPEAT_DIFFERENTIAL_VALIDATION must be a boolean'')))"

record repeat_candidate =
  rp_finding :: string
  rp_ordinal :: int
  rp_score :: rat
  rp_specificity :: string

definition repeat_quality :: "differential_quality \<Rightarrow> bool" where
  "repeat_quality q \<longleftrightarrow> dq_count q < 2 \<and> dq_strong q = 1 \<and> \<not> dq_reproducible q \<and> \<not> dq_contradictory q \<and>
     dq_specificity q = ''high''"

definition repeat_candidate_of ::
  "(finding \<Rightarrow> string list) \<Rightarrow> (string \<times> differential_quality) list \<Rightarrow> finding \<Rightarrow> repeat_candidate option" where
  "repeat_candidate_of structured quality f =
     (if f_id f = [] \<or> f_status f \<noteq> ValidationRequired \<or> f_severity f \<notin> {SHigh, SCritical} \<or>
         finding_cve_ids structured f \<noteq> [] then None
      else (case map_of quality (f_id f) of
          None \<Rightarrow> None
        | Some q \<Rightarrow>
            if repeat_quality q
            then Some \<lparr>rp_finding = f_id f, rp_ordinal = int (dq_count q) + 1, rp_score = dq_score q,
                   rp_specificity = dq_specificity q\<rparr>
            else None))"

definition build_repeat_candidates ::
  "(finding \<Rightarrow> string list) \<Rightarrow> finding list \<Rightarrow> obs_graph \<Rightarrow> bool \<Rightarrow> repeat_candidate list result" where
  "build_repeat_candidates structured findings g enabled =
     (if \<not> enabled then Inr []
      else rbind (build_differential_quality g) (\<lambda>quality.
        Inr (sort_key (\<lambda>r. (- rp_score r, rp_finding r)) (List.map_filter (repeat_candidate_of structured quality) findings))))"

section \<open>The repeat budget\<close>

definition signal_rows :: "string \<Rightarrow> obs_graph \<Rightarrow> observation list" where
  "signal_rows i g = filter (\<lambda>v. differential_row v = Inr (Some (i, True))) (by_kind Validation g)"

lemma rows_of_zip:
  "list_all2 (\<lambda>v m. differential_row v = Inr m) vs ms \<Longrightarrow>
   rows_of i (zip vs ms) = filter (\<lambda>v. differential_row v = Inr (Some (i, True))) vs"
  by (induction rule: list_all2_induct) (simp_all add: rows_of_def)

lemma quality_entry:
  assumes "build_differential_quality g = Inr quality" and "map_of quality i = Some q"
  shows "q = quality_of_rows i (signal_rows i g)"
proof -
  from assms(1) obtain ms ids where ms: "list_all2 (\<lambda>v m. differential_row v = Inr m) (by_kind Validation g) ms"
    and quality: "quality = map (\<lambda>i. (i, quality_of_rows i (rows_of i (zip (by_kind Validation g) ms)))) ids"
    by (auto simp: build_differential_quality_def Let_def rmap_Inr_iff)
  show ?thesis
    using assms(2)
    by (auto simp: quality rows_of_zip [OF ms] signal_rows_def map_of_map_restrict restrict_map_def split: if_splits)
qed

lemma differential_row_signal:
  assumes "differential_row v = Inr (Some (i, True))"
  shows "has_signal ''none'' v \<or> has_signal ''weak'' v \<or> has_signal ''strong'' v"
  using assms by (auto simp: differential_row_def has_signal_def split: option.splits if_splits)

lemma quality_counts:
  "dq_count (quality_of_rows i vs) = length vs" "dq_strong (quality_of_rows i vs) = length (filter (has_signal ''strong'') vs)"
  "dq_specificity (quality_of_rows i vs) = ''high'' \<longleftrightarrow> list_ex (marked ''differential_marker_reflected'') vs"
  by (auto simp: quality_of_rows_def empty_differential_quality_def Let_def specificity_def list_ex_iff filter_empty_conv)

lemma candidate_fields:
  assumes "repeat_candidate_of structured quality f = Some r"
  obtains q where "map_of quality (f_id f) = Some q" "repeat_quality q" "rp_finding r = f_id f"
    "rp_ordinal r = int (dq_count q) + 1" "f_status f = ValidationRequired" "f_severity f \<in> {SHigh, SCritical}"
    "finding_cve_ids structured f = []"
  using assms by (auto simp: repeat_candidate_of_def split: if_splits option.splits)

lemma repeat_candidates_mem:
  assumes "build_repeat_candidates structured findings g enabled = Inr rs" and "r \<in> set rs"
  obtains f quality where "enabled" "f \<in> set findings" "build_differential_quality g = Inr quality"
    "repeat_candidate_of structured quality f = Some r"
  using assms by (auto simp: build_repeat_candidates_def map_filter_def split: if_splits)

text \<open>C40: the automatic repeat of a differential validation. A finding is repeated only while exactly one
  differential observation of it exists, which is strong and saw the marker reflected; the finding
  waits for validation, is of high or critical severity and names no CVE; the repeat is always the
  second observation. Once two observations exist, whatever they show and whatever is observed later,
  the finding is never repeated again.\<close>

theorem repeat_at_most_once:
  assumes "build_repeat_candidates structured findings g enabled = Inr rs" and "r \<in> set rs"
  shows "rp_ordinal r = 2 \<and>
    (\<exists>v. signal_rows (rp_finding r) g = [v] \<and> has_signal ''strong'' v \<and> marked ''differential_marker_reflected'' v) \<and>
    (\<exists>f \<in> set findings. f_id f = rp_finding r \<and> f_status f = ValidationRequired \<and> f_severity f \<in> {SHigh, SCritical} \<and>
      finding_cve_ids structured f = []) \<and>
    (\<forall>g' g'' rs' r'. 2 \<le> length (signal_rows (rp_finding r) g') \<longrightarrow> mset (graph_values g') \<subseteq># mset (graph_values g'') \<longrightarrow>
      build_repeat_candidates structured findings g'' enabled = Inr rs' \<longrightarrow> r' \<in> set rs' \<longrightarrow> rp_finding r' \<noteq> rp_finding r)"
proof -
  have one: "\<exists>v. signal_rows (rp_finding r) g = [v] \<and> has_signal ''strong'' v \<and> marked ''differential_marker_reflected'' v \<and>
      rp_ordinal r = 2"
    if built: "build_repeat_candidates structured findings g enabled = Inr rs" "r \<in> set rs" for g rs r
  proof -
    obtain f quality where q: "build_differential_quality g = Inr quality" "repeat_candidate_of structured quality f = Some r"
      using repeat_candidates_mem [OF built] by metis
    obtain d where d: "map_of quality (f_id f) = Some d" "repeat_quality d" "rp_finding r = f_id f"
      "rp_ordinal r = int (dq_count d) + 1"
      using candidate_fields [OF q(2)] by metis
    let ?vs = "signal_rows (rp_finding r) g"
    have rows: "d = quality_of_rows (f_id f) ?vs" using quality_entry [OF q(1) d(1)] d(3) by simp
    have n: "length ?vs < 2" "length (filter (has_signal ''strong'') ?vs) = 1" "list_ex (marked ''differential_marker_reflected'') ?vs"
      using d(2) unfolding rows repeat_quality_def quality_counts by auto
    then obtain v where "?vs = [v]"
      by (cases ?vs rule: remdups_adj.cases) auto
    with n d(4) rows show ?thesis by (auto simp: quality_counts split: if_splits)
  qed
  obtain f quality where f: "f \<in> set findings" "repeat_candidate_of structured quality f = Some r"
    using repeat_candidates_mem [OF assms] by metis
  have "\<exists>f \<in> set findings. f_id f = rp_finding r \<and> f_status f = ValidationRequired \<and> f_severity f \<in> {SHigh, SCritical} \<and>
      finding_cve_ids structured f = []"
    using candidate_fields [OF f(2)] f(1) by metis
  moreover have "rp_finding r' \<noteq> rp_finding r"
    if "2 \<le> length (signal_rows (rp_finding r) g')" "mset (graph_values g') \<subseteq># mset (graph_values g'')"
      "build_repeat_candidates structured findings g'' enabled = Inr rs'" "r' \<in> set rs'" for g' g'' rs' r'
  proof
    assume same: "rp_finding r' = rp_finding r"
    have "mset (signal_rows i g') \<subseteq># mset (signal_rows i g'')" for i
      using that(2) by (simp add: signal_rows_def by_kind_def multiset_filter_mono)
    then have "length (signal_rows (rp_finding r) g') \<le> length (signal_rows (rp_finding r) g'')"
      by (metis size_mset size_mset_mono)
    with one [OF that(3,4)] that(1) same show False by auto
  qed
  ultimately show ?thesis using one [OF assms] by blast
qed

definition ex_signal :: observation where
  "ex_signal = \<lparr>ob_id = ''v1'', ob_kind = Validation, ob_value = ''observed'', ob_source = ''differential'', ob_parents = [],
     ob_meta = [(''finding_id'', PStr ''f1''), (''differential_signal'', PStr ''strong''),
       (''differential_marker_reflected'', PBool True)]\<rparr>"

definition ex_waiting :: finding where
  "ex_waiting = (ex_finding ''f1'' ''open redirect'')\<lparr>f_severity := SHigh, f_status := ValidationRequired\<rparr>"

lemma ex_repeat:
  "(case build_repeat_candidates (\<lambda>f. []) [ex_waiting] [(''v1'', ex_signal)] True of
      Inl e \<Rightarrow> [] | Inr rs \<Rightarrow> map rp_finding rs) = [''f1'']"
  by code_simp

lemma repeat_at_most_once_witness:
  "\<exists>r. build_repeat_candidates (\<lambda>f. []) [ex_waiting] [(''v1'', ex_signal)] True = Inr [r] \<and> rp_ordinal r = 2"
proof -
  obtain r where r: "build_repeat_candidates (\<lambda>f. []) [ex_waiting] [(''v1'', ex_signal)] True = Inr [r]"
    using ex_repeat by (cases "build_repeat_candidates (\<lambda>f. []) [ex_waiting] [(''v1'', ex_signal)] True") auto
  then show ?thesis using repeat_at_most_once [OF r, of r] by simp
qed

end
