(* ===== verification/CircuitBreaker.thy ===== *)
theory CircuitBreaker
  imports GraphContent PolicyIntegrity
begin

text \<open>
  \<open>backend/app/circuit_breaker.py\<close>: the breaker of a campaign is the latest of its events, which are
  evidence observations in the store; opening and resetting append an event.
\<close>

definition breaker_memory :: string where
  "breaker_memory = ''campaign_circuit_breaker''"

definition breaker_id :: "(string \<Rightarrow> string) \<Rightarrow> string \<Rightarrow> string" where
  "breaker_id H reason = ''breaker:'' @ take 24 (H reason)"

record breaker_state =
  bk_open :: bool
  bk_reason :: pyval
  bk_opened :: pyval
  bk_reset :: pyval

definition is_breaker_event :: "observation \<Rightarrow> bool" where
  "is_breaker_event item =
     (ob_kind item = Evidence \<and> py_eq (pget (ob_meta item) ''memory_type'') (PStr breaker_memory))"

definition breaker_events :: "obs_graph \<Rightarrow> observation list" where
  "breaker_events g = filter is_breaker_event (graph_values g)"

definition breaker_time :: "observation \<Rightarrow> string" where
  "breaker_time item = str_or_empty (pget (ob_meta item) ''at'')"

definition breaker_state_of :: "observation \<Rightarrow> breaker_state" where
  "breaker_state_of latest =
     (let state = str_or_empty (pget (ob_meta latest) ''state''); stamp = pget (ob_meta latest) ''at'' in
      \<lparr>bk_open = (state = ''open''),
       bk_reason = (if state = ''open'' then pget (ob_meta latest) ''reason'' else PNone),
       bk_opened = (if state = ''open'' then stamp else PNone),
       bk_reset = (if state = ''reset'' then stamp else PNone)\<rparr>)"

definition circuit_breaker_state :: "obs_graph \<Rightarrow> breaker_state" where
  "circuit_breaker_state g = (let ordered = sort_key breaker_time (breaker_events g) in
     if ordered = [] then \<lparr>bk_open = False, bk_reason = PNone, bk_opened = PNone, bk_reset = PNone\<rparr>
     else breaker_state_of (last ordered))"

definition open_event :: "(string \<Rightarrow> string) \<Rightarrow> string \<Rightarrow> string \<Rightarrow> observation" where
  "open_event H reason stamp =
     \<lparr>ob_id = breaker_id H (''open:'' @ reason @ '':'' @ stamp), ob_kind = Evidence, ob_value = ''open'',
      ob_source = ''orchestrator'', ob_parents = [],
      ob_meta = [(''memory_type'', PStr breaker_memory), (''state'', PStr ''open''), (''reason'', PStr reason),
        (''at'', PStr stamp), (''operator_reset_required'', PBool True)]\<rparr>"

definition reset_event :: "(string \<Rightarrow> string) \<Rightarrow> pyval \<Rightarrow> string \<Rightarrow> observation" where
  "reset_event H opened stamp =
     \<lparr>ob_id = breaker_id H (''reset:'' @ py_str opened @ '':'' @ stamp), ob_kind = Evidence, ob_value = ''reset'',
      ob_source = ''operator'', ob_parents = [],
      ob_meta = [(''memory_type'', PStr breaker_memory), (''state'', PStr ''reset''),
        (''at'', PStr stamp), (''operator_reset'', PBool True)]\<rparr>"

text \<open>The time \<open>now\<close> is the one the store stamps the row with, \<open>at\<close> that of the event.\<close>

definition record_circuit_open ::
  "environ \<Rightarrow> (string \<Rightarrow> (rat \<times> string) option) \<Rightarrow> (string \<Rightarrow> string) \<Rightarrow> string \<Rightarrow> string \<Rightarrow> string \<Rightarrow> string \<Rightarrow>
   storage \<Rightarrow> (storage \<times> breaker_state) result" where
  "record_circuit_open env pf H campaign_id reason stamp now st =
     rbind (load_observation_graph pf st campaign_id False) (\<lambda>g.
     let current = circuit_breaker_state g in
     if bk_open current then Inr (st, current)
     else rbind (put_observation env pf campaign_id (observation_dict (open_event H reason stamp)) now st) (\<lambda>(st', x).
       Inr (st', \<lparr>bk_open = True, bk_reason = PStr reason, bk_opened = PStr stamp, bk_reset = PNone\<rparr>)))"

definition record_circuit_reset ::
  "environ \<Rightarrow> (string \<Rightarrow> (rat \<times> string) option) \<Rightarrow> (string \<Rightarrow> string) \<Rightarrow> string \<Rightarrow> string \<Rightarrow> string \<Rightarrow>
   storage \<Rightarrow> (storage \<times> breaker_state) result" where
  "record_circuit_reset env pf H campaign_id stamp now st =
     rbind (load_observation_graph pf st campaign_id False) (\<lambda>g.
     let current = circuit_breaker_state g in
     if \<not> bk_open current then Inr (st, current)
     else rbind (put_observation env pf campaign_id (observation_dict (reset_event H (bk_opened current) stamp)) now st)
       (\<lambda>(st', x). Inr (st', \<lparr>bk_open = False, bk_reason = PNone, bk_opened = PNone, bk_reset = PStr stamp\<rparr>)))"

section \<open>The latest event decides\<close>

lemma sorted_last_greatest:
  assumes "distinct xs" and "x \<in> set xs" and "\<forall>y \<in> set xs. y \<noteq> x \<longrightarrow> f y < f x"
  shows "last (sort_key f xs) = (x :: 'a)" and "xs \<noteq> []"
proof -
  have ne: "sort_key f xs \<noteq> []" using assms(2) by (metis empty_iff set_empty set_sort)
  let ?l = "last (sort_key f xs)"
  have l: "?l \<in> set xs" using ne by (metis last_in_set set_sort)
  have x: "x \<in> set (sort_key f xs)" using assms(2) by simp
  then obtain i where i: "i < length xs" "sort_key f xs ! i = x" by (metis in_set_conv_nth length_sort)
  have "map f (sort_key f xs) ! i \<le> map f (sort_key f xs) ! (length xs - 1)"
    using i(1) by (intro sorted_nth_mono) simp_all
  then have "f x \<le> f ?l" using i ne by (auto simp: last_conv_nth)
  with assms(3) l show "?l = x" by (metis leD)
  show "xs \<noteq> []" using assms(2) by auto
qed

text \<open>The program stores an observation of its own.\<close>

lemma normalize_own:
  assumes "normalize_observation env c (observation_dict ob) now = Inr r"
  shows "oc_campaign r = py_strip c" and "oc_kind r = kind_text (ob_kind ob)" and "oc_metadata r = ob_meta ob"
    and "oc_value r = ob_value ob" and "oc_source r = ob_source ob"
proof -
  have k: "map_of kind_names (kind_text k) = Some k" for k by (cases k) (simp_all add: kind_text_def kind_names_def)
  have f: "has_fields [''id'', ''kind'', ''value'', ''source''] (observation_dict ob)"
    "map_of (observation_dict ob) ''parent_ids'' = Some (text_list (ob_parents ob))"
    "map_of (observation_dict ob) ''metadata'' = Some (PDict (ob_meta ob))"
    "pget (observation_dict ob) ''kind'' = PStr (kind_text (ob_kind ob))"
    "pget (observation_dict ob) ''id'' = PStr (ob_id ob)" "pget (observation_dict ob) ''value'' = PStr (ob_value ob)"
    "pget (observation_dict ob) ''source'' = PStr (ob_source ob)" "pget (observation_dict ob) ''created_at'' = PNone"
    by (simp_all add: has_fields_def observation_dict_def pget_def)
  show "oc_campaign r = py_strip c" using normalize_observation_fields(4) [OF assms] .
  show "oc_kind r = kind_text (ob_kind ob)" "oc_metadata r = ob_meta ob"
    "oc_value r = ob_value ob" "oc_source r = ob_source ob"
    using assms unfolding normalize_observation_def f Let_def option.case pyval.case
    by (auto simp: f k py_str_def split: if_splits)
qed

lemma put_own:
  assumes inv: "obs_inv pf st recs" and "is_ident c"
    and put: "put_observation env pf c (observation_dict ob) now st = Inr (st', x)" and ok: "json_ok pf (PDict (ob_meta ob))"
  shows "(\<exists>q \<in> set recs. st' = st \<and> oc_campaign q = c \<and> ob_kind (observation_of q) = ob_kind ob \<and>
        py_eq (PDict (oc_metadata q)) (PDict (ob_meta ob))) \<or>
      (\<exists>r. obs_inv pf st' (recs @ [r]) \<and> oc_campaign r = c \<and> ob_kind (observation_of r) = ob_kind ob \<and>
        oc_metadata r = ob_meta ob)"
proof -
  have c: "py_strip c = c" using assms(2) by (simp add: is_ident_def)
  have k: "the (map_of kind_names (kind_text k)) = k" for k by (cases k) (simp_all add: kind_text_def kind_names_def)
  have ok_dict: "json_ok pf (PDict (observation_dict ob))"
    using ok by (simp add: observation_dict_def text_list_def list_all_iff)
  obtain r where r: "normalize_observation env c (observation_dict ob) now = Inr r"
    using put by (auto simp: put_observation_def)
  note own = normalize_own [OF r]
  show ?thesis
  proof (cases "find_obs (oc_campaign r) (oc_id r) st")
    case None
    then have st': "st_observations st' = st_observations st @ [obs_row_of r]"
      using put r by (auto simp: put_observation_def Let_def split: if_splits)
    obtain more where more: "obs_inv pf st' (recs @ more)"
      using obs_inv_step [OF inv put_observation_step(1) [OF put ok_dict]] by blast
    then have "map obs_row_of more = [obs_row_of r]" using st' inv by (simp add: obs_inv_def)
    then obtain m where m: "more = [m]" "obs_row_of m = obs_row_of r" by auto
    have "json_ok pf (PDict (oc_metadata m))" using more m(1) by (simp add: obs_inv_def recs_ok_def)
    then have "Inr m = obs_of_row pf (obs_row_of r)" using m(2) obs_of_row_of by metis
    also have "\<dots> = Inr r" using normalize_observation_json [OF r ok_dict] by (rule obs_of_row_of)
    finally have "m = r" by simp
    then show ?thesis using more m(1) own c by (auto simp: observation_of_def k intro!: exI [of _ r])
  next
    case (Some e)
    then obtain q where q: "q \<in> set recs" "oc_campaign q = oc_campaign r" "e = obs_row_of q"
      by (auto simp: obs_inv_find [OF inv] find_Some_iff in_set_conv_nth)
    have "json_ok pf (PDict (oc_metadata q))" using q(1) inv by (auto simp: obs_inv_def recs_ok_def list_all_iff)
    note cols = obs_columns [OF this]
    from put r Some have "st' = st" "oc_kind q = oc_kind r" "py_eq (PDict (oc_metadata q)) (PDict (oc_metadata r))"
      using cols by (auto simp: put_observation_def Let_def q(3) split: if_splits)
    then show ?thesis using q own c by (intro disjI1 bexI [of _ q]) (simp_all add: observation_of_def k)
  qed
qed

section \<open>What is reported is what holds\<close>

lemma py_eq_PDict_lookup:
  assumes "py_eq (PDict d) (PDict e)" and "distinct (map fst d)" and "distinct (map fst e)" and "map_of e k = Some w"
  shows "\<exists>v. map_of d k = Some v \<and> py_eq v w"
proof -
  have sub: "map_of d i = Some v \<Longrightarrow> \<exists>u. map_of e i = Some u \<and> py_eq v u" if "py_sub d e" for i v d
    using that by (induction d) (auto split: option.splits if_splits)
  have all: "\<exists>u. map_of e i = Some u \<and> py_eq v u" if "map_of d i = Some v" for i v
    using sub [of d i v] that assms(1) by simp
  have "dom (map_of d) \<subseteq> dom (map_of e)" using all by blast
  then have "fst ` set d \<subseteq> fst ` set e" by (simp add: dom_map_of_conv_image_fst)
  moreover have "card (fst ` set d) = card (fst ` set e)"
    using assms(1) distinct_card [OF assms(2)] distinct_card [OF assms(3)] by simp
  ultimately have "fst ` set d = fst ` set e" by (intro card_subset_eq) simp_all
  moreover have "k \<in> fst ` set e" using assms(4) by (force dest: map_of_SomeD)
  ultimately obtain v where v: "map_of d k = Some v" by (metis map_of_eq_None_iff not_Some_eq)
  with all assms(4) show ?thesis by fastforce
qed

definition breaker_clock :: "obs_graph \<Rightarrow> string \<Rightarrow> bool" where
  "breaker_clock g stamp \<longleftrightarrow> distinct (map breaker_time (breaker_events g)) \<and>
     (\<forall>e \<in> set (breaker_events g). breaker_time e < stamp)"

lemma event_facts [simp]:
  "is_breaker_event (open_event H reason stamp)" "breaker_time (open_event H reason stamp) = stamp"
  "is_breaker_event (reset_event H opened stamp)" "breaker_time (reset_event H opened stamp) = stamp"
  "ob_kind (open_event H reason stamp) = Evidence" "ob_kind (reset_event H opened stamp) = Evidence"
  "json_ok pf (PDict (ob_meta (open_event H reason stamp)))" "json_ok pf (PDict (ob_meta (reset_event H opened stamp)))"
  by (simp_all add: open_event_def reset_event_def is_breaker_event_def breaker_time_def pget_def str_or_empty_def py_str_def)

lemma same_event:
  assumes "py_eq (PDict md) (PDict (ob_meta ev))" and "distinct (map fst md)" and "distinct (map fst (ob_meta ev))"
    and "map_of (ob_meta ev) ''memory_type'' = Some (PStr breaker_memory)" and "map_of (ob_meta ev) ''at'' = Some (PStr stamp)"
    and "ob_kind q = Evidence" and "ob_meta q = md"
  shows "is_breaker_event q \<and> breaker_time q = stamp"
  using py_eq_PDict_lookup [OF assms(1-3) assms(4)] py_eq_PDict_lookup [OF assms(1-3) assms(5)] assms(6,7)
  by (auto simp: is_breaker_event_def breaker_time_def pget_def py_eq_PStr str_or_empty_def py_str_def)

lemma breaker_events_mset:
  "mset (breaker_events g) = filter_mset is_breaker_event (mset (graph_values g))"
  by (simp add: breaker_events_def)

lemma breaker_same_events:
  assumes "mset (breaker_events g) = mset (breaker_events g')" and "distinct (map breaker_time (breaker_events g))"
  shows "circuit_breaker_state g' = circuit_breaker_state g"
proof -
  let ?s = "sort_key breaker_time (breaker_events g')"
  have "set (breaker_events g) = set (breaker_events g')" using assms(1) mset_eq_setD by blast
  then have "sort_key breaker_time (breaker_events g) = ?s"
    using assms by (intro sort_key_inj_key_eq) (simp_all add: distinct_map)
  then show ?thesis by (simp add: circuit_breaker_state_def)
qed

lemma breaker_recorded:
  assumes reach: "(st_step pf H r)\<^sup>*\<^sup>* st_empty st" and c: "is_ident c"
    and g: "load_observation_graph pf st c False = Inr g" and old: "\<forall>e \<in> set (breaker_events g). breaker_time e < stamp"
    and ev: "ob_kind ev = Evidence" "map_of (ob_meta ev) ''memory_type'' = Some (PStr breaker_memory)"
      "map_of (ob_meta ev) ''at'' = Some (PStr stamp)" "json_ok pf (PDict (ob_meta ev))"
    and put: "put_observation env pf c (observation_dict ev) now st = Inr (st1, x)"
    and steps: "(st_step pf H r)\<^sup>*\<^sup>* st1 st2"
    and g1: "load_observation_graph pf st1 c False = Inr g1" and g2: "load_observation_graph pf st2 c False = Inr g2"
    and same: "length (breaker_events g2) = length (breaker_events g1)"
  shows "circuit_breaker_state g2 = breaker_state_of ev"
proof -
  obtain recs where inv: "obs_inv pf st recs" using obs_inv_reachable [OF reach] by blast
  have gv: "mset (graph_values g) = mset (map observation_of (filter (\<lambda>r. oc_campaign r = c) recs))"
    using load_graph_content [OF inv c] g by (metis Inr_inject)
  have "json_ok pf (PDict (observation_dict ev))"
    using ev(4) by (simp add: observation_dict_def text_list_def list_all_iff)
  with put have "st_step pf H r st st1" by (rule step_observation)
  with reach have reach1: "(st_step pf H r)\<^sup>*\<^sup>* st_empty st1" by simp
  show ?thesis
  proof (cases rule: put_own [OF inv c put ev(4), THEN disjE])
    case 1
    then obtain q where q: "q \<in> set recs" "oc_campaign q = c" "ob_kind (observation_of q) = Evidence"
      "py_eq (PDict (oc_metadata q)) (PDict (ob_meta ev))" using ev(1) by auto
    have "json_ok pf (PDict (oc_metadata q))" using q(1) inv by (auto simp: obs_inv_def recs_ok_def list_all_iff)
    then have "is_breaker_event (observation_of q) \<and> breaker_time (observation_of q) = stamp"
      using same_event [OF q(4) _ _ ev(2,3) q(3)] ev(4) by (simp add: observation_of_def)
    moreover have "observation_of q \<in> set (graph_values g)" using q(1,2) gv [THEN mset_eq_setD] by auto
    ultimately show ?thesis using old by (auto simp: breaker_events_def)
  next
    case 2
    then obtain r' where r': "obs_inv pf st1 (recs @ [r'])" "oc_campaign r' = c"
      "ob_kind (observation_of r') = Evidence" "oc_metadata r' = ob_meta ev" using ev(1) by auto
    let ?new = "observation_of r'"
    have meta: "ob_meta ?new = ob_meta ev" by (simp add: observation_of_def r'(4))
    have new: "is_breaker_event ?new" "breaker_time ?new = stamp"
      using r'(3) ev(2,3) by (auto simp: is_breaker_event_def breaker_time_def meta pget_def str_or_empty_def py_str_def)
    have as_ev: "breaker_state_of ?new = breaker_state_of ev" by (simp only: breaker_state_of_def meta)
    have "mset (graph_values g1) = mset (map observation_of (filter (\<lambda>r. oc_campaign r = c) (recs @ [r'])))"
      using load_graph_content [OF r'(1) c] g1 by (metis Inr_inject)
    then have "mset (graph_values g1) = mset (graph_values g) + {#?new#}" using gv r'(2) by simp
    then have m1: "mset (breaker_events g1) = mset (breaker_events g) + {#?new#}"
      using new(1) by (simp add: breaker_events_mset)
    obtain g1' g2' where "load_observation_graph pf st1 c False = Inr g1'" "load_observation_graph pf st2 c False = Inr g2'"
      "mset (graph_values g1') \<subseteq># mset (graph_values g2')" and d': "distinct (map ob_id (graph_values g2'))"
      by (rule load_graph_grows [OF reach1 steps c])
    then have sub: "mset (graph_values g1) \<subseteq># mset (graph_values g2)" and d2: "distinct (map ob_id (graph_values g2))"
      using g1 g2 by simp_all
    from sub have "mset (breaker_events g1) \<subseteq># mset (breaker_events g2)"
      unfolding breaker_events_mset by (rule multiset_filter_mono)
    then have "mset (breaker_events g1) = mset (breaker_events g2)"
      using same by (metis mset_subset_eqD size_mset subset_mset.le_neq_trans mset_subset_size less_irrefl)
    with m1 have set2: "set (breaker_events g2) = insert ?new (set (breaker_events g))"
      by (metis mset_eq_setD set_mset_add_mset_insert set_mset_mset union_mset_add_mset_right add_0_right)
    have "distinct (breaker_events g2)" using d2 by (simp add: breaker_events_def distinct_map)
    moreover have "\<forall>y \<in> set (breaker_events g2). y \<noteq> ?new \<longrightarrow> breaker_time y < breaker_time ?new"
      using old new(2) set2 by auto
    ultimately have last: "last (sort_key breaker_time (breaker_events g2)) = ?new" "breaker_events g2 \<noteq> []"
      using sorted_last_greatest [of "breaker_events g2" ?new breaker_time] set2 by auto
    then have "sort_key breaker_time (breaker_events g2) \<noteq> []" by (metis length_0_conv length_sort)
    then show ?thesis using last(1) as_ev by (simp add: circuit_breaker_state_def)
  qed
qed

text \<open>C36: what opening or resetting the breaker reports is what everyone reads from the store from then
  on, whatever else is stored, until a further breaker event is recorded: an open breaker stays open
  with its reason until it is reset, and a reset one stays closed. The clock must have moved on
  since the recorded events, which carry different times.\<close>

theorem breaker_as_reported:
  assumes "(st_step pf H r)\<^sup>*\<^sup>* st_empty st" and "is_ident c"
    and "load_observation_graph pf st c False = Inr g" and "breaker_clock g stamp"
    and "record_circuit_open env pf H c reason stamp now st = Inr (st1, b) \<or>
      record_circuit_reset env pf H c stamp now st = Inr (st1, b)"
    and "(st_step pf H r)\<^sup>*\<^sup>* st1 st2"
    and "load_observation_graph pf st1 c False = Inr g1" and "load_observation_graph pf st2 c False = Inr g2"
    and "length (breaker_events g2) = length (breaker_events g1)"
  shows "circuit_breaker_state g2 = b"
proof -
  have old: "\<forall>e \<in> set (breaker_events g). breaker_time e < stamp" using assms(4) by (simp add: breaker_clock_def)
  note recorded = breaker_recorded [OF assms(1-3) old _ _ _ _ _ assms(6-9)]
  have kept: "circuit_breaker_state g2 = circuit_breaker_state g" if st1: "st1 = st"
  proof -
    obtain g' g2' where "load_observation_graph pf st c False = Inr g'" "load_observation_graph pf st2 c False = Inr g2'"
      "mset (graph_values g') \<subseteq># mset (graph_values g2')"
      by (rule load_graph_grows [OF assms(1) _ assms(2), of st2]) (use assms(6) st1 in blast)+
    then have "mset (graph_values g) \<subseteq># mset (graph_values g2)" using assms(3,8) by simp
    then have "mset (breaker_events g) \<subseteq># mset (breaker_events g2)"
      unfolding breaker_events_mset by (rule multiset_filter_mono)
    moreover have "size (mset (breaker_events g2)) = size (mset (breaker_events g))"
      using assms(3,7,9) st1 by simp
    ultimately have "mset (breaker_events g) = mset (breaker_events g2)"
      by (metis mset_subset_size subset_mset.le_neq_trans less_irrefl)
    with assms(4) show ?thesis by (intro breaker_same_events) (simp_all add: breaker_clock_def)
  qed
  show ?thesis
    using assms(5)
  proof
    assume o: "record_circuit_open env pf H c reason stamp now st = Inr (st1, b)"
    show ?thesis
    proof (cases "bk_open (circuit_breaker_state g)")
      case True
      with o assms(3) kept show ?thesis by (simp add: record_circuit_open_def Let_def)
    next
      case False
      with o assms(3) obtain x where x: "put_observation env pf c (observation_dict (open_event H reason stamp)) now st = Inr (st1, x)"
        and b: "b = \<lparr>bk_open = True, bk_reason = PStr reason, bk_opened = PStr stamp, bk_reset = PNone\<rparr>"
        by (auto simp: record_circuit_open_def Let_def)
      from recorded [OF _ _ _ _ x] show ?thesis
        by (simp add: open_event_def b breaker_state_of_def pget_def str_or_empty_def py_str_def)
    qed
  next
    assume o: "record_circuit_reset env pf H c stamp now st = Inr (st1, b)"
    show ?thesis
    proof (cases "bk_open (circuit_breaker_state g)")
      case False
      with o assms(3) kept show ?thesis by (simp add: record_circuit_reset_def Let_def)
    next
      case True
      with o assms(3) obtain x opened where x: "put_observation env pf c (observation_dict (reset_event H opened stamp)) now st = Inr (st1, x)"
        and b: "b = \<lparr>bk_open = False, bk_reason = PNone, bk_opened = PNone, bk_reset = PStr stamp\<rparr>"
        by (auto simp: record_circuit_reset_def Let_def)
      from recorded [OF _ _ _ _ x] show ?thesis
        by (simp add: reset_event_def b breaker_state_of_def pget_def str_or_empty_def py_str_def)
    qed
  qed
qed

text \<open>The clock matters: an opening stamped before the last reset is reported as open, and the
  breaker stays closed.\<close>

definition ex_events :: obs_graph where
  "ex_events = map (\<lambda>e. (ob_id e, e)) [reset_event (\<lambda>t. t) (PStr ''t1'') ''t3'', open_event (\<lambda>t. t) ''late'' ''t2'']"

lemma breaker_clock_needed: "\<not> bk_open (circuit_breaker_state ex_events)"
  by code_simp

definition ex_opened :: "(storage \<times> breaker_state) result" where
  "ex_opened = record_circuit_open no_env no_float (\<lambda>t. t) ''c1'' ''failed'' ''t5'' ''t5'' (ex_store [ex_row ''draft'' 1])"

lemma breaker_as_reported_witness:
  "\<exists>st1 b g1. ex_opened = Inr (st1, b) \<and> load_observation_graph no_float st1 ''c1'' False = Inr g1 \<and>
     circuit_breaker_state g1 = b \<and> bk_open b"
proof -
  have "case ex_opened of Inr (st1, b) \<Rightarrow> bk_open b | Inl _ \<Rightarrow> False" by code_simp
  then obtain st1 b where o: "ex_opened = Inr (st1, b)" "bk_open b" by (auto split: sum.splits prod.splits)
  have c: "is_ident ''c1''" by code_simp
  have empty: "load_observation_graph no_float (ex_store [ex_row ''draft'' 1]) ''c1'' False = Inr []" by code_simp
  have clock: "breaker_clock [] ''t5''" by (simp add: breaker_clock_def breaker_events_def graph_values_def)
  have "case ex_opened of Inr (st1, b) \<Rightarrow> (case load_observation_graph no_float st1 ''c1'' False of
      Inr g \<Rightarrow> True | Inl _ \<Rightarrow> False) | Inl _ \<Rightarrow> True" by code_simp
  then have "case load_observation_graph no_float st1 ''c1'' False of Inr g \<Rightarrow> True | Inl _ \<Rightarrow> False"
    unfolding o(1) sum.case prod.case .
  then obtain g1 where g1: "load_observation_graph no_float st1 ''c1'' False = Inr g1"
    by (cases "load_observation_graph no_float st1 ''c1'' False") simp_all
  have "circuit_breaker_state g1 = b"
    by (rule breaker_as_reported [OF ex_reach(1) c empty clock disjI1 [OF o(1) [unfolded ex_opened_def]]
          rtranclp.rtrancl_refl g1 g1 refl])
  with o g1 show ?thesis by blast
qed

end
