(* ===== verification/DecisionAudit.thy ===== *)
theory DecisionAudit
  imports CampaignAudit AutonomyCycle "HOL-Library.Multiset"
begin

text \<open>
  \<open>backend/app/decision_audit.py\<close>: the hash chain over the planner's decisions. A decision is an
  evidence observation of the campaign's graph; its metadata is sealed with its position, the hash
  of its predecessor, its own hash and, when a key is configured, a signature.
\<close>

definition audit_fields :: "string list" where
  "audit_fields = [''action'', ''agent'', ''audit_seq'', ''graph_fingerprint'', ''previous_decision_hash'',
     ''priority'', ''reason'']"

definition canonical_decision :: "string \<Rightarrow> pydict \<Rightarrow> string" where
  "canonical_decision i metadata =
     json_dumps True (PDict ((''id'', PStr i) # map (\<lambda>k. (k, pget metadata k)) audit_fields))"

definition seal_decision_metadata ::
  "(string \<Rightarrow> string) \<Rightarrow> (string \<Rightarrow> string \<Rightarrow> string) \<Rightarrow> string option result \<Rightarrow> string \<Rightarrow> pydict \<Rightarrow> pydict result" where
  "seal_decision_metadata H K secret_r i metadata =
     (let canonical = canonical_decision i metadata;
          s1 = dict_set ''decision_hash'' (PStr (H canonical)) metadata in
      rbind secret_r (\<lambda>secret.
        Inr (case secret of
          Some (c # cs) \<Rightarrow>
            dict_set ''decision_signature'' (PStr (K (c # cs) canonical))
              (dict_set ''decision_signature_alg'' (PStr ''hmac-sha256'') s1)
        | _ \<Rightarrow> dict_set ''decision_signature'' PNone (dict_set ''decision_signature_alg'' PNone s1))))"

text \<open>\<open>isinstance(v, int)\<close>, which booleans satisfy, and the decisions that carry a position and a
  hash.\<close>

definition int_instance :: "pyval \<Rightarrow> int option" where
  "int_instance v = (case v of PInt i \<Rightarrow> Some i | PBool b \<Rightarrow> Some (if b then 1 else 0) | _ \<Rightarrow> None)"

definition seq_of :: "observation \<Rightarrow> int" where
  "seq_of item = (case int_instance (pget (ob_meta item) ''audit_seq'') of Some i \<Rightarrow> i | None \<Rightarrow> 0)"

definition is_sealed :: "observation \<Rightarrow> bool" where
  "is_sealed item =
     (int_instance (pget (ob_meta item) ''audit_seq'') \<noteq> None \<and> pv_truthy (pget (ob_meta item) ''decision_hash''))"

definition sealed_decisions :: "obs_graph \<Rightarrow> observation list" where
  "sealed_decisions g = filter is_sealed (planner_decisions g)"

text \<open>\<open>max(items, key=f)\<close>: the first of the greatest.\<close>

definition max_by :: "('a \<Rightarrow> int) \<Rightarrow> 'a \<Rightarrow> 'a list \<Rightarrow> 'a" where
  "max_by f x xs = foldl (\<lambda>best y. if f best < f y then y else best) x xs"

definition next_audit_link :: "obs_graph \<Rightarrow> int \<times> pyval" where
  "next_audit_link g = (case sealed_decisions g of
       [] \<Rightarrow> (1, PNone)
     | x # xs \<Rightarrow> (let latest = max_by seq_of x xs in
         (seq_of latest + 1, PStr (py_str (pget (ob_meta latest) ''decision_hash'')))))"

section \<open>Verification\<close>

record decision_verdict =
  dv_valid :: bool
  dv_checked :: nat
  dv_sealed :: nat
  dv_legacy :: "string list"
  dv_reason :: "string option"

fun verify_decisions ::
  "(string \<Rightarrow> string) \<Rightarrow> (string \<Rightarrow> string \<Rightarrow> string) \<Rightarrow> string option result \<Rightarrow>
   (bool \<Rightarrow> nat \<Rightarrow> string option \<Rightarrow> decision_verdict) \<Rightarrow> pyval \<Rightarrow> int \<Rightarrow> nat \<Rightarrow> observation list \<Rightarrow>
   decision_verdict result" where
  "verify_decisions H K secret_r verdict previous expected_seq checked [] = Inr (verdict True checked None)"
| "verify_decisions H K secret_r verdict previous expected_seq checked (item # items) =
     (let metadata = ob_meta item; reject = (\<lambda>reason. Inr (verdict False checked (Some reason))) in
      if seq_of item \<noteq> expected_seq then reject ''decision audit sequence gap''
      else if \<not> py_eq (pget metadata ''previous_decision_hash'') previous
      then reject ''previous decision hash mismatch''
      else (let canonical = canonical_decision (ob_id item) metadata;
                recorded = py_str (pget metadata ''decision_hash'');
                signature = pget metadata ''decision_signature'';
                continue = verify_decisions H K secret_r verdict (PStr recorded) (expected_seq + 1) (Suc checked) items in
        rbind (compare_digest recorded (H canonical)) (\<lambda>hash_ok.
          if \<not> hash_ok then reject ''decision hash mismatch''
          else if signature = PNone then continue
          else if \<not> py_eq (pget metadata ''decision_signature_alg'') (PStr ''hmac-sha256'')
          then reject ''unsupported decision signature algorithm''
          else rbind secret_r (\<lambda>secret. case secret of
              Some (c # cs) \<Rightarrow>
                rbind (compare_digest (py_str signature) (K (c # cs) canonical)) (\<lambda>sig_ok.
                  if \<not> sig_ok then reject ''decision signature mismatch'' else continue)
            | _ \<Rightarrow> reject ''verification key unavailable''))))"

definition verify_decision_audit_chain ::
  "(string \<Rightarrow> string) \<Rightarrow> (string \<Rightarrow> string \<Rightarrow> string) \<Rightarrow> string option result \<Rightarrow> obs_graph \<Rightarrow>
   decision_verdict result" where
  "verify_decision_audit_chain H K secret_r g =
     (let legacy = map ob_id (filter (\<lambda>d. \<not> is_sealed d) (planner_decisions g));
          chain = sort_key seq_of (sealed_decisions g) in
      verify_decisions H K secret_r
        (\<lambda>ok checked reason. \<lparr>dv_valid = ok, dv_checked = checked, dv_sealed = length chain,
           dv_legacy = legacy, dv_reason = reason\<rparr>) PNone 1 0 chain)"

section \<open>What acceptance means\<close>

definition link_accepted ::
  "(string \<Rightarrow> string) \<Rightarrow> (string \<Rightarrow> string \<Rightarrow> string) \<Rightarrow> string option result \<Rightarrow> pyval \<Rightarrow> int \<Rightarrow> observation \<Rightarrow> bool" where
  "link_accepted H K s previous seq item \<longleftrightarrow>
     seq_of item = seq \<and> py_eq (pget (ob_meta item) ''previous_decision_hash'') previous \<and>
     py_str (pget (ob_meta item) ''decision_hash'') = H (canonical_decision (ob_id item) (ob_meta item)) \<and>
     (pget (ob_meta item) ''decision_signature'' = PNone \<or>
      (\<exists>key. s = Inr (Some key) \<and> key \<noteq> [] \<and>
        py_str (pget (ob_meta item) ''decision_signature'') = K key (canonical_decision (ob_id item) (ob_meta item))))"

definition digest_of :: "(string \<Rightarrow> string) \<Rightarrow> observation \<Rightarrow> pyval" where
  "digest_of H item = PStr (H (canonical_decision (ob_id item) (ob_meta item)))"

definition plain_verdict :: "(bool \<Rightarrow> nat \<Rightarrow> string option \<Rightarrow> decision_verdict) \<Rightarrow> bool" where
  "plain_verdict f \<longleftrightarrow> (\<forall>b n r. dv_valid (f b n r) = b)"

lemma verify_decisions_step:
  assumes "verify_decisions H K s f p q n (x # xs) = Inr v" and "dv_valid v" and "plain_verdict f"
  shows "link_accepted H K s p q x"
    and "verify_decisions H K s f (digest_of H x) (q + 1) (Suc n) xs = Inr v"
    and "verify_decisions H K s f p q n (x # xs @ ys) =
      verify_decisions H K s f (digest_of H x) (q + 1) (Suc n) (xs @ ys)"
  using assms
  by (auto simp: link_accepted_def digest_of_def plain_verdict_def compare_digest_def Let_def
      split: if_splits sum.splits option.splits list.splits)

lemma verify_decisions_append:
  "verify_decisions H K s f p q n xs = Inr v \<Longrightarrow> dv_valid v \<Longrightarrow> plain_verdict f \<Longrightarrow>
   verify_decisions H K s f p q n (xs @ ys) =
     verify_decisions H K s f (if xs = [] then p else digest_of H (last xs)) (q + int (length xs)) (n + length xs) ys"
proof (induction xs arbitrary: p q n)
  case (Cons x xs)
  note c = verify_decisions_step [OF Cons.prems]
  show ?case using Cons.IH [OF c(2) Cons.prems(2,3)] by (simp add: c(3) algebra_simps del: verify_decisions.simps(2))
qed simp

lemma verify_decisions_nth:
  "verify_decisions H K s f p q n xs = Inr v \<Longrightarrow> dv_valid v \<Longrightarrow> plain_verdict f \<Longrightarrow> i < length xs \<Longrightarrow>
   link_accepted H K s (if i = 0 then p else digest_of H (xs ! (i - 1))) (q + int i) (xs ! i)"
proof (induction xs arbitrary: p q n i)
  case (Cons x xs)
  note c = verify_decisions_step [OF Cons.prems(1-3)]
  show ?case
  proof (cases i)
    case 0
    with c show ?thesis by simp
  next
    case (Suc j)
    with Cons.prems have "j < length xs" by simp
    from Cons.IH [OF c(2) Cons.prems(2,3) this] Suc show ?thesis by (cases j) (simp_all add: algebra_simps)
  qed
qed simp

lemma verify_decisions_valid:
  "verify_decisions H K s f p q n xs = Inr v \<Longrightarrow> dv_valid v \<Longrightarrow> plain_verdict f \<Longrightarrow> v = f True (n + length xs) None"
proof (induction xs arbitrary: p q n)
  case (Cons x xs)
  note c = verify_decisions_step [OF Cons.prems]
  show ?case using Cons.IH [OF c(2) Cons.prems(2,3)] by (simp del: verify_decisions.simps(2))
qed (simp add: plain_verdict_def)

lemma max_by_mem: "max_by f x xs \<in> set (x # xs) \<and> (\<forall>y \<in> set (x # xs). f y \<le> f (max_by f x xs))"
proof (induction xs arbitrary: x)
  case (Cons a xs)
  show ?case using Cons.IH [of x] Cons.IH [of a] by (auto simp: max_by_def)
qed (simp add: max_by_def)

lemma sort_key_snoc:
  assumes "\<forall>y \<in> set xs. f y \<le> f x"
  shows "sort_key f (xs @ [x]) = sort_key f xs @ [x]"
proof -
  have ins: "insort_key f y (zs @ [x]) = insort_key f y zs @ [x]" if "f y \<le> f x" for y zs
    using that by (induction zs) auto
  show ?thesis using assms by (induction xs) (simp_all add: ins)
qed

section \<open>Logs of decisions\<close>

text \<open>What the program writes: each decision is sealed at the next position with the hash of the last
  one. The key may be missing while some of them are written.\<close>

definition link_hash :: "observation list \<Rightarrow> pyval" where
  "link_hash ds = (if ds = [] then PNone else PStr (py_str (pget (ob_meta (last ds)) ''decision_hash'')))"

inductive decision_log ::
  "(string \<Rightarrow> string) \<Rightarrow> (string \<Rightarrow> string \<Rightarrow> string) \<Rightarrow> string option result \<Rightarrow> observation list \<Rightarrow> bool"
  for H K s where
  no_decision: "decision_log H K s []"
| next_decision: "decision_log H K s ds \<Longrightarrow> s' \<in> {s, Inr None} \<Longrightarrow>
     pget metadata ''audit_seq'' = PInt (int (length ds) + 1) \<Longrightarrow>
     pget metadata ''previous_decision_hash'' = link_hash ds \<Longrightarrow>
     seal_decision_metadata H K s' (ob_id ob) metadata = Inr (ob_meta ob) \<Longrightarrow> decision_log H K s (ds @ [ob])"

lemma canonical_decision_unsealed [simp]:
  "k \<notin> set audit_fields \<Longrightarrow> canonical_decision i (dict_set k v md) = canonical_decision i md"
proof -
  assume "k \<notin> set audit_fields"
  then have "map (\<lambda>f. (f, pget (dict_set k v md) f)) audit_fields = map (\<lambda>f. (f, pget md f)) audit_fields"
    by (intro map_cong) auto
  then show ?thesis by (simp only: canonical_decision_def)
qed

lemma sealed_decision_fields:
  assumes "seal_decision_metadata H K s' i metadata = Inr m"
  shows "canonical_decision i m = canonical_decision i metadata"
    and "pget m ''audit_seq'' = pget metadata ''audit_seq''"
    and "pget m ''previous_decision_hash'' = pget metadata ''previous_decision_hash''"
    and "pget m ''decision_hash'' = PStr (H (canonical_decision i metadata))"
    and "pget m ''decision_signature'' = PNone \<or>
      (\<exists>c cs. s' = Inr (Some (c # cs)) \<and>
         pget m ''decision_signature'' = PStr (K (c # cs) (canonical_decision i metadata)) \<and>
         pget m ''decision_signature_alg'' = PStr ''hmac-sha256'')"
  using assms
  by (auto simp: seal_decision_metadata_def audit_fields_def Let_def split: option.splits list.splits)

lemma verify_sealed_decision:
  assumes "hex_digests H" and "\<And>k. hex_digests (K k)" and "s' \<in> {s, Inr None}"
    and "pget metadata ''audit_seq'' = PInt q" and "py_eq (pget metadata ''previous_decision_hash'') p"
    and "seal_decision_metadata H K s' (ob_id ob) metadata = Inr (ob_meta ob)"
  shows "verify_decisions H K s f p q n [ob] = Inr (f True (Suc n) None)" and "seq_of ob = q" and "is_sealed ob"
  using sealed_decision_fields [OF assms(6)] assms(3-5) hex_digestsD [OF assms(1)] hex_digestsD [OF assms(2)]
  by (auto simp: compare_digest_def py_str_def seq_of_def is_sealed_def int_instance_def Let_def)

lemma decision_log_verifies:
  assumes "hex_digests H" and "\<And>k. hex_digests (K k)" and "plain_verdict f" and "decision_log H K s ds"
  shows "verify_decisions H K s f PNone 1 0 ds = Inr (f True (length ds) None) \<and>
    map seq_of ds = map (\<lambda>i. int i + 1) [0..<length ds] \<and>
    (ds \<noteq> [] \<longrightarrow> link_hash ds = digest_of H (last ds))"
  using assms(4)
proof (induction rule: decision_log.induct)
  case (next_decision ds s' metadata ob)
  have link: "py_eq (pget metadata ''previous_decision_hash'') (if ds = [] then PNone else digest_of H (last ds))"
    using next_decision.hyps(4) next_decision.IH by (auto simp: link_hash_def digest_of_def)
  note sealed = assms(1) assms(2) next_decision.hyps(2) next_decision.hyps(3) link next_decision.hyps(5)
  note one = verify_sealed_decision(1) [where H = H and K = K and f = f and n = "length ds", OF sealed]
    verify_sealed_decision(2) [where H = H and K = K, OF sealed]
  have "verify_decisions H K s f PNone 1 0 (ds @ [ob]) =
      verify_decisions H K s f (if ds = [] then PNone else digest_of H (last ds)) (1 + int (length ds)) (0 + length ds) [ob]"
    using next_decision.IH assms(3) by (intro verify_decisions_append) (auto simp: plain_verdict_def)
  also have "\<dots> = Inr (f True (Suc (length ds)) None)" using one(1) by (simp only: add.commute add_0)
  finally show ?case
    using next_decision.IH one(2) sealed_decision_fields(1,4) [OF next_decision.hyps(5)]
    by (simp add: link_hash_def digest_of_def py_str_def)
qed (simp add: link_hash_def)

lemma sealed_chain:
  assumes "hex_digests H" and "\<And>k. hex_digests (K k)" and "decision_log H K s ds"
    and "mset (sealed_decisions g) = mset ds"
  shows "sort_key seq_of (sealed_decisions g) = ds" and "next_audit_link g = (int (length ds) + 1, link_hash ds)"
proof -
  have "plain_verdict (\<lambda>b n r. \<lparr>dv_valid = b, dv_checked = n, dv_sealed = 0, dv_legacy = [], dv_reason = r\<rparr>)"
    by (simp add: plain_verdict_def)
  note log = decision_log_verifies [of H K, OF assms(1) assms(2) this assms(3)]
  have inj: "inj_on seq_of (set ds)"
  proof -
    have "distinct (map seq_of ds)" using log by (simp add: distinct_map inj_on_def)
    then show ?thesis by (simp add: distinct_map)
  qed
  have set_eq: "set (sealed_decisions g) = set ds" using assms(4) mset_eq_setD by blast
  show "sort_key seq_of (sealed_decisions g) = ds"
    using log inj by (intro sort_key_inj_key_eq) (simp_all add: assms(4) set_eq sorted_wrt_map)
  show "next_audit_link g = (int (length ds) + 1, link_hash ds)"
  proof (cases "sealed_decisions g")
    case Nil
    with assms(4) show ?thesis by (simp add: next_audit_link_def link_hash_def)
  next
    case (Cons x xs)
    let ?m = "max_by seq_of x xs"
    have m: "?m \<in> set ds" "\<forall>y \<in> set ds. seq_of y \<le> seq_of ?m"
      using max_by_mem [of seq_of x xs] set_eq Cons by auto
    have ne: "ds \<noteq> []" using m(1) by auto
    have below: "seq_of y \<le> int (length ds)" if "y \<in> set ds" for y
    proof -
      have "seq_of y \<in> set (map seq_of ds)" using that by simp
      then show ?thesis using log by auto
    qed
    have last_seq: "seq_of (last ds) = int (length ds)"
    proof -
      have "last (map seq_of ds) = int (length ds - 1) + 1" using log ne by (simp add: last_map)
      then show ?thesis using ne by (simp add: last_map of_nat_diff Suc_leI)
    qed
    have "seq_of (last ds) \<le> seq_of ?m" using m(2) ne by simp
    with below [OF m(1)] last_seq have "seq_of ?m = seq_of (last ds)" by simp
    then have "?m = last ds" using inj m(1) ne by (meson inj_onD last_in_set)
    with last_seq ne Cons show ?thesis
      by (simp add: next_audit_link_def link_hash_def)
  qed
qed


definition ex_sealed :: observation where
  "ex_sealed = \<lparr>ob_id = ''d1'', ob_kind = Evidence, ob_value = ''scan'', ob_source = ''orchestrator'', ob_parents = [],
     ob_meta = (case seal_decision_metadata ex_hash ex_hmac (Inr (Some ''key'')) ''d1''
        [(''memory_type'', PStr ''planner_decision''), (''action'', PStr ''scan''), (''audit_seq'', PInt 1),
         (''previous_decision_hash'', PNone)] of Inr m \<Rightarrow> m | Inl _ \<Rightarrow> [])\<rparr>"


end
