(* ===== verification/Orchestrator.thy ===== *)
theory Orchestrator
  imports Dispatch RepeatValidation CircuitBreaker DecisionAudit PlannerBudget
begin

text \<open>
  \<open>advance_campaign\<close> of \<open>backend/app/orchestrator.py\<close> with what it calls: the gates it asks, the order in
  which it asks them, what it writes and what it enqueues. The three \<open>prioritize_\<close> functions come
  from \<open>planner_intelligence.py\<close>, \<open>campaign_chain_priority.py\<close> and \<open>coverage.py\<close>. The heuristic analyses of
  the graph whose results only order or describe the work are arguments, collected in one record.
\<close>

section \<open>Advice\<close>

record public_focus =
  pf_score :: int
  pf_family :: string
  pf_cases :: "string list"
  pf_goals :: "string list"

record chain_candidate =
  ch_id :: string
  ch_completeness :: rat

record coverage_guidance =
  cg_focus :: string
  cg_diminishing :: rat

definition advisable :: "action_kind \<Rightarrow> bool" where
  "advisable k = (k \<in> {Crawl, Scan, Validate})"

definition selected_focuses :: "public_focus list \<Rightarrow> public_focus list" where
  "selected_focuses focuses =
     take 3 (sort_key (\<lambda>f. (- pf_score f, pf_family f)) (filter (\<lambda>f. pf_score f \<ge> 50) focuses))"

record focus_context =
  fc_applied :: bool
  fc_families :: "string list"
  fc_cases :: "string list"
  fc_goals :: "string list"

definition prioritize_action_with_intelligence ::
  "planned_action \<Rightarrow> public_focus list \<Rightarrow> planned_action \<times> focus_context" where
  "prioritize_action_with_intelligence a focuses =
     (let selected = selected_focuses focuses; families = map pf_family selected;
          context = \<lparr>fc_applied = False, fc_families = families, fc_cases = sorted_set (concat (map pf_cases selected)),
            fc_goals = take 12 (sorted_set (concat (map pf_goals selected)))\<rparr> in
      if \<not> advisable (pa_kind a) \<or> selected = [] then (a, context)
      else (let max_score = Max (set (map pf_score selected));
                priority = min 99 (max (pa_priority a) (80 + min 15 (max_score div 6))) in
        (act (pa_kind a) (pa_target a) (pa_reason a @ ''; public-case focus: '' @ py_join '', '' families) priority,
         context\<lparr>fc_applied := True\<rparr>)))"

definition prioritize_with_chain_context :: "planned_action \<Rightarrow> chain_candidate list \<Rightarrow> planned_action \<times> bool" where
  "prioritize_with_chain_context a found =
     (let complete = filter (\<lambda>c. ch_completeness c \<ge> 1) found;
          selected = (if complete \<noteq> [] then take 3 complete else take 2 found) in
      if \<not> advisable (pa_kind a) \<or> selected = [] then (a, False)
      else (let boost = (if complete \<noteq> [] then 4 else 2);
                priority = min 99 (max (pa_priority a) (min 99 (pa_priority a + boost))) in
        (act (pa_kind a) (pa_target a)
           (pa_reason a @ ''; observed chain candidates: '' @ py_join '', '' (map ch_id selected)) priority, True)))"

definition prioritize_action_with_coverage :: "planned_action \<Rightarrow> coverage_guidance \<Rightarrow> planned_action \<times> int" where
  "prioritize_action_with_coverage a guidance =
     (if pa_kind a \<noteq> Scan \<or> cg_focus guidance \<noteq> ''surface_rotation'' then (a, 0)
      else (let diminishing = max 0 (min 1 (cg_diminishing guidance));
                penalty = min 15 (max 5 (round_even (double (diminishing * 15)))) in
        (act (pa_kind a) (pa_target a)
           (pa_reason a @ ''; marginal scan yield is low, deprioritized versus fresh in-scope surface work'')
           (max 0 (pa_priority a - penalty)), - penalty)))"

section \<open>The context of a decision\<close>

text \<open>The analyses that are not part of the model, as functions of what they read; each may raise.\<close>

record analyses =
  an_structured_cves :: "finding \<Rightarrow> string list"
  an_decisions :: "campaign \<Rightarrow> obs_graph \<Rightarrow> storage \<Rightarrow> red_team_decision list result"
  an_risk :: "campaign \<Rightarrow> obs_graph \<Rightarrow> campaign_risk result"
  an_order_recon :: "recon_task list \<Rightarrow> campaign \<Rightarrow> obs_graph \<Rightarrow> storage \<Rightarrow> recon_task list result"
  an_focuses :: "campaign \<Rightarrow> obs_graph \<Rightarrow> public_focus list result"
  an_chains :: "campaign \<Rightarrow> obs_graph \<Rightarrow> chain_candidate list result"
  an_coverage :: "campaign \<Rightarrow> obs_graph \<Rightarrow> pydict result"
  an_guidance :: "campaign \<Rightarrow> obs_graph \<Rightarrow> coverage_guidance result"
  an_enrichment :: "campaign \<Rightarrow> obs_graph \<Rightarrow> rat result"
  an_training :: "storage \<Rightarrow> (technique_memory list \<times> pydict) result"
  an_float :: "string \<Rightarrow> pyfloat option"
  an_from_iso :: iso_parser

definition minimum_enrichment_score :: "analyses \<Rightarrow> environ \<Rightarrow> rat result" where
  "minimum_enrichment_score an env =
     (case an_float an (case env ''XBOW_MIN_RECON_ENRICHMENT_SCORE'' of None \<Rightarrow> ''0.40'' | Some raw \<Rightarrow> raw) of
        None \<Rightarrow> Inl (ValueError ''XBOW_MIN_RECON_ENRICHMENT_SCORE must be a number'')
      | Some (Fin v) \<Rightarrow>
          if 0 \<le> v \<and> v \<le> 1 then Inr v
          else Inl (ValueError ''XBOW_MIN_RECON_ENRICHMENT_SCORE must be between 0 and 1'')
      | Some _ \<Rightarrow> Inl (ValueError ''XBOW_MIN_RECON_ENRICHMENT_SCORE must be between 0 and 1''))"

definition is_htb_training_campaign :: "campaign \<Rightarrow> bool" where
  "is_htb_training_campaign c = list_ex (\<lambda>e. py_eq (pget e ''type'') (PStr ''htb_lab_bound'') \<and>
     pget e ''training_only'' = PBool True) (c_events c)"

record intelligence =
  ig_consensus :: decision_consensus
  ig_risk :: campaign_risk
  ig_gate :: autonomy_gate
  ig_memory :: "technique_memory list"
  ig_outcomes :: pydict
  ig_cycle :: adaptive_cycle
  ig_swarm :: swarm_coordination
  ig_focuses :: "public_focus list"
  ig_chains :: "chain_candidate list"
  ig_coverage :: pydict
  ig_guidance :: coverage_guidance
  ig_adaptation :: scanner_adaptation
  ig_score :: rat
  ig_threshold :: rat
  ig_ready :: bool

text \<open>\<open>budget_usage\<close> on the queue of the world.\<close>

definition queue_usage :: "obs_graph \<Rightarrow> job_queue \<Rightarrow> string \<Rightarrow> planner_budget \<Rightarrow> budget_usage result" where
  "queue_usage g q campaign_id limits =
     usage_of g (sq_campaign_job_counts q campaign_id) (sq_campaign_job_status_counts q campaign_id) limits"

definition scope_checker :: "campaign \<Rightarrow> string \<Rightarrow> bool result" where
  "scope_checker c host = is_host_allowed host (allowed_targets (c_rules c)) (denied_targets (c_rules c))"

definition intelligence_context ::
  "services \<Rightarrow> analyses \<Rightarrow> campaign \<Rightarrow> obs_graph \<Rightarrow> world \<Rightarrow> planner_budget \<Rightarrow> runtime_status \<Rightarrow>
   planned_action list \<Rightarrow> intelligence result" where
  "intelligence_context sv an c g w limits runtime planned =
     (let rules = c_rules c in
      rbind (an_decisions an c g (w_store w)) (\<lambda>decisions.
      let consensus = build_decision_consensus decisions in
      rbind (an_risk an c g) (\<lambda>risk.
      rbind (queue_usage g (w_queue w) (c_id c) limits) (\<lambda>usage.
      rbind (sq_campaign_job_status_counts (w_queue w) (c_id c)) (\<lambda>statuses.
      let gate = build_autonomy_gate (automated_scanning rules) (destructive_testing rules) (denial_of_service rules)
            (social_engineering rules) (credential_attacks rules) (rs_exhausted runtime) (bu_blocked usage \<noteq> [])
            (statuses Failed) risk consensus in
      rbind (build_learning_memory g 50 (Some (c_url c))) (\<lambda>memories.
      rbind (summarize_worker_outcomes (map PDict (c_events c)) 50) (\<lambda>outcomes.
      let cycle = build_adaptive_cycle gate planned memories (Some outcomes) in
      rbind (build_recon_plan (scope_checker c) (c_url c) g 10) (\<lambda>recon_plan.
      rbind (an_focuses an c g) (\<lambda>focuses.
      rbind (an_order_recon an recon_plan c g (w_store w)) (\<lambda>ordered.
      rbind (coordinate_recon_swarm ordered None) (\<lambda>swarm.
      rbind (an_coverage an c g) (\<lambda>coverage.
      rbind (an_guidance an c g) (\<lambda>guidance.
      rbind (an_chains an c g) (\<lambda>chains.
      rbind (if is_htb_training_campaign c then an_training an (w_store w) else Inr (memories, outcomes)) (\<lambda>(mem, out).
      rbind (scan_engines (sv_env sv)) (\<lambda>engines.
      rbind (adapt_scanner_engines engines mem (PDict out)) (\<lambda>adaptation.
      rbind (an_enrichment an c g) (\<lambda>score.
      rbind (minimum_enrichment_score an (sv_env sv)) (\<lambda>threshold.
        Inr \<lparr>ig_consensus = consensus, ig_risk = risk, ig_gate = gate, ig_memory = memories, ig_outcomes = outcomes,
          ig_cycle = cycle, ig_swarm = swarm, ig_focuses = focuses, ig_chains = chains, ig_coverage = coverage,
          ig_guidance = guidance, ig_adaptation = adaptation, ig_score = score, ig_threshold = threshold,
          ig_ready = (score \<ge> threshold)\<rparr>)))))))))))))))))))"

section \<open>Recording a decision\<close>

definition cycle_text :: "cycle_state \<Rightarrow> string" where
  "cycle_text s = (case s of Halt \<Rightarrow> ''halt'' | Recon \<Rightarrow> ''recon'' | Review \<Rightarrow> ''review''
     | Validation_cycle \<Rightarrow> ''validate'' | HumanReview \<Rightarrow> ''human_review'' | Complete \<Rightarrow> ''complete'')"

text \<open>\<open>_decision_explanation\<close>. The gate has no keys \<open>allowed\<close> and \<open>reason\<close>, the risk none called \<open>reasons\<close>, so
  these are always \<open>None\<close> and empty.\<close>

definition decision_explanation :: "(rat \<Rightarrow> string) \<Rightarrow> intelligence option \<Rightarrow> pyval" where
  "decision_explanation fr ig =
     (case ig of
        None \<Rightarrow> PNone
      | Some i \<Rightarrow> (let num = (\<lambda>q. PFloat q (fr q)); gate = ig_gate i; risk = ig_risk i; consensus = ig_consensus i;
            cycle = ig_cycle i in
          PDict
            [(''gate'', PDict [(''allowed'', PNone), (''blockers'', text_list (gt_blockers gate)), (''reason'', PNone)]),
             (''risk'', PDict [(''score'', num (cr_score risk)), (''level'', PStr (cr_level risk)),
                (''blocked'', PBool (cr_blocked risk)), (''reasons'', PList [])]),
             (''consensus'', PDict [(''next_focus'', PStr (cs_focus consensus)),
                (''confidence'', num (cs_confidence consensus)), (''blocked'', PBool (cs_blocked consensus)),
                (''contradictory'', PBool (cs_contradictory consensus)), (''reasons'', text_list (cs_reasons consensus)),
                (''supporting_kinds'', text_list (cs_kinds consensus))]),
             (''cycle'', PDict [(''state'', PStr (cycle_text (ac_state cycle))), (''next_action'', PStr (ac_next cycle)),
                (''reason'', PStr (ac_reason cycle)), (''safe_to_progress'', PBool (ac_safe cycle))]),
             (''surface_enrichment'', PDict [(''score'', num (ig_score i)), (''threshold'', num (ig_threshold i)),
                (''ready'', PBool (ig_ready i))]),
             (''coverage'', PDict [(''coverage_score'', pget (ig_coverage i) ''coverage_score''),
                (''interpretation'', pget (ig_coverage i) ''interpretation'')])]))"

definition decision_id :: "(string \<Rightarrow> string) \<Rightarrow> planned_action \<Rightarrow> string \<Rightarrow> string" where
  "decision_id H a fingerprint = stable_id H ''decision'' [action_text (pa_kind a), pa_reason a, fingerprint]"

definition decision_metadata ::
  "(rat \<Rightarrow> string) \<Rightarrow> planned_action \<Rightarrow> string \<Rightarrow> string \<Rightarrow> string \<Rightarrow> int \<times> pyval \<Rightarrow> intelligence option \<Rightarrow> pydict" where
  "decision_metadata fr a agent fingerprint now position ig =
     [(''memory_type'', PStr ''planner_decision''), (''action'', PStr (action_text (pa_kind a))),
      (''agent'', PStr agent), (''reason'', PStr (pa_reason a)), (''priority'', PInt (pa_priority a)),
      (''graph_fingerprint'', PStr fingerprint), (''at'', PStr now), (''audit_seq'', PInt (fst position)),
      (''previous_decision_hash'', snd position), (''explanation'', decision_explanation fr ig)]"

definition record_decision ::
  "services \<Rightarrow> campaign \<Rightarrow> obs_graph \<Rightarrow> planned_action \<Rightarrow> string \<Rightarrow> intelligence option \<Rightarrow> unit run" where
  "record_decision sv c g a agent ig =
     (let fingerprint = graph_fingerprint (sv_hash sv) g; i = decision_id (sv_hash sv) a fingerprint in
      if list_ex (\<lambda>e. ob_id e = i) (planner_decisions g) then returns ()
      else after (read_clock sv) (\<lambda>now.
        after (pure_run (seal_decision_metadata (sv_hash sv) (sv_hmac sv) (sv_decision_key sv) i
            (decision_metadata (sv_float_text sv) a agent fingerprint now (next_audit_link g) ig))) (\<lambda>meta.
          put_run sv (c_id c) \<lparr>ob_id = i, ob_kind = Evidence, ob_value = action_text (pa_kind a),
            ob_source = ''orchestrator'', ob_parents = [], ob_meta = meta\<rparr>)))"

section \<open>The result\<close>

record advance_result =
  ad_action :: planned_action
  ad_agent :: agent_profile
  ad_jobs :: "string list"
  ad_memory :: knowledge_snapshot
  ad_hypotheses :: "hypothesis list"
  ad_history :: "pydict list"
  ad_limits :: planner_budget
  ad_usage :: budget_usage
  ad_intelligence :: "intelligence option"
  ad_coordination :: "pipeline_coordination option"

definition store_hypotheses :: "services \<Rightarrow> campaign \<Rightarrow> hypothesis list \<Rightarrow> unit run" where
  "store_hypotheses sv c hs =
     (case hs of
        [] \<Rightarrow> returns ()
      | h # _ \<Rightarrow> after (read_clock sv) (\<lambda>now.
          store_run (\<lambda>st. rbind (put_hypothesis_snapshot (sv_env sv) (c_id c) (hy_fingerprint h)
              (map (hypothesis_dict (sv_float_text sv)) hs) now st) (\<lambda>(st', r). Inr (st', ())))))"

definition final_usage :: "planned_action \<Rightarrow> budget_usage \<Rightarrow> budget_usage" where
  "final_usage a usage =
     (if pa_kind a = Stop \<and> has_substr ''budget exhausted'' (pa_reason a)
      then usage\<lparr>bu_exhausted := True, bu_reason := Some (pa_reason a)\<rparr> else usage)"

definition build_result ::
  "services \<Rightarrow> campaign \<Rightarrow> obs_graph \<Rightarrow> planner_budget \<Rightarrow> intelligence option \<Rightarrow> pipeline_coordination option \<Rightarrow>
   planned_action \<Rightarrow> job list \<Rightarrow> advance_result run" where
  "build_result sv c g limits ig coordination a jobs =
     after (pure_run (agent_for_action (action_text (pa_kind a)))) (\<lambda>agent.
     after (record_decision sv c g a (ag_name agent) ig) (\<lambda>_.
     after (load_graph sv (c_id c)) (\<lambda>refreshed.
     let hypotheses = build_hypotheses (sv_hash sv) refreshed in
     after (store_hypotheses sv c hypotheses) (\<lambda>_.
     after (\<lambda>w. (queue_usage refreshed (w_queue w) (c_id c) limits, w)) (\<lambda>usage.
       returns \<lparr>ad_action = a, ad_agent = agent, ad_jobs = map j_id jobs,
         ad_memory = build_knowledge_snapshot refreshed, ad_hypotheses = hypotheses,
         ad_history = decision_history refreshed, ad_limits = limits, ad_usage = final_usage a usage,
         ad_intelligence = ig, ad_coordination = coordination\<rparr>)))))"

section \<open>One advance of a campaign\<close>

definition open_breaker :: "services \<Rightarrow> campaign \<Rightarrow> string \<Rightarrow> unit run" where
  "open_breaker sv c reason =
     after (read_clock sv) (\<lambda>stamp. after (read_clock sv) (\<lambda>now.
       store_run (\<lambda>st. rbind (record_circuit_open (sv_env sv) (sv_float_parse sv) (sv_hash sv) (c_id c) reason stamp now st)
         (\<lambda>(st', b). Inr (st', ())))))"

text \<open>The runtime so far, by the instant of the reading.\<close>

definition runtime_run :: "services \<Rightarrow> analyses \<Rightarrow> campaign \<Rightarrow> int \<Rightarrow> runtime_status run" where
  "runtime_run sv an c limit w =
     (runtime_status_of (an_from_iso an) (c_created_at c) limit (sv_clock sv (w_tick w)), w\<lparr>w_tick := Suc (w_tick w)\<rparr>)"

text \<open>\<open>f"{q:.4f}"\<close> of a double that is not negative.\<close>

definition fixed4 :: "rat \<Rightarrow> string" where
  "fixed4 q = (let n = nat (round_even (q * 10000)); frac = nat_str (n mod 10000) in
     nat_str (n div 10000) @ ''.'' @ replicate (4 - length frac) (CHR ''0'') @ frac)"

definition stop_action :: "campaign \<Rightarrow> string \<Rightarrow> planned_action" where
  "stop_action c reason = act Stop (Some (c_url c)) reason 100"

definition awaiting_text :: string where
  "awaiting_text = ''observed findings await explicit confirmation or rejection''"

definition ordinals_of :: "repeat_candidate list \<Rightarrow> (string \<times> int) list" where
  "ordinals_of rs = foldl (\<lambda>d r. dict_set (rp_finding r) (rp_ordinal r) d) [] rs"

text \<open>The planned action and the ordinals of the repeats: a malformed switch stops the campaign; candidates
  for a repeat turn the wait for a review into a validation.\<close>

definition choose_action ::
  "services \<Rightarrow> analyses \<Rightarrow> campaign \<Rightarrow> obs_graph \<Rightarrow> (planned_action \<times> (string \<times> int) list) result" where
  "choose_action sv an c g =
     rbind (plan (sv_env sv) c g) (\<lambda>planned. let a = hd planned in
     case repeat_validation_enabled (sv_env sv) of
       Inl e \<Rightarrow> Inr (stop_action c ''invalid repeat differential validation configuration'', [])
     | Inr enabled \<Rightarrow>
         rbind (build_repeat_candidates (an_structured_cves an) (c_findings c) g enabled) (\<lambda>rs.
           if pa_kind a = Stop \<and> pa_reason a = awaiting_text \<and> rs \<noteq> []
           then Inr (act Validate (Some (c_url c)) ''bounded repeat differential validation required'' 100, ordinals_of rs)
           else Inr (a, [])))"

definition advised :: "planned_action \<Rightarrow> intelligence \<Rightarrow> planned_action" where
  "advised a ig =
     fst (prioritize_action_with_coverage (fst (prioritize_with_chain_context
       (fst (prioritize_action_with_intelligence a (ig_focuses ig))) (ig_chains ig))) (ig_guidance ig))"

definition breaker_blockers :: "string list" where
  "breaker_blockers = [''failed_jobs'', ''runtime_exhausted'', ''budget_blocked'', ''campaign_risk_blocked'']"

definition refuse ::
  "services \<Rightarrow> campaign \<Rightarrow> obs_graph \<Rightarrow> planner_budget \<Rightarrow> intelligence \<Rightarrow> advance_result run" where
  "refuse sv c g limits ig =
     (let cycle = ig_cycle ig in
      after (if set breaker_blockers \<inter> set (gt_blockers (ig_gate ig)) \<noteq> {}
             then open_breaker sv c (ac_reason cycle) else returns ()) (\<lambda>_.
        build_result sv c g limits (Some ig) None
          (stop_action c (if ac_human cycle then ''human review required: '' @ ac_reason cycle else ac_reason cycle)) []))"

definition enrichment_text :: "intelligence \<Rightarrow> string" where
  "enrichment_text ig = ''attack surface enrichment below scan threshold ('' @ fixed4 (ig_score ig) @ '' < '' @
     fixed4 (ig_threshold ig) @ '')''"

text \<open>The allocation, and the limits it puts on the enqueued items.\<close>

definition coordinate ::
  "services \<Rightarrow> planned_action \<Rightarrow> campaign \<Rightarrow> obs_graph \<Rightarrow> intelligence \<Rightarrow> budget_usage \<Rightarrow> planner_budget \<Rightarrow>
   (string \<times> int) list \<Rightarrow> (pipeline_coordination option \<times> int option \<times> string list option) result" where
  "coordinate sv a c g ig usage limits ordinals =
     (case pa_kind a of
        Scan \<Rightarrow> (let selected = sa_selected (ig_adaptation ig) in
          rbind (coordinate_pipeline_action Scan (int (length selected)) usage (Some limits)) (\<lambda>co.
            Inr (Some co, None, Some (take (nat (pc_allocated co)) selected))))
      | Validate \<Rightarrow>
          rbind (if ordinals \<noteq> [] then Inr (length ordinals)
                 else rbind (pending_findings (sv_hash sv) (c_findings c) g) (\<lambda>p. Inr (length p))) (\<lambda>n.
          rbind (coordinate_pipeline_action Validate (int n) usage (Some limits)) (\<lambda>co.
            Inr (Some co, Some (pc_allocated co), None)))
      | Report \<Rightarrow>
          rbind (coordinate_pipeline_action Report 1 usage (Some limits)) (\<lambda>co. Inr (Some co, None, None))
      | _ \<Rightarrow> Inr (None, None, None))"

definition execute ::
  "services \<Rightarrow> planned_action \<Rightarrow> campaign \<Rightarrow> obs_graph \<Rightarrow> intelligence \<Rightarrow> budget_usage \<Rightarrow> planner_budget \<Rightarrow>
   (string \<times> int) list \<Rightarrow> advance_result run" where
  "execute sv a c g ig usage limits ordinals =
     (let recon = sc_tasks (ig_swarm ig) in
      if pa_kind a = Crawl
      then after (enqueue_recon_tasks sv c g recon) (build_result sv c g limits (Some ig) None a)
      else if pa_kind a = Scan \<and> \<not> ig_ready ig
      then after (enqueue_recon_tasks sv c g recon)
             (build_result sv c g limits (Some ig) None (act Crawl (Some (c_url c)) (enrichment_text ig) 95))
      else after (pure_run (coordinate sv a c g ig usage limits ordinals)) (\<lambda>(co, validation_limit, engines).
        after (enqueue_action sv a c g validation_limit engines ordinals) (\<lambda>jobs.
          build_result sv c g limits (Some ig) co
            (if pa_kind a = Validate \<and> jobs = [] then stop_action c
               (if ordinals \<noteq> [] then ''repeat differential validation budget unavailable''
                else ''cluster validation saturated by strong representative evidence'') else a) jobs)))"

text \<open>One round: what is gathered, and the decision on it. Only an inventory, which seeds the target as an
  asset, goes on to the next round; after the last one the plan is reported without being carried out.\<close>

definition gather ::
  "services \<Rightarrow> analyses \<Rightarrow> campaign \<Rightarrow> planner_budget \<Rightarrow> int \<Rightarrow>
   (planned_action \<times> obs_graph \<times> intelligence \<times> budget_usage \<times> (string \<times> int) list) run" where
  "gather sv an c limits runtime_limit =
     after (load_graph sv (c_id c)) (\<lambda>g.
     after (pure_run (choose_action sv an c g)) (\<lambda>(chosen, ordinals).
     after (\<lambda>w. (queue_usage g (w_queue w) (c_id c) limits, w)) (\<lambda>current.
     let (a, usage) = apply_budget chosen current in
     after (if bu_exhausted usage \<and> pa_kind a = Stop then open_breaker sv c (pa_reason a) else returns ()) (\<lambda>_.
     after (runtime_run sv an c runtime_limit) (\<lambda>runtime.
     after (\<lambda>w. (intelligence_context sv an c g w limits runtime [a], w)) (\<lambda>ig.
       returns (a, g, ig, usage, ordinals)))))))"

definition decide ::
  "services \<Rightarrow> campaign \<Rightarrow> planner_budget \<Rightarrow> advance_result run \<Rightarrow>
   planned_action \<times> obs_graph \<times> intelligence \<times> budget_usage \<times> (string \<times> int) list \<Rightarrow> advance_result run" where
  "decide sv c limits next_round = (\<lambda>(planned, g, ig, usage, ordinals).
     let a = advised planned ig in
     if ac_next (ig_cycle ig) = ''stop'' \<or> \<not> ac_safe (ig_cycle ig) then refuse sv c g limits ig
     else if pa_kind a = Inventory then after (seed_primary_target sv c) (\<lambda>_. next_round)
     else execute sv a c g ig usage limits ordinals)"

definition report_plan ::
  "services \<Rightarrow> analyses \<Rightarrow> campaign \<Rightarrow> planner_budget \<Rightarrow> int \<Rightarrow> advance_result run" where
  "report_plan sv an c limits runtime_limit =
     after (load_graph sv (c_id c)) (\<lambda>g.
     after (pure_run (plan (sv_env sv) c g)) (\<lambda>planned.
     after (\<lambda>w. (queue_usage g (w_queue w) (c_id c) limits, w)) (\<lambda>usage.
     let a = fst (apply_budget (hd planned) usage) in
     after (runtime_run sv an c runtime_limit) (\<lambda>runtime.
     after (\<lambda>w. (intelligence_context sv an c g w limits runtime [a], w)) (\<lambda>ig.
       build_result sv c g limits (Some ig) None a [])))))"

fun advance_rounds ::
  "nat \<Rightarrow> services \<Rightarrow> analyses \<Rightarrow> campaign \<Rightarrow> planner_budget \<Rightarrow> int \<Rightarrow> advance_result run" where
  "advance_rounds 0 sv an c limits runtime_limit = report_plan sv an c limits runtime_limit"
| "advance_rounds (Suc n) sv an c limits runtime_limit =
     after (gather sv an c limits runtime_limit) (decide sv c limits (advance_rounds n sv an c limits runtime_limit))"

definition given_or :: "'a option \<Rightarrow> 'a result \<Rightarrow> 'a result" where
  "given_or x r = (case x of None \<Rightarrow> r | Some y \<Rightarrow> Inr y)"

definition advance_campaign ::
  "services \<Rightarrow> analyses \<Rightarrow> campaign \<Rightarrow> planner_budget option \<Rightarrow> int option \<Rightarrow> advance_result run" where
  "advance_campaign sv an c budget runtime_limit =
     (let limits_r = given_or budget (planner_budget_from_env (sv_env sv)) in
      after (load_graph sv (c_id c)) (\<lambda>g.
      let breaker = circuit_breaker_state g in
      if bk_open breaker then
        after (pure_run limits_r) (\<lambda>limits.
          build_result sv c g limits None None (stop_action c (''circuit breaker open: '' @ py_str (bk_reason breaker))) [])
      else after (pure_run (planner_stability_from_graph g)) (\<lambda>stability.
      case planner_stability_breaker_reason stability of
        Some reason \<Rightarrow>
          after (open_breaker sv c reason) (\<lambda>_. after (pure_run limits_r) (\<lambda>limits.
            build_result sv c g limits None None (stop_action c reason) []))
      | None \<Rightarrow>
          after (pure_run limits_r) (\<lambda>limits.
          after (pure_run (given_or runtime_limit (campaign_runtime_limit_from_env (sv_env sv)))) (\<lambda>effective.
          after (runtime_run sv an c effective) (\<lambda>runtime.
            if rs_exhausted runtime then
              after (load_graph sv (c_id c)) (\<lambda>g'.
              after (open_breaker sv c (case rs_reason runtime of None \<Rightarrow> runtime_text | Some r \<Rightarrow> r)) (\<lambda>_.
                build_result sv c g' limits None None
                  (stop_action c (case rs_reason runtime of None \<Rightarrow> runtime_text | Some r \<Rightarrow> r)) []))
            else advance_rounds 3 sv an c limits effective))))))"

end
