(* ===== verification/OrchestratorProps.thy ===== *)
theory OrchestratorProps
  imports Orchestrator StorageProps
begin

text \<open>
  What one advance of a campaign may do, for every behaviour of the advisory analyses: which jobs it
  enqueues, under which conditions, within which budget, and what it leaves in the store.
\<close>

section \<open>What does not touch the queue\<close>

definition frame :: "'a run \<Rightarrow> bool" where
  "frame m = (\<forall>w. w_queue (snd (m w)) = w_queue w)"

lemma frame_iff: "frame m \<longleftrightarrow> run_adds 0 (\<lambda>_. False) m"
  by (auto simp: frame_def run_adds_def adds_def)

lemma frame_after: "frame m \<Longrightarrow> (\<And>x. frame (f x)) \<Longrightarrow> frame (after m f)"
  unfolding frame_iff by (rule run_adds_left)

lemma frame_simple:
  "frame (returns x)" "frame (pure_run r)" "frame (read_clock sv)" "frame (store_run f)"
  "frame (load_graph sv i)" "frame (\<lambda>w. (h w, w))" "frame (runtime_run sv an c l)"
  by (simp_all add: frame_iff run_intro) (simp add: run_adds_def runtime_run_def)

lemma frame_parts:
  "frame (put_run sv i ob)" "frame (seed_primary_target sv c)" "frame (record_decision sv c g a agent ig)"
  "frame (store_hypotheses sv c hs)" "frame (open_breaker sv c reason)"
  by (auto simp: put_run_def seed_primary_target_def record_decision_def store_hypotheses_def open_breaker_def Let_def
      intro!: frame_after frame_simple split: list.split)

lemma frame_build_result: "frame (build_result sv c g limits ig co a jobs)"
  unfolding build_result_def Let_def by (intro frame_after frame_simple frame_parts)

lemma frame_refuse: "frame (refuse sv c g limits ig)"
  unfolding refuse_def Let_def
  by (intro frame_after frame_build_result) (simp add: frame_parts frame_simple)

text \<open>A run that returned.\<close>

lemma after_Inr: "after m f w = (Inr y, w') \<longleftrightarrow> (\<exists>x w1. m w = (Inr x, w1) \<and> f x w1 = (Inr y, w'))"
  by (auto simp: after_def split: prod.splits sum.splits)

lemma query_Inr: "pure_run r w = (Inr y, w') \<longleftrightarrow> r = Inr y \<and> w' = w" "returns x w = (Inr y, w') \<longleftrightarrow> y = x \<and> w' = w"
  by (auto simp: pure_run_def returns_def)

lemma frameD: "frame m \<Longrightarrow> m w = (r, w') \<Longrightarrow> w_queue w' = w_queue w"
  by (metis frame_def snd_conv)

text \<open>A relation between the queue before and after, past a run that leaves the queue alone.\<close>

lemma after_queue:
  assumes "frame m" and "E q (w_queue w)"
    and "\<And>x w'. m w = (Inr x, w') \<Longrightarrow> w_queue w' = w_queue w \<Longrightarrow> E q (w_queue (snd (f x w')))"
  shows "E q (w_queue (snd (after m f w)))"
proof -
  obtain r w' where m: "m w = (r, w')" by (cases "m w")
  with frameD [OF assms(1) m] assms(2,3) show ?thesis by (cases r) (auto simp: after_def)
qed

section \<open>When an action is carried out\<close>

text \<open>What is established before anything is enqueued, with the queue of that moment.\<close>

definition gathered ::
  "services \<Rightarrow> analyses \<Rightarrow> campaign \<Rightarrow> planner_budget \<Rightarrow> job_queue \<Rightarrow> planned_action \<Rightarrow> obs_graph \<Rightarrow> intelligence \<Rightarrow>
   budget_usage \<Rightarrow> (string \<times> int) list \<Rightarrow> bool" where
  "gathered sv an c limits q a g ig usage ordinals \<longleftrightarrow>
     (\<exists>chosen before runtime w.
        choose_action sv an c g = Inr (chosen, ordinals) \<and> queue_usage g q (c_id c) limits = Inr before \<and>
        apply_budget chosen before = (a, usage) \<and> w_queue w = q \<and>
        intelligence_context sv an c g w limits runtime [a] = Inr ig)"

lemma frame_gather: "frame (gather sv an c limits l)"
  unfolding gather_def Let_def
  by (intro frame_after frame_simple)
    (auto simp: Let_def intro!: frame_after frame_simple frame_parts split: prod.split)

lemma gather_gathered:
  assumes "gather sv an c limits l w = (Inr (a, g, ig, usage, ordinals), w')"
  shows "gathered sv an c limits (w_queue w) a g ig usage ordinals"
proof -
  obtain w1 chosen before w2 w3 runtime w4 where run: "load_graph sv (c_id c) w = (Inr g, w1)"
    "choose_action sv an c g = Inr (chosen, ordinals)" "queue_usage g (w_queue w1) (c_id c) limits = Inr before"
    "a = fst (apply_budget chosen before)" "usage = snd (apply_budget chosen before)"
    "(if bu_exhausted usage \<and> pa_kind a = Stop then open_breaker sv c (pa_reason a) else returns ()) w1 = (Inr (), w3)"
    "runtime_run sv an c l w3 = (Inr runtime, w4)" "intelligence_context sv an c g w4 limits runtime [a] = Inr ig"
    using assms by (auto simp: gather_def after_Inr query_Inr Let_def case_prod_beta cong: if_cong)
  have budget: "apply_budget chosen before = (a, usage)" using run(4,5) by simp
  have "w_queue w1 = w_queue w" "w_queue w3 = w_queue w1" "w_queue w4 = w_queue w3"
    by (rule frameD [rotated], rule run, simp add: frame_simple frame_parts)+
  with run budget show ?thesis unfolding gathered_def by metis
qed

lemma rounds_queue:
  assumes "\<And>q. E q q"
    and "\<And>a g ig usage ordinals w. gathered sv an c limits (w_queue w) a g ig usage ordinals \<Longrightarrow> ac_safe (ig_cycle ig) \<Longrightarrow>
      E (w_queue w) (w_queue (snd (execute sv (advised a ig) c g ig usage limits ordinals w)))"
  shows "E (w_queue w) (w_queue (snd (advance_rounds n sv an c limits l w)))"
proof (induction n arbitrary: w)
  case 0
  have "frame (report_plan sv an c limits l)"
    unfolding report_plan_def Let_def by (intro frame_after frame_simple frame_build_result)
  then show ?case using assms(1) by (simp add: frame_def)
next
  case (Suc n)
  have decided: "E (w_queue w1) (w_queue (snd (decide sv c limits (advance_rounds n sv an c limits l) (a, g, ig, usage, ordinals) w1)))"
    if gathered: "gathered sv an c limits (w_queue w1) a g ig usage ordinals" for a g ig usage ordinals w1
  proof -
    have seed: "E (w_queue w1) (w_queue (snd (after (seed_primary_target sv c) (\<lambda>_. advance_rounds n sv an c limits l) w1)))"
      using Suc by (intro after_queue [of _ E "w_queue w1" w1] frame_parts assms(1)) metis
    show ?thesis
      using seed assms(2) [OF gathered] frame_refuse [unfolded frame_def] assms(1)
      by (auto simp: decide_def Let_def)
  qed
  show ?case
    unfolding advance_rounds.simps
    by (rule after_queue [of _ E "w_queue w" w, OF frame_gather assms(1)]) (metis decided gather_gathered prod_cases5)
qed

section \<open>What a safe cycle says\<close>

lemma advice_keeps:
  "pa_kind (fst (prioritize_action_with_intelligence a fs)) = pa_kind a"
  "pa_target (fst (prioritize_action_with_intelligence a fs)) = pa_target a"
  "pa_kind (fst (prioritize_with_chain_context a cs)) = pa_kind a"
  "pa_target (fst (prioritize_with_chain_context a cs)) = pa_target a"
  "pa_kind (fst (prioritize_action_with_coverage a gu)) = pa_kind a"
  "pa_target (fst (prioritize_action_with_coverage a gu)) = pa_target a"
  unfolding prioritize_action_with_intelligence_def prioritize_with_chain_context_def
    prioritize_action_with_coverage_def Let_def
  by (simp_all only: if_distrib [of fst] if_distrib [of pa_kind] if_distrib [of pa_target] fst_conv act_simps if_cancel)

lemma advised_keeps [simp]: "pa_kind (advised a ig) = pa_kind a" "pa_target (advised a ig) = pa_target a"
  by (simp_all add: advised_def advice_keeps)

text \<open>What the rules of the campaign must say.\<close>

definition rules_permit :: "program_rules \<Rightarrow> bool" where
  "rules_permit r \<longleftrightarrow> automated_scanning r \<and> \<not> destructive_testing r \<and> \<not> denial_of_service r \<and>
     \<not> social_engineering r \<and> \<not> credential_attacks r"

lemma context_safe:
  assumes "intelligence_context sv an c g w limits runtime [a] = Inr ig" and "ac_safe (ig_cycle ig)"
  shows "rules_permit (c_rules c)" and "\<not> rs_exhausted runtime" and "pa_kind a \<in> {Inventory, Crawl, Scan, Validate}"
    and "\<exists>u. queue_usage g (w_queue w) (c_id c) limits = Inr u \<and> bu_blocked u = []"
    and "\<exists>s. sq_campaign_job_status_counts (w_queue w) (c_id c) = Inr s \<and> s Failed = 0"
    and "\<not> cr_blocked (ig_risk ig)" and "cr_level (ig_risk ig) \<notin> {''high'', ''critical''}"
    and "\<exists>es. scan_engines (sv_env sv) = Inr es" and "\<exists>t. minimum_enrichment_score an (sv_env sv) = Inr t"
    and "\<exists>ts. coordinate_recon_swarm ts None = Inr (ig_swarm ig)"
  using assms
  by (auto simp: intelligence_context_def Let_def cycle_safe_iff gate_clear gate_human rules_permit_def
      split: if_splits prod.splits)

lemma gathered_safe:
  assumes "gathered sv an c limits q a g ig usage ordinals" and "ac_safe (ig_cycle ig)"
  shows "rules_permit (c_rules c)" and "choose_action sv an c g = Inr (a, ordinals)"
    and "queue_usage g q (c_id c) limits = Inr usage" and "bu_blocked usage = []"
    and "\<exists>s. sq_campaign_job_status_counts q (c_id c) = Inr s \<and> s Failed = 0"
    and "pa_kind a \<in> {Inventory, Crawl, Scan, Validate}" and "\<exists>ts. coordinate_recon_swarm ts None = Inr (ig_swarm ig)"
    and "\<exists>es. scan_engines (sv_env sv) = Inr es" and "\<exists>t. minimum_enrichment_score an (sv_env sv) = Inr t"
proof -
  obtain chosen before runtime w where g: "choose_action sv an c g = Inr (chosen, ordinals)"
    "queue_usage g q (c_id c) limits = Inr before" "apply_budget chosen before = (a, usage)" "w_queue w = q"
    "intelligence_context sv an c g w limits runtime [a] = Inr ig"
    using assms(1) by (auto simp: gathered_def)
  note s = context_safe [OF g(5) assms(2)]
  have blocked: "bu_blocked before = []" using s(4) g(2,4) by auto
  then have same: "a = chosen" "usage = before" using g(3) by (auto simp: apply_budget_def)
  show "rules_permit (c_rules c)" by (rule s(1))
  show "choose_action sv an c g = Inr (a, ordinals)" "queue_usage g q (c_id c) limits = Inr usage" "bu_blocked usage = []"
    using g blocked by (simp_all add: same)
  show "\<exists>s. sq_campaign_job_status_counts q (c_id c) = Inr s \<and> s Failed = 0" using s(5) g(4) by simp
  show "pa_kind a \<in> {Inventory, Crawl, Scan, Validate}" by (rule s(3))
  show "\<exists>ts. coordinate_recon_swarm ts None = Inr (ig_swarm ig)" by (rule s(10))
  show "\<exists>es. scan_engines (sv_env sv) = Inr es" "\<exists>t. minimum_enrichment_score an (sv_env sv) = Inr t" by (rule s(8), rule s(9))
qed

section \<open>The budget that is left\<close>

definition jobs_of :: "string \<Rightarrow> string set \<Rightarrow> job_queue \<Rightarrow> nat" where
  "jobs_of i kinds q = length (filter (\<lambda>j. j_campaign j = i \<and> j_kind j \<in> kinds) q)"

definition live_jobs :: "string \<Rightarrow> job_queue \<Rightarrow> nat" where
  "live_jobs i q = length (filter (\<lambda>j. j_campaign j = i \<and> j_status j \<in> {Queued, Running}) q)"

definition scan_kinds :: "string set" where
  "scan_kinds = {''strix_scan'', ''nuclei_scan''}"

lemma campaign_counts:
  assumes "sq_campaign_job_counts q i = Inr d" and "k \<in> set allowed_kinds"
  shows "map_of d k = Some (jobs_of (py_strip i) {k} q)"
proof -
  let ?rows = "in_campaign (py_strip i) q"
  have d: "d = foldl (\<lambda>d k. dict_set k (kind_count k ?rows) d) (map (\<lambda>k. (k, 0)) allowed_kinds) (map j_kind ?rows)"
    using assms(1) by (auto simp: sq_campaign_job_counts_def Let_def dest!: bounded_identifier_Inr)
  have n: "kind_count k ?rows = jobs_of (py_strip i) {k} q"
    by (simp add: kind_count_def in_campaign_def jobs_of_def conj_commute)
  have "kind_count k ?rows = 0" if "k \<notin> j_kind ` set ?rows"
    using that by (auto simp: kind_count_def filter_empty_conv)
  then show ?thesis using assms(2) by (auto simp: d map_of_foldl_keys map_of_map_key n image_iff)
qed

lemma length_filter_or:
  "(\<And>x. P x \<Longrightarrow> \<not> Q x) \<Longrightarrow> length (filter P xs) + length (filter Q xs) = length (filter (\<lambda>x. P x \<or> Q x) xs)"
  by (induction xs) auto

text \<open>What the usage says, in numbers of rows.\<close>

lemma queue_usage_rows:
  assumes "queue_usage g q i limits = Inr u"
  defines "scans \<equiv> int (jobs_of (py_strip i) scan_kinds q)"
    and "vals \<equiv> int (jobs_of (py_strip i) {''independent_validation''} q)"
    and "reps \<equiv> int (jobs_of (py_strip i) {''report''} q)" and "live \<equiv> int (live_jobs (py_strip i) q)"
  shows "bu_remaining_scans u = max 0 (pb_scans limits - scans)"
    and "bu_remaining_validations u = max 0 (pb_validations limits - vals)"
    and "bu_remaining_inflight u = max 0 (pb_inflight limits - live)"
    and "bu_blocked u = [] \<Longrightarrow> scans < pb_scans limits \<and> vals < pb_validations limits \<and> reps < pb_reports limits \<and>
      live < pb_inflight limits"
proof -
  note run = assms(1) [unfolded queue_usage_def usage_of_def Let_def]
  obtain d where d: "sq_campaign_job_counts q i = Inr d" using run by (rule rbind_InrE)
  obtain s where s: "sq_campaign_job_status_counts q i = Inr s"
    using run [unfolded d rbind_simps] by (rule rbind_InrE)
  note items_run = run [unfolded d s rbind_simps]
  obtain strix where i1: "dict_item d ''strix_scan'' = Inr strix" using items_run by (rule rbind_InrE)
  obtain nuclei where i2: "dict_item d ''nuclei_scan'' = Inr nuclei"
    using items_run [unfolded i1 rbind_simps] by (rule rbind_InrE)
  obtain v where i3: "dict_item d ''independent_validation'' = Inr v"
    using items_run [unfolded i1 i2 rbind_simps] by (rule rbind_InrE)
  obtain r where i4: "dict_item d ''report'' = Inr r"
    using items_run [unfolded i1 i2 i3 rbind_simps] by (rule rbind_InrE)
  note items = i1 i2 i3 i4
  note eq = items_run [unfolded items rbind_simps sum.inject, symmetric]
  have u: "bu_remaining_scans u = max 0 (pb_scans limits - int (strix + nuclei))"
      "bu_remaining_validations u = max 0 (pb_validations limits - int v)"
      "bu_remaining_inflight u = max 0 (pb_inflight limits - int (s Queued + s Running))"
      "bu_blocked u = blocked_actions (bu_actions u) (int (strix + nuclei)) (int v) (int r) (int (s Queued + s Running))
        (bu_failed u) limits"
    unfolding eq by (simp_all only: budget_usage.simps)
  have k: "jobs_of (py_strip i) {k} q = n" if "dict_item d k = Inr n" "k \<in> set allowed_kinds" for k n
    using campaign_counts [OF d that(2)] that(1) by (simp add: dict_item_def)
  have n: "scans = int (strix + nuclei)" "vals = int v" "reps = int r"
  proof -
    have "jobs_of (py_strip i) {''strix_scan''} q + jobs_of (py_strip i) {''nuclei_scan''} q = jobs_of (py_strip i) scan_kinds q"
      unfolding jobs_of_def by (subst length_filter_or) (auto simp: scan_kinds_def intro!: arg_cong [where f = length] filter_cong)
    then show "scans = int (strix + nuclei)"
      using k [OF items(1)] k [OF items(2)] by (simp add: scans_def allowed_kinds_def)
    show "vals = int v" "reps = int r"
      using k [OF items(3)] k [OF items(4)] by (simp_all add: vals_def reps_def allowed_kinds_def)
  qed
  have live: "live = int (s Queued + s Running)"
  proof -
    have "s st = length (filter (\<lambda>j. j_campaign j = py_strip i \<and> j_status j = st) q)" for st
      using s by (auto simp: sq_campaign_job_status_counts_def status_count_def in_campaign_def conj_commute
          dest!: bounded_identifier_Inr)
    moreover have "length (filter (\<lambda>j. j_campaign j = py_strip i \<and> j_status j = Queued) q) +
        length (filter (\<lambda>j. j_campaign j = py_strip i \<and> j_status j = Running) q) = live_jobs (py_strip i) q"
      unfolding live_jobs_def by (subst length_filter_or) (auto intro!: arg_cong [where f = length] filter_cong)
    ultimately show ?thesis by (simp add: live_def)
  qed
  show "bu_remaining_scans u = max 0 (pb_scans limits - scans)"
    "bu_remaining_validations u = max 0 (pb_validations limits - vals)"
    "bu_remaining_inflight u = max 0 (pb_inflight limits - live)" by (simp_all add: u n live)
  assume "bu_blocked u = []"
  then have none: "map_of (blocked_actions (bu_actions u) scans vals reps live (bu_failed u) limits) x = None" for x
    using u(4) by (simp add: n live)
  show "scans < pb_scans limits \<and> vals < pb_validations limits \<and> reps < pb_reports limits \<and> live < pb_inflight limits"
    using not_blocked [OF none [of Scan]] not_blocked [OF none [of Validate]] not_blocked [OF none [of Report]] by simp
qed

section \<open>What carrying out an action adds\<close>

definition recon_kinds :: "string set" where
  "recon_kinds = {''recon_task'', ''browser_flow''}"

definition dispatched :: "services \<Rightarrow> campaign \<Rightarrow> planner_budget \<Rightarrow> job_queue \<Rightarrow> job_queue \<Rightarrow> bool" where
  "dispatched sv c limits q q' \<longleftrightarrow>
     (let i = py_strip (c_id c); room = max 0 (pb_inflight limits - int (live_jobs i q)) in
      adds 5 (governed_job sv c recon_kinds) q q' \<or>
      (\<exists>n. adds n (governed_job sv c scan_kinds) q q' \<and> int n \<le> room \<and>
         int n \<le> max 0 (pb_scans limits - int (jobs_of i scan_kinds q))) \<or>
      (\<exists>n. adds n (governed_job sv c {''independent_validation''}) q q' \<and> int n \<le> room \<and>
         int n \<le> max 0 (pb_validations limits - int (jobs_of i {''independent_validation''} q))))"

lemma run_adds_frame: "frame m \<Longrightarrow> run_adds n J m"
  by (simp add: frame_def run_adds_def)

lemma swarm_tasks_le:
  assumes "coordinate_recon_swarm ts None = Inr s" shows "length (sc_tasks s) \<le> 5"
proof -
  let ?ts = "sort_key (\<lambda>t. (- rt_priority t, rt_kind t, rt_agent t)) ts"
  obtain selected suppressed active used where
    r: "swarm_loop (map (\<lambda>c. (rc_task_kind c, c)) recon_capabilities) default_swarm_budget ?ts ([], [], [], 0) =
      Inr (selected, suppressed, active, used)" "sc_tasks s = selected"
    using assms by (auto simp: coordinate_recon_swarm_def Let_def capabilities_mapping)
  have "batch_inv default_swarm_budget ?ts 0 ([], [], [], 0)"
    by (simp add: batch_inv_def request_total_def default_swarm_budget_def)
  from swarm_loop_inv [OF r(1) this] show ?thesis by (simp add: r(2) batch_inv_def default_swarm_budget_def)
qed

lemma recon_dispatched:
  assumes "coordinate_recon_swarm ts None = Inr (ig_swarm ig)" and "\<And>jobs. frame (k jobs)"
  shows "dispatched sv c limits (w_queue w)
    (w_queue (snd (after (enqueue_recon_tasks sv c g (sc_tasks (ig_swarm ig))) k w)))"
proof -
  have "run_adds 5 (governed_job sv c recon_kinds) (enqueue_recon_tasks sv c g (sc_tasks (ig_swarm ig)))"
    using run_adds_mono [OF enqueue_recon_tasks_adds swarm_tasks_le [OF assms(1)]] by (simp add: recon_kinds_def)
  then have "run_adds 5 (governed_job sv c recon_kinds) (after (enqueue_recon_tasks sv c g (sc_tasks (ig_swarm ig))) k)"
    by (rule run_adds_left) (rule run_adds_frame, rule assms)
  then show ?thesis by (simp add: dispatched_def Let_def run_adds_def)
qed

lemma coordinate_scan:
  assumes "coordinate sv a c g ig usage limits ordinals = Inr (co, vl, es)" and "pa_kind a = Scan"
  obtains engines where "es = Some engines" "int (length engines) \<le> max 0 (min (bu_remaining_scans usage) (bu_remaining_inflight usage))"
proof -
  let ?sel = "sa_selected (ig_adaptation ig)"
  obtain pc where pc: "coordinate_pipeline_action Scan (int (length ?sel)) usage (Some limits) = Inr pc"
    and es: "es = Some (take (nat (pc_allocated pc)) ?sel)"
    using assms by (auto simp: coordinate_def Let_def)
  have "int (length (take (nat (pc_allocated pc)) ?sel)) \<le> max 0 (min (bu_remaining_scans usage) (bu_remaining_inflight usage))"
  proof -
    have "0 \<le> pc_allocated pc" "pc_allocated pc \<le> max 0 (min (bu_remaining_scans usage) (bu_remaining_inflight usage))"
      using pipeline_allocation(3) [OF pc] by (auto simp: pipeline_capacity_def min_def max_def split: if_splits)
    moreover have "int (length (take (nat (pc_allocated pc)) ?sel)) \<le> max 0 (pc_allocated pc)" by simp
    ultimately show ?thesis by linarith
  qed
  with es that show thesis by blast
qed

lemma coordinate_validate:
  assumes "coordinate sv a c g ig usage limits ordinals = Inr (co, vl, es)" and "pa_kind a = Validate"
  obtains n where "vl = Some n" "0 \<le> n" "n \<le> max 0 (min (bu_remaining_validations usage) (bu_remaining_inflight usage))"
proof -
  obtain m pc where pc: "coordinate_pipeline_action Validate (int m) usage (Some limits) = Inr pc" and vl: "vl = Some (pc_allocated pc)"
    using assms by (auto simp: coordinate_def Let_def split: if_splits)
  with pipeline_allocation(3) [OF pc] that show thesis
    by (simp add: pipeline_capacity_def min_def max_def split: if_splits)
qed

lemma execute_dispatched:
  assumes "gathered sv an c limits (w_queue w) a0 g ig usage ordinals" and "ac_safe (ig_cycle ig)"
    and "a = advised a0 ig"
  shows "dispatched sv c limits (w_queue w) (w_queue (snd (execute sv a c g ig usage limits ordinals w)))"
proof -
  note safe = gathered_safe [OF assms(1,2)]
  have kind: "pa_kind a \<in> {Inventory, Crawl, Scan, Validate}" using safe(6) assms(3) by simp
  obtain ts where swarm: "coordinate_recon_swarm ts None = Inr (ig_swarm ig)" using safe(7) by blast
  note rows = queue_usage_rows [OF safe(3)]
  consider (crawl) "pa_kind a = Crawl" | (enrich) "pa_kind a = Scan \<and> \<not> ig_ready ig"
    | (act) "pa_kind a \<noteq> Crawl" "\<not> (pa_kind a = Scan \<and> \<not> ig_ready ig)" by blast
  then show ?thesis
  proof cases
    case crawl
    then show ?thesis using recon_dispatched [OF swarm frame_build_result] by (simp add: execute_def Let_def)
  next
    case enrich
    then show ?thesis using recon_dispatched [OF swarm frame_build_result] by (simp add: execute_def Let_def)
  next
    case act
    note exec = execute_def [of sv a c g ig usage limits ordinals, unfolded Let_def if_not_P [OF act(1)] if_not_P [OF act(2)]]
    show ?thesis
    proof (cases "coordinate sv a c g ig usage limits ordinals")
      case (Inl e)
      then show ?thesis by (simp add: exec after_def pure_run_def dispatched_def Let_def)
    next
      case (Inr r)
      obtain co vl es where r: "r = (co, vl, es)" by (cases r)
      let ?k = "\<lambda>jobs. build_result sv c g limits (Some ig) co
            (if pa_kind a = Validate \<and> jobs = [] then stop_action c
               (if ordinals \<noteq> [] then ''repeat differential validation budget unavailable''
                else ''cluster validation saturated by strong representative evidence'') else a) jobs"
      have run: "execute sv a c g ig usage limits ordinals w = after (enqueue_action sv a c g vl es ordinals) ?k w"
        using Inr r by (simp add: exec after_def pure_run_def)
      have adds: "adds n J (w_queue w) (w_queue (snd (execute sv a c g ig usage limits ordinals w)))"
        if "run_adds n J (enqueue_action sv a c g vl es ordinals)" for n J
        unfolding run using run_adds_left [OF that run_adds_frame [OF frame_build_result]] by (simp add: run_adds_def)
      consider (inventory) "pa_kind a = Inventory" | (scan) "pa_kind a = Scan" | (validate) "pa_kind a = Validate"
        using kind act(1) by blast
      then show ?thesis
      proof cases
        case inventory
        then have "adds 0 (governed_job sv c recon_kinds) (w_queue w) (w_queue (snd (execute sv a c g ig usage limits ordinals w)))"
          by (intro adds enqueue_action_none) simp
        then show ?thesis by (auto simp: dispatched_def Let_def intro: adds_mono)
      next
        case scan
        obtain engines where es: "es = Some engines"
          "int (length engines) \<le> max 0 (min (bu_remaining_scans usage) (bu_remaining_inflight usage))"
          using coordinate_scan [OF Inr [unfolded r] scan] .
        have "adds (length engines) (governed_job sv c scan_kinds) (w_queue w)
            (w_queue (snd (execute sv a c g ig usage limits ordinals w)))"
          using adds [OF enqueue_action_scan [OF scan, of engines sv c g vl ordinals, folded es(1)]]
          by (simp add: scan_kinds_def job_kinds_of_def)
        then show ?thesis using es(2) rows(1,3) by (auto simp: dispatched_def Let_def)
      next
        case validate
        obtain n where n: "vl = Some n" "0 \<le> n" "n \<le> max 0 (min (bu_remaining_validations usage) (bu_remaining_inflight usage))"
          using coordinate_validate [OF Inr [unfolded r] validate] .
        have "adds (nat n) (governed_job sv c {''independent_validation''}) (w_queue w)
            (w_queue (snd (execute sv a c g ig usage limits ordinals w)))"
          using adds [OF enqueue_action_validate [OF validate n(2), of sv c g es ordinals, folded n(1)]]
          by (simp add: job_kinds_of_def)
        then show ?thesis using n(2,3) rows(2,3)
          by (auto simp: dispatched_def Let_def intro!: exI [of _ "nat n"])
      qed
    qed
  qed
qed

section \<open>One advance\<close>

text \<open>An advance changes the queue only in one of its rounds, past the breaker, the stability check and the
  runtime limit.\<close>

lemma advance_changed:
  assumes "w_queue (snd (advance_campaign sv an c budget runtime_limit w)) \<noteq> w_queue w"
  obtains g stability limits l a g' ig usage ordinals where
    "load_observation_graph (sv_float_parse sv) (w_store w) (c_id c) False = Inr g"
    "\<not> bk_open (circuit_breaker_state g)" "planner_stability_from_graph g = Inr stability"
    "planner_stability_breaker_reason stability = None"
    "given_or budget (planner_budget_from_env (sv_env sv)) = Inr limits"
    "given_or runtime_limit (campaign_runtime_limit_from_env (sv_env sv)) = Inr l"
    "gathered sv an c limits (w_queue w) a g' ig usage ordinals" "ac_safe (ig_cycle ig)"
    "dispatched sv c limits (w_queue w) (w_queue (snd (advance_campaign sv an c budget runtime_limit w)))"
proof -
  let ?limits_r = "given_or budget (planner_budget_from_env (sv_env sv))"
  let ?adv = "advance_campaign sv an c budget runtime_limit w"
  define E where "E limits q q' \<longleftrightarrow> q' = q \<or> dispatched sv c limits q q' \<and>
    (\<exists>a g ig usage ordinals. gathered sv an c limits q a g ig usage ordinals \<and> ac_safe (ig_cycle ig))" for limits q q'
  have rounds: "E limits (w_queue w1) (w_queue (snd (advance_rounds 3 sv an c limits l w1)))" for limits l w1
  proof (rule rounds_queue)
    show "E limits q q" for q by (simp add: E_def)
    show "E limits (w_queue w) (w_queue (snd (execute sv (advised a ig) c g ig usage limits ordinals w)))"
      if "gathered sv an c limits (w_queue w) a g ig usage ordinals" "ac_safe (ig_cycle ig)" for a g ig usage ordinals w
      unfolding E_def using execute_dispatched [OF that refl] that by blast
  qed
  have frames: "frame (after (pure_run ?limits_r) (\<lambda>limits. build_result sv c g limits None None a []))"
    "frame (after (open_breaker sv c r) (\<lambda>_. after (pure_run ?limits_r) (\<lambda>limits. build_result sv c g limits None None a [])))"
    "frame (after (load_graph sv (c_id c)) (\<lambda>g'. after (open_breaker sv c r) (\<lambda>_. build_result sv c g' limits None None a [])))"
    for g a r limits
    by (intro frame_after frame_simple frame_parts frame_build_result)+
  obtain g where g: "load_observation_graph (sv_float_parse sv) (w_store w) (c_id c) False = Inr g"
    using assms by (cases "load_observation_graph (sv_float_parse sv) (w_store w) (c_id c) False")
      (auto simp: advance_campaign_def after_def load_graph_def Let_def)
  note adv = advance_campaign_def [of sv an c budget runtime_limit, unfolded Let_def]
  have closed: "\<not> bk_open (circuit_breaker_state g)"
    using assms frames(1) g by (auto simp: adv after_def load_graph_def frame_def)
  obtain s where s: "planner_stability_from_graph g = Inr s"
    using assms closed g by (cases "planner_stability_from_graph g") (auto simp: adv after_def load_graph_def pure_run_def)
  have stable: "planner_stability_breaker_reason s = None"
    using assms closed g s frames(2)
    by (cases "planner_stability_breaker_reason s") (auto simp: adv after_def load_graph_def pure_run_def frame_def)
  let ?rest = "\<lambda>limits effective runtime.
    if rs_exhausted runtime then
      after (load_graph sv (c_id c)) (\<lambda>g'.
      after (open_breaker sv c (case rs_reason runtime of None \<Rightarrow> runtime_text | Some r \<Rightarrow> r)) (\<lambda>_.
        build_result sv c g' limits None None
          (stop_action c (case rs_reason runtime of None \<Rightarrow> runtime_text | Some r \<Rightarrow> r)) []))
    else advance_rounds 3 sv an c limits effective"
  have tail: "?adv = after (pure_run ?limits_r) (\<lambda>limits.
      after (pure_run (given_or runtime_limit (campaign_runtime_limit_from_env (sv_env sv)))) (\<lambda>effective.
      after (runtime_run sv an c effective) (?rest limits effective))) w"
    using closed s stable g by (simp add: adv after_def load_graph_def pure_run_def)
  obtain limits where limits: "?limits_r = Inr limits"
    using assms by (cases ?limits_r) (auto simp: tail after_def pure_run_def)
  obtain l where l: "given_or runtime_limit (campaign_runtime_limit_from_env (sv_env sv)) = Inr l"
    using assms limits by (cases "given_or runtime_limit (campaign_runtime_limit_from_env (sv_env sv))")
      (auto simp: tail after_def pure_run_def)
  have last: "?adv = after (runtime_run sv an c l) (?rest limits l) w"
    using limits l by (simp add: tail after_def pure_run_def)
  have "E limits (w_queue w) (w_queue (snd ?adv))"
    unfolding last
  proof (rule after_queue [of _ "E limits" "w_queue w" w])
    fix runtime and w1 :: world assume "w_queue w1 = w_queue w"
    then show "E limits (w_queue w) (w_queue (snd (?rest limits l runtime w1)))"
      using rounds [of limits w1 l] frames(3) by (auto simp: frame_def E_def)
  qed (simp_all add: frame_simple E_def)
  with assms obtain a g' ig usage ordinals where "dispatched sv c limits (w_queue w) (w_queue (snd ?adv))"
    "gathered sv an c limits (w_queue w) a g' ig usage ordinals" "ac_safe (ig_cycle ig)"
    by (auto simp: E_def)
  with that g closed s stable limits l show thesis by blast
qed

section \<open>The theorems\<close>

definition advance_kinds :: "string set" where
  "advance_kinds = recon_kinds \<union> scan_kinds \<union> {''independent_validation''}"

lemma dispatched_adds:
  assumes "dispatched sv c limits q q'"
  shows "\<exists>n. adds n (governed_job sv c advance_kinds) q q'"
proof -
  have wider: "\<exists>m. adds m (governed_job sv c advance_kinds) q q'"
    if "adds n (governed_job sv c kinds) q q'" "kinds \<subseteq> advance_kinds" for n kinds
  proof -
    have "governed_job sv c advance_kinds j"
      if "governed_job sv c kinds j" for j
      using that \<open>kinds \<subseteq> _\<close> unfolding governed_job_def by blast
    then show ?thesis using adds_mono [OF that(1) order_refl] by blast
  qed
  have "recon_kinds \<subseteq> advance_kinds" "scan_kinds \<subseteq> advance_kinds" "{''independent_validation''} \<subseteq> advance_kinds"
    by (auto simp: advance_kinds_def)
  then show ?thesis using assms unfolding dispatched_def Let_def by (elim disjE exE conjE) (erule wider, assumption)+
qed

text \<open>C6: whatever the analyses advise, and whether the advance returns or raises, the queue afterwards is
  the queue before followed by new jobs, and each of them is queued for this campaign with two attempts
  and a dedupe key, is a reconnaissance, scan or validation job, never a report, and carries a
  provenance that the worker's check accepts against the campaign.\<close>

theorem advance_jobs_governed:
  "\<exists>new. w_queue (snd (advance_campaign sv an c budget runtime_limit w)) = w_queue w @ new \<and>
     list_all (governed_job sv c advance_kinds) new"
proof (cases "w_queue (snd (advance_campaign sv an c budget runtime_limit w)) = w_queue w")
  case False
  from False show ?thesis by (rule advance_changed) (drule dispatched_adds, auto simp: adds_def)
qed simp


lemma adds_counts:
  assumes "adds n (governed_job sv c kinds) q q'"
  shows "live_jobs i q' \<le> live_jobs i q + n" and "jobs_of i ks q' \<le> jobs_of i ks q + n"
    and "kinds \<inter> ks = {} \<Longrightarrow> jobs_of i ks q' = jobs_of i ks q"
proof -
  obtain new where new: "q' = q @ new" "length new \<le> n" "list_all (governed_job sv c kinds) new"
    using assms by (auto simp: adds_def)
  show "live_jobs i q' \<le> live_jobs i q + n" "jobs_of i ks q' \<le> jobs_of i ks q + n"
    using new(2) by (auto simp: new(1) live_jobs_def jobs_of_def intro: order_trans [OF length_filter_le])
  assume "kinds \<inter> ks = {}"
  then have "filter (\<lambda>j. j_campaign j = i \<and> j_kind j \<in> ks) new = []"
    using new(3) by (auto simp: filter_empty_conv list_all_iff governed_job_def)
  then show "jobs_of i ks q' = jobs_of i ks q" by (simp add: new(1) jobs_of_def)
qed

lemma dispatched_counts:
  assumes "dispatched sv c limits q q'" and "int (live_jobs i q) < pb_inflight limits" and "i = py_strip (c_id c)"
  shows "int (jobs_of i scan_kinds q') \<le> max (int (jobs_of i scan_kinds q)) (pb_scans limits)"
    and "int (jobs_of i {''independent_validation''} q') \<le>
      max (int (jobs_of i {''independent_validation''} q)) (pb_validations limits)"
    and "jobs_of i {''report''} q' = jobs_of i {''report''} q"
    and "int (live_jobs i q') \<le> pb_inflight limits + 4"
proof -
  have kinds: "recon_kinds \<inter> scan_kinds = {}" "recon_kinds \<inter> {''independent_validation''} = {}"
    "scan_kinds \<inter> {''independent_validation''} = {}" "{''independent_validation''} \<inter> scan_kinds = {}"
    "recon_kinds \<inter> {''report''} = {}" "scan_kinds \<inter> {''report''} = {}" "{''independent_validation''} \<inter> {''report''} = {}"
    by (auto simp: recon_kinds_def scan_kinds_def)
  have all: "int (jobs_of i scan_kinds q') \<le> max (int (jobs_of i scan_kinds q)) (pb_scans limits) \<and>
      int (jobs_of i {''independent_validation''} q') \<le>
        max (int (jobs_of i {''independent_validation''} q)) (pb_validations limits) \<and>
      jobs_of i {''report''} q' = jobs_of i {''report''} q \<and> int (live_jobs i q') \<le> pb_inflight limits + 4"
    using assms(1) unfolding dispatched_def Let_def assms(3) [symmetric]
  proof (elim disjE exE conjE)
    assume a: "adds 5 (governed_job sv c recon_kinds) q q'"
    show ?thesis using adds_counts(1) [OF a, of i] assms(2) by (simp add: adds_counts(3) [OF a] kinds)
  next
    fix n assume a: "adds n (governed_job sv c scan_kinds) q q'"
      and n: "int n \<le> max 0 (pb_inflight limits - int (live_jobs i q))"
        "int n \<le> max 0 (pb_scans limits - int (jobs_of i scan_kinds q))"
    have "int (live_jobs i q') \<le> pb_inflight limits + 4"
      "int (jobs_of i scan_kinds q') \<le> max (int (jobs_of i scan_kinds q)) (pb_scans limits)"
      using adds_counts(1) [OF a, of i] adds_counts(2) [OF a, of i "scan_kinds"] n assms(2) by linarith+
    then show ?thesis by (simp add: adds_counts(3) [OF a] kinds)
  next
    fix n assume a: "adds n (governed_job sv c {''independent_validation''}) q q'"
      and n: "int n \<le> max 0 (pb_inflight limits - int (live_jobs i q))"
        "int n \<le> max 0 (pb_validations limits - int (jobs_of i {''independent_validation''} q))"
    have "int (live_jobs i q') \<le> pb_inflight limits + 4"
      "int (jobs_of i {''independent_validation''} q') \<le> max (int (jobs_of i {''independent_validation''} q)) (pb_validations limits)"
      using adds_counts(1) [OF a, of i] adds_counts(2) [OF a, of i "{''independent_validation''}"] n assms(2) by linarith+
    then show ?thesis by (simp add: adds_counts(3) [OF a] kinds)
  qed
  then show "int (jobs_of i scan_kinds q') \<le> max (int (jobs_of i scan_kinds q)) (pb_scans limits)"
    "int (jobs_of i {''independent_validation''} q') \<le>
      max (int (jobs_of i {''independent_validation''} q)) (pb_validations limits)"
    "jobs_of i {''report''} q' = jobs_of i {''report''} q" "int (live_jobs i q') \<le> pb_inflight limits + 4" by blast+
qed

text \<open>C7: an advance keeps within the budget. With \<open>limits\<close> the budget given or read from the environment,
  the campaign never has more scan jobs or more validation jobs than before or than the limit, whichever
  is greater, and gets no report job; its live jobs exceed the in-flight limit by at most the four
  further tasks of a reconnaissance batch. Without a valid budget nothing is enqueued.\<close>

theorem advance_within_budget:
  "case given_or budget (planner_budget_from_env (sv_env sv)) of
     Inl e \<Rightarrow> w_queue (snd (advance_campaign sv an c budget runtime_limit w)) = w_queue w
   | Inr limits \<Rightarrow>
       (let i = py_strip (c_id c); q = w_queue w; q' = w_queue (snd (advance_campaign sv an c budget runtime_limit w)) in
        int (jobs_of i scan_kinds q') \<le> max (int (jobs_of i scan_kinds q)) (pb_scans limits) \<and>
        int (jobs_of i {''independent_validation''} q') \<le>
          max (int (jobs_of i {''independent_validation''} q)) (pb_validations limits) \<and>
        jobs_of i {''report''} q' = jobs_of i {''report''} q \<and>
        int (live_jobs i q') \<le> max (int (live_jobs i q)) (pb_inflight limits + 4))"
proof (cases "w_queue (snd (advance_campaign sv an c budget runtime_limit w)) = w_queue w")
  case True
  then show ?thesis by (simp add: Let_def split: sum.split)
next
  case False
  then show ?thesis
  proof (rule advance_changed)
    fix g s limits l a g' ig usage ordinals
    assume limits: "given_or budget (planner_budget_from_env (sv_env sv)) = Inr limits"
      and gathered: "gathered sv an c limits (w_queue w) a g' ig usage ordinals" "ac_safe (ig_cycle ig)"
      and d: "dispatched sv c limits (w_queue w) (w_queue (snd (advance_campaign sv an c budget runtime_limit w)))"
    note safe = gathered_safe [OF gathered]
    have "int (live_jobs (py_strip (c_id c)) (w_queue w)) < pb_inflight limits"
      using queue_usage_rows(4) [OF safe(3,4)] by simp
    from dispatched_counts [OF d this refl] show ?thesis by (simp add: limits Let_def)
  qed
qed

text \<open>C8: an advance fails closed on a malformed configuration: when the planner budget, the runtime limit,
  the planner limits, the scan engines, the enrichment threshold or the switch for repeated validations
  cannot be read, nothing is enqueued.\<close>

theorem advance_fails_closed:
  assumes "given_or budget (planner_budget_from_env (sv_env sv)) = Inl e \<or>
    given_or runtime_limit (campaign_runtime_limit_from_env (sv_env sv)) = Inl e \<or>
    planner_limits_of (sv_env sv) = Inl e \<or> scan_engines (sv_env sv) = Inl e \<or>
    minimum_enrichment_score an (sv_env sv) = Inl e \<or> repeat_validation_enabled (sv_env sv) = Inl e"
  shows "w_queue (snd (advance_campaign sv an c budget runtime_limit w)) = w_queue w"
proof (rule ccontr)
  assume "w_queue (snd (advance_campaign sv an c budget runtime_limit w)) \<noteq> w_queue w"
  then show False
  proof (rule advance_changed)
    fix g s limits l a g' ig usage ordinals
    assume config: "given_or budget (planner_budget_from_env (sv_env sv)) = Inr limits"
      "given_or runtime_limit (campaign_runtime_limit_from_env (sv_env sv)) = Inr l"
      and gathered: "gathered sv an c limits (w_queue w) a g' ig usage ordinals" "ac_safe (ig_cycle ig)"
    note safe = gathered_safe [OF gathered]
    have kind: "pa_kind a \<noteq> Stop" using safe(6) by auto
    have "\<exists>b. repeat_validation_enabled (sv_env sv) = Inr b"
      using safe(2) kind by (auto simp: choose_action_def Let_def stop_action_def split: sum.splits)
    moreover have "\<exists>x. planner_limits_of (sv_env sv) = Inr x"
    proof (rule ccontr)
      assume "\<nexists>x. planner_limits_of (sv_env sv) = Inr x"
      then obtain e where "planner_limits_of (sv_env sv) = Inl e" by (cases "planner_limits_of (sv_env sv)") auto
      then have bad: "planner_limit_violation (sv_env sv) g' = Inl e" by (simp add: planner_limit_violation_def)
      obtain planned where p: "plan (sv_env sv) c g' = Inr planned" using safe(2) by (auto simp: choose_action_def)
      then have "pa_kind (hd planned) = Stop \<and> pa_reason (hd planned) \<noteq> awaiting_text"
        by (auto simp: plan_def bad awaiting_text_def split: if_splits)
      with safe(2) p kind show False
        by (auto simp: choose_action_def Let_def stop_action_def split: sum.splits if_splits)
    qed
    ultimately show False using assms config safe(8,9) by auto
  qed
qed

section \<open>What an advance writes to the store\<close>

text \<open>A relation between the worlds before and after a run, kept by every step of it.\<close>

locale run_relation =
  fixes R :: "world \<Rightarrow> world \<Rightarrow> bool"
  assumes refl: "R w w" and trans: "R w w' \<Longrightarrow> R w' w'' \<Longrightarrow> R w w''"
begin

lemma after_kept:
  assumes "\<And>w. R w (snd (m w))" and "\<And>x w. R w (snd (f x w))" shows "R w (snd (after m f w))"
proof -
  obtain r w' where m: "m w = (r, w')" by (cases "m w")
  have first: "R w w'" using assms(1) [of w] m by simp
  then show ?thesis
    using assms(2) [where w = w'] trans m by (cases r) (auto simp: after_def)
qed

lemma each_kept:
  assumes "\<And>x w. x \<in> set xs \<Longrightarrow> R w (snd (f x w))" shows "R w (snd (each f xs w))"
  using assms
proof (induction xs arbitrary: w)
  case Nil
  then show ?case by (simp add: returns_def refl)
next
  case (Cons x xs)
  have rest: "R w (snd (after (each f xs) (\<lambda>ys. returns (y # ys)) w))" for y w
    using Cons by (intro after_kept) (auto simp: returns_def refl)
  show ?case unfolding each.simps by (rule after_kept) (use Cons.prems rest in auto)
qed

lemma pure_kept: "R w (snd (returns x w))" "R w (snd (pure_run r w))" "R w (snd (load_graph sv i w))" "R w (snd (h w, w))"
  by (simp_all add: refl returns_def pure_run_def load_graph_def)

end

text \<open>New observations are the seeded asset and the orchestrator's own evidence, new snapshots are of the
  campaign's hypotheses; all else is as it was.\<close>

definition own_row :: "campaign \<Rightarrow> obs_row \<Rightarrow> bool" where
  "own_row c r \<longleftrightarrow> or_campaign r = py_strip (c_id c) \<and>
     (or_kind r = ''asset'' \<and> or_source r = ''planner-seed'' \<or> or_kind r = ''evidence'' \<and> or_source r = ''orchestrator'')"

definition store_appends :: "campaign \<Rightarrow> storage \<Rightarrow> storage \<Rightarrow> bool" where
  "store_appends c st st' \<longleftrightarrow> (\<exists>obs hyps. list_all (own_row c) obs \<and>
     list_all (\<lambda>s. sn_campaign s = py_strip (c_id c)) hyps \<and>
     st' = st\<lparr>st_observations := st_observations st @ obs, st_hypotheses := st_hypotheses st @ hyps\<rparr>)"

lemma store_appends_refl [simp]: "store_appends c st st"
  unfolding store_appends_def by (intro exI [of _ "[]"]) simp

lemma store_appends_trans: "store_appends c st st' \<Longrightarrow> store_appends c st' st'' \<Longrightarrow> store_appends c st st''"
proof -
  assume "store_appends c st st'" and "store_appends c st' st''"
  then obtain o1 h1 o2 h2 where "list_all (own_row c) o1" "list_all (own_row c) o2"
    "list_all (\<lambda>s. sn_campaign s = py_strip (c_id c)) h1" "list_all (\<lambda>s. sn_campaign s = py_strip (c_id c)) h2"
    "st' = st\<lparr>st_observations := st_observations st @ o1, st_hypotheses := st_hypotheses st @ h1\<rparr>"
    "st'' = st'\<lparr>st_observations := st_observations st' @ o2, st_hypotheses := st_hypotheses st' @ h2\<rparr>"
    by (auto simp: store_appends_def)
  then show "store_appends c st st''"
    unfolding store_appends_def by (intro exI [of _ "o1 @ o2"] exI [of _ "h1 @ h2"]) simp
qed

interpretation appends: run_relation "\<lambda>w w'. store_appends c (w_store w) (w_store w')" for c
  by unfold_locales (auto intro: store_appends_trans)

lemma put_appends:
  assumes "put_observation env pf (c_id c) (observation_dict ob) now st = Inr (st', x)"
    and "ob_kind ob = Asset \<and> ob_source ob = ''planner-seed'' \<or> ob_kind ob = Evidence \<and> ob_source ob = ''orchestrator''"
  shows "store_appends c st st'"
proof -
  obtain r where r: "normalize_observation env (c_id c) (observation_dict ob) now = Inr r"
    using assms(1) by (auto simp: put_observation_def)
  have own: "own_row c (obs_row_of r)"
    using normalize_own [OF r] assms(2) by (auto simp: own_row_def obs_row_of_def kind_text_def)
  have "st' = st \<or> st' = st\<lparr>st_observations := st_observations st @ [obs_row_of r]\<rparr>"
    using assms(1) r by (auto simp: put_observation_def Let_def split: if_splits option.splits)
  then show ?thesis
  proof
    assume "st' = st\<lparr>st_observations := st_observations st @ [obs_row_of r]\<rparr>"
    then show ?thesis unfolding store_appends_def
      by (intro exI [of _ "[obs_row_of r]"] exI [of _ "[]"]) (simp add: own)
  qed simp
qed

lemma store_run_appends:
  "(\<And>st st' x. f st = Inr (st', x) \<Longrightarrow> store_appends c st st') \<Longrightarrow> store_appends c (w_store w) (w_store (snd (store_run f w)))"
  by (auto simp: store_run_def split: sum.split)

lemma put_run_appends:
  assumes "ob_kind ob = Asset \<and> ob_source ob = ''planner-seed'' \<or> ob_kind ob = Evidence \<and> ob_source ob = ''orchestrator''"
  shows "store_appends c (w_store w) (w_store (snd (put_run sv (c_id c) ob w)))"
  unfolding put_run_def
  by (intro appends.after_kept store_run_appends) (auto simp: read_clock_def dest: put_appends [OF _ assms])

lemma open_breaker_appends: "store_appends c (w_store w) (w_store (snd (open_breaker sv c reason w)))"
proof -
  have "store_appends c st st'"
    if "record_circuit_open (sv_env sv) (sv_float_parse sv) (sv_hash sv) (c_id c) reason stamp now st = Inr (st', b)"
    for st st' stamp now b
    using that by (auto simp: record_circuit_open_def Let_def open_event_def split: if_splits
        dest!: put_appends [where c = c])
  then show ?thesis
    unfolding open_breaker_def by (intro appends.after_kept store_run_appends) (auto simp: read_clock_def)
qed

lemma store_hypotheses_appends: "store_appends c (w_store w) (w_store (snd (store_hypotheses sv c hs w)))"
proof -
  have "store_appends c st st'" if put: "put_hypothesis_snapshot env (c_id c) f docs now st = Inr (st', r)" for env f docs now st st' r
  proof -
    obtain f' x msg t where ws: "write_snapshot (py_strip (c_id c)) f' x now msg st (st_hypotheses st) = Inr (t, r)"
      and st': "st' = st\<lparr>st_hypotheses := t\<rparr>"
      using put unfolding put_hypothesis_snapshot_def Let_def
      by (auto simp del: json_dumps.simps dest!: st_identifier_Inr split: if_splits)
    have "t = st_hypotheses st \<or> (\<exists>s. t = st_hypotheses st @ [s] \<and> sn_campaign s = py_strip (c_id c))"
      using ws by (auto simp: write_snapshot_def Let_def split: if_splits option.splits)
    then show ?thesis
    proof
      assume "t = st_hypotheses st"
      then show ?thesis using st' by simp
    next
      assume "\<exists>s. t = st_hypotheses st @ [s] \<and> sn_campaign s = py_strip (c_id c)"
      then obtain s where "t = st_hypotheses st @ [s]" "sn_campaign s = py_strip (c_id c)" by blast
      then show ?thesis unfolding store_appends_def st'
        by (intro exI [of _ "[]"] exI [of _ "[s]"]) simp
    qed
  qed
  then show ?thesis
    unfolding store_hypotheses_def
    by (cases hs) (auto simp: read_clock_def returns_def intro!: appends.after_kept store_run_appends)
qed

definition appends_run :: "campaign \<Rightarrow> 'a run \<Rightarrow> bool" where
  "appends_run c m = (\<forall>w. store_appends c (w_store w) (w_store (snd (m w))))"

lemma appends_after: "appends_run c m \<Longrightarrow> (\<And>x. appends_run c (f x)) \<Longrightarrow> appends_run c (after m f)"
  unfolding appends_run_def by (intro allI appends.after_kept) auto

lemma appends_each: "(\<And>x. appends_run c (f x)) \<Longrightarrow> appends_run c (each f xs)"
  unfolding appends_run_def by (intro allI appends.each_kept) auto

lemma appends_cases:
  "appends_run c m \<Longrightarrow> appends_run c m' \<Longrightarrow> appends_run c (if P then m else m')"
  "(\<And>x y. appends_run c (k x y)) \<Longrightarrow> appends_run c (case p of (x, y) \<Rightarrow> k x y)"
  "appends_run c m \<Longrightarrow> (\<And>x. appends_run c (f x)) \<Longrightarrow> appends_run c (case opt of None \<Rightarrow> m | Some x \<Rightarrow> f x)"
  by (simp_all split: prod.split option.split)

lemma appends_simple:
  "appends_run c (returns x)" "appends_run c (pure_run r)" "appends_run c (load_graph sv i)" "appends_run c (\<lambda>w. (h w, w))"
  "appends_run c (read_clock sv)" "appends_run c (runtime_run sv an d l)" "appends_run c (enqueue_run sv i kind p dk)"
  "appends_run c (open_breaker sv c reason)" "appends_run c (store_hypotheses sv c hs)"
  using appends.pure_kept open_breaker_appends store_hypotheses_appends
  by (auto simp: appends_run_def read_clock_def runtime_run_def enqueue_run_def Let_def split: sum.split)

lemma appends_own:
  "appends_run c (put_run sv (c_id c) \<lparr>ob_id = i, ob_kind = Evidence, ob_value = v, ob_source = ''orchestrator'',
     ob_parents = ps, ob_meta = meta\<rparr>)"
  "appends_run c (put_run sv (c_id c) \<lparr>ob_id = i, ob_kind = Asset, ob_value = v, ob_source = ''planner-seed'',
     ob_parents = ps, ob_meta = meta\<rparr>)"
  using put_run_appends by (simp_all add: appends_run_def)

lemmas appends_rules = appends_after appends_each appends_cases appends_simple appends_own

lemma appends_jobs: "appends_run c (enqueue_recon_tasks sv c g ts)" "appends_run c (enqueue_action sv a c g limit es ordinals)"
proof -
  show "appends_run c (enqueue_recon_tasks sv c g ts)"
    unfolding enqueue_recon_tasks_def enqueue_recon_task_def governed_enqueue_def by (intro appends_rules)
  show "appends_run c (enqueue_action sv a c g limit es ordinals)"
    by (cases "pa_kind a"; simp only: enqueue_action_def Let_def action_kind.case;
        (unfold enqueue_scan_def governed_enqueue_def)?; intro appends_rules)
qed

lemma appends_result: "appends_run c (build_result sv c g limits ig co a jobs)"
  unfolding build_result_def record_decision_def Let_def by (intro appends_rules)

lemma appends_round:
  "appends_run c (gather sv an c limits l)" "appends_run c (refuse sv c g limits ig)" "appends_run c (seed_primary_target sv c)"
  "appends_run c (execute sv a c g ig usage limits ordinals)" "appends_run c (report_plan sv an c limits l)"
  unfolding gather_def refuse_def seed_primary_target_def execute_def report_plan_def Let_def
  by (intro appends_rules appends_jobs appends_result)+

lemma appends_rounds: "appends_run c (advance_rounds n sv an c limits l)"
  by (induction n) (simp_all only: advance_rounds.simps decide_def Let_def, intro appends_rules appends_round,
      intro appends_rules appends_round)

text \<open>C9: an advance, whether it returns or raises, leaves everything in the store as it was, except that
  it appends observations of its campaign, namely the seeded target asset and its own decisions and
  breaker openings, which are evidence, and snapshots of its campaign's hypotheses. It never writes a
  finding, a validation, a campaign or an artifact.\<close>

theorem advance_appends:
  "store_appends c (w_store w) (w_store (snd (advance_campaign sv an c budget runtime_limit w)))"
proof -
  have "appends_run c (advance_campaign sv an c budget runtime_limit)"
    unfolding advance_campaign_def Let_def by (intro appends_rules appends_result appends_rounds)
  then show ?thesis by (simp add: appends_run_def)
qed

section \<open>An advance that enqueues\<close>

definition ex_services :: services where
  "ex_services = \<lparr>sv_env = no_env, sv_hash = (\<lambda>_. ''00''), sv_hmac = (\<lambda>_ _. ''00''), sv_float_text = (\<lambda>_. ''2.0''),
     sv_float_parse = no_float, sv_decision_key = Inr None, sv_audit_key = Inr None, sv_receipt_key = Inr None,
     sv_browser = False, sv_iso = (\<lambda>n. ''t''), sv_clock = int, sv_uuid = (\<lambda>n. ''j'' @ nat_str n)\<rparr>"

definition ex_analyses :: analyses where
  "ex_analyses = \<lparr>an_structured_cves = (\<lambda>_. []), an_decisions = (\<lambda>_ _ _. Inr []),
     an_risk = (\<lambda>_ _. Inr \<lparr>cr_level = ''low'', cr_score = 0, cr_confidence = 1, cr_blocked = False, cr_factors = [],
       cr_focus = ''idle''\<rparr>),
     an_order_recon = (\<lambda>ts _ _ _. Inr ts), an_focuses = (\<lambda>_ _. Inr []), an_chains = (\<lambda>_ _. Inr []),
     an_coverage = (\<lambda>_ _. Inr []), an_guidance = (\<lambda>_ _. Inr \<lparr>cg_focus = ''none'', cg_diminishing = 0\<rparr>),
     an_enrichment = (\<lambda>_ _. Inr 1), an_training = (\<lambda>_. Inr ([], [])), an_float = (\<lambda>_. Some (Fin (1 / 2))),
     an_from_iso = (\<lambda>_. Some (True, 0))\<rparr>"

definition ex_asset :: observation where
  "ex_asset = \<lparr>ob_id = ''a1'', ob_kind = Asset, ob_value = ''www.example.com'', ob_source = ''s'', ob_parents = [], ob_meta = []\<rparr>"

definition ex_known :: obs_graph where
  "ex_known = [(''a1'', ex_asset)]"

text \<open>The campaign with its host known, and an empty queue.\<close>

definition ex_seeded :: "nat \<Rightarrow> world" where
  "ex_seeded n = \<lparr>w_store = (ex_store [ex_row ''running'' 1])\<lparr>st_observations :=
      [\<lparr>or_campaign = ''c1'', or_id = ''a1'', or_kind = ''asset'', or_value = ''www.example.com'', or_source = ''s'',
        or_parents = ''[]'', or_metadata = ''{}'', or_created = ''t''\<rparr>]\<rparr>, w_queue = [], w_tick = n\<rparr>"

definition ex_crawl :: planned_action where
  "ex_crawl = act Crawl (Some ''www.example.com'') ''asset inventory exists but endpoints are missing'' 90"

definition ex_status :: "nat \<Rightarrow> runtime_status" where
  "ex_status n = \<lparr>rs_elapsed = 0, rs_remaining = 21600, rs_exhausted = False, rs_reason = None\<rparr>"

lemma ex_queue [simp]: "w_queue (ex_seeded n) = []"
  by (simp add: ex_seeded_def)

lemma ex_loaded: "load_graph ex_services ''c1'' (ex_seeded n) = (Inr ex_known, ex_seeded n)"
proof -
  have "load_observation_graph no_float (w_store (ex_seeded 0)) ''c1'' False = Inr ex_known" by code_simp
  then show ?thesis by (simp add: load_graph_def ex_services_def ex_seeded_def)
qed

lemma ex_open: "\<not> bk_open (circuit_breaker_state ex_known)"
  "(case planner_stability_from_graph ex_known of Inl e \<Rightarrow> False | Inr s \<Rightarrow> planner_stability_breaker_reason s = None)"
  by code_simp+

lemma ex_config: "planner_budget_from_env no_env = Inr default_budget" "campaign_runtime_limit_from_env no_env = Inr 21600"
  by code_simp+

lemma ex_choice: "choose_action ex_services ex_analyses ex_campaign ex_known = Inr (ex_crawl, [])"
  by code_simp

lemma ex_usage: "(case queue_usage ex_known [] ''c1'' default_budget of Inl e \<Rightarrow> False
    | Inr u \<Rightarrow> bu_blocked u = [] \<and> \<not> bu_exhausted u)"
  by code_simp

definition ex_first_task :: recon_task where
  "ex_first_task = new_task ''crawl'' ''crawler-agent'' ''https://www.example.com/'' 100 ''endpoint inventory is missing'' 40"

lemma ex_context: "(case intelligence_context ex_services ex_analyses ex_campaign ex_known (ex_seeded 2) default_budget (ex_status 0) [ex_crawl] of
    Inl e \<Rightarrow> False | Inr ig \<Rightarrow> ac_safe (ig_cycle ig) \<and> ac_next (ig_cycle ig) = ''crawl'' \<and>
      take 1 (sc_tasks (ig_swarm ig)) = [ex_first_task])"
  by code_simp

lemma ex_runtime:
  "runtime_run ex_services ex_analyses ex_campaign 21600 (ex_seeded 0) = (Inr (ex_status 0), ex_seeded 1)"
  "runtime_run ex_services ex_analyses ex_campaign 21600 (ex_seeded 1) = (Inr (ex_status 1), ex_seeded 2)"
proof -
  have "runtime_status_of (an_from_iso ex_analyses) (c_created_at ex_campaign) 21600 (sv_clock ex_services 0) = Inr (ex_status 0)"
    "runtime_status_of (an_from_iso ex_analyses) (c_created_at ex_campaign) 21600 (sv_clock ex_services 1) = Inr (ex_status 1)"
    by code_simp+
  then show "runtime_run ex_services ex_analyses ex_campaign 21600 (ex_seeded 0) = (Inr (ex_status 0), ex_seeded 1)"
    "runtime_run ex_services ex_analyses ex_campaign 21600 (ex_seeded 1) = (Inr (ex_status 1), ex_seeded 2)"
    by (simp_all add: runtime_run_def ex_seeded_def)
qed

lemma ex_first_job:
  "w_queue (snd (enqueue_recon_task ex_services ex_campaign (graph_fingerprint (sv_hash ex_services) ex_known) ex_first_task (ex_seeded 2))) \<noteq> []"
  by code_simp

text \<open>A run that goes on after its first part.\<close>

lemma after_step: "m w = (Inr x, w') \<Longrightarrow> after m f w = f x w'"
  by (simp add: after_def)

lemma nonempty_after:
  assumes "w_queue (snd (m w)) \<noteq> []" and "\<And>x. run_adds n J (f x)" shows "w_queue (snd (after m f w)) \<noteq> []"
proof -
  obtain r w' where m: "m w = (r, w')" by (cases "m w")
  have "w_queue (snd (f x w')) \<noteq> []" for x
    using assms(1) assms(2) [of x] m by (auto simp: run_adds_def adds_def dest!: spec [of _ w'])
  with m assms(1) show ?thesis by (cases r) (auto simp: after_def)
qed

lemma first_task_queue:
  assumes "w_queue (snd (enqueue_recon_task sv c (graph_fingerprint (sv_hash sv) g) t w)) \<noteq> []"
  shows "w_queue (snd (after (enqueue_recon_tasks sv c g (t # ts)) (build_result sv c g limits ig co a) w)) \<noteq> []"
proof -
  let ?f = "enqueue_recon_task sv c (graph_fingerprint (sv_hash sv) g)" and ?J = "governed_job sv c recon_kinds"
  have one: "run_adds 1 ?J (?f t)" for t
    by (auto simp: enqueue_recon_task_def recon_kinds_def simp del: One_nat_def intro: run_intro)
  have "run_adds (length ts) ?J (after (each ?f ts) (\<lambda>ys. returns (y # ys)))" for y
    by (intro run_adds_left run_adds_each one) (simp add: run_intro)
  then have "w_queue (snd (each ?f (t # ts) w)) \<noteq> []"
    unfolding each.simps using assms by (intro nonempty_after)
  then have "w_queue (snd (enqueue_recon_tasks sv c g (t # ts) w)) \<noteq> []"
    unfolding enqueue_recon_tasks_def by (rule nonempty_after) (rule run_adds_simple(1))
  then show ?thesis by (rule nonempty_after) (rule run_adds_frame [OF frame_build_result])
qed

lemma ex_advance: "w_queue (snd (advance_campaign ex_services ex_analyses ex_campaign None None (ex_seeded 0))) \<noteq> []"
proof -
  have sv: "sv_env ex_services = no_env" "c_id ex_campaign = ''c1''" by (simp_all add: ex_services_def ex_campaign_def)
  obtain s where s: "planner_stability_from_graph ex_known = Inr s" "planner_stability_breaker_reason s = None"
    using ex_open(2) by (auto split: sum.splits)
  obtain u where u: "queue_usage ex_known [] ''c1'' default_budget = Inr u" "bu_blocked u = []" "\<not> bu_exhausted u"
    using ex_usage by (auto split: sum.splits)
  obtain ig where ig: "intelligence_context ex_services ex_analyses ex_campaign ex_known (ex_seeded 2) default_budget (ex_status 1) [ex_crawl] = Inr ig"
    "ac_safe (ig_cycle ig)" "ac_next (ig_cycle ig) = ''crawl''" "take 1 (sc_tasks (ig_swarm ig)) = [ex_first_task]"
    using ex_context by (auto simp: ex_status_def split: sum.splits)
  obtain ts where ts: "sc_tasks (ig_swarm ig) = ex_first_task # ts" using ig(4) by (cases "sc_tasks (ig_swarm ig)") auto
  have kind: "pa_kind ex_crawl = Crawl" by (simp add: ex_crawl_def)
  have fresh: "\<not> rs_exhausted (ex_status n)" for n by (simp add: ex_status_def)
  have gather: "gather ex_services ex_analyses ex_campaign default_budget 21600 (ex_seeded 1) =
      (Inr (ex_crawl, ex_known, ig, u, []), ex_seeded 2)"
    by (simp add: gather_def after_def sv ex_loaded pure_run_def ex_choice u apply_budget_def returns_def
        ex_runtime ig(1) del: One_nat_def)
  have rounds: "advance_rounds 3 ex_services ex_analyses ex_campaign default_budget 21600 (ex_seeded 1) =
      after (enqueue_recon_tasks ex_services ex_campaign ex_known (ex_first_task # ts))
        (build_result ex_services ex_campaign ex_known default_budget (Some ig) None (advised ex_crawl ig)) (ex_seeded 2)"
    unfolding numeral_3_eq_3 advance_rounds.simps after_step [of "gather _ _ _ _ _", OF gather]
    using ig(2,3) kind by (simp add: decide_def Let_def execute_def ts)
  have "advance_campaign ex_services ex_analyses ex_campaign None None (ex_seeded 0) =
      advance_rounds 3 ex_services ex_analyses ex_campaign default_budget 21600 (ex_seeded 1)"
    using ex_open(1) s fresh
    by (simp add: advance_campaign_def after_def sv ex_loaded pure_run_def ex_config given_or_def ex_runtime Let_def
        del: advance_rounds.simps One_nat_def)
  then show ?thesis unfolding rounds by (simp only: first_task_queue [OF ex_first_job] not_False_eq_True)
qed


lemma advance_fails_closed_witness:
  "w_queue (snd (advance_campaign (ex_services\<lparr>sv_env := no_env(''XBOW_SCAN_ENGINES'' := Some ''nmap'')\<rparr>)
     ex_analyses ex_campaign None None (ex_seeded 0))) = []"
proof -
  have "scan_engines (no_env(''XBOW_SCAN_ENGINES'' := Some ''nmap'')) = Inl (ValueError ''unsupported scanner engine: nmap'')"
    by code_simp
  then have "scan_engines (sv_env (ex_services\<lparr>sv_env := no_env(''XBOW_SCAN_ENGINES'' := Some ''nmap'')\<rparr>)) =
      Inl (ValueError ''unsupported scanner engine: nmap'')" by simp
  from advance_fails_closed [OF disjI2 [OF disjI2 [OF disjI2 [OF disjI1 [OF this]]]]] show ?thesis by simp
qed

end
