(* ===== verification/Outbox.thy ===== *)
theory Outbox
  imports CampaignAudit QueueProps
begin

text \<open>
  \<open>backend/app/api_outbox.py\<close> and \<open>backend/app/outbox_recovery.py\<close>: a request that leads to a job is first
  recorded as an event of the campaign, then the job is enqueued under a key derived from the request,
  then a second event records the completion. What is left between the two is read from the history; the
  diagnosis looks for the job, and a missing completion event is written from what it found.
\<close>

section \<open>Events\<close>

definition is_type :: "string \<Rightarrow> pydict \<Rightarrow> bool" where
  "is_type t e = (pget e ''type'' = PStr t)"

definition matches_identity :: "pydict \<Rightarrow> pydict \<Rightarrow> bool" where
  "matches_identity e identity = list_all (\<lambda>(k, v). py_eq (pget e k) v) identity"

definition has_event :: "pydict list \<Rightarrow> string \<Rightarrow> pydict \<Rightarrow> bool" where
  "has_event events t identity = list_ex (\<lambda>e. is_type t e \<and> matches_identity e identity) events"

definition completed_requests :: "pydict list \<Rightarrow> string \<Rightarrow> pydict \<Rightarrow> string list" where
  "completed_requests events completed_type identity =
     map (\<lambda>e. py_str (pget e ''request_id'')) (filter (\<lambda>e. is_type completed_type e \<and>
       pv_truthy (pget e ''request_id'') \<and> matches_identity e identity) events)"

text \<open>\<open>isinstance(value, str) and value\<close>.\<close>

definition text_of :: "pyval \<Rightarrow> string option" where
  "text_of v = (case v of PStr s \<Rightarrow> or_none s | _ \<Rightarrow> None)"

definition pending_request_id :: "pydict list \<Rightarrow> string \<Rightarrow> string \<Rightarrow> pydict \<Rightarrow> string option" where
  "pending_request_id events requested_type completed_type identity =
     (let completed = completed_requests events completed_type identity in
      case List.map_filter (\<lambda>e. case text_of (pget e ''request_id'') of
          None \<Rightarrow> None
        | Some r \<Rightarrow> if is_type requested_type e \<and> r \<notin> set completed \<and> matches_identity e identity then Some r else None)
        (rev events) of
        [] \<Rightarrow> None
      | r # _ \<Rightarrow> Some r)"

section \<open>Requests and completions\<close>

definition pair_key :: "string \<Rightarrow> string option \<Rightarrow> (string \<times> string) option" where
  "pair_key kind r = map_option (Pair kind) r"

definition request_key :: "pydict \<Rightarrow> (string \<times> string) option" where
  "request_key e =
     (let r = text_of (pget e ''request_id'') in
      if is_type ''campaign_start_requested'' e then pair_key ''campaign_start'' r
      else if is_type ''validation_requested'' e
        then (if text_of (pget e ''finding_id'') \<noteq> None then pair_key ''finding_validation'' r else None)
      else if is_type ''report_requested'' e
        then (if pget e ''purpose'' = PStr ''campaign_completion'' then pair_key ''campaign_completion_report'' r
              else if pget e ''purpose'' = PStr ''manual'' then pair_key ''report_manual'' r else None)
      else if is_type ''browser_flow_requested'' e
        then (if text_of (pget e ''flow_fingerprint'') \<noteq> None then pair_key ''browser_flow'' r else None)
      else if is_type ''pentagi_dispatch_requested'' e
        then pair_key ''pentagi_dispatch'' (text_of (pget e ''dispatch_fingerprint''))
      else None)"

definition completion_key :: "pydict \<Rightarrow> (string \<times> string) option" where
  "completion_key e =
     (let r = text_of (pget e ''request_id'') in
      if is_type ''campaign_started'' e then pair_key ''campaign_start'' r
      else if is_type ''validation_queued'' e then pair_key ''finding_validation'' r
      else if is_type ''report_queued'' e \<and> pget e ''purpose'' = PStr ''manual'' then pair_key ''report_manual'' r
      else if is_type ''campaign_completed'' e \<and> pget e ''purpose'' = PStr ''campaign_completion''
        then pair_key ''campaign_completion_report'' r
      else if is_type ''browser_flow_queued'' e then pair_key ''browser_flow'' r
      else if is_type ''pentagi_flow_queued'' e
        then pair_key ''pentagi_dispatch'' (text_of (pget e ''dispatch_fingerprint''))
      else None)"

definition requested_at :: "pydict \<Rightarrow> string option" where
  "requested_at e = (case pget e ''at'' of PStr s \<Rightarrow> Some s | _ \<Rightarrow> None)"

text \<open>The loop both listings share: the first event of every request that is not completed.\<close>

fun pending_events :: "(string \<times> string) set \<Rightarrow> (string \<times> string) set \<Rightarrow> pydict list \<Rightarrow>
  ((string \<times> string) \<times> pydict) list" where
  "pending_events completed seen [] = []"
| "pending_events completed seen (e # es) =
     (case request_key e of
        None \<Rightarrow> pending_events completed seen es
      | Some k \<Rightarrow> if k \<in> seen then pending_events completed seen es
          else if k \<in> completed then pending_events completed (insert k seen) es
          else (k, e) # pending_events completed (insert k seen) es)"

definition completed_keys :: "pydict list \<Rightarrow> (string \<times> string) set" where
  "completed_keys events = set (List.map_filter completion_key events)"

record outbox_item =
  ox_kind :: string
  ox_requested :: "string option"
  ox_digest :: string

record outbox_view =
  ov_total :: nat
  ov_by_kind :: "(string \<times> nat) list"
  ov_oldest :: "string option"
  ov_pending :: "outbox_item list"
  ov_truncated :: bool

definition identity_digest :: "(string \<Rightarrow> string) \<Rightarrow> string \<Rightarrow> string" where
  "identity_digest H s = take 16 (H s)"

definition outbox_snapshot :: "(string \<Rightarrow> string) \<Rightarrow> pydict list \<Rightarrow> int \<Rightarrow> outbox_view result" where
  "outbox_snapshot H events max_items =
     (if \<not> (1 \<le> max_items \<and> max_items \<le> 500) then Inl (ValueError ''max_items must be between 1 and 500'')
      else (let items = map (\<lambda>((k, r), e). \<lparr>ox_kind = k, ox_requested = requested_at e, ox_digest = identity_digest H r\<rparr>)
                (pending_events (completed_keys events) {} events);
              pending = sort_key (\<lambda>i. (ox_requested i = None, case ox_requested i of None \<Rightarrow> [] | Some t \<Rightarrow> t, ox_kind i)) items;
              visible = take (nat max_items) pending in
        Inr \<lparr>ov_total = length pending,
          ov_by_kind = map (\<lambda>k. (k, length (filter (\<lambda>i. ox_kind i = k) pending))) (sorted_set (map ox_kind pending)),
          ov_oldest = (case List.map_filter (\<lambda>i. case ox_requested i of None \<Rightarrow> None | Some t \<Rightarrow> or_none t) pending of
             [] \<Rightarrow> None | t # _ \<Rightarrow> Some t),
          ov_pending = visible, ov_truncated = (length visible < length pending)\<rparr>))"

record outbox_intent =
  oi_kind :: string
  oi_raw :: string
  oi_requested :: "string option"
  oi_request :: pydict
  oi_job_kind :: "string option"
  oi_dedupe :: "string option"
  oi_completion :: "string option"

definition intent_of :: "(string \<times> string) \<times> pydict \<Rightarrow> outbox_intent" where
  "intent_of = (\<lambda>((kind, raw), e).
     let fields = (if kind = ''campaign_start'' then (Some ''strix_scan'', Some (''api:start:'' @ raw), Some ''campaign_started'')
       else if kind = ''finding_validation'' then (Some ''independent_validation'', Some raw, Some ''validation_queued'')
       else if kind = ''report_manual'' then (case text_of (pget e ''platform'') of
            None \<Rightarrow> (None, None, None)
          | Some p \<Rightarrow> (Some ''report'', Some (''report:'' @ p @ '':'' @ raw), Some ''report_queued''))
       else if kind = ''campaign_completion_report'' then (Some ''report'', Some raw, Some ''campaign_completed'')
       else if kind = ''browser_flow'' then (Some ''browser_flow'', Some (''browser:'' @ raw), Some ''browser_flow_queued'')
       else if kind = ''pentagi_dispatch'' then (Some ''pentagi_flow'', None, Some ''pentagi_flow_queued'')
       else (None, None, None)) in
     \<lparr>oi_kind = kind, oi_raw = raw, oi_requested = requested_at e, oi_request = e,
      oi_job_kind = fst fields, oi_dedupe = fst (snd fields), oi_completion = snd (snd fields)\<rparr>)"

definition pending_outbox_intents :: "pydict list \<Rightarrow> outbox_intent list" where
  "pending_outbox_intents events = map intent_of (pending_events (completed_keys events) {} events)"

section \<open>Diagnosis\<close>

record diagnostic =
  dg_intent :: outbox_intent
  dg_digest :: string
  dg_diagnosis :: string
  dg_status :: "job_status option"
  dg_repairable :: bool
  dg_job :: "job option"

definition diagnose_intent ::
  "(string \<Rightarrow> string) \<Rightarrow> job_queue \<Rightarrow> string \<Rightarrow> outbox_intent \<Rightarrow> diagnostic result" where
  "diagnose_intent H q campaign_id i =
     (let item = \<lparr>dg_intent = i, dg_digest = identity_digest H (oi_raw i), dg_diagnosis = ''opaque'',
            dg_status = None, dg_repairable = False, dg_job = None\<rparr> in
      case (oi_dedupe i, oi_job_kind i) of
        (Some d, Some k) \<Rightarrow>
          if d = [] \<or> k = [] then Inr item
          else rbind (sq_get_by_dedupe q campaign_id k d) (\<lambda>job.
            Inr (case job of
              None \<Rightarrow> item\<lparr>dg_diagnosis := ''job_missing''\<rparr>
            | Some j \<Rightarrow> item\<lparr>dg_job := Some j, dg_status := Some (j_status j),
                dg_diagnosis := (if j_status j \<in> {Failed, Cancelled} then ''job_terminal'' else ''audit_missing''),
                dg_repairable := True\<rparr>))
      | _ \<Rightarrow> Inr item)"

definition diagnose_outbox_recovery ::
  "(string \<Rightarrow> string) \<Rightarrow> string \<Rightarrow> pydict list \<Rightarrow> job_queue \<Rightarrow> diagnostic list result" where
  "diagnose_outbox_recovery H campaign_id events q =
     rmap (diagnose_intent H q campaign_id) (pending_outbox_intents events)"

text \<open>What the API shows of a diagnosis.\<close>

record public_diagnostic =
  pd_kind :: string
  pd_requested :: "string option"
  pd_digest :: string
  pd_diagnosis :: string
  pd_status :: "job_status option"
  pd_repairable :: bool

definition public_recovery_diagnostics :: "diagnostic list \<Rightarrow> public_diagnostic list" where
  "public_recovery_diagnostics ds = map (\<lambda>d. \<lparr>pd_kind = oi_kind (dg_intent d), pd_requested = oi_requested (dg_intent d),
     pd_digest = dg_digest d, pd_diagnosis = dg_diagnosis d, pd_status = dg_status d, pd_repairable = dg_repairable d\<rparr>) ds"

section \<open>The missing completion event\<close>

text \<open>\<open>d[k]\<close>, which raises for a missing key.\<close>

definition item_of :: "pydict \<Rightarrow> string \<Rightarrow> pyval result" where
  "item_of d k = (case map_of d k of None \<Rightarrow> Inl (KeyError k) | Some v \<Rightarrow> Inr v)"

fun copy_items :: "pydict \<Rightarrow> string list \<Rightarrow> pydict result" where
  "copy_items d [] = Inr []"
| "copy_items d (k # ks) = rbind (item_of d k) (\<lambda>v. rbind (copy_items d ks) (\<lambda>r. Inr ((k, v) # r)))"

definition completion_items :: "string \<Rightarrow> pydict \<Rightarrow> job \<Rightarrow> pydict option result" where
  "completion_items kind request j =
     (let copied = (\<lambda>ks extra. rbind (copy_items request ks) (\<lambda>items. Inr (Some (items @ extra)))) in
      if kind = ''campaign_start'' then
        copied [''request_id''] (case map_of request ''policy'' of None \<Rightarrow> [] | Some p \<Rightarrow> [(''policy'', p)])
      else if kind = ''finding_validation'' then copied [''request_id'', ''finding_id''] []
      else if kind \<in> {''report_manual'', ''campaign_completion_report''} then
        copied [''request_id'', ''platform'', ''purpose''] [(''report_job_id'', PStr (j_id j))]
      else if kind = ''browser_flow'' then copied [''request_id'', ''flow_fingerprint''] []
      else Inr None)"

definition local_completion_event :: "diagnostic \<Rightarrow> string \<Rightarrow> pydict option result" where
  "local_completion_event d now =
     (case (dg_repairable d, dg_job d, oi_completion (dg_intent d)) of
        (True, Some j, Some completion) \<Rightarrow>
          if completion = [] then Inr None
          else rbind (completion_items (oi_kind (dg_intent d)) (oi_request (dg_intent d)) j) (\<lambda>items.
            Inr (map_option ((@) [(''type'', PStr completion), (''job_id'', PStr (j_id j)), (''at'', PStr now),
              (''reconciled_locally'', PBool True)]) items))
      | _ \<Rightarrow> Inr None)"

section \<open>A written completion closes its request, and only that\<close>

lemma sealed_keeps:
  assumes "seal_campaign_event H K s event events = Inr e"
    and "k \<notin> {''event_seq'', ''previous_event_hash'', ''event_hash'', ''event_signature'', ''event_signature_alg''}"
  shows "pget e k = pget event k"
proof (cases "audit_key s")
  case (Inr secret)
  with assms show ?thesis
    by (auto simp: seal_campaign_event_def Let_def pget_def split: option.splits list.splits)
qed (use assms(1) in \<open>simp add: seal_campaign_event_def Let_def\<close>)

lemma pending_events_snoc:
  "request_key e = None \<Longrightarrow> pending_events completed seen (es @ [e]) = pending_events completed seen es"
  by (induction es arbitrary: seen) (auto split: option.split)

lemma pending_events_insert:
  "pending_events (insert k completed) seen es = filter (\<lambda>x. fst x \<noteq> k) (pending_events completed seen es)"
  by (induction es arbitrary: seen) (auto split: option.split)

lemma pending_events_keys:
  "distinct (map fst (pending_events completed seen es)) \<and>
   (\<forall>(k, e) \<in> set (pending_events completed seen es). k \<notin> seen \<and> k \<notin> completed \<and> request_key e = Some k \<and> e \<in> set es)"
proof (induction es arbitrary: seen)
  case (Cons e es)
  show ?case
  proof (cases "request_key e")
    case (Some k)
    with Cons [of "insert k seen"] Cons [of seen] show ?thesis by (force simp: case_prod_beta)
  qed (use Cons [of seen] in auto)
qed simp

lemma completed_keys_snoc:
  "completed_keys (es @ [e]) = (case completion_key e of None \<Rightarrow> completed_keys es | Some k \<Rightarrow> insert k (completed_keys es))"
  by (simp add: completed_keys_def map_filter_def split: option.split)

definition intent_key :: "outbox_intent \<Rightarrow> string \<times> string" where
  "intent_key i = (oi_kind i, oi_raw i)"

lemma intent_of_simps [simp]:
  "intent_key (intent_of x) = fst x" "oi_kind (intent_of x) = fst (fst x)" "oi_raw (intent_of x) = snd (fst x)"
  "oi_request (intent_of x) = snd x"
  by (simp_all add: intent_key_def intent_of_def case_prod_beta Let_def)

lemma pending_keys_distinct: "distinct (map intent_key (pending_outbox_intents events))"
  using pending_events_keys [of "completed_keys events" "{}" events]
  by (simp add: pending_outbox_intents_def comp_def)

lemma filter_key_remove1:
  "distinct (map f xs) \<Longrightarrow> x \<in> set xs \<Longrightarrow> filter (\<lambda>y. f y \<noteq> f x) xs = remove1 x xs"
proof (induction xs)
  case (Cons a xs)
  show ?case
  proof (cases "a = x")
    case True
    then have "\<forall>y \<in> set xs. f y \<noteq> f x" using Cons.prems(1) by (metis distinct.simps(2) image_eqI list.map(2) set_map)
    then show ?thesis using True by (simp add: filter_id_conv)
  qed (use Cons in auto)
qed simp

lemma completion_closes:
  assumes "completion_key e = Some (intent_key i)" and "request_key e = None" and "i \<in> set (pending_outbox_intents events)"
  shows "pending_outbox_intents (events @ [e]) = remove1 i (pending_outbox_intents events)"
proof -
  have "pending_outbox_intents (events @ [e]) =
      filter (\<lambda>j. intent_key j \<noteq> intent_key i) (pending_outbox_intents events)"
    by (simp add: pending_outbox_intents_def completed_keys_snoc assms(1,2) pending_events_snoc pending_events_insert
        filter_map comp_def)
  then show ?thesis using filter_key_remove1 [OF pending_keys_distinct assms(3)] by simp
qed

lemma rmap_Inr_mem: "rmap f xs = Inr ys \<Longrightarrow> y \<in> set ys \<Longrightarrow> \<exists>x \<in> set xs. f x = Inr y"
  by (induction xs arbitrary: ys) (auto simp: rbind_Inr_iff)

lemma diagnosed_intent:
  assumes "diagnose_outbox_recovery H c events q = Inr ds" and "d \<in> set ds"
  shows "dg_intent d \<in> set (pending_outbox_intents events)"
    and "diagnose_intent H q c (dg_intent d) = Inr d"
proof -
  obtain i where i: "i \<in> set (pending_outbox_intents events)" "diagnose_intent H q c i = Inr d"
    using assms by (auto simp: diagnose_outbox_recovery_def dest!: rmap_Inr_mem)
  have "dg_intent d = i"
    using i(2) by (cases "oi_dedupe i"; cases "oi_job_kind i")
      (auto simp: diagnose_intent_def Let_def split: if_splits option.splits)
  with i show "dg_intent d \<in> set (pending_outbox_intents events)" "diagnose_intent H q c (dg_intent d) = Inr d" by simp_all
qed

lemma text_of_Some: "text_of v = Some r \<longleftrightarrow> v = PStr r \<and> r \<noteq> []"
  by (cases v) (auto simp: text_of_def or_none_def)

text \<open>The completion written for a diagnosed request names that request.\<close>

lemma request_key_cases:
  assumes "request_key e = Some (kind, raw)"
  shows "kind = ''pentagi_dispatch'' \<or> text_of (pget e ''request_id'') = Some raw \<and>
    (kind \<in> {''campaign_start'', ''finding_validation'', ''browser_flow''} \<or>
     kind = ''report_manual'' \<and> pget e ''purpose'' = PStr ''manual'' \<or>
     kind = ''campaign_completion_report'' \<and> pget e ''purpose'' = PStr ''campaign_completion'')"
  using assms by (auto simp: request_key_def pair_key_def Let_def split: if_splits)

lemma item_of_Inr: "item_of d k = Inr v \<Longrightarrow> pget d k = v"
  by (auto simp: item_of_def pget_def split: option.splits)

definition completion_type_of :: "string \<Rightarrow> string" where
  "completion_type_of kind =
     (if kind = ''campaign_start'' then ''campaign_started'' else if kind = ''finding_validation'' then ''validation_queued''
      else if kind = ''report_manual'' then ''report_queued''
      else if kind = ''campaign_completion_report'' then ''campaign_completed'' else ''browser_flow_queued'')"

lemma copy_items_get: "copy_items d ks = Inr r \<Longrightarrow> k \<in> set ks \<Longrightarrow> map_of r k = map_of d k"
  by (induction ks arbitrary: r) (auto simp: rbind_Inr_iff item_of_def split: option.splits)

lemma copy_items_some: "copy_items d ks = Inr r \<Longrightarrow> k \<in> set ks \<Longrightarrow> map_of d k \<noteq> None"
  by (induction ks arbitrary: r) (auto simp: rbind_Inr_iff item_of_def split: option.splits)

lemma copied_get:
  assumes "rbind (copy_items d ks) (\<lambda>r. Inr (Some (r @ extra))) = Inr (Some items)" and "k \<in> set ks"
  shows "pget items k = pget d k"
proof -
  obtain r where r: "copy_items d ks = Inr r" "items = r @ extra" using assms(1) by auto
  have "map_of items k = map_of d k"
    using copy_items_get [OF r(1) assms(2)] copy_items_some [OF r(1) assms(2)] by (auto simp: r(2) map_add_def)
  then show ?thesis by (simp add: pget_def)
qed

lemmas copied_get0 = copied_get [where extra = "[]", unfolded append_Nil2]

lemma completion_items_copy:
  assumes "completion_items kind request j = Inr (Some items)"
  shows "pget items ''request_id'' = pget request ''request_id''" and "kind \<noteq> ''pentagi_dispatch''"
    and "kind \<in> {''report_manual'', ''campaign_completion_report''} \<Longrightarrow> pget items ''purpose'' = pget request ''purpose''"
  using assms unfolding completion_items_def Let_def
  by (simp_all del: copy_items.simps split: if_splits) ((erule copied_get copied_get0, simp) | force)+

lemma completion_event_form:
  assumes "local_completion_event d now = Inr (Some event)" and "dg_intent d = i"
  obtains j completion items where "oi_completion i = Some completion"
    "completion_items (oi_kind i) (oi_request i) j = Inr (Some items)"
    "event = [(''type'', PStr completion), (''job_id'', PStr (j_id j)), (''at'', PStr now), (''reconciled_locally'', PBool True)] @ items"
  using assms unfolding local_completion_event_def
  by (cases "dg_job d"; cases "oi_completion i"; cases "dg_repairable d") (auto split: if_splits)

lemma local_completion_fields:
  assumes "local_completion_event d now = Inr (Some event)" and "dg_intent d = intent_of ((kind, raw), request)"
    and "kind \<in> {''campaign_start'', ''finding_validation'', ''browser_flow'', ''report_manual'', ''campaign_completion_report''}"
  shows "pget event ''type'' = PStr (completion_type_of kind)" and "pget event ''request_id'' = pget request ''request_id''"
    and "kind \<in> {''report_manual'', ''campaign_completion_report''} \<Longrightarrow> pget event ''purpose'' = pget request ''purpose''"
proof -
  obtain j completion items where j: "oi_completion (intent_of ((kind, raw), request)) = Some completion"
    "completion_items kind request j = Inr (Some items)"
    "event = [(''type'', PStr completion), (''job_id'', PStr (j_id j)), (''at'', PStr now), (''reconciled_locally'', PBool True)] @ items"
    using completion_event_form [OF assms(1,2)] by (metis fst_conv intent_of_simps(2,4) snd_conv)
  have "completion = completion_type_of kind"
    using assms(3) j(1) by (elim insertE emptyE) (simp_all add: intent_of_def completion_type_of_def split: option.splits)
  then show "pget event ''type'' = PStr (completion_type_of kind)" by (simp add: j(3) pget_def)
  note items = completion_items_copy [OF j(2)]
  show "pget event ''request_id'' = pget request ''request_id''" using items(1) by (simp add: j(3) pget_def)
  show "pget event ''purpose'' = pget request ''purpose''" if "kind \<in> {''report_manual'', ''campaign_completion_report''}"
    using items(3) [OF that] by (simp add: j(3) pget_def)
qed

lemma completion_names_request:
  assumes "request_key request = Some (kind, raw)" and "dg_intent d = intent_of ((kind, raw), request)"
    and "local_completion_event d now = Inr (Some event)" and "\<And>k. k \<in> set [''type'', ''request_id'', ''purpose''] \<Longrightarrow> pget e k = pget event k"
  shows "completion_key e = Some (kind, raw)" and "request_key e = None"
proof -
  have keep: "pget e ''type'' = pget event ''type''" "pget e ''request_id'' = pget event ''request_id''"
    "pget e ''purpose'' = pget event ''purpose''" using assms(4) by simp_all
  have "kind \<noteq> ''pentagi_dispatch''"
    by (rule completion_event_form [OF assms(3,2)]) (auto dest: completion_items_copy(2))
  with request_key_cases [OF assms(1)] have k: "text_of (pget request ''request_id'') = Some raw"
    "kind \<in> {''campaign_start'', ''finding_validation'', ''browser_flow'', ''report_manual'', ''campaign_completion_report''}"
    "kind = ''report_manual'' \<Longrightarrow> pget request ''purpose'' = PStr ''manual''"
    "kind = ''campaign_completion_report'' \<Longrightarrow> pget request ''purpose'' = PStr ''campaign_completion''" by auto
  note fields = local_completion_fields [OF assms(3,2) k(2)]
  show "completion_key e = Some (kind, raw)"
    using k(2) by (elim insertE emptyE)
      (simp_all add: completion_key_def is_type_def keep pair_key_def completion_type_of_def Let_def fields k(1,3,4))
  show "request_key e = None"
    using k(2) by (elim insertE emptyE) (simp_all add: request_key_def is_type_def keep fields(1) completion_type_of_def Let_def)
qed

text \<open>C17: the repair of the outbox. When the diagnosis of a campaign's history offers to complete a request
  and the completion it builds is sealed and appended, exactly that request is no longer pending: every
  other one stays, in its place.\<close>

theorem repair_closes_request:
  assumes "diagnose_outbox_recovery H campaign_id events q = Inr ds" and "d \<in> set ds"
    and "local_completion_event d now = Inr (Some event)"
    and "append_campaign_event H' K secret events event = Inr events'"
  shows "pending_outbox_intents events' = remove1 (dg_intent d) (pending_outbox_intents events) \<and>
    dg_intent d \<in> set (pending_outbox_intents events) \<and> dg_intent d \<notin> set (pending_outbox_intents events')"
proof -
  let ?p = "pending_outbox_intents events"
  note i = diagnosed_intent(1) [OF assms(1,2)]
  obtain kind raw request where r: "request_key request = Some (kind, raw)" "dg_intent d = intent_of ((kind, raw), request)"
    using i pending_events_keys [of "completed_keys events" "{}" events] by (auto simp: pending_outbox_intents_def)
  obtain e where e: "seal_campaign_event H' K secret event events = Inr e" "events' = events @ [e]"
    using assms(4) by (auto simp: append_campaign_event_def rbind_Inr_iff)
  have "pget e k = pget event k" if "k \<in> set [''type'', ''request_id'', ''purpose'']" for k
    using that by (intro sealed_keeps [OF e(1)]) auto
  from completion_names_request [OF r assms(3) this]
  have closed: "pending_outbox_intents events' = remove1 (dg_intent d) ?p"
    unfolding e(2) by (intro completion_closes i) (simp_all add: r(2))
  moreover have "distinct ?p" using pending_keys_distinct by (rule distinct_map [THEN iffD1, THEN conjunct1])
  ultimately show ?thesis using i by simp
qed

definition ex_request_event :: pydict where
  "ex_request_event = [(''type'', PStr ''validation_requested''), (''finding_id'', PStr ''f1''),
     (''request_id'', PStr ''validation:f1''), (''at'', PStr ''t'')]"

definition ex_validation_request :: enqueue_request where
  "ex_validation_request = \<lparr>rq_campaign = ''c1'', rq_kind = ''independent_validation'', rq_payload = ''{}'', rq_max = 2,
     rq_dedupe = Some ''validation:f1''\<rparr>"

definition ex_validation_job :: job where
  "ex_validation_job = new_job ex_validation_request ''j1'' 0"

definition ex_intent :: outbox_intent where
  "ex_intent = \<lparr>oi_kind = ''finding_validation'', oi_raw = ''validation:f1'', oi_requested = Some ''t'',
     oi_request = ex_request_event, oi_job_kind = Some ''independent_validation'', oi_dedupe = Some ''validation:f1'',
     oi_completion = Some ''validation_queued''\<rparr>"

definition ex_diagnostic :: diagnostic where
  "ex_diagnostic = \<lparr>dg_intent = ex_intent, dg_digest = ''00'', dg_diagnosis = ''audit_missing'', dg_status = Some Queued,
     dg_repairable = True, dg_job = Some ex_validation_job\<rparr>"

definition ex_completion :: pydict where
  "ex_completion = [(''type'', PStr ''validation_queued''), (''job_id'', PStr ''j1''), (''at'', PStr ''u''),
     (''reconciled_locally'', PBool True), (''request_id'', PStr ''validation:f1''), (''finding_id'', PStr ''f1'')]"

lemma ex_pending: "pending_outbox_intents [ex_request_event] = [ex_intent]"
  by (simp add: pending_outbox_intents_def completed_keys_def ex_request_event_def ex_intent_def request_key_def
      completion_key_def is_type_def pget_def pair_key_def text_of_def or_none_def intent_of_def requested_at_def map_filter_def)

lemma ex_lookup: "sq_get_by_dedupe [ex_validation_job] ''c1'' ''independent_validation'' ''validation:f1'' = Inr (Some ex_validation_job)"
  by code_simp

lemma ex_diagnosed: "diagnose_outbox_recovery (\<lambda>_. ''00'') ''c1'' [ex_request_event] [ex_validation_job] = Inr [ex_diagnostic]"
proof -
  have "j_status ex_validation_job = Queued" by (simp add: ex_validation_job_def)
  then show ?thesis
    by (simp add: diagnose_outbox_recovery_def ex_pending diagnose_intent_def ex_intent_def ex_diagnostic_def
        identity_digest_def ex_lookup Let_def)
qed

lemma ex_completed: "local_completion_event ex_diagnostic ''u'' = Inr (Some ex_completion)"
  by (simp add: local_completion_event_def ex_diagnostic_def ex_intent_def completion_items_def item_of_def
      ex_request_event_def ex_completion_def ex_validation_job_def)

lemma repair_closes_request_witness:
  "\<exists>events'. append_campaign_event (\<lambda>_. ''00'') (\<lambda>_ _. ''00'') (Inr None) [ex_request_event] ex_completion = Inr events' \<and>
    pending_outbox_intents events' = []"
proof -
  obtain events' where e: "append_campaign_event (\<lambda>_. ''00'') (\<lambda>_ _. ''00'') (Inr None) [ex_request_event] ex_completion = Inr events'"
    by (auto simp: append_campaign_event_def seal_campaign_event_def audit_key_def Let_def)
  from repair_closes_request [OF ex_diagnosed _ ex_completed e] have "pending_outbox_intents events' = []"
    by (simp add: ex_pending ex_diagnostic_def)
  with e show ?thesis by blast
qed

section \<open>A job enqueued before a crash is found\<close>

lemma kinds_ident: "list_all is_ident allowed_kinds"
  by code_simp

lemma strip_Nil: "py_strip [] = []"
  by code_simp

lemma allowed_kind_ident: "k \<in> set allowed_kinds \<Longrightarrow> bounded_identifier k n = Inr k"
  using kinds_ident by (auto simp: list_all_iff)



end
