(* ===== verification/QueueRecovery.thy ===== *)
theory QueueRecovery
  imports QueueProps "HOL-Library.Multiset"
begin

text \<open>
  \<open>backend/app/queue_recovery.py\<close>: the read-only assessment an operator asks for before work is resumed.
  It trusts nothing of the rows it is given, which are dictionaries of any values. \<open>from_iso\<close> is
  \<open>datetime.fromisoformat\<close>: whether the text names its zone, and the instant in UTC. The last sections
  join it with the SQLite queue.
\<close>

section \<open>The assessment\<close>

definition recovery_timestamp :: "(string \<Rightarrow> (bool \<times> int) option) \<Rightarrow> pyval \<Rightarrow> int option" where
  "recovery_timestamp from_iso v = (if \<not> pv_truthy v then None else map_option snd (from_iso (py_str v)))"

text \<open>\<open>int(value)\<close>, \<open>None\<close> where it raises.\<close>

definition recovery_int :: "pyval \<Rightarrow> int option" where
  "recovery_int v = (case v of
     PInt n \<Rightarrow> Some n | PBool b \<Rightarrow> Some (if b then 1 else 0) | PStr s \<Rightarrow> py_int s
   | PFloat q t \<Rightarrow> Some (if q < 0 then - \<lfloor>- q\<rfloor> else \<lfloor>q\<rfloor>) | _ \<Rightarrow> None)"

datatype recovery_severity = Critical | Warn

record recovery_issue =
  ri_job :: "string option"
  ri_code :: string
  ri_severity :: recovery_severity
  ri_action :: string

definition critical_issue :: "string \<Rightarrow> string \<Rightarrow> string \<Rightarrow> recovery_issue" where
  "critical_issue i code action = \<lparr>ri_job = Some i, ri_code = code, ri_severity = Critical, ri_action = action\<rparr>"

definition reconcile_issue :: "string \<Rightarrow> string \<Rightarrow> recovery_issue" where
  "reconcile_issue i code = critical_issue i code ''manual_reconciliation''"

definition expired_issue :: "string \<Rightarrow> recovery_issue" where
  "expired_issue i = \<lparr>ri_job = Some i, ri_code = ''expired_running_lease'', ri_severity = Warn,
     ri_action = ''review_lease_recovery''\<rparr>"

definition known_statuses :: "string list" where
  "known_statuses = [''cancelled'', ''completed'', ''failed'', ''queued'', ''running'']"

definition raw_id :: "pydict \<Rightarrow> string" where
  "raw_id job = take 200 (str_or_empty (pget job ''id''))"

definition raw_status :: "pydict \<Rightarrow> string" where
  "raw_status job = py_lower (py_strip (if pv_truthy (pget job ''status'') then py_str (pget job ''status'') else ''unknown''))"

definition lease_issues :: "(string \<Rightarrow> (bool \<times> int) option) \<Rightarrow> int \<Rightarrow> int \<Rightarrow> pydict \<Rightarrow> recovery_issue list" where
  "lease_issues from_iso cutoff future job =
     (let i = raw_id job; claimed_by = (py_strip (str_or_empty (pget job ''claimed_by'')) \<noteq> []);
          claimed_raw = pget job ''claimed_at''; claimed_at = recovery_timestamp from_iso claimed_raw in
      if raw_status job = ''running'' then
        (if claimed_by then [] else [reconcile_issue i ''running_without_owner'']) @
        (if \<not> pv_truthy claimed_raw then [reconcile_issue i ''running_without_claim_timestamp'']
         else (case claimed_at of
           None \<Rightarrow> [reconcile_issue i ''invalid_claim_timestamp'']
         | Some t \<Rightarrow> if t > future then [critical_issue i ''claim_timestamp_in_future'' ''check_clock_and_reconcile'']
             else if t < cutoff then [expired_issue i] else []))
      else if claimed_by \<or> pv_truthy claimed_raw then [reconcile_issue i ''non_running_job_has_lease_fields''] else [])"

definition retry_issues :: "pydict \<Rightarrow> recovery_issue list" where
  "retry_issues job =
     (case (recovery_int (pget job ''attempts''), recovery_int (pget job ''max_attempts'')) of
        (Some a, Some m) \<Rightarrow>
          if \<not> (m \<ge> 1 \<and> a \<ge> 0 \<and> a \<le> m) then [reconcile_issue (raw_id job) ''invalid_retry_state'']
          else if raw_status job = ''queued'' \<and> a \<ge> m
            then [reconcile_issue (raw_id job) ''queued_retry_budget_exhausted''] else []
      | _ \<Rightarrow> [reconcile_issue (raw_id job) ''invalid_retry_state''])"

text \<open>The issues of one row, given the identifiers of the rows before it.\<close>

definition job_issues ::
  "(string \<Rightarrow> (bool \<times> int) option) \<Rightarrow> int \<Rightarrow> int \<Rightarrow> string set \<Rightarrow> pydict \<Rightarrow> recovery_issue list" where
  "job_issues from_iso cutoff future seen job =
     (let i = raw_id job in
      (if i \<in> seen \<and> i \<noteq> [] then [reconcile_issue i ''duplicate_job_id''] else []) @
      (if raw_status job \<in> set known_statuses then [] else [reconcile_issue i ''unknown_status'']) @
      lease_issues from_iso cutoff future job @ retry_issues job)"

fun all_issues ::
  "(string \<Rightarrow> (bool \<times> int) option) \<Rightarrow> int \<Rightarrow> int \<Rightarrow> string set \<Rightarrow> pydict list \<Rightarrow> recovery_issue list" where
  "all_issues from_iso cutoff future seen [] = []"
| "all_issues from_iso cutoff future seen (job # jobs) =
     job_issues from_iso cutoff future seen job @
     all_issues from_iso cutoff future (if raw_id job = [] then seen else insert (raw_id job) seen) jobs"

record recovery_report =
  rr_total :: int
  rr_assessed :: nat
  rr_by_status :: "(string \<times> nat) list"
  rr_issue_count :: nat
  rr_critical :: nat
  rr_warning :: nat
  rr_issues :: "recovery_issue list"
  rr_details_truncated :: bool
  rr_safe :: bool
  rr_truncated :: bool

definition status_counts :: "pydict list \<Rightarrow> (string \<times> nat) list" where
  "status_counts jobs =
     map (\<lambda>s. (s, length (filter (\<lambda>j. raw_status j = s) jobs))) known_statuses @
     [(''unknown'', length (filter (\<lambda>j. raw_status j \<notin> set known_statuses) jobs))]"

text \<open>Instants are microseconds; a row that is not a dictionary counts as an empty one.\<close>

definition analyze_queue_recovery ::
  "(string \<Rightarrow> (bool \<times> int) option) \<Rightarrow> pyval list \<Rightarrow> int \<Rightarrow> int option \<Rightarrow> int \<Rightarrow> recovery_report result" where
  "analyze_queue_recovery from_iso raw_jobs lease_seconds total_jobs now =
     (if \<not> (60 \<le> lease_seconds \<and> lease_seconds \<le> 86400)
      then Inl (ValueError ''lease_seconds must be between 60 and 86400'')
      else (let jobs = map (\<lambda>v. case v of PDict d \<Rightarrow> d | _ \<Rightarrow> []) raw_jobs;
                total = (case total_jobs of None \<Rightarrow> int (length raw_jobs) | Some n \<Rightarrow> max 0 n);
                truncated = (total > int (length raw_jobs));
                issues = all_issues from_iso (now - lease_seconds * 1000000) (now + 300000000) {} jobs @
                  (if truncated then [\<lparr>ri_job = None, ri_code = ''assessment_truncated'', ri_severity = Critical,
                     ri_action = ''reduce_queue_or_use_offline_recovery_check''\<rparr>] else []) in
        Inr \<lparr>rr_total = total, rr_assessed = length raw_jobs, rr_by_status = status_counts jobs,
          rr_issue_count = length issues,
          rr_critical = length (filter (\<lambda>x. ri_severity x = Critical) issues),
          rr_warning = length (filter (\<lambda>x. ri_severity x = Warn) issues),
          rr_issues = take 200 issues, rr_details_truncated = (length issues > 200),
          rr_safe = (issues = []), rr_truncated = truncated\<rparr>))"

section \<open>The assessment of the SQLite queue\<close>

primrec status_name :: "job_status \<Rightarrow> string" where
  "status_name Queued = ''queued''"
| "status_name Running = ''running''"
| "status_name Completed = ''completed''"
| "status_name Failed = ''failed''"
| "status_name Cancelled = ''cancelled''"

text \<open>A row of \<open>recovery_snapshot\<close> as a dictionary; \<open>to_iso\<close> is \<open>isoformat()\<close>.\<close>

definition snapshot_dict ::
  "(int \<Rightarrow> string) \<Rightarrow> string \<times> job_status \<times> int \<times> int \<times> string option \<times> int option \<Rightarrow> pyval" where
  "snapshot_dict to_iso = (\<lambda>(i, st, attempts, most, owner, claimed). PDict
     [(''id'', PStr i), (''status'', PStr (status_name st)), (''attempts'', PInt attempts), (''max_attempts'', PInt most),
      (''claimed_by'', case owner of None \<Rightarrow> PNone | Some w \<Rightarrow> PStr w),
      (''claimed_at'', case claimed of None \<Rightarrow> PNone | Some t \<Rightarrow> PStr (to_iso t))])"

text \<open>\<open>queue_recovery_assessment\<close>; a configuration error is reported as an unavailable service. The
  statistics and the snapshot are two transactions: \<open>q0\<close> is the table when they are counted.\<close>

definition queue_recovery_assessment ::
  "(string \<Rightarrow> (bool \<times> int) option) \<Rightarrow> (int \<Rightarrow> string) \<Rightarrow> environ \<Rightarrow> job_queue \<Rightarrow> job_queue \<Rightarrow> int \<Rightarrow> recovery_report result" where
  "queue_recovery_assessment from_iso to_iso env q0 q now =
     (case rbind (job_lease_seconds env) (\<lambda>lease. rbind (sq_recovery_snapshot q 5000) (\<lambda>rows. Inr (lease, rows))) of
        Inl e \<Rightarrow> Inl (HTTPException 503 ''Queue recovery assessment unavailable'')
      | Inr (lease, rows) \<Rightarrow>
          analyze_queue_recovery from_iso (map (snapshot_dict to_iso) rows) lease (Some (int (qs_total (sq_stats q0)))) now)"

section \<open>Identifiers in the table\<close>

definition names_ok :: "job_queue \<Rightarrow> bool" where
  "names_ok q = (\<forall>j \<in> set q. is_ident (j_id j) \<and> (\<forall>w. j_claimed_by j = Some w \<longrightarrow> is_ident w))"

lemma names_ok_update:
  assumes "names_ok q" and "\<And>j. j_id (f j) = j_id j"
    and "\<And>j w. j_claimed_by (f j) = Some w \<Longrightarrow> j_claimed_by j = Some w \<or> is_ident w"
  shows "names_ok (update_where p f q)"
  using assms by (fastforce simp: names_ok_def update_where_def)

lemma names_ok_release [simp]: "names_ok q \<Longrightarrow> names_ok (update_where p (\<lambda>j. release j st err now) q)"
  by (rule names_ok_update) simp_all

lemma names_ok_claim [simp]: "names_ok q \<Longrightarrow> is_ident w \<Longrightarrow> names_ok (update_where p (\<lambda>j. claim_row j w now) q)"
  by (rule names_ok_update) simp_all

lemma names_ok_claim_id: "names_ok q \<Longrightarrow> is_ident w \<Longrightarrow> names_ok (claim_id i w now q)"
  unfolding claim_id_def by (rule names_ok_claim)

lemma names_ok_renew [simp]: "names_ok q \<Longrightarrow> names_ok (update_where p (\<lambda>j. renew_row j now) q)"
  by (rule names_ok_update) simp_all

lemma names_ok_recover: "sq_recover env q now = Inr (q', n) \<Longrightarrow> sq_inv q \<Longrightarrow> names_ok q \<Longrightarrow> names_ok q'"
  by (erule sq_recover_Inr) (auto simp: names_ok_def expire_stale_def expire_def)

lemma names_ok_step:
  assumes "sq_step q q'" and "sq_inv q" and "names_ok q"
  shows "names_ok q'"
  using assms(1)
proof cases
  case (enqueue env q0 c k p m d jid now j)
  from enqueue(1) show ?thesis
    by (cases rule: sq_enqueue_racing_cases) (use assms(3) enqueue(2) in \<open>auto simp: names_ok_def\<close>)
next
  case (claim env w now x)
  then show ?thesis
    by (auto simp: sq_claim_def Let_def dest!: bounded_identifier_Inr names_ok_recover [OF _ assms(2,3)] split: option.splits intro: names_ok_claim_id)
next
  case (claim_allowed env w ks now x)
  then show ?thesis
    using assms(3)
    by (auto simp: sq_claim_allowed_def Let_def dest!: bounded_identifier_Inr names_ok_recover [OF _ assms(2,3)] split: option.splits if_splits
        intro: names_ok_claim_id)
next
  case (claim_kind env w kd now x)
  then show ?thesis
    using assms(3)
    by (auto simp: sq_claim_kind_def Let_def dest!: bounded_identifier_Inr names_ok_recover [OF _ assms(2,3)] split: option.splits if_splits
        intro: names_ok_claim)
next
  case (recover env now n)
  then show ?thesis using assms(2,3) by (rule names_ok_recover)
qed (use assms(3) in \<open>auto simp: sq_cancel_queued_def sq_cancel_owned_def sq_heartbeat_def sq_finish_def Let_def
    split: option.splits if_splits\<close>)

lemma reachable_names: "sq_step\<^sup>*\<^sup>* [] q \<Longrightarrow> names_ok q"
proof (induction rule: rtranclp_induct)
  case (step q q')
  then show ?case using names_ok_step sq.reachable_inv by blast
qed (simp add: names_ok_def)

section \<open>The assessment of a reachable table\<close>

definition row_dict :: "(int \<Rightarrow> string) \<Rightarrow> job \<Rightarrow> pydict" where
  "row_dict to_iso j =
     (case snapshot_dict to_iso (j_id j, j_status j, j_attempts j, j_max j, j_claimed_by j, j_claimed_at j) of
        PDict d \<Rightarrow> d | _ \<Rightarrow> [])"

definition iso_ok :: "(string \<Rightarrow> (bool \<times> int) option) \<Rightarrow> (int \<Rightarrow> string) \<Rightarrow> bool" where
  "iso_ok from_iso to_iso = (\<forall>t. to_iso t \<noteq> [] \<and> from_iso (to_iso t) = Some (True, t))"

text \<open>No claim is stamped more than the tolerated five minutes ahead of the assessing clock.\<close>

definition clock_ok :: "int \<Rightarrow> job_queue \<Rightarrow> bool" where
  "clock_ok now q = (\<forall>j \<in> set q. \<forall>t. j_claimed_at j = Some t \<longrightarrow> t \<le> now + 300000000)"

lemma row_dict_get:
  "pget (row_dict to_iso j) ''id'' = PStr (j_id j)"
  "pget (row_dict to_iso j) ''status'' = PStr (status_name (j_status j))"
  "pget (row_dict to_iso j) ''attempts'' = PInt (j_attempts j)"
  "pget (row_dict to_iso j) ''max_attempts'' = PInt (j_max j)"
  "pget (row_dict to_iso j) ''claimed_by'' = (case j_claimed_by j of None \<Rightarrow> PNone | Some w \<Rightarrow> PStr w)"
  "pget (row_dict to_iso j) ''claimed_at'' = (case j_claimed_at j of None \<Rightarrow> PNone | Some t \<Rightarrow> PStr (to_iso t))"
  by (simp_all add: row_dict_def snapshot_dict_def pget_def)

lemma status_name_plain:
  "py_lower (py_strip (status_name st)) = status_name st" "status_name st \<noteq> []" "status_name st \<in> set known_statuses"
  by (cases st; simp add: known_statuses_def; code_simp)+

lemma strip_empty: "py_strip [] = []"
  by code_simp

lemma raw_row:
  "is_ident (j_id j) \<Longrightarrow> raw_id (row_dict to_iso j) = j_id j"
  "raw_status (row_dict to_iso j) = status_name (j_status j)"
  by (auto simp: raw_id_def raw_status_def row_dict_get str_or_empty_def py_str_def is_ident_def status_name_plain)

lemma row_issues:
  assumes "job_ok j" and "names_ok [j]" and "clock_ok now [j]" and "iso_ok from_iso to_iso" and "j_id j \<notin> seen"
  shows "job_issues from_iso cutoff (now + 300000000) seen (row_dict to_iso j) =
    (if stale cutoff j then [expired_issue (j_id j)] else [])"
proof -
  have ident: "is_ident (j_id j)" using assms(2) by (simp add: names_ok_def)
  have retry: "retry_issues (row_dict to_iso j) = []"
    using assms(1) by (cases "j_status j") (auto simp: retry_issues_def row_dict_get recovery_int_def raw_row job_ok_def)
  have lease: "lease_issues from_iso cutoff (now + 300000000) (row_dict to_iso j) =
      (if stale cutoff j then [expired_issue (j_id j)] else [])"
  proof (cases "j_status j = Running")
    case True
    then obtain w t where wt: "j_claimed_by j = Some w" "j_claimed_at j = Some t" using assms(1) by (auto simp: job_ok_def)
    have "is_ident w" "t \<le> now + 300000000" using assms(2,3) wt by (auto simp: names_ok_def clock_ok_def)
    then show ?thesis
      using True wt assms(4) ident
      by (auto simp: lease_issues_def Let_def raw_row row_dict_get str_or_empty_def py_str_def recovery_timestamp_def
          iso_ok_def stale_def is_ident_def)
  next
    case False
    then have "j_claimed_by j = None" "j_claimed_at j = None" using assms(1) by (auto simp: job_ok_def)
    moreover have "status_name (j_status j) \<noteq> ''running''" using False by (cases "j_status j") auto
    ultimately show ?thesis
      using False by (simp add: lease_issues_def Let_def raw_row row_dict_get str_or_empty_def stale_def strip_empty)
  qed
  show ?thesis by (simp add: job_issues_def Let_def retry lease raw_row ident assms(5) status_name_plain)
qed

lemma table_issues:
  assumes "\<forall>j \<in> set q. job_ok j" and "names_ok q" and "clock_ok now q" and "iso_ok from_iso to_iso"
    and "distinct (map j_id q)" and "seen \<inter> j_id ` set q = {}"
  shows "all_issues from_iso cutoff (now + 300000000) seen (map (row_dict to_iso) q) =
    map (expired_issue \<circ> j_id) (filter (stale cutoff) q)"
  using assms
proof (induction q arbitrary: seen)
  case (Cons j q)
  have one: "job_issues from_iso cutoff (now + 300000000) seen (row_dict to_iso j) =
      (if stale cutoff j then [expired_issue (j_id j)] else [])"
    using Cons.prems by (intro row_issues) (auto simp: names_ok_def clock_ok_def)
  have ident: "is_ident (j_id j)" using Cons.prems by (simp add: names_ok_def)
  have rest: "all_issues from_iso cutoff (now + 300000000) (insert (j_id j) seen) (map (row_dict to_iso) q) =
      map (expired_issue \<circ> j_id) (filter (stale cutoff) q)"
    using Cons.prems by (intro Cons.IH) (auto simp: names_ok_def clock_ok_def)
  show ?case using ident by (simp add: one rest raw_row is_ident_def)
qed simp

lemma sorted_rows:
  "length q \<le> 5000 \<Longrightarrow> sq_recovery_snapshot q 5000 =
     Inr (map (\<lambda>j. (j_id j, j_status j, j_attempts j, j_max j, j_claimed_by j, j_claimed_at j))
       (sort_key (\<lambda>j. (j_created j, j_id j)) q))"
  by (simp add: sq_recovery_snapshot_def)

lemma assessment_issues:
  assumes "sq_step\<^sup>*\<^sup>* [] q" and "job_lease_seconds env = Inr lease" and "iso_ok from_iso to_iso" and "clock_ok now q"
  defines "rows \<equiv> take 5000 (sort_key (\<lambda>j. (j_created j, j_id j)) q)"
  obtains r where "queue_recovery_assessment from_iso to_iso env q q now = Inr r"
    and "rr_warning r = length (filter (stale (now - lease * 1000000)) rows)"
    and "rr_critical r = (if 5000 < length q then 1 else 0)"
    and "rr_safe r \<longleftrightarrow> rr_warning r = 0 \<and> rr_critical r = 0"
proof -
  let ?cutoff = "now - lease * 1000000"
  let ?stale = "map (expired_issue \<circ> j_id) (filter (stale ?cutoff) rows)"
  let ?cut = "\<lparr>ri_job = None, ri_code = ''assessment_truncated'', ri_severity = Critical,
    ri_action = ''reduce_queue_or_use_offline_recovery_check''\<rparr>"
  have inv: "sq_inv q" using assms(1) by (rule sq.reachable_inv)
  have sub: "set rows \<subseteq> set q" unfolding rows_def by (auto dest: in_set_takeD)
  have "mset (map j_id (sort_key (\<lambda>j. (j_created j, j_id j)) q)) = mset (map j_id q)" by simp
  then have "distinct (map j_id (sort_key (\<lambda>j. (j_created j, j_id j)) q))"
    using inv by (metis mset_eq_imp_distinct_iff sq_inv_def)
  then have dist: "distinct (map j_id rows)" by (simp add: rows_def take_map [symmetric])
  have issues: "all_issues from_iso ?cutoff (now + 300000000) {} (map (row_dict to_iso) rows) = ?stale"
    using inv sub reachable_names [OF assms(1)] assms(3,4) dist
    by (intro table_issues) (auto simp: sq_inv_def names_ok_def clock_ok_def)
  have lease: "60 \<le> lease" "lease \<le> 86400"
    using assms(2) by (auto simp: job_lease_seconds_def dest: bounded_env_range)
  have dicts: "map (\<lambda>v. case v of PDict d \<Rightarrow> d | _ \<Rightarrow> []) (map (snapshot_dict to_iso)
      (map (\<lambda>j. (j_id j, j_status j, j_attempts j, j_max j, j_claimed_by j, j_claimed_at j)) rows)) = map (row_dict to_iso) rows"
    by (simp add: row_dict_def)
  have len: "length rows = min 5000 (length q)" by (simp add: rows_def)
  have severity: "filter (\<lambda>x. ri_severity x = Critical) ?stale = []" "filter (\<lambda>x. ri_severity x = Warn) ?stale = ?stale"
    by (auto simp: filter_empty_conv filter_id_conv expired_issue_def)
  have snapshot: "sq_recovery_snapshot q 5000 =
      Inr (map (\<lambda>j. (j_id j, j_status j, j_attempts j, j_max j, j_claimed_by j, j_claimed_at j)) rows)"
    by (simp add: sq_recovery_snapshot_def rows_def)
  obtain r where r: "queue_recovery_assessment from_iso to_iso env q q now = Inr r"
    "rr_critical r = length (filter (\<lambda>x. ri_severity x = Critical) (?stale @ (if 5000 < length q then [?cut] else [])))"
    "rr_warning r = length (filter (\<lambda>x. ri_severity x = Warn) (?stale @ (if 5000 < length q then [?cut] else [])))"
    "rr_safe r = (?stale @ (if 5000 < length q then [?cut] else []) = [])"
    unfolding queue_recovery_assessment_def assms(2) snapshot rbind_simps sum.case prod.case analyze_queue_recovery_def
      dicts Let_def issues
    using lease by (auto simp: len sq_stats_def min_def)
  show thesis
  proof (rule that [OF r(1)])
    show "rr_warning r = length (filter (stale ?cutoff) rows)" by (simp only: r(3) filter_append severity) simp
    show "rr_critical r = (if 5000 < length q then 1 else 0)" by (simp only: r(2) filter_append severity) simp
    show "rr_safe r \<longleftrightarrow> rr_warning r = 0 \<and> rr_critical r = 0"
      by (simp only: r(2-4) filter_append severity) (simp add: filter_empty_conv)
  qed
qed


text \<open>A clock text for the witness: the sign, and one letter for each microsecond.\<close>

definition ex_iso :: "int \<Rightarrow> string" where
  "ex_iso t = (if t < 0 then CHR ''-'' else CHR ''+'') # replicate (nat \<bar>t\<bar>) (CHR ''u'')"

definition ex_from_iso :: "string \<Rightarrow> (bool \<times> int) option" where
  "ex_from_iso s = (case s of [] \<Rightarrow> None
     | c # cs \<Rightarrow> Some (True, if c = CHR ''-'' then - int (length cs) else int (length cs)))"


end
