(* ===== verification/Spec2Isabelle.thy ===== *)
theory Spec2Isabelle
  imports CampaignProps QueueProps ObserverLease RateLimit ReportApproval Incidents VersionEvidence
    StrixManifest StorageProps QueueSpec OrchestratorProps Outbox QueueRecovery
begin

text \<open>
  Verification of the control plane of xbow-perso, a Python service (\<open>backend/app/\<close>) that runs authorised
  security-testing campaigns: it keeps campaigns and what was observed of them, plans the next step,
  checks every step against the program's rules and a budget, hands jobs to workers through a queue, and
  signs what leaves the service.

  \<^bold>\<open>The program's parts and how they interact.\<close> A campaign (\<open>main.py\<close>) carries the rules of its
  program: allowed and denied hosts (\<open>scope_policy.py\<close>), a rate and the practices it permits. The storage
  (\<open>storage.py\<close>, \<open>storage_core.py\<close>) keeps versioned documents, immutable observations and artifacts. The
  observations of a campaign load as a graph (\<open>observation_graph.py\<close>), on which validation state, evidence
  chains, clusters, hypotheses and the planner work. \<open>orchestrator.py\<close> advances a campaign: circuit breaker,
  planner stability and runtime first; then up to three rounds of plan, budget, gate and adaptive cycle;
  then jobs are enqueued with a provenance (\<open>job_provenance.py\<close>) and the decision is recorded in a hash
  chain (\<open>decision_audit.py\<close>). Workers claim jobs under a lease (\<open>jobqueue.py\<close> on SQLite or
  \<open>redis_jobqueue.py\<close>); the Strix scanner runs behind a broker that issues contracts and tickets
  (\<open>strix_execution_contract.py\<close>, \<open>strix_runner_exec_ticket.py\<close>, \<open>strix_runner_manifest_ticket.py\<close>). Reports pass
  an approval and a submission gate (\<open>report_approval.py\<close>, \<open>submission_state.py\<close>).

  \<^bold>\<open>Theories.\<close>

  \<^item> Shared ground: \<open>Prelude\<close> (errors, Python's string functions, \<open>int()\<close>, generic list lemmas), \<open>PyData\<close>
    (dynamically typed values, dictionaries as association lists in insertion order), \<open>PyFloat\<close> and
    \<open>PyDouble\<close> (infinities and NaN; IEEE 754 rounding on rationals), \<open>PyJson\<close> (\<open>json.loads\<close> and
    \<open>json.dumps\<close>), \<open>PyUrl\<close> (\<open>urlsplit\<close>, \<open>fnmatch\<close>), \<open>WebOrigin\<close>, \<open>GraphContent\<close>, \<open>Ancestry\<close>.
  \<^item> Campaigns and planning: \<open>ScopePolicy\<close>, \<open>ObservationGraph\<close>, \<open>ValidationState\<close>, \<open>CampaignModel\<close> (\<open>main.py\<close>),
    \<open>Planner\<close>, \<open>EvidenceChain\<close>, \<open>FindingReview\<close> and \<open>FindingClusters\<close> (\<open>finding_correlation.py\<close>,
    \<open>finding_lifecycle.py\<close>), \<open>Knowledge\<close> (hypotheses, decision history), \<open>PendingValidation\<close> (consensus, quality,
    the findings to validate), \<open>RepeatValidation\<close>, \<open>VersionEvidence\<close>, \<open>LearningMemory\<close>; properties in
    \<open>CampaignProps\<close>.
  \<^item> Queues: \<open>JobModel\<close> (the row and the life cycle, locale \<open>job_lifecycle\<close>), \<open>JobQueue\<close> and \<open>JobQueueInv\<close>,
    \<open>RedisQueue\<close> and \<open>RedisQueueInv\<close>, \<open>QueueProps\<close>, \<open>QueueSpec\<close> (an abstract job store, locale
    \<open>queue_backend\<close>, refined by both queues), \<open>PlannerBudget\<close> (locale \<open>job_telemetry\<close>), \<open>ObserverLease\<close>.
  \<^item> Storage: \<open>StorageCore\<close>, \<open>ArtifactStore\<close>, \<open>StorageInv\<close> (locales \<open>versioned_store\<close> and \<open>write_once\<close>,
    interpreted for every table), \<open>StorageProps\<close>, \<open>CircuitBreaker\<close>, \<open>Incidents\<close>.
  \<^item> Chains, seals and tickets: \<open>CampaignAudit\<close>, \<open>DecisionAudit\<close>, \<open>PolicyIntegrity\<close>, \<open>JobProvenance\<close>,
    \<open>StrixContract\<close>, \<open>StrixTickets\<close>, \<open>StrixManifest\<close>, \<open>ReportApproval\<close>, \<open>RateLimit\<close>.
  \<^item> Autonomy: \<open>ReconSwarm\<close>, \<open>ScannerSelect\<close>, \<open>AutonomyCycle\<close> (consensus, gate, cycle, stability),
    \<open>Dispatch\<close> (what \<open>orchestrator.py\<close> enqueues and seeds), \<open>Orchestrator\<close> (\<open>advance_campaign\<close>) and
    \<open>OrchestratorProps\<close> (locale \<open>run_relation\<close>).
  \<^item> Recovery: \<open>Outbox\<close> (requests recorded before their job, and their repair after a crash) and \<open>QueueRecovery\<close>
    (the assessment of the job table an operator asks for).

  \<^bold>\<open>How the code is read.\<close> A class is a record, an enumeration a datatype, a raised exception the left
  side of a sum (\<open>Prelude\<close> names the exceptions), a function a function. A table is a list of rows in
  insertion order; a transaction, a \<open>MULTI\<close> block or a \<open>WATCH\<close> loop is one step, and where the code
  uses two transactions (\<open>put_artifact_racing\<close>) there are two steps with the others' steps between them. A
  program that writes and may raise is a run (\<open>Dispatch\<close>): a function of the world (storage, queue, reading
  of the clock) that gives the value or the exception and the world left behind, so that what was written
  before an exception stays.

  \<^bold>\<open>What is assumed of other code.\<close> Arguments of the definitions, never definitions: SHA-256 (\<open>H\<close>) and
  HMAC (\<open>K\<close>), about which only what a property states is used (that two equal digests have equal inputs, as a named
  alternative of the conclusion or a hypothesis); \<open>repr\<close> and \<open>float()\<close> of doubles (\<open>fr\<close>, \<open>pf\<close>); the clock
  and \<open>datetime.fromisoformat\<close>; \<open>uuid4\<close>; the environment; the encrypted file of the secret vault; the
  serialisation of pydantic. \<open>advance_campaign\<close> asks heuristic analyses of the graph (risk, coverage,
  focuses, chains, order of reconnaissance, feedback of training labs); they are one argument, the record \<open>analyses\<close>, and the
  properties of \<open>OrchestratorProps\<close> hold for every value of it, failures included.

  \<^bold>\<open>What the lemmas show.\<close> For each queue an invariant kept by every step, from which follow the
  life cycle of a job, its bounded attempts, exclusive leases, order and idempotent deduplication, and a
  simulation by the abstract store. For the storage: no lost update, immutable observations that always
  load, artifacts that read back. For the chains and tickets: what the program writes verifies, and what
  verifies was written under the key, or two inputs collide. For planning: a plan is safe, loading
  succeeds exactly on orderable records, evidence chains are the ancestors, clusters are the components,
  the swarm and the pipeline stay within their limits. For the whole: an advance enqueues only governed
  jobs, only when every gate agrees, within the budget, nothing under a malformed configuration, and only
  appends to the store.

  \<^bold>\<open>Bounds and fuel.\<close> \<open>advance_rounds\<close> recurses on the rounds that are left, three as in the code. Loops
  over shrinking lists (\<open>load_loop\<close>, the ancestry walks, the collection of a cluster) terminate by a measure
  or by the size of what is not visited yet, and the properties state that they return. The JSON reader takes
  the length of the text as fuel, which is enough because every call consumes a character. Python's
  integers are unbounded \<open>int\<close>, its finite floats rationals rounded by \<open>double\<close> after every operation.

  \<^bold>\<open>Not modelled.\<close> Network clients and servers, browsers, subprocesses and sandboxes (the Strix runner's RPC,
  PentAGI transport, HackerOne clients, the scanning workers); parsers of scanner output and advisories;
  the heuristic scores that only order or describe work; metrics, health and deployment tools; the
  PostgreSQL dialect of the storage. The HTTP handlers of \<open>main.py\<close> are not modelled as handlers: of those
  that start, cancel and validate, what they call is here (provenance, receipts, queue, audit chain,
  outbox, \<open>advance_campaign\<close>, compare-and-swap), their composition is not. Interleavings inside one
  transaction and failures of the machine between two are outside the model.
\<close>

end
